(* ===== verification/Prelude.thy ===== *)
theory Prelude
  imports Main "HOL-Library.Word" "HOL-Library.Multiset" "HOL-Library.Product_Lexorder"
begin

text \<open>
  Shared vocabulary of the development: how the model reads C++ \<open>int\<close>, \<open>double\<close>, failing
  calls and byte strings, and the generic lemmas on them.

  \<^item> A C++ \<open>int\<close> is a HOL \<open>int\<close>; every arithmetic result that the code stores in an \<open>int\<close> goes
    through \<open>i32\<close>, the two's complement reading of its low 32 bits. (Signed overflow is undefined
    in C++; \<open>i32\<close> is what the compiled x86-64 code computes, and the theorems state the ranges in
    which \<open>i32\<close> is the identity.)
  \<^item> A C++ \<open>double\<close> is its IEEE-754 bit pattern, a 64-bit word. The comparisons \<open><\<close> and \<open>==\<close> are
    those of IEEE-754: false on NaN, and \<open>-0.0 == 0.0\<close>.
  \<^item> A call that may fail returns \<open>error + 'a\<close>; \<open>bindE\<close> sequences such calls.
\<close>

section \<open>Failures\<close>

datatype error =
    Abort                 \<comment> \<open>a failed \<open>assert\<close>: the process aborts\<close>
  | UbiquantException int \<comment> \<open>a failed \<open>ASSERT\<close>/\<open>ASSERT_MSG\<close>: thrown with a status code\<close>
  | OutOfRange            \<comment> \<open>\<open>std::out_of_range\<close> thrown by \<open>at\<close>\<close>
  | LengthError           \<comment> \<open>\<open>std::length_error\<close>\<close>
  | RuntimeError string   \<comment> \<open>\<open>std::runtime_error\<close>\<close>
  | ExitProcess int       \<comment> \<open>\<open>exit\<close> with this status\<close>
  | BadAlloc              \<comment> \<open>\<open>std::bad_alloc\<close> and \<open>std::bad_array_new_length\<close>\<close>
  | InvalidArgument       \<comment> \<open>\<open>std::invalid_argument\<close> thrown by \<open>std::stoi\<close>\<close>
  | H5Error               \<comment> \<open>an exception of the HDF5 library\<close>
  | ZmqError int          \<comment> \<open>\<open>zmq::error_t\<close> with its error number\<close>
  | BadAnyCast            \<comment> \<open>\<open>boost::bad_any_cast\<close> thrown by \<open>as\<close>\<close>
  | Deadlock              \<comment> \<open>waits forever for a lock that only the waiting thread would release\<close>
  | Undefined             \<comment> \<open>the access is outside the object: undefined behaviour\<close>

type_synonym 'a result = "error + 'a"

definition bindE :: "'a result \<Rightarrow> ('a \<Rightarrow> 'b result) \<Rightarrow> 'b result" where
  "bindE m f = (case m of Inl e \<Rightarrow> Inl e | Inr x \<Rightarrow> f x)"

definition assertE :: "bool \<Rightarrow> 'a \<Rightarrow> 'a result" where
  "assertE c x = (if c then Inr x else Inl Abort)"

text \<open>A loop that computes one result per element.\<close>

fun mapE :: "('a \<Rightarrow> 'b result) \<Rightarrow> 'a list \<Rightarrow> 'b list result" where
  "mapE f [] = Inr []"
| "mapE f (x # xs) = bindE (f x) (\<lambda>y. bindE (mapE f xs) (\<lambda>ys. Inr (y # ys)))"

section \<open>32-bit integers\<close>

definition i32 :: "int \<Rightarrow> int" where
  "i32 x = (x + 2147483648) mod 4294967296 - 2147483648"

definition in_i32 :: "int \<Rightarrow> bool" where
  "in_i32 x \<longleftrightarrow> - 2147483648 \<le> x \<and> x \<le> 2147483647"

section \<open>Doubles\<close>

type_synonym double = "64 word"

definition dmag :: "double \<Rightarrow> int" where
  "dmag x = uint x mod 9223372036854775808"

definition dsign :: "double \<Rightarrow> bool" where
  "dsign x \<longleftrightarrow> uint x \<ge> 9223372036854775808"

text \<open>The exponent and fraction fields, read as one number, exceed those of infinity.\<close>

definition isnan :: "double \<Rightarrow> bool" where
  "isnan x \<longleftrightarrow> dmag x > 9218868437227405312"

text \<open>On numbers, IEEE-754 orders bit patterns by sign and magnitude.\<close>

definition dkey :: "double \<Rightarrow> int" where
  "dkey x = (if dsign x then - dmag x else dmag x)"

definition dlt :: "double \<Rightarrow> double \<Rightarrow> bool" where
  "dlt x y \<longleftrightarrow> \<not> isnan x \<and> \<not> isnan y \<and> dkey x < dkey y"

definition deq :: "double \<Rightarrow> double \<Rightarrow> bool" where
  "deq x y \<longleftrightarrow> \<not> isnan x \<and> \<not> isnan y \<and> dkey x = dkey y"

definition dgt :: "double \<Rightarrow> double \<Rightarrow> bool" where
  "dgt x y = dlt y x"

section \<open>Lemmas\<close>

named_theorems dbl_simps \<open>comparisons of doubles, read through their keys\<close>

lemma bindE_simps [simp]:
  "bindE (Inl e) f = Inl e" "bindE (Inr x) f = f x"
  by (simp_all add: bindE_def)

lemma bindE_eq_Inr: "bindE m f = Inr y \<longleftrightarrow> (\<exists>x. m = Inr x \<and> f x = Inr y)"
  by (cases m) simp_all

lemma bindE_InrE: "bindE m f = Inr y \<Longrightarrow> (\<And>x. m = Inr x \<Longrightarrow> f x = Inr y \<Longrightarrow> thesis) \<Longrightarrow> thesis"
  by (auto simp: bindE_eq_Inr)

lemma bindE_cong [fundef_cong]:
  "m = m' \<Longrightarrow> (\<And>x. m' = Inr x \<Longrightarrow> f x = g x) \<Longrightarrow> bindE m f = bindE m' g"
  by (cases m') simp_all

lemma bindE_assoc: "bindE (bindE m f) g = bindE m (\<lambda>x. bindE (f x) g)"
  by (cases m) simp_all

lemma assertE_simps [simp]:
  "c \<Longrightarrow> assertE c x = Inr x" "\<not> c \<Longrightarrow> assertE c x = Inl Abort"
  by (simp_all add: assertE_def)

lemma i32_id [simp]: "in_i32 x \<Longrightarrow> i32 x = x"
  by (simp add: i32_def in_i32_def)

lemma i32_range [simp]: "in_i32 (i32 x)"
  unfolding i32_def in_i32_def
  using pos_mod_bound [of 4294967296 "x + 2147483648"] pos_mod_sign [of 4294967296 "x + 2147483648"]
  by linarith

lemma i32_add_left [simp]: "i32 (i32 a + b) = i32 (a + b)"
proof -
  have "i32 a + b + 2147483648 = (a + 2147483648) mod 4294967296 + b" by (simp add: i32_def)
  then have "(i32 a + b + 2147483648) mod 4294967296 = (a + 2147483648 + b) mod 4294967296"
    by (simp only: mod_add_left_eq)
  then show ?thesis by (simp add: i32_def add_ac)
qed

lemma i32_le: "0 \<le> x \<Longrightarrow> i32 x \<le> x"
proof -
  assume "0 \<le> x"
  then have "(x + 2147483648) mod 4294967296 \<le> x + 2147483648" by (intro zmod_le_nonneg_dividend) simp
  then show ?thesis by (simp add: i32_def)
qed

lemma in_i32_diff:
  "in_i32 a \<Longrightarrow> in_i32 b \<Longrightarrow> 0 \<le> b \<Longrightarrow> b \<le> a \<Longrightarrow> in_i32 (a - b)"
  by (simp add: in_i32_def)

lemma in_i32_0 [simp]: "in_i32 0"
  by (simp add: in_i32_def)

lemma dlt_key [dbl_simps]: "\<not> isnan x \<Longrightarrow> \<not> isnan y \<Longrightarrow> dlt x y \<longleftrightarrow> dkey x < dkey y"
  by (simp add: dlt_def)

lemma dgt_key [dbl_simps]: "\<not> isnan x \<Longrightarrow> \<not> isnan y \<Longrightarrow> dgt x y \<longleftrightarrow> dkey y < dkey x"
  by (simp add: dgt_def dlt_def)

lemma deq_key [dbl_simps]: "\<not> isnan x \<Longrightarrow> \<not> isnan y \<Longrightarrow> deq x y \<longleftrightarrow> dkey x = dkey y"
  by (simp add: deq_def)

lemma mset_update_swap:
  assumes "i < length xs" and "j < length xs" and "i \<noteq> j"
  shows "mset ((xs[i := xs ! j])[j := x]) = mset (xs[i := x])"
proof -
  have "mset (xs[i := x]) = mset (((xs[i := x])[j := xs[i := x] ! i])[i := xs[i := x] ! j])"
    using assms by (intro mset_swap [symmetric]) simp_all
  also have "((xs[i := x])[j := xs[i := x] ! i])[i := xs[i := x] ! j] = (xs[i := xs ! j])[j := x]"
    using assms by (auto intro!: nth_equalityI simp: nth_list_update)
  finally show ?thesis by simp
qed

lemma mset_butlast_last: "xs \<noteq> [] \<Longrightarrow> mset (butlast xs) = mset xs - {#last xs#}"
  by (induction xs rule: rev_induct) auto

lemma mapE_Inr:
  assumes "mapE f xs = Inr ys"
  shows "length ys = length xs" and "k < length xs \<Longrightarrow> f (xs ! k) = Inr (ys ! k)"
proof -
  have "length ys = length xs \<and> (\<forall>k < length xs. f (xs ! k) = Inr (ys ! k))" using assms
  proof (induction xs arbitrary: ys)
    case (Cons x xs)
    then obtain y zs where "ys = y # zs" "f x = Inr y" "mapE f xs = Inr zs" by (auto simp: bindE_eq_Inr)
    then show ?case using Cons.IH by (auto simp: nth_Cons split: nat.splits)
  qed simp
  then show "length ys = length xs" "k < length xs \<Longrightarrow> f (xs ! k) = Inr (ys ! k)" by simp_all
qed

lemma mapE_upto:
  assumes "mapE f [0..n - 1] = Inr ys" and "0 \<le> i" and "i < n"
  shows "nat i < length ys" and "f i = Inr (ys ! nat i)"
proof -
  have "[0..n - 1] ! nat i = i" using assms(2,3) by (simp add: nth_upto)
  then show "nat i < length ys" "f i = Inr (ys ! nat i)"
    using mapE_Inr(1) [OF assms(1)] mapE_Inr(2) [OF assms(1), of "nat i"] assms(2,3) by simp_all
qed

end
