(* ===== verification/Types.thy ===== *)
theory Types
  imports Prelude
begin

text \<open>
  The data of the program: \<open>src/src/common/type.hpp\<close> (orders, trades, acknowledgements, packed
  matrix coordinates, the order matrices) and \<open>src/src/exchange/record.hpp\<close> (the entries of a
  declaration book). Structs are records; their fields keep the source's names behind a prefix
  that names the struct. The comparison of trade lists of \<open>src/src/exchange/debug.hpp\<close> is here too.
\<close>

section \<open>Orders, trades, acknowledgements\<close>

record Order =
  o_stk_code :: int
  o_order_id :: int
  o_direction :: int
  o_type :: int
  o_price :: double
  o_volume :: int

record Trade =
  t_stk_code :: int
  t_bid_id :: int
  t_ask_id :: int
  t_price :: double
  t_volume :: int

record CommTrade =
  ct_stk_code :: int
  ct_bid_id :: int
  ct_ask_id :: int
  ct_dummy :: int
  ct_price :: double
  ct_volume :: int

record OrderAck =
  a_stk_code :: int
  a_order_id :: int

record HookTarget =
  target_stk_code :: int
  target_trade_idx :: int
  arg :: int

section \<open>Records of a declaration book\<close>

record Record =
  r_order_id :: int
  r_price :: double
  r_volume :: int

type_synonym BuyRecord = Record
type_synonym SellRecord = Record

text \<open>\<open>BuyRecord::operator<\<close> and \<open>SellRecord::operator<\<close>: the greater record is served first.\<close>

definition buy_less :: "BuyRecord \<Rightarrow> BuyRecord \<Rightarrow> bool" where
  "buy_less br1 br2 =
     (if deq (r_price br1) (r_price br2) then r_order_id br1 > r_order_id br2
      else dlt (r_price br1) (r_price br2))"

definition sell_less :: "SellRecord \<Rightarrow> SellRecord \<Rightarrow> bool" where
  "sell_less sr1 sr2 =
     (if deq (r_price sr1) (r_price sr2) then r_order_id sr1 > r_order_id sr2
      else dgt (r_price sr1) (r_price sr2))"

section \<open>Comparison of trade lists\<close>

text \<open>The field-wise test of \<open>diffTradeList\<close>, in the source's order.\<close>

definition trade_valid :: "Trade \<Rightarrow> Trade \<Rightarrow> bool" where
  "trade_valid t1 t2 \<longleftrightarrow>
     t_stk_code t1 = t_stk_code t2 \<and> t_bid_id t1 = t_bid_id t2 \<and> t_ask_id t1 = t_ask_id t2
     \<and> deq (t_price t1) (t_price t2) \<and> t_volume t1 = t_volume t2"

fun diff_from :: "Trade list \<Rightarrow> Trade list \<Rightarrow> bool" where
  "diff_from (t1 # v1) (t2 # v2) = (if trade_valid t1 t2 then diff_from v1 v2 else False)"
| "diff_from _ _ = True"

definition diffTradeList :: "Trade list \<Rightarrow> Trade list \<Rightarrow> bool" where
  "diffTradeList v1 v2 = (if length v1 \<noteq> length v2 then False else diff_from v1 v2)"

section \<open>Packed coordinates\<close>

unbundle bit_operations_syntax

type_synonym Coordinates = "32 word"

definition get_x :: "Coordinates \<Rightarrow> int" where
  "get_x c = uint (drop_bit 20 c AND 0x3ff)"

definition get_y :: "Coordinates \<Rightarrow> int" where
  "get_y c = uint (drop_bit 10 c AND 0x3ff)"

definition get_z :: "Coordinates \<Rightarrow> int" where
  "get_z c = uint (c AND 0x3ff)"

definition set_coor :: "int \<Rightarrow> int \<Rightarrow> int \<Rightarrow> Coordinates" where
  "set_coor x y z =
     push_bit 20 (word_of_int x AND 0x3ff) OR push_bit 10 (word_of_int y AND 0x3ff)
     OR (word_of_int z AND 0x3ff)"

record SortStruct =
  ss_order_id :: int
  ss_coor :: Coordinates

definition sort_less :: "SortStruct \<Rightarrow> SortStruct \<Rightarrow> bool" where
  "sort_less l r =
     (if ss_order_id l \<noteq> ss_order_id r then ss_order_id l < ss_order_id r
      else ss_coor l < ss_coor r)"

section \<open>Lemmas\<close>

text \<open>
  The keys that the two comparisons order, on records whose price is a number: a better price
  first, then the smaller order id.
\<close>

definition num_price :: "Record \<Rightarrow> bool" where
  "num_price r \<longleftrightarrow> \<not> isnan (r_price r)"

definition buy_key :: "Record \<Rightarrow> int \<times> int" where
  "buy_key r = (dkey (r_price r), - r_order_id r)"

definition sell_key :: "Record \<Rightarrow> int \<times> int" where
  "sell_key r = (- dkey (r_price r), - r_order_id r)"

lemma buy_less_key: "num_price x \<Longrightarrow> num_price y \<Longrightarrow> buy_less x y \<longleftrightarrow> buy_key x < buy_key y"
  by (auto simp: buy_less_def buy_key_def num_price_def dbl_simps less_prod_def)

lemma sell_less_key: "num_price x \<Longrightarrow> num_price y \<Longrightarrow> sell_less x y \<longleftrightarrow> sell_key x < sell_key y"
  by (auto simp: sell_less_def sell_key_def num_price_def dbl_simps less_prod_def)

lemma diff_from_iff:
  "length v1 = length v2 \<Longrightarrow> diff_from v1 v2 \<longleftrightarrow> list_all2 trade_valid v1 v2"
  by (induction v1 v2 rule: diff_from.induct) auto

lemma getters_set:
  fixes x y z :: int
  shows "get_x (set_coor x y z) = x mod 1024"
    and "get_y (set_coor x y z) = y mod 1024"
    and "get_z (set_coor x y z) = z mod 1024"
proof -
  have m: "(0x3ff :: 32 word) = mask 10" by (simp add: mask_eq_exp_minus_1)
  have t: "uint (take_bit 10 (word_of_int v :: 32 word)) = v mod 1024" for v
    by (simp add: unsigned_take_bit_eq uint_word_of_int_eq) (simp add: take_bit_eq_mod)
  have bx: "drop_bit 20 (set_coor x y z) AND mask 10 = take_bit 10 (word_of_int x)"
    by (rule bit_word_eqI) (auto simp: set_coor_def m bit_simps)
  have by': "drop_bit 10 (set_coor x y z) AND mask 10 = take_bit 10 (word_of_int y)"
    by (rule bit_word_eqI) (auto simp: set_coor_def m bit_simps)
  have bz: "set_coor x y z AND mask 10 = take_bit 10 (word_of_int z)"
    by (rule bit_word_eqI) (auto simp: set_coor_def m bit_simps)
  show "get_x (set_coor x y z) = x mod 1024" unfolding get_x_def m bx by (rule t)
  show "get_y (set_coor x y z) = y mod 1024" unfolding get_y_def m by' by (rule t)
  show "get_z (set_coor x y z) = z mod 1024" unfolding get_z_def m bz by (rule t)
qed

end
