(* ===== verification/Std_Heap.thy ===== *)
theory Std_Heap
  imports Prelude
begin

text \<open>
  The heap algorithms of the C++ standard library on a \<open>std::vector\<close> (a list), as libstdc++
  implements them: \<open>push_heap\<close> moves the last element up to its place, \<open>pop_heap\<close> moves the first
  element to the end and repairs the rest. The comparison \<open>lt\<close> is the \<open>operator<\<close> (or comparator)
  that the caller passes; the first element is a greatest one.

  The locale \<open>heap_order\<close> is what the algorithms need of \<open>lt\<close> (on the elements that occur, it
  compares keys of a linear order), the locale \<open>heap_vector\<close> the contract that the vectors of the
  program rely on.
\<close>

section \<open>The algorithms\<close>

text \<open>\<open>std::__push_heap\<close>: a hole moves up while the parent is less than the value.\<close>

function push_hole :: "('a \<Rightarrow> 'a \<Rightarrow> bool) \<Rightarrow> nat \<Rightarrow> nat \<Rightarrow> 'a \<Rightarrow> 'a list \<Rightarrow> 'a list" where
  "push_hole lt hole topi v h =
     (let parent = (hole - 1) div 2
      in if topi < hole \<and> lt (h ! parent) v
         then push_hole lt parent topi v (h[hole := h ! parent])
         else h[hole := v])"
  by pat_completeness auto
termination
  by (relation "measure (\<lambda>(lt, hole, top, v, h). hole)") auto

definition push_heap :: "('a \<Rightarrow> 'a \<Rightarrow> bool) \<Rightarrow> 'a list \<Rightarrow> 'a list" where
  "push_heap lt h = push_hole lt (length h - 1) 0 (h ! (length h - 1)) h"

text \<open>The loop of \<open>std::__adjust_heap\<close>: the hole moves down to the greater child.\<close>

function sift_hole :: "('a \<Rightarrow> 'a \<Rightarrow> bool) \<Rightarrow> nat \<Rightarrow> nat \<Rightarrow> 'a list \<Rightarrow> nat \<times> 'a list" where
  "sift_hole lt len hole h =
     (if hole < (len - 1) div 2
      then let right = 2 * (hole + 1);
               child = (if lt (h ! right) (h ! (right - 1)) then right - 1 else right)
           in sift_hole lt len child (h[hole := h ! child])
      else (hole, h))"
  by pat_completeness auto
termination
  by (relation "measure (\<lambda>(lt, len, hole, h). len - hole)") (auto simp: Let_def)

definition adjust_heap :: "('a \<Rightarrow> 'a \<Rightarrow> bool) \<Rightarrow> nat \<Rightarrow> nat \<Rightarrow> 'a \<Rightarrow> 'a list \<Rightarrow> 'a list" where
  "adjust_heap lt hole len v h =
     (let (hole', h') = sift_hole lt len hole h
      in if even len \<and> hole' = (len - 2) div 2
         then let child = 2 * (hole' + 1) - 1
              in push_hole lt child hole v (h'[hole' := h' ! child])
         else push_hole lt hole' hole v h')"

definition pop_heap :: "('a \<Rightarrow> 'a \<Rightarrow> bool) \<Rightarrow> 'a list \<Rightarrow> 'a list" where
  "pop_heap lt h =
     (if 1 < length h
      then let n = length h - 1
           in adjust_heap lt 0 n (h ! n) (h[n := h ! 0])
      else h)"

declare push_hole.simps [simp del] sift_hole.simps [simp del]

section \<open>The heap property\<close>

definition heap_upto :: "('a \<Rightarrow> 'k::linorder) \<Rightarrow> nat \<Rightarrow> 'a list \<Rightarrow> bool" where
  "heap_upto key n h \<longleftrightarrow> (\<forall>i. 0 < i \<and> i < n \<longrightarrow> key (h ! i) \<le> key (h ! ((i - 1) div 2)))"

lemma heap_upto_code [code]:
  "heap_upto key n h \<longleftrightarrow> list_all (\<lambda>i. key (h ! i) \<le> key (h ! ((i - 1) div 2))) [1..<n]"
  by (auto simp: heap_upto_def list_all_iff)

text \<open>
  One defect, at the hole, that moving up repairs: with \<open>v\<close> in the hole every other element is
  below its parent, and the children of the hole are below the parent of the hole.
\<close>

definition up_defect :: "('a \<Rightarrow> 'k::linorder) \<Rightarrow> nat \<Rightarrow> nat \<Rightarrow> 'a \<Rightarrow> 'a list \<Rightarrow> bool" where
  "up_defect key n hole v h \<longleftrightarrow>
     hole < n \<and> n \<le> length h \<and>
     (\<forall>i. 0 < i \<and> i < n \<and> i \<noteq> hole \<longrightarrow>
        key ((h[hole := v]) ! i) \<le> key ((h[hole := v]) ! ((i - 1) div 2))) \<and>
     (0 < hole \<longrightarrow> (\<forall>i. 0 < i \<and> i < n \<and> (i - 1) div 2 = hole \<longrightarrow>
        key (h ! i) \<le> key (h ! ((hole - 1) div 2))))"


section \<open>Lemmas about the algorithms\<close>

lemma push_hole_length [simp]: "length (push_hole lt hole topi v h) = length h"
proof (induction lt hole topi v h rule: push_hole.induct)
  case (1 lt hole topi v h)
  then show ?case by (subst push_hole.simps) (simp add: Let_def)
qed

lemma push_hole_mset:
  assumes "hole < length h"
  shows "mset (push_hole lt hole topi v h) = mset (h[hole := v])"
  using assms
proof (induction lt hole topi v h rule: push_hole.induct)
  case (1 lt hole topi v h)
  let ?p = "(hole - 1) div 2"
  show ?case
  proof (cases "topi < hole \<and> lt (h ! ?p) v")
    case True
    then have "?p < hole" by auto
    with True 1 have "mset (push_hole lt hole topi v h) = mset ((h[hole := h ! ?p])[?p := v])"
      by (subst push_hole.simps) (simp add: Let_def)
    also have "\<dots> = mset (h[hole := v])"
      using "1.prems" \<open>?p < hole\<close> by (intro mset_update_swap) auto
    finally show ?thesis .
  next
    case False
    then show ?thesis by (subst push_hole.simps) (auto simp: Let_def)
  qed
qed

lemma push_hole_beyond:
  assumes "hole < j"
  shows "push_hole lt hole topi v h ! j = h ! j"
  using assms
proof (induction lt hole topi v h rule: push_hole.induct)
  case (1 lt hole topi v h)
  then show ?case by (subst push_hole.simps) (auto simp: Let_def)
qed

text \<open>What the downward loop keeps, whatever the comparison.\<close>

lemma sift_hole_frame:
  assumes "sift_hole lt len hole h = (hole', h')" and "hole < len" and "len \<le> length h"
  shows "hole' < len \<and> length h' = length h \<and> mset (h'[hole' := x]) = mset (h[hole := x])
    \<and> (\<forall>j \<ge> len. h' ! j = h ! j) \<and> (len - 1) div 2 \<le> hole'"
  using assms
proof (induction lt len hole h rule: sift_hole.induct)
  case (1 lt len hole h)
  show ?case
  proof (cases "hole < (len - 1) div 2")
    case True
    define c where "c = (if lt (h ! (2 * (hole + 1))) (h ! (2 * (hole + 1) - 1))
      then 2 * (hole + 1) - 1 else 2 * (hole + 1))"
    have c: "hole < c" "c < len" using True by (auto simp: c_def)
    have rec: "sift_hole lt len c (h[hole := h ! c]) = (hole', h')"
      using "1.prems"(1) True
      by (simp add: sift_hole.simps [of lt len hole h] Let_def c_def split: if_splits)
    have "hole' < len \<and> length h' = length (h[hole := h ! c])
      \<and> mset (h'[hole' := x]) = mset ((h[hole := h ! c])[c := x])
      \<and> (\<forall>j \<ge> len. h' ! j = (h[hole := h ! c]) ! j) \<and> (len - 1) div 2 \<le> hole'"
      by (rule "1.IH" [OF True refl c_def rec c(2)]) (use "1.prems" in simp)
    moreover have "mset ((h[hole := h ! c])[c := x]) = mset (h[hole := x])"
      using c "1.prems" by (intro mset_update_swap) auto
    ultimately show ?thesis using "1.prems"(2) by auto
  next
    case False
    with "1.prems" show ?thesis by (subst (asm) sift_hole.simps) auto
  qed
qed

lemma heap_pull_up:
  assumes heap: "heap_upto key n h" and c: "0 < c" "c < n" "n \<le> length h"
    and big: "\<And>i. 0 < i \<Longrightarrow> i < n \<Longrightarrow> (i - 1) div 2 = (c - 1) div 2 \<Longrightarrow> key (h ! i) \<le> key (h ! c)"
  shows "heap_upto key n (h[(c - 1) div 2 := h ! c])"
  unfolding heap_upto_def
proof (intro allI impI; elim conjE)
  fix i assume i: "0 < i" "i < n"
  let ?p = "(c - 1) div 2" and ?q = "(i - 1) div 2"
  have p: "?p < length h" using c by linarith
  have le: "key (h ! j) \<le> key (h ! ((j - 1) div 2))" if "0 < j" "j < n" for j
    using heap that by (simp add: heap_upto_def)
  show "key ((h[?p := h ! c]) ! i) \<le> key ((h[?p := h ! c]) ! ?q)"
  proof (cases "?q = ?p")
    case True
    moreover have "i \<noteq> ?p" using True i by linarith
    ultimately show ?thesis using big [OF i] p by simp
  next
    case False
    then have par: "(h[?p := h ! c]) ! ?q = h ! ?q" by simp
    show ?thesis
    proof (cases "i = ?p")
      case True
      then have "key ((h[?p := h ! c]) ! i) \<le> key (h ! i)" using le [OF c(1,2)] p by simp
      then show ?thesis unfolding par using le [OF i] by (rule order_trans)
    qed (use le [OF i] par in simp)
  qed
qed

lemma heap_leaf_defect:
  assumes heap: "heap_upto key n h" and l: "l < n" "n \<le> length h" "n \<le> 2 * l + 1"
  shows "up_defect key n l v h"
proof -
  have no: "(i - 1) div 2 \<noteq> l" if "0 < i" "i < n" for i using that l by linarith
  show ?thesis
    unfolding up_defect_def
  proof (intro conjI allI impI; (elim conjE)?)
    fix i assume i: "0 < i" "i < n" "i \<noteq> l"
    with heap have "key (h ! i) \<le> key (h ! ((i - 1) div 2))" by (simp add: heap_upto_def)
    then show "key ((h[l := v]) ! i) \<le> key ((h[l := v]) ! ((i - 1) div 2))"
      using no [OF i(1,2)] i(3) by simp
  qed (use l no in auto)
qed

locale heap_order =
  fixes lt :: "'a \<Rightarrow> 'a \<Rightarrow> bool"
    and ok :: "'a \<Rightarrow> bool"
    and key :: "'a \<Rightarrow> 'k::linorder"
  assumes lt_key: "ok x \<Longrightarrow> ok y \<Longrightarrow> lt x y \<longleftrightarrow> key x < key y"
begin

lemma up_defect_step:
  assumes d: "up_defect key n hole v h" and hole: "0 < hole"
    and less: "key (h ! ((hole - 1) div 2)) < key v"
  shows "up_defect key n ((hole - 1) div 2) v (h[hole := h ! ((hole - 1) div 2)])"
proof -
  let ?p = "(hole - 1) div 2"
  have p: "?p < hole" "hole < n" "n \<le> length h"
    using d hole by (auto simp: up_defect_def)
  have sib: "key (h ! i) \<le> key (h ! ?p)"
    if "0 < i" "i < n" "(i - 1) div 2 = ?p" "i \<noteq> hole" for i
  proof -
    have "i \<noteq> ?p" using that hole by auto
    then show ?thesis using d that p by (auto simp: up_defect_def)
  qed
  have pp: "key (h ! ?p) \<le> key (h ! ((?p - 1) div 2))" if "0 < ?p"
  proof -
    have "(?p - 1) div 2 \<noteq> hole" using p by auto
    then show ?thesis using d that p by (auto simp: up_defect_def)
  qed
  show ?thesis
    unfolding up_defect_def
  proof (intro conjI allI impI; (elim conjE)?)
    fix i assume i: "0 < i" "i < n" "i \<noteq> ?p"
    let ?H = "(h[hole := h ! ?p])[?p := v]"
    have H: "?H ! k = (if k = ?p then v else if k = hole then h ! ?p else h ! k)" if "k < n" for k
      using that p by (simp add: nth_list_update)
    consider "i = hole" | "i \<noteq> hole" "(i - 1) div 2 = hole" | "i \<noteq> hole" "(i - 1) div 2 = ?p"
      | "i \<noteq> hole" "(i - 1) div 2 \<noteq> hole" "(i - 1) div 2 \<noteq> ?p" by blast
    then show "key (?H ! i) \<le> key (?H ! ((i - 1) div 2))"
    proof cases
      case 1
      then show ?thesis using H less i p by auto
    next
      case 2
      then show ?thesis using H d i p hole by (auto simp: up_defect_def)
    next
      case 3
      then show ?thesis using H sib [of i] less i p by (auto intro: order_trans less_imp_le)
    next
      case 4
      then show ?thesis using H d i p by (auto simp: up_defect_def)
    qed
  next
    fix i assume p0: "0 < ?p" and i: "0 < i" "i < n" "(i - 1) div 2 = ?p"
    have "(?p - 1) div 2 \<noteq> hole" using p by linarith
    then have gp: "(h[hole := h ! ?p]) ! ((?p - 1) div 2) = h ! ((?p - 1) div 2)" by simp
    have "key ((h[hole := h ! ?p]) ! i) \<le> key (h ! ?p)"
      using sib [OF i] p by (cases "i = hole") simp_all
    with pp [OF p0] show "key ((h[hole := h ! ?p]) ! i) \<le> key ((h[hole := h ! ?p]) ! ((?p - 1) div 2))"
      unfolding gp by (rule order_trans [rotated])
  qed (use p in auto)
qed

lemma push_hole_heap:
  assumes "up_defect key n hole v h" and "ok v" and "\<forall>x \<in> set h. ok x"
  shows "heap_upto key n (push_hole lt hole 0 v h)"
  using assms
proof (induction hole arbitrary: h rule: less_induct)
  case (less hole h)
  let ?p = "(hole - 1) div 2"
  have len: "hole < n" "n \<le> length h" using less.prems(1) by (auto simp: up_defect_def)
  then have okp: "ok (h ! ?p)" using less.prems(3) by auto
  show ?case
  proof (cases "0 < hole \<and> lt (h ! ?p) v")
    case True
    then have "key (h ! ?p) < key v" using lt_key less.prems(2) okp by simp
    then have "up_defect key n ?p v (h[hole := h ! ?p])"
      using up_defect_step less.prems(1) True by blast
    moreover have "\<forall>x \<in> set (h[hole := h ! ?p]). ok x"
      using less.prems(3) okp by (auto dest!: set_update_subset_insert [THEN subsetD])
    moreover have "?p < hole" using True by auto
    ultimately have "heap_upto key n (push_hole lt ?p 0 v (h[hole := h ! ?p]))"
      using less.IH less.prems(2) by blast
    with True show ?thesis by (subst push_hole.simps) (simp add: Let_def)
  next
    case False
    then have "hole = 0 \<or> key v \<le> key (h ! ?p)"
      using lt_key less.prems(2) okp by auto
    then have "heap_upto key n (h[hole := v])"
      using less.prems(1) len unfolding heap_upto_def up_defect_def
      by (metis div_le_dividend le_less_trans less_imp_diff_less nat_neq_iff
          nth_list_update_eq nth_list_update_neq order_less_le_trans zero_less_one diff_less)
    with False show ?thesis by (subst push_hole.simps) (auto simp: Let_def)
  qed
qed

lemma sift_hole_heap:
  assumes "heap_upto key len h" and "\<forall>x \<in> set h. ok x" and "hole < len" and "len \<le> length h"
    and "sift_hole lt len hole h = (hole', h')"
  shows "heap_upto key len h' \<and> (\<forall>x \<in> set h'. ok x)"
  using assms
proof (induction "len - hole" arbitrary: hole h rule: less_induct)
  case (less hole h)
  show ?case
  proof (cases "hole < (len - 1) div 2")
    case True
    let ?r = "2 * (hole + 1)"
    define c where "c = (if lt (h ! ?r) (h ! (?r - 1)) then ?r - 1 else ?r)"
    have c: "hole < c" "c < len" "0 < c" "(c - 1) div 2 = hole" using True by (auto simp: c_def)
    have oks: "ok (h ! i)" if "i < len" for i using that less.prems by auto
    have big: "key (h ! i) \<le> key (h ! c)" if "0 < i" "i < len" "(i - 1) div 2 = hole" for i
    proof -
      have "i = ?r \<or> i = ?r - 1" using that by auto
      then show ?thesis using lt_key oks True by (auto simp: c_def not_less less_imp_le)
    qed
    have "heap_upto key len (h[hole := h ! c])"
      using heap_pull_up [OF less.prems(1) c(3,2) less.prems(4)] big c(4) by simp
    moreover have "\<forall>x \<in> set (h[hole := h ! c]). ok x"
      using less.prems(2) oks c by (auto dest!: set_update_subset_insert [THEN subsetD])
    moreover have "sift_hole lt len c (h[hole := h ! c]) = (hole', h')"
      using less.prems(5) True
      by (simp add: sift_hole.simps [of lt len hole h] Let_def c_def split: if_splits)
    ultimately show ?thesis
      using c(1,2) less.prems(3,4) by (intro less.hyps) simp_all
  next
    case False
    with less.prems show ?thesis by (simp add: sift_hole.simps [of lt len hole h])
  qed
qed

lemma push_heap_heap:
  assumes "heap_upto key (length h) h" and "\<forall>x \<in> set h. ok x" and "ok v"
  shows "heap_upto key (length h + 1) (push_heap lt (h @ [v]))"
proof -
  have "up_defect key (length h + 1) (length h) v (h @ [v])"
    unfolding up_defect_def
  proof (intro conjI allI impI; (elim conjE)?)
    fix i assume i: "0 < i" "i < length h + 1" "i \<noteq> length h"
    then have "i < length h" "(i - 1) div 2 < length h" by linarith+
    then show "key (((h @ [v])[length h := v]) ! i) \<le> key (((h @ [v])[length h := v]) ! ((i - 1) div 2))"
      using assms(1) i(1) by (simp add: heap_upto_def nth_append)
  qed auto
  then show ?thesis
    using push_hole_heap [of "length h + 1" "length h" v "h @ [v]"] assms
    by (simp add: push_heap_def nth_append)
qed

lemma pop_heap_heap:
  assumes "heap_upto key (length h) h" and "\<forall>x \<in> set h. ok x" and "h \<noteq> []"
  shows "heap_upto key (length h - 1) (pop_heap lt h)"
proof (cases "1 < length h")
  case False
  with assms show ?thesis by (simp add: pop_heap_def heap_upto_def)
next
  case True
  let ?n = "length h - 1"
  let ?h1 = "h[?n := h ! 0]"
  obtain hole' h' where sh: "sift_hole lt ?n 0 ?h1 = (hole', h')" by fastforce
  have h1: "heap_upto key ?n ?h1"
    using assms(1) True by (auto simp: heap_upto_def nth_list_update)
  have ok1: "\<forall>x \<in> set ?h1. ok x"
    using assms(2,3) by (auto dest!: set_update_subset_insert [THEN subsetD])
  have hp: "heap_upto key ?n h'" "\<forall>x \<in> set h'. ok x"
    using sift_hole_heap [OF h1 ok1 _ _ sh] True by auto
  have fr: "hole' < ?n" "length h' = length h" "(?n - 1) div 2 \<le> hole'"
    using sift_hole_frame [OF sh] True by auto
  have okv: "ok (h ! ?n)" using assms(2,3) by auto
  show ?thesis
  proof (cases "even ?n \<and> hole' = (?n - 2) div 2")
    case False
    then have "?n \<le> 2 * hole' + 1" using fr by (cases "even ?n") presburger+
    then have "heap_upto key ?n (push_hole lt hole' 0 (h ! ?n) h')"
      using push_hole_heap [OF heap_leaf_defect okv, of ?n h' hole'] hp fr by simp
    moreover have "pop_heap lt h = push_hole lt hole' 0 (h ! ?n) h'"
      using False True sh by (auto simp: pop_heap_def adjust_heap_def Let_def)
    ultimately show ?thesis by simp
  next
    case t: True
    let ?c = "2 * (hole' + 1) - 1"
    have c: "?c < ?n" "?n \<le> ?c + 1" "(?c - 1) div 2 = hole'" "0 < ?c" using t fr by presburger+
    have g: "heap_upto key ?n (h'[hole' := h' ! ?c])"
    proof -
      have "key (h' ! i) \<le> key (h' ! ?c)" if "0 < i" "i < ?n" "(i - 1) div 2 = (?c - 1) div 2" for i
      proof -
        have "(i - 1) div 2 = hole'" using that(3) c(3) by simp
        then have "i = ?c" using that(1,2) c(2) by presburger
        then show ?thesis by simp
      qed
      then show ?thesis
        using heap_pull_up [OF hp(1) c(4,1)] c(3) fr(2) by simp
    qed
    have "\<forall>x \<in> set (h'[hole' := h' ! ?c]). ok x"
      using hp(2) c fr by (auto dest!: set_update_subset_insert [THEN subsetD])
    then have "heap_upto key ?n (push_hole lt ?c 0 (h ! ?n) (h'[hole' := h' ! ?c]))"
      using push_hole_heap [OF heap_leaf_defect [OF g] okv] c fr by simp
    with t True sh show ?thesis by (simp add: pop_heap_def adjust_heap_def Let_def)
  qed
qed

end

lemma push_heap_mset: "mset (push_heap lt (h @ [v])) = add_mset v (mset h)"
  by (simp add: push_heap_def push_hole_mset)

lemma pop_heap_frame:
  assumes "h \<noteq> []"
  shows "length (pop_heap lt h) = length h" "mset (pop_heap lt h) = mset h"
    "last (pop_heap lt h) = h ! 0"
proof -
  let ?n = "length h - 1"
  let ?h1 = "h[?n := h ! 0]"
  have "length (pop_heap lt h) = length h \<and> mset (pop_heap lt h) = mset h
    \<and> pop_heap lt h ! ?n = h ! 0"
  proof (cases "1 < length h")
    case False
    with assms show ?thesis by (cases h) (simp_all add: pop_heap_def)
  next
    case True
    obtain hole' h' where sh: "sift_hole lt ?n 0 ?h1 = (hole', h')" by fastforce
    have fr: "hole' < ?n" "length h' = length h" "h' ! ?n = h ! 0"
      "mset (h'[hole' := h ! ?n]) = mset (?h1[0 := h ! ?n])"
      using sift_hole_frame [OF sh, of "h ! ?n"] True by auto
    have sw: "mset (?h1[0 := h ! ?n]) = mset h"
      using mset_swap [of ?n h 0] True assms by (simp add: list_update_swap)
    show ?thesis
    proof (cases "even ?n \<and> hole' = (?n - 2) div 2")
      case t: True
      let ?c = "2 * (hole' + 1) - 1"
      have c: "?c < ?n" "hole' < ?c" using t fr(1) by presburger+
      have eq: "pop_heap lt h = push_hole lt ?c 0 (h ! ?n) (h'[hole' := h' ! ?c])"
        using t True sh by (simp add: pop_heap_def adjust_heap_def Let_def)
      have "mset (pop_heap lt h) = mset ((h'[hole' := h' ! ?c])[?c := h ! ?n])"
        unfolding eq using c fr by (intro push_hole_mset) simp
      also have "\<dots> = mset h"
        using mset_update_swap [of hole' h' ?c "h ! ?n"] c fr sw by simp
      finally have "mset (pop_heap lt h) = mset h" .
      moreover have "pop_heap lt h ! ?n = h ! 0"
      proof -
        have "hole' \<noteq> ?n" using c by linarith
        then show ?thesis unfolding eq push_hole_beyond [OF c(1)] using fr by simp
      qed
      ultimately show ?thesis unfolding eq using fr by simp
    next
      case False
      have eq: "pop_heap lt h = push_hole lt hole' 0 (h ! ?n) h'"
        using False True sh by (auto simp: pop_heap_def adjust_heap_def Let_def)
      have "mset (pop_heap lt h) = mset h"
        unfolding eq using push_hole_mset [of hole' h' lt 0 "h ! ?n"] fr sw by simp
      moreover have "pop_heap lt h ! ?n = h ! 0"
        unfolding eq push_hole_beyond [OF fr(1)] by (rule fr(3))
      ultimately show ?thesis unfolding eq using fr(2) by simp
    qed
  qed
  then show len: "length (pop_heap lt h) = length h" and "mset (pop_heap lt h) = mset h"
    and at: "last (pop_heap lt h) = h ! 0"
    using assms last_conv_nth [of "pop_heap lt h"] by (metis length_0_conv)+
qed

lemma pop_back_mset:
  assumes "h \<noteq> []"
  shows "mset (butlast (pop_heap lt h)) = mset h - {#h ! 0#}"
    "length (butlast (pop_heap lt h)) = length h - 1"
proof -
  have ne: "pop_heap lt h \<noteq> []" using pop_heap_frame(1) [OF assms, of lt] assms by auto
  show "mset (butlast (pop_heap lt h)) = mset h - {#h ! 0#}"
    using mset_butlast_last [OF ne] pop_heap_frame [OF assms, of lt] by simp
  show "length (butlast (pop_heap lt h)) = length h - 1"
    using pop_heap_frame(1) [OF assms, of lt] by simp
qed

section \<open>Vectors kept as heaps\<close>

text \<open>The elements of a vector, best (greatest key) first.\<close>

definition best_first :: "('a \<Rightarrow> 'k::linorder) \<Rightarrow> 'a list \<Rightarrow> 'a list" where
  "best_first key h = rev (sort_key key h)"

text \<open>Insertion that keeps a list best first.\<close>

fun insert_best :: "('a \<Rightarrow> 'k::linorder) \<Rightarrow> 'a \<Rightarrow> 'a list \<Rightarrow> 'a list" where
  "insert_best key x [] = [x]"
| "insert_best key x (y # ys) = (if key y \<le> key x then x # y # ys else y # insert_best key x ys)"

definition heap_inv :: "('a \<Rightarrow> bool) \<Rightarrow> ('a \<Rightarrow> 'k::linorder) \<Rightarrow> 'a list \<Rightarrow> bool" where
  "heap_inv ok key h \<longleftrightarrow> heap_upto key (length h) h \<and> (\<forall>x \<in> set h. ok x)"

lemma mset_best_first [simp]: "mset (best_first key h) = mset h"
  by (simp add: best_first_def)

lemma set_best_first [simp]: "set (best_first key h) = set h"
  by (simp add: best_first_def)

lemma best_first_Nil [simp]: "best_first key [] = []"
  by (simp add: best_first_def)

lemma sorted_best_first: "sorted_wrt (\<lambda>x y. key y \<le> key x) (best_first key h)"
  using sorted_sort_key [of key h] by (simp add: best_first_def sorted_wrt_rev sorted_wrt_map)

lemma best_first_unique:
  assumes "mset xs = mset h" "inj_on key (set h)" "sorted_wrt (\<lambda>x y. key y \<le> key x) xs"
  shows "best_first key h = xs"
proof -
  have "sort_key key h = rev xs"
    using assms by (intro sort_key_inj_key_eq) (simp_all add: rev_map sorted_wrt_rev sorted_wrt_map)
  then show ?thesis by (simp add: best_first_def)
qed

lemma mset_insert_best [simp]: "mset (insert_best key x ys) = add_mset x (mset ys)"
  by (induction ys) auto

lemma set_insert_best [simp]: "set (insert_best key x ys) = insert x (set ys)"
  by (induction ys) auto

lemma sorted_insert_best:
  "sorted_wrt (\<lambda>x y. key y \<le> key x) ys \<Longrightarrow> sorted_wrt (\<lambda>x y. key y \<le> key x) (insert_best key x ys)"
  by (induction ys) (auto intro: order_trans)

lemma best_first_insert:
  assumes "mset h' = add_mset x (mset h)" and "inj_on key (insert x (set h))"
  shows "best_first key h' = insert_best key x (best_first key h)"
proof (rule best_first_unique)
  have "set h' = insert x (set h)"
    using assms(1) by (metis set_mset_add_mset_insert set_mset_mset)
  then show "inj_on key (set h')" using assms(2) by simp
qed (simp_all add: assms(1) sorted_insert_best sorted_best_first)

lemma best_first_top:
  assumes "mset h = add_mset x (mset h')" and "inj_on key (set h)" and "\<forall>y \<in> set h. key y \<le> key x"
  shows "best_first key h = x # best_first key h'"
proof (rule best_first_unique)
  have "set h = insert x (set h')"
    using assms(1) by (metis set_mset_add_mset_insert set_mset_mset)
  then show "sorted_wrt (\<lambda>x y. key y \<le> key x) (x # best_first key h')"
    using assms(3) sorted_best_first [of key h'] by simp
qed (simp_all add: assms)

lemma heap_top:
  assumes "heap_upto key n h" and "i < n"
  shows "key (h ! i) \<le> key (h ! 0)"
  using assms(2)
proof (induction i rule: less_induct)
  case (less i)
  show ?case
  proof (cases "i = 0")
    case False
    then have "(i - 1) div 2 < i" "(i - 1) div 2 < n" using less.prems by linarith+
    then have "key (h ! ((i - 1) div 2)) \<le> key (h ! 0)" by (rule less.IH)
    moreover have "key (h ! i) \<le> key (h ! ((i - 1) div 2))"
      using assms(1) False less.prems by (simp add: heap_upto_def)
    ultimately show ?thesis by (rule order_trans [rotated])
  qed simp
qed

lemma heap_upto_cong:
  assumes "heap_upto key n h" and "\<And>i. i < n \<Longrightarrow> key (h' ! i) = key (h ! i)"
  shows "heap_upto key n h'"
  unfolding heap_upto_def
proof (intro allI impI; elim conjE)
  fix i assume i: "0 < i" "i < n"
  then have "(i - 1) div 2 < n" by linarith
  then show "key (h' ! i) \<le> key (h' ! ((i - 1) div 2))"
    using assms i by (simp add: heap_upto_def)
qed

text \<open>
  The contract of a vector that its owner keeps as a heap: \<open>push\<close> (push back, then push heap),
  \<open>pop\<close> (pop heap, then pop back) and the in-place change of the first element.
\<close>

locale heap_vector =
  fixes push :: "'a list \<Rightarrow> 'a \<Rightarrow> 'a list"
    and pop :: "'a list \<Rightarrow> 'a list"
    and invar :: "'a list \<Rightarrow> bool"
    and ok :: "'a \<Rightarrow> bool"
    and key :: "'a \<Rightarrow> 'k::linorder"
  assumes invar_empty: "invar []"
    and invar_push: "invar h \<Longrightarrow> ok x \<Longrightarrow> invar (push h x)"
    and invar_pop: "invar h \<Longrightarrow> h \<noteq> [] \<Longrightarrow> invar (pop h)"
    and invar_top: "invar h \<Longrightarrow> h \<noteq> [] \<Longrightarrow> ok x \<Longrightarrow> key x = key (h ! 0) \<Longrightarrow> invar (h[0 := x])"
    and invar_ok: "invar h \<Longrightarrow> x \<in> set h \<Longrightarrow> ok x"
    and mset_push: "mset (push h x) = add_mset x (mset h)"
    and mset_pop: "h \<noteq> [] \<Longrightarrow> mset (pop h) = mset h - {#h ! 0#}"
    and top_greatest: "invar h \<Longrightarrow> x \<in> set h \<Longrightarrow> key x \<le> key (h ! 0)"
begin

lemma length_pop: "h \<noteq> [] \<Longrightarrow> length (pop h) = length h - 1"
  using arg_cong [OF mset_pop, of h size] by (simp add: size_Diff_singleton)

lemma set_push: "set (push h x) = insert x (set h)"
  by (metis mset_push set_mset_add_mset_insert set_mset_mset)

lemma set_pop: "h \<noteq> [] \<Longrightarrow> set (pop h) \<subseteq> set h"
  by (metis diff_subset_eq_self mset_pop set_mset_mono set_mset_mset)

lemma mset_pop_add: "h \<noteq> [] \<Longrightarrow> mset h = add_mset (h ! 0) (mset (pop h))"
  by (simp add: mset_pop)

lemma best_first_push:
  "distinct (key x # map key h) \<Longrightarrow> best_first key (push h x) = insert_best key x (best_first key h)"
  by (rule best_first_insert [OF mset_push]) (simp add: distinct_map inj_on_insert, blast)

lemma best_first_pop:
  assumes "invar h" and "h \<noteq> []" and "distinct (map key h)"
  shows "best_first key h = h ! 0 # best_first key (pop h)"
  using assms by (intro best_first_top mset_pop_add) (simp_all add: top_greatest distinct_map)

lemma best_first_update_top:
  assumes "invar h" and "h \<noteq> []" and "distinct (map key h)" and "key x = key (h ! 0)"
  shows "best_first key (h[0 := x]) = x # best_first key (pop h)"
proof (rule best_first_unique)
  have m: "mset (h[0 := x]) = add_mset x (mset (pop h))"
    using assms(2) by (simp add: mset_update mset_pop)
  then show "mset (x # best_first key (pop h)) = mset (h[0 := x])" by simp
  show "sorted_wrt (\<lambda>x y. key y \<le> key x) (x # best_first key (pop h))"
    using sorted_best_first [of key h] assms(4)
    unfolding best_first_pop [OF assms(1-3)] by simp
  show "inj_on key (set (h[0 := x]))"
  proof -
    have "map key (h[0 := x]) = map key h"
      using assms(2,4) by (simp add: map_update list_update_same_conv)
    then have "distinct (map key (h[0 := x]))" using assms(3) by simp
    then show ?thesis by (simp add: distinct_map)
  qed
qed

lemma distinct_pop: "h \<noteq> [] \<Longrightarrow> distinct (map key h) \<Longrightarrow> distinct (map key (pop h))"
proof -
  assume "h \<noteq> []" and d: "distinct (map key h)"
  then have "mset (map key h) = mset (key (h ! 0) # map key (pop h))"
    by (metis mset_pop_add image_mset_add_mset mset.simps(2) mset_map)
  then have "distinct (key (h ! 0) # map key (pop h))" using d by (metis mset_eq_imp_distinct_iff)
  then show ?thesis by simp
qed

end

sublocale heap_order \<subseteq> hv: heap_vector "\<lambda>h x. push_heap lt (h @ [x])"
  "\<lambda>h. butlast (pop_heap lt h)" "heap_inv ok key" ok key
proof
  show "heap_inv ok key []" by (simp add: heap_inv_def heap_upto_def)
next
  fix h x assume "heap_inv ok key h" "ok x"
  moreover have "length (push_heap lt (h @ [x])) = length h + 1"
    by (simp add: push_heap_def)
  moreover have "set (push_heap lt (h @ [x])) = insert x (set h)"
    by (metis push_heap_mset set_mset_add_mset_insert set_mset_mset)
  ultimately show "heap_inv ok key (push_heap lt (h @ [x]))"
    using push_heap_heap by (auto simp: heap_inv_def)
next
  fix h assume h: "heap_inv ok key h" "h \<noteq> []"
  have "set (butlast (pop_heap lt h)) \<subseteq> set h"
    using pop_back_mset(1) [OF h(2), of lt] by (metis diff_subset_eq_self set_mset_mono set_mset_mset)
  moreover have "heap_upto key (length h - 1) (butlast (pop_heap lt h))"
  proof (rule heap_upto_cong)
    show "heap_upto key (length h - 1) (pop_heap lt h)"
      using pop_heap_heap h by (simp add: heap_inv_def)
    show "key (butlast (pop_heap lt h) ! i) = key (pop_heap lt h ! i)" if "i < length h - 1" for i
      using that pop_heap_frame(1) [OF h(2), of lt] by (simp add: nth_butlast)
  qed
  ultimately show "heap_inv ok key (butlast (pop_heap lt h))"
    using h pop_back_mset(2) [OF h(2), of lt] by (auto simp: heap_inv_def)
next
  fix h x assume h: "heap_inv ok key h" "h \<noteq> []" "ok x" "key x = key (h ! 0)"
  have "heap_upto key (length h) (h[0 := x])"
  proof (rule heap_upto_cong)
    show "heap_upto key (length h) h" using h(1) by (simp add: heap_inv_def)
    show "key (h[0 := x] ! i) = key (h ! i)" if "i < length h" for i
      using that h(4) by (cases "i = 0") simp_all
  qed
  then show "heap_inv ok key (h[0 := x])"
    using h by (auto simp: heap_inv_def dest!: set_update_subset_insert [THEN subsetD])
next
  fix h x assume "heap_inv ok key h" "x \<in> set h"
  then show "key x \<le> key (h ! 0)"
    by (auto simp: heap_inv_def in_set_conv_nth intro: heap_top)
qed (auto simp: heap_inv_def push_heap_mset pop_back_mset)

end
