(* ===== verification/Decl_Book.thy ===== *)
theory Decl_Book
  imports Types Std_Heap
begin

text \<open>
  \<open>src/src/exchange/stock_decl_book.hpp\<close>: the declaration book of one stock, two vectors kept as
  heaps by \<open>std::push_heap\<close> and \<open>std::pop_heap\<close>. A query returns a pointer to the first record, or
  null; a write through that pointer is \<open>setBuyFirst\<close>/\<open>setSellFirst\<close>. The asserts are checks
  that abort.
\<close>

section \<open>The book and its operations\<close>

record StockDeclarationBook =
  buy_decls :: "BuyRecord list"
  sell_decls :: "SellRecord list"

definition emptyBook :: StockDeclarationBook where
  "emptyBook = \<lparr>buy_decls = [], sell_decls = []\<rparr>"

definition insertBuyDecl :: "BuyRecord \<Rightarrow> StockDeclarationBook \<Rightarrow> StockDeclarationBook result" where
  "insertBuyDecl br b =
     (if r_volume br \<noteq> 0
      then Inr (b\<lparr>buy_decls := push_heap buy_less (buy_decls b @ [br])\<rparr>)
      else Inl Abort)"

definition insertSellDecl :: "SellRecord \<Rightarrow> StockDeclarationBook \<Rightarrow> StockDeclarationBook result" where
  "insertSellDecl sr b =
     (if r_volume sr \<noteq> 0
      then Inr (b\<lparr>sell_decls := push_heap sell_less (sell_decls b @ [sr])\<rparr>)
      else Inl Abort)"

definition queryBuyFirst :: "StockDeclarationBook \<Rightarrow> BuyRecord option" where
  "queryBuyFirst b = (if buy_decls b = [] then None else Some (buy_decls b ! 0))"

definition removeBuyFirst :: "StockDeclarationBook \<Rightarrow> StockDeclarationBook result" where
  "removeBuyFirst b =
     (if buy_decls b \<noteq> []
      then Inr (b\<lparr>buy_decls := butlast (pop_heap buy_less (buy_decls b))\<rparr>)
      else Inl Abort)"

definition querySellFirst :: "StockDeclarationBook \<Rightarrow> SellRecord option" where
  "querySellFirst b = (if sell_decls b = [] then None else Some (sell_decls b ! 0))"

definition removeSellFirst :: "StockDeclarationBook \<Rightarrow> StockDeclarationBook result" where
  "removeSellFirst b =
     (if sell_decls b \<noteq> []
      then Inr (b\<lparr>sell_decls := butlast (pop_heap sell_less (sell_decls b))\<rparr>)
      else Inl Abort)"

text \<open>A store through the pointer that a query returned.\<close>

definition setBuyFirst :: "BuyRecord \<Rightarrow> StockDeclarationBook \<Rightarrow> StockDeclarationBook" where
  "setBuyFirst br b = b\<lparr>buy_decls := (buy_decls b)[0 := br]\<rparr>"

definition setSellFirst :: "SellRecord \<Rightarrow> StockDeclarationBook \<Rightarrow> StockDeclarationBook" where
  "setSellFirst sr b = b\<lparr>sell_decls := (sell_decls b)[0 := sr]\<rparr>"

text \<open>The loops that add up the volumes, in \<open>int\<close> arithmetic.\<close>

definition sum_volume :: "Record list \<Rightarrow> int" where
  "sum_volume rs = foldl (\<lambda>ret r. i32 (ret + r_volume r)) 0 rs"

definition totalBuyVolume :: "StockDeclarationBook \<Rightarrow> int" where
  "totalBuyVolume b = sum_volume (buy_decls b)"

definition totalSellVolume :: "StockDeclarationBook \<Rightarrow> int" where
  "totalSellVolume b = sum_volume (sell_decls b)"

section \<open>Well-formed books\<close>

definition wf_record :: "Record \<Rightarrow> bool" where
  "wf_record r \<longleftrightarrow> num_price r \<and> 0 < r_volume r \<and> in_i32 (r_volume r)"

text \<open>
  One side: a heap of records with a numeric price and a positive volume, no two of which have the
  same order id.
\<close>

definition wf_side :: "(Record \<Rightarrow> int \<times> int) \<Rightarrow> Record list \<Rightarrow> bool" where
  "wf_side key h \<longleftrightarrow>
     heap_inv num_price key h \<and> list_all wf_record h \<and> distinct (map r_order_id h)"

definition wf_book :: "StockDeclarationBook \<Rightarrow> bool" where
  "wf_book b \<longleftrightarrow> wf_side buy_key (buy_decls b) \<and> wf_side sell_key (sell_decls b)"

text \<open>The abstraction of a book: each side as the list of its records, best first.\<close>

definition buy_side :: "StockDeclarationBook \<Rightarrow> BuyRecord list" where
  "buy_side b = best_first buy_key (buy_decls b)"

definition sell_side :: "StockDeclarationBook \<Rightarrow> SellRecord list" where
  "sell_side b = best_first sell_key (sell_decls b)"

text \<open>The comment of the class: the best bid is strictly below the best ask.\<close>

definition uncrossed :: "StockDeclarationBook \<Rightarrow> bool" where
  "uncrossed b \<longleftrightarrow>
     (\<forall>br \<in> set (buy_decls b). \<forall>sr \<in> set (sell_decls b). dkey (r_price br) < dkey (r_price sr))"

section \<open>A vector of records\<close>

locale record_vector = heap_order lt num_price key
  for lt :: "Record \<Rightarrow> Record \<Rightarrow> bool" and key :: "Record \<Rightarrow> int \<times> int" +
  assumes key_id: "key r = key r' \<Longrightarrow> r_order_id r = r_order_id r'"
    and key_volume: "key (r\<lparr>r_volume := v\<rparr>) = key r"
begin

lemma distinct_key: "distinct (map r_order_id h) \<Longrightarrow> distinct (map key h)"
  by (auto simp: distinct_map inj_on_def dest: key_id)

lemma distinct_push:
  "distinct (map r_order_id h) \<Longrightarrow> r_order_id r \<notin> r_order_id ` set h \<Longrightarrow> distinct (key r # map key h)"
  by (auto simp: distinct_key dest: key_id)

lemma wf_side_empty: "wf_side key []"
  by (simp add: wf_side_def hv.invar_empty)

lemma wf_side_pop:
  assumes "wf_side key h" and "h \<noteq> []"
  shows "wf_side key (butlast (pop_heap lt h))"
    and "best_first key h = h ! 0 # best_first key (butlast (pop_heap lt h))"
proof -
  have "set (butlast (pop_heap lt h)) \<subseteq> set h"
    using assms(2) by (rule hv.set_pop)
  moreover have "mset (map r_order_id h) = mset (r_order_id (h ! 0) # map r_order_id (butlast (pop_heap lt h)))"
    using assms(2) by (metis hv.mset_pop_add image_mset_add_mset mset.simps(2) mset_map)
  then have "distinct (map r_order_id (butlast (pop_heap lt h)))"
    using assms(1) by (metis distinct.simps(2) mset_eq_imp_distinct_iff wf_side_def)
  ultimately show "wf_side key (butlast (pop_heap lt h))"
    using assms hv.invar_pop by (auto simp: wf_side_def list_all_iff)
  show "best_first key h = h ! 0 # best_first key (butlast (pop_heap lt h))"
    using assms by (intro hv.best_first_pop) (auto simp: wf_side_def distinct_key)
qed

lemma wf_side_set:
  assumes "wf_side key h" and "h \<noteq> []" and "0 < v" and "in_i32 v"
  shows "wf_side key (h[0 := (h ! 0)\<lparr>r_volume := v\<rparr>])"
    and "best_first key (h[0 := (h ! 0)\<lparr>r_volume := v\<rparr>])
      = (h ! 0)\<lparr>r_volume := v\<rparr> # best_first key (butlast (pop_heap lt h))"
proof -
  let ?r = "(h ! 0)\<lparr>r_volume := v\<rparr>"
  have ok: "num_price ?r" "wf_record ?r"
    using assms by (auto simp: wf_side_def list_all_iff wf_record_def num_price_def)
  have "map r_order_id (h[0 := ?r]) = map r_order_id h"
    using assms(2) by (simp add: map_update list_update_same_conv)
  moreover have "list_all wf_record (h[0 := ?r])"
    using assms(1) ok(2) by (auto simp: wf_side_def list_all_iff dest!: set_update_subset_insert [THEN subsetD])
  moreover have "heap_inv num_price key (h[0 := ?r])"
    using assms ok(1) by (intro hv.invar_top) (auto simp: wf_side_def key_volume)
  ultimately show "wf_side key (h[0 := ?r])" using assms(1) by (simp add: wf_side_def)
  show "best_first key (h[0 := ?r]) = ?r # best_first key (butlast (pop_heap lt h))"
    using assms by (intro hv.best_first_update_top) (auto simp: wf_side_def distinct_key key_volume)
qed

lemma wf_side_push:
  assumes "wf_side key h" and "wf_record r" and "r_order_id r \<notin> r_order_id ` set h"
  shows "wf_side key (push_heap lt (h @ [r]))"
    and "best_first key (push_heap lt (h @ [r])) = insert_best key r (best_first key h)"
proof -
  have "mset (map r_order_id (push_heap lt (h @ [r]))) = mset (r_order_id r # map r_order_id h)"
    by (simp add: push_heap_mset)
  then have "distinct (map r_order_id (push_heap lt (h @ [r])))"
    using assms by (metis distinct.simps(2) list.set_map mset_eq_imp_distinct_iff wf_side_def)
  moreover have "heap_inv num_price key (push_heap lt (h @ [r]))"
    using assms by (intro hv.invar_push) (auto simp: wf_side_def wf_record_def)
  ultimately show "wf_side key (push_heap lt (h @ [r]))"
    using assms hv.set_push [of h r] by (auto simp: wf_side_def list_all_iff)
  show "best_first key (push_heap lt (h @ [r])) = insert_best key r (best_first key h)"
    using assms by (intro hv.best_first_push distinct_push) (auto simp: wf_side_def)
qed

lemma wf_side_first: "wf_side key h \<Longrightarrow> h = [] \<longleftrightarrow> best_first key h = []"
  by (metis mset_best_first mset_zero_iff)

end

interpretation bv: record_vector buy_less buy_key
  by unfold_locales (auto simp: buy_less_key buy_key_def)

interpretation sv: record_vector sell_less sell_key
  by unfold_locales (auto simp: sell_less_key sell_key_def)

section \<open>The contract of one side of the book\<close>

text \<open>
  What the matching loops rely on: with the side read as a list, best first, a query returns its
  head, a removal its tail, a store through the pointer changes the head and an insertion places
  the record by priority; the other side is untouched.
\<close>

locale book_side =
  fixes query :: "StockDeclarationBook \<Rightarrow> Record option"
    and remove :: "StockDeclarationBook \<Rightarrow> StockDeclarationBook result"
    and set_first :: "Record \<Rightarrow> StockDeclarationBook \<Rightarrow> StockDeclarationBook"
    and add_decl :: "Record \<Rightarrow> StockDeclarationBook \<Rightarrow> StockDeclarationBook result"
    and key :: "Record \<Rightarrow> int \<times> int"
    and vec :: "StockDeclarationBook \<Rightarrow> Record list"
    and other :: "StockDeclarationBook \<Rightarrow> Record list"
  assumes query_nil: "best_first key (vec b) = [] \<Longrightarrow> query b = None"
    and query_cons: "wf_side key (vec b) \<Longrightarrow> best_first key (vec b) = r # rs \<Longrightarrow> query b = Some r"
    and remove_cons: "wf_side key (vec b) \<Longrightarrow> best_first key (vec b) = r # rs \<Longrightarrow>
      \<exists>b'. remove b = Inr b' \<and> wf_side key (vec b') \<and> best_first key (vec b') = rs \<and> other b' = other b"
    and set_cons: "wf_side key (vec b) \<Longrightarrow> best_first key (vec b) = r # rs \<Longrightarrow> 0 < v \<Longrightarrow> in_i32 v \<Longrightarrow>
      wf_side key (vec (set_first (r\<lparr>r_volume := v\<rparr>) b))
      \<and> best_first key (vec (set_first (r\<lparr>r_volume := v\<rparr>) b)) = r\<lparr>r_volume := v\<rparr> # rs
      \<and> other (set_first (r\<lparr>r_volume := v\<rparr>) b) = other b"
    and add_new: "wf_side key (vec b) \<Longrightarrow> wf_record r \<Longrightarrow> r_order_id r \<notin> r_order_id ` set (vec b) \<Longrightarrow>
      \<exists>b'. add_decl r b = Inr b' \<and> wf_side key (vec b')
        \<and> best_first key (vec b') = insert_best key r (best_first key (vec b)) \<and> other b' = other b"

interpretation bs: book_side queryBuyFirst removeBuyFirst setBuyFirst insertBuyDecl buy_key
  buy_decls sell_decls
proof
  fix b :: StockDeclarationBook and r rs
  assume w: "wf_side buy_key (buy_decls b)" and e: "best_first buy_key (buy_decls b) = r # rs"
  then have ne: "buy_decls b \<noteq> []" by auto
  note p = bv.wf_side_pop [OF w ne]
  from p(2) e have r: "buy_decls b ! 0 = r"
    and rs: "best_first buy_key (butlast (pop_heap buy_less (buy_decls b))) = rs" by simp_all
  show "queryBuyFirst b = Some r" using ne r by (simp add: queryBuyFirst_def)
  show "\<exists>b'. removeBuyFirst b = Inr b' \<and> wf_side buy_key (buy_decls b')
      \<and> best_first buy_key (buy_decls b') = rs \<and> sell_decls b' = sell_decls b"
    using ne p rs by (simp add: removeBuyFirst_def)
  fix v :: int assume "0 < v" "in_i32 v"
  then show "wf_side buy_key (buy_decls (setBuyFirst (r\<lparr>r_volume := v\<rparr>) b))
      \<and> best_first buy_key (buy_decls (setBuyFirst (r\<lparr>r_volume := v\<rparr>) b)) = r\<lparr>r_volume := v\<rparr> # rs
      \<and> sell_decls (setBuyFirst (r\<lparr>r_volume := v\<rparr>) b) = sell_decls b"
    using bv.wf_side_set [OF w ne] r rs by (simp add: setBuyFirst_def)
next
  fix b :: StockDeclarationBook and r assume "wf_side buy_key (buy_decls b)" "wf_record r"
    "r_order_id r \<notin> r_order_id ` set (buy_decls b)"
  then show "\<exists>b'. insertBuyDecl r b = Inr b' \<and> wf_side buy_key (buy_decls b')
        \<and> best_first buy_key (buy_decls b') = insert_best buy_key r (best_first buy_key (buy_decls b))
        \<and> sell_decls b' = sell_decls b"
    using bv.wf_side_push by (auto simp: insertBuyDecl_def wf_record_def)
qed (metis mset_best_first mset_zero_iff queryBuyFirst_def)

interpretation ss: book_side querySellFirst removeSellFirst setSellFirst insertSellDecl sell_key
  sell_decls buy_decls
proof
  fix b :: StockDeclarationBook and r rs
  assume w: "wf_side sell_key (sell_decls b)" and e: "best_first sell_key (sell_decls b) = r # rs"
  then have ne: "sell_decls b \<noteq> []" by auto
  note p = sv.wf_side_pop [OF w ne]
  from p(2) e have r: "sell_decls b ! 0 = r"
    and rs: "best_first sell_key (butlast (pop_heap sell_less (sell_decls b))) = rs" by simp_all
  show "querySellFirst b = Some r" using ne r by (simp add: querySellFirst_def)
  show "\<exists>b'. removeSellFirst b = Inr b' \<and> wf_side sell_key (sell_decls b')
      \<and> best_first sell_key (sell_decls b') = rs \<and> buy_decls b' = buy_decls b"
    using ne p rs by (simp add: removeSellFirst_def)
  fix v :: int assume "0 < v" "in_i32 v"
  then show "wf_side sell_key (sell_decls (setSellFirst (r\<lparr>r_volume := v\<rparr>) b))
      \<and> best_first sell_key (sell_decls (setSellFirst (r\<lparr>r_volume := v\<rparr>) b)) = r\<lparr>r_volume := v\<rparr> # rs
      \<and> buy_decls (setSellFirst (r\<lparr>r_volume := v\<rparr>) b) = buy_decls b"
    using sv.wf_side_set [OF w ne] r rs by (simp add: setSellFirst_def)
next
  fix b :: StockDeclarationBook and r assume "wf_side sell_key (sell_decls b)" "wf_record r"
    "r_order_id r \<notin> r_order_id ` set (sell_decls b)"
  then show "\<exists>b'. insertSellDecl r b = Inr b' \<and> wf_side sell_key (sell_decls b')
        \<and> best_first sell_key (sell_decls b') = insert_best sell_key r (best_first sell_key (sell_decls b))
        \<and> buy_decls b' = buy_decls b"
    using sv.wf_side_push by (auto simp: insertSellDecl_def wf_record_def)
qed (metis mset_best_first mset_zero_iff querySellFirst_def)

end
