(* ===== verification/Stock_Exchange.thy ===== *)
theory Stock_Exchange
  imports Decl_Book
begin

text \<open>
  \<open>src/src/exchange/stock_exchange.cpp\<close> and \<open>stock_exchange.h\<close>: the matching engine of one stock.
  The state is the object of class \<open>StockExchange\<close>, with the sequence of trades that the object has
  passed to \<open>Exchange::produceTrade\<close> as the extra component \<open>produced\<close>. A handler returns its status
  and the new state, or the failed assert. Each \<open>while\<close> loop is a function of the same shape; the
  loops run on \<open>left_volume\<close> and the state.
\<close>

section \<open>The state\<close>

record StockExchange =
  stk_code :: int
  decl_book :: StockDeclarationBook
  not_ready_orders :: "Order list"
  last_commit_order_id :: int
  trade_list :: "Trade list"
  produced :: "Trade list"

definition newStockExchange :: "int \<Rightarrow> StockExchange" where
  "newStockExchange code =
     \<lparr>stk_code = code, decl_book = emptyBook, not_ready_orders = [], last_commit_order_id = 0,
      trade_list = [], produced = []\<rparr>"

definition produceTrade :: "Trade \<Rightarrow> StockExchange \<Rightarrow> StockExchange" where
  "produceTrade new_trade s = s\<lparr>produced := produced s @ [new_trade]\<rparr>"

text \<open>The trade of an incoming buy (sell) order with a record of the other side.\<close>

definition buy_trade :: "int \<Rightarrow> Order \<Rightarrow> SellRecord \<Rightarrow> double \<Rightarrow> int \<Rightarrow> Trade" where
  "buy_trade code order sr price volume =
     \<lparr>t_stk_code = code, t_bid_id = o_order_id order, t_ask_id = r_order_id sr,
      t_price = price, t_volume = volume\<rparr>"

definition sell_trade :: "int \<Rightarrow> Order \<Rightarrow> BuyRecord \<Rightarrow> double \<Rightarrow> int \<Rightarrow> Trade" where
  "sell_trade code order br price volume =
     \<lparr>t_stk_code = code, t_bid_id = r_order_id br, t_ask_id = o_order_id order,
      t_price = price, t_volume = volume\<rparr>"

text \<open>\<open>sr->volume -= left_volume\<close> through the pointer to the first record.\<close>

definition takeSellFirst :: "int \<Rightarrow> SellRecord \<Rightarrow> StockExchange \<Rightarrow> StockExchange" where
  "takeSellFirst v sr s =
     s\<lparr>decl_book := setSellFirst (sr\<lparr>r_volume := i32 (r_volume sr - v)\<rparr>) (decl_book s)\<rparr>"

definition takeBuyFirst :: "int \<Rightarrow> BuyRecord \<Rightarrow> StockExchange \<Rightarrow> StockExchange" where
  "takeBuyFirst v br s =
     s\<lparr>decl_book := setBuyFirst (br\<lparr>r_volume := i32 (r_volume br - v)\<rparr>) (decl_book s)\<rparr>"

definition dropSellFirst :: "StockExchange \<Rightarrow> StockExchange result" where
  "dropSellFirst s = bindE (removeSellFirst (decl_book s)) (\<lambda>b. Inr (s\<lparr>decl_book := b\<rparr>))"

definition dropBuyFirst :: "StockExchange \<Rightarrow> StockExchange result" where
  "dropBuyFirst s = bindE (removeBuyFirst (decl_book s)) (\<lambda>b. Inr (s\<lparr>decl_book := b\<rparr>))"

definition restBuy :: "Order \<Rightarrow> double \<Rightarrow> int \<Rightarrow> StockExchange \<Rightarrow> StockExchange result" where
  "restBuy order price volume s =
     bindE (insertBuyDecl \<lparr>r_order_id = o_order_id order, r_price = price, r_volume = volume\<rparr>
              (decl_book s)) (\<lambda>b. Inr (s\<lparr>decl_book := b\<rparr>))"

definition restSell :: "Order \<Rightarrow> double \<Rightarrow> int \<Rightarrow> StockExchange \<Rightarrow> StockExchange result" where
  "restSell order price volume s =
     bindE (insertSellDecl \<lparr>r_order_id = o_order_id order, r_price = price, r_volume = volume\<rparr>
              (decl_book s)) (\<lambda>b. Inr (s\<lparr>decl_book := b\<rparr>))"

text \<open>Facts that the termination proofs use.\<close>

definition sells :: "StockExchange \<Rightarrow> nat" where
  "sells s = length (sell_decls (decl_book s))"

definition buys :: "StockExchange \<Rightarrow> nat" where
  "buys s = length (buy_decls (decl_book s))"

lemma sells_simps [simp]:
  "sells (produceTrade t s) = sells s" "sells (takeSellFirst v r s) = sells s"
  "dropSellFirst s = Inr s' \<Longrightarrow> sells s' < sells s"
  by (auto simp: sells_def produceTrade_def takeSellFirst_def setSellFirst_def dropSellFirst_def
      removeSellFirst_def bindE_eq_Inr pop_heap_frame(1) split: if_splits)

lemma buys_simps [simp]:
  "buys (produceTrade t s) = buys s" "buys (takeBuyFirst v r s) = buys s"
  "dropBuyFirst s = Inr s' \<Longrightarrow> buys s' < buys s"
  by (auto simp: buys_def produceTrade_def takeBuyFirst_def setBuyFirst_def dropBuyFirst_def
      removeBuyFirst_def bindE_eq_Inr pop_heap_frame(1) split: if_splits)

section \<open>Type 0: limit orders\<close>

function limitBuyLoop :: "Order \<Rightarrow> int \<Rightarrow> StockExchange \<Rightarrow> (int \<times> StockExchange) result" where
  "limitBuyLoop order left_volume s =
     (if left_volume = 0 then Inr (left_volume, s)
      else case querySellFirst (decl_book s) of
          None \<Rightarrow> Inr (left_volume, s)
        | Some sr \<Rightarrow>
            if dgt (r_price sr) (o_price order) then Inr (left_volume, s)
            else if left_volume < r_volume sr then
              limitBuyLoop order (left_volume - left_volume)
                (takeSellFirst left_volume sr
                  (produceTrade (buy_trade (stk_code s) order sr (r_price sr) left_volume) s))
            else
              bindE (dropSellFirst
                      (produceTrade (buy_trade (stk_code s) order sr (r_price sr) (r_volume sr)) s))
                (\<lambda>s. limitBuyLoop order (i32 (left_volume - r_volume sr)) s))"
  by pat_completeness auto
termination
  by (relation "measure (\<lambda>(order, left_volume, s). 2 * sells s + (if left_volume = 0 then 0 else 1))")
    (auto dest!: sells_simps(3))

function limitSellLoop :: "Order \<Rightarrow> int \<Rightarrow> StockExchange \<Rightarrow> (int \<times> StockExchange) result" where
  "limitSellLoop order left_volume s =
     (if left_volume = 0 then Inr (left_volume, s)
      else case queryBuyFirst (decl_book s) of
          None \<Rightarrow> Inr (left_volume, s)
        | Some br \<Rightarrow>
            if dlt (r_price br) (o_price order) then Inr (left_volume, s)
            else if left_volume < r_volume br then
              limitSellLoop order (left_volume - left_volume)
                (takeBuyFirst left_volume br
                  (produceTrade (sell_trade (stk_code s) order br (r_price br) left_volume) s))
            else
              bindE (dropBuyFirst
                      (produceTrade (sell_trade (stk_code s) order br (r_price br) (r_volume br)) s))
                (\<lambda>s. limitSellLoop order (i32 (left_volume - r_volume br)) s))"
  by pat_completeness auto
termination
  by (relation "measure (\<lambda>(order, left_volume, s). 2 * buys s + (if left_volume = 0 then 0 else 1))")
    (auto dest!: buys_simps(3))

definition handleLimitOrder :: "Order \<Rightarrow> StockExchange \<Rightarrow> (int \<times> StockExchange) result" where
  "handleLimitOrder order s =
     (let left_volume = o_volume order
      in if o_direction order = 1 then
           bindE (limitBuyLoop order left_volume s) (\<lambda>(left_volume, s).
             if left_volume \<noteq> 0
             then bindE (restBuy order (o_price order) left_volume s) (\<lambda>s. Inr (0, s))
             else Inr (0, s))
         else if o_direction order = -1 then
           bindE (limitSellLoop order left_volume s) (\<lambda>(left_volume, s).
             if left_volume \<noteq> 0
             then bindE (restSell order (o_price order) left_volume s) (\<lambda>s. Inr (0, s))
             else Inr (0, s))
         else Inr (0, s))"

section \<open>Type 1: best price of the other side\<close>

text \<open>
  The pointer to the first record is read again in every round; reading it with the side empty
  would be undefined. The residue goes to the book as a limit order at \<open>tprice\<close> (the local \<open>t_price\<close>), and the store
  \<open>left_volume -= left_volume\<close> ends the loop.
\<close>

function cpBestBuyLoop :: "Order \<Rightarrow> double \<Rightarrow> int \<Rightarrow> StockExchange \<Rightarrow> StockExchange result" where
  "cpBestBuyLoop order tprice left_volume s =
     (if left_volume = 0 then Inr s
      else case querySellFirst (decl_book s) of
          None \<Rightarrow> Inl Undefined
        | Some sr \<Rightarrow>
            if left_volume < r_volume sr then
              cpBestBuyLoop order tprice (left_volume - left_volume)
                (takeSellFirst left_volume sr
                  (produceTrade (buy_trade (stk_code s) order sr tprice left_volume) s))
            else
              bindE (dropSellFirst
                      (produceTrade (buy_trade (stk_code s) order sr tprice (r_volume sr)) s))
                (\<lambda>s. let left_volume = i32 (left_volume - r_volume sr)
                     in if left_volume = 0 then Inr s
                        else (case querySellFirst (decl_book s) of
                            None \<Rightarrow> restBuy order tprice left_volume s
                          | Some sr' \<Rightarrow>
                              if \<not> deq (r_price sr') tprice
                              then restBuy order tprice left_volume s
                              else cpBestBuyLoop order tprice left_volume s)))"
  by pat_completeness auto
termination
  by (relation "measure (\<lambda>(order, tprice, left_volume, s).
        2 * sells s + (if left_volume = 0 then 0 else 1))")
    (auto dest!: sells_simps(3))

function cpBestSellLoop :: "Order \<Rightarrow> double \<Rightarrow> int \<Rightarrow> StockExchange \<Rightarrow> StockExchange result" where
  "cpBestSellLoop order tprice left_volume s =
     (if left_volume = 0 then Inr s
      else case queryBuyFirst (decl_book s) of
          None \<Rightarrow> Inl Undefined
        | Some br \<Rightarrow>
            if left_volume < r_volume br then
              cpBestSellLoop order tprice (left_volume - left_volume)
                (takeBuyFirst left_volume br
                  (produceTrade (sell_trade (stk_code s) order br tprice left_volume) s))
            else
              bindE (dropBuyFirst
                      (produceTrade (sell_trade (stk_code s) order br tprice (r_volume br)) s))
                (\<lambda>s. let left_volume = i32 (left_volume - r_volume br)
                     in if left_volume = 0 then Inr s
                        else (case queryBuyFirst (decl_book s) of
                            None \<Rightarrow> restSell order tprice left_volume s
                          | Some br' \<Rightarrow>
                              if \<not> deq (r_price br') tprice
                              then restSell order tprice left_volume s
                              else cpBestSellLoop order tprice left_volume s)))"
  by pat_completeness auto
termination
  by (relation "measure (\<lambda>(order, tprice, left_volume, s).
        2 * buys s + (if left_volume = 0 then 0 else 1))")
    (auto dest!: buys_simps(3))

definition handleCounterpartyBest :: "Order \<Rightarrow> StockExchange \<Rightarrow> (int \<times> StockExchange) result" where
  "handleCounterpartyBest order s =
     (if o_direction order = 1 then
        (case querySellFirst (decl_book s) of
            None \<Rightarrow> Inr (-1, s)
          | Some sr \<Rightarrow>
              bindE (cpBestBuyLoop order (r_price sr) (o_volume order) s) (\<lambda>s. Inr (0, s)))
      else if o_direction order = -1 then
        (case queryBuyFirst (decl_book s) of
            None \<Rightarrow> Inr (-1, s)
          | Some br \<Rightarrow>
              bindE (cpBestSellLoop order (r_price br) (o_volume order) s) (\<lambda>s. Inr (0, s)))
      else Inr (0, s))"

section \<open>Type 2: best price of the own side\<close>

definition handleOurBest :: "Order \<Rightarrow> StockExchange \<Rightarrow> (int \<times> StockExchange) result" where
  "handleOurBest order s =
     (if o_direction order = 1 then
        (case queryBuyFirst (decl_book s) of
            None \<Rightarrow> Inr (-1, s)
          | Some br \<Rightarrow> bindE (restBuy order (r_price br) (o_volume order) s) (\<lambda>s. Inr (0, s)))
      else if o_direction order = -1 then
        (case querySellFirst (decl_book s) of
            None \<Rightarrow> Inr (-1, s)
          | Some sr \<Rightarrow> bindE (restSell order (r_price sr) (o_volume order) s) (\<lambda>s. Inr (0, s)))
      else Inr (0, s))"

section \<open>Type 3: best five levels, rest cancelled\<close>

text \<open>The update of \<open>level_count\<close> and \<open>previous_price\<close>, or the \<open>break\<close> at the sixth level.\<close>

definition next_level :: "int \<Rightarrow> double \<Rightarrow> double \<Rightarrow> (int \<times> double) option" where
  "next_level level_count previous_price price =
     (if \<not> deq price previous_price
      then if level_count + 1 > 5 then None else Some (level_count + 1, price)
      else Some (level_count, previous_price))"

function fiveLevelBuyLoop :: "Order \<Rightarrow> int \<Rightarrow> double \<Rightarrow> int \<Rightarrow> StockExchange \<Rightarrow> (int \<times> StockExchange) result" where
  "fiveLevelBuyLoop order level_count previous_price left_volume s =
     (if left_volume = 0 then Inr (left_volume, s)
      else case querySellFirst (decl_book s) of
          None \<Rightarrow> Inr (left_volume, s)
        | Some sr \<Rightarrow>
            (case next_level level_count previous_price (r_price sr) of
                None \<Rightarrow> Inr (left_volume, s)
              | Some (level_count, previous_price) \<Rightarrow>
                  if left_volume < r_volume sr then
                    fiveLevelBuyLoop order level_count previous_price (left_volume - left_volume)
                      (takeSellFirst left_volume sr
                        (produceTrade (buy_trade (stk_code s) order sr (r_price sr) left_volume) s))
                  else
                    bindE (dropSellFirst
                            (produceTrade (buy_trade (stk_code s) order sr (r_price sr) (r_volume sr)) s))
                      (\<lambda>s. fiveLevelBuyLoop order level_count previous_price
                            (i32 (left_volume - r_volume sr)) s)))"
  by pat_completeness auto
termination
  by (relation "measure (\<lambda>(order, level_count, previous_price, left_volume, s).
        2 * sells s + (if left_volume = 0 then 0 else 1))")
    (auto dest!: sells_simps(3))

function fiveLevelSellLoop :: "Order \<Rightarrow> int \<Rightarrow> double \<Rightarrow> int \<Rightarrow> StockExchange \<Rightarrow> (int \<times> StockExchange) result" where
  "fiveLevelSellLoop order level_count previous_price left_volume s =
     (if left_volume = 0 then Inr (left_volume, s)
      else case queryBuyFirst (decl_book s) of
          None \<Rightarrow> Inr (left_volume, s)
        | Some br \<Rightarrow>
            (case next_level level_count previous_price (r_price br) of
                None \<Rightarrow> Inr (left_volume, s)
              | Some (level_count, previous_price) \<Rightarrow>
                  if left_volume < r_volume br then
                    fiveLevelSellLoop order level_count previous_price (left_volume - left_volume)
                      (takeBuyFirst left_volume br
                        (produceTrade (sell_trade (stk_code s) order br (r_price br) left_volume) s))
                  else
                    bindE (dropBuyFirst
                            (produceTrade (sell_trade (stk_code s) order br (r_price br) (r_volume br)) s))
                      (\<lambda>s. fiveLevelSellLoop order level_count previous_price
                            (i32 (left_volume - r_volume br)) s)))"
  by pat_completeness auto
termination
  by (relation "measure (\<lambda>(order, level_count, previous_price, left_volume, s).
        2 * buys s + (if left_volume = 0 then 0 else 1))")
    (auto dest!: buys_simps(3))

definition handleFiveLevelOtherCancel :: "Order \<Rightarrow> StockExchange \<Rightarrow> (int \<times> StockExchange) result" where
  "handleFiveLevelOtherCancel order s =
     (if o_direction order = 1 then
        bindE (fiveLevelBuyLoop order 0 0 (o_volume order) s) (\<lambda>(left_volume, s).
          if left_volume \<noteq> 0 then Inr (left_volume, s) else Inr (0, s))
      else if o_direction order = -1 then
        bindE (fiveLevelSellLoop order 0 0 (o_volume order) s) (\<lambda>(left_volume, s). Inr (0, s))
      else Inr (0, s))"

section \<open>Type 4: immediate, rest cancelled\<close>

function immediateBuyLoop :: "Order \<Rightarrow> int \<Rightarrow> StockExchange \<Rightarrow> (int \<times> StockExchange) result" where
  "immediateBuyLoop order left_volume s =
     (if left_volume = 0 then Inr (left_volume, s)
      else case querySellFirst (decl_book s) of
          None \<Rightarrow> Inr (left_volume, s)
        | Some sr \<Rightarrow>
            if left_volume < r_volume sr then
              immediateBuyLoop order (left_volume - left_volume)
                (takeSellFirst left_volume sr
                  (produceTrade (buy_trade (stk_code s) order sr (r_price sr) left_volume) s))
            else
              bindE (dropSellFirst
                      (produceTrade (buy_trade (stk_code s) order sr (r_price sr) (r_volume sr)) s))
                (\<lambda>s. immediateBuyLoop order (i32 (left_volume - r_volume sr)) s))"
  by pat_completeness auto
termination
  by (relation "measure (\<lambda>(order, left_volume, s). 2 * sells s + (if left_volume = 0 then 0 else 1))")
    (auto dest!: sells_simps(3))

function immediateSellLoop :: "Order \<Rightarrow> int \<Rightarrow> StockExchange \<Rightarrow> (int \<times> StockExchange) result" where
  "immediateSellLoop order left_volume s =
     (if left_volume = 0 then Inr (left_volume, s)
      else case queryBuyFirst (decl_book s) of
          None \<Rightarrow> Inr (left_volume, s)
        | Some br \<Rightarrow>
            if left_volume < r_volume br then
              immediateSellLoop order (left_volume - left_volume)
                (takeBuyFirst left_volume br
                  (produceTrade (sell_trade (stk_code s) order br (r_price br) left_volume) s))
            else
              bindE (dropBuyFirst
                      (produceTrade (sell_trade (stk_code s) order br (r_price br) (r_volume br)) s))
                (\<lambda>s. immediateSellLoop order (i32 (left_volume - r_volume br)) s))"
  by pat_completeness auto
termination
  by (relation "measure (\<lambda>(order, left_volume, s). 2 * buys s + (if left_volume = 0 then 0 else 1))")
    (auto dest!: buys_simps(3))

definition handleImmediateOtherCancel :: "Order \<Rightarrow> StockExchange \<Rightarrow> (int \<times> StockExchange) result" where
  "handleImmediateOtherCancel order s =
     (let left_volume = o_volume order
      in if o_direction order = 1 then
           bindE (immediateBuyLoop order left_volume s) (\<lambda>(left_volume, s).
             if left_volume \<noteq> 0 then Inr (left_volume, s) else Inr (0, s))
         else if o_direction order = -1 then
           bindE (immediateSellLoop order left_volume s) (\<lambda>(left_volume, s).
             if left_volume \<noteq> 0 then Inr (left_volume, s) else Inr (0, s))
         else Inr (0, s))"

section \<open>Type 5: whole or cancel\<close>

function wholeBuyLoop :: "Order \<Rightarrow> int \<Rightarrow> StockExchange \<Rightarrow> (int \<times> StockExchange) result" where
  "wholeBuyLoop order left_volume s =
     (if left_volume = 0 then Inr (left_volume, s)
      else case querySellFirst (decl_book s) of
          None \<Rightarrow> Inl Abort
        | Some sr \<Rightarrow>
            if left_volume < r_volume sr then
              wholeBuyLoop order (left_volume - left_volume)
                (takeSellFirst left_volume sr
                  (produceTrade (buy_trade (stk_code s) order sr (r_price sr) left_volume) s))
            else
              bindE (dropSellFirst
                      (produceTrade (buy_trade (stk_code s) order sr (r_price sr) (r_volume sr)) s))
                (\<lambda>s. wholeBuyLoop order (i32 (left_volume - r_volume sr)) s))"
  by pat_completeness auto
termination
  by (relation "measure (\<lambda>(order, left_volume, s). 2 * sells s + (if left_volume = 0 then 0 else 1))")
    (auto dest!: sells_simps(3))

function wholeSellLoop :: "Order \<Rightarrow> int \<Rightarrow> StockExchange \<Rightarrow> (int \<times> StockExchange) result" where
  "wholeSellLoop order left_volume s =
     (if left_volume = 0 then Inr (left_volume, s)
      else case queryBuyFirst (decl_book s) of
          None \<Rightarrow> Inl Abort
        | Some br \<Rightarrow>
            if left_volume < r_volume br then
              wholeSellLoop order (left_volume - left_volume)
                (takeBuyFirst left_volume br
                  (produceTrade (sell_trade (stk_code s) order br (r_price br) left_volume) s))
            else
              bindE (dropBuyFirst
                      (produceTrade (sell_trade (stk_code s) order br (r_price br) (r_volume br)) s))
                (\<lambda>s. wholeSellLoop order (i32 (left_volume - r_volume br)) s))"
  by pat_completeness auto
termination
  by (relation "measure (\<lambda>(order, left_volume, s). 2 * buys s + (if left_volume = 0 then 0 else 1))")
    (auto dest!: buys_simps(3))

definition handleWholeOrCancel :: "Order \<Rightarrow> StockExchange \<Rightarrow> (int \<times> StockExchange) result" where
  "handleWholeOrCancel order s =
     (let left_volume = o_volume order
      in if o_direction order = 1 then
           if left_volume > totalSellVolume (decl_book s) then Inr (-1, s)
           else bindE (wholeBuyLoop order left_volume s) (\<lambda>(left_volume, s). Inr (0, s))
         else if o_direction order = -1 then
           if left_volume > totalBuyVolume (decl_book s) then Inr (-1, s)
           else bindE (wholeSellLoop order left_volume s) (\<lambda>(left_volume, s). Inr (0, s))
         else Inr (0, s))"

section \<open>Dispatch and sequencing\<close>

text \<open>\<open>commitOrder\<close>: the handler's status is dropped, except for an unknown type.\<close>

definition commitOrder :: "Order \<Rightarrow> StockExchange \<Rightarrow> (int \<times> StockExchange) result" where
  "commitOrder order s =
     (if o_type order = -1 then Inr (0, s)
      else if o_type order = 0 then bindE (handleLimitOrder order s) (\<lambda>(ret, s). Inr (0, s))
      else if o_type order = 1 then bindE (handleCounterpartyBest order s) (\<lambda>(ret, s). Inr (0, s))
      else if o_type order = 2 then bindE (handleOurBest order s) (\<lambda>(ret, s). Inr (0, s))
      else if o_type order = 3 then bindE (handleFiveLevelOtherCancel order s) (\<lambda>(ret, s). Inr (0, s))
      else if o_type order = 4 then bindE (handleImmediateOtherCancel order s) (\<lambda>(ret, s). Inr (0, s))
      else if o_type order = 5 then bindE (handleWholeOrCancel order s) (\<lambda>(ret, s). Inr (0, s))
      else Inr (-1, s))"

definition orderGtById :: "Order \<Rightarrow> Order \<Rightarrow> bool" where
  "orderGtById o1 o2 \<longleftrightarrow> o_order_id o1 > o_order_id o2"

declare limitBuyLoop.simps [simp del] limitSellLoop.simps [simp del]
  cpBestBuyLoop.simps [simp del] cpBestSellLoop.simps [simp del]
  fiveLevelBuyLoop.simps [simp del] fiveLevelSellLoop.simps [simp del]
  immediateBuyLoop.simps [simp del] immediateSellLoop.simps [simp del]
  wholeBuyLoop.simps [simp del] wholeSellLoop.simps [simp del]

text \<open>
  A commit changes the book and the produced trades only; \<open>frame\<close> is the rest of the state. This
  holds for every input, and makes the loop of \<open>receiveOrder\<close> end.
\<close>

definition frame :: "StockExchange \<Rightarrow> int \<times> Order list \<times> int \<times> Trade list" where
  "frame s = (stk_code s, not_ready_orders s, last_commit_order_id s, trade_list s)"

named_theorems frame_intros \<open>steps that keep the frame\<close>

lemma frame_simps [simp]:
  "frame (produceTrade t s) = frame s" "frame (takeSellFirst v r s) = frame s"
  "frame (takeBuyFirst v r s) = frame s"
  by (simp_all add: frame_def produceTrade_def takeSellFirst_def takeBuyFirst_def)

lemma frame_drop [frame_intros]:
  "dropSellFirst s = Inr s' \<Longrightarrow> frame s' = frame s" "dropBuyFirst s = Inr s' \<Longrightarrow> frame s' = frame s"
  "restBuy ord p v s = Inr s' \<Longrightarrow> frame s' = frame s" "restSell ord p v s = Inr s' \<Longrightarrow> frame s' = frame s"
  by (auto simp: frame_def dropSellFirst_def dropBuyFirst_def restBuy_def restSell_def bindE_eq_Inr)

lemma limitBuyLoop_frame [frame_intros]: "limitBuyLoop order left s = Inr (left', s') \<Longrightarrow> frame s' = frame s"
proof (induction order left s rule: limitBuyLoop.induct)
  case 1
  from "1.prems" show ?case
    by (subst (asm) limitBuyLoop.simps) (force simp: bindE_eq_Inr Let_def split: if_splits option.splits
        dest: "1.IH" frame_drop)
qed

lemma limitSellLoop_frame [frame_intros]: "limitSellLoop order left s = Inr (left', s') \<Longrightarrow> frame s' = frame s"
proof (induction order left s rule: limitSellLoop.induct)
  case 1
  from "1.prems" show ?case
    by (subst (asm) limitSellLoop.simps) (force simp: bindE_eq_Inr Let_def split: if_splits option.splits
        dest: "1.IH" frame_drop)
qed

lemma fiveLevelBuyLoop_frame [frame_intros]: "fiveLevelBuyLoop order c prev left s = Inr (left', s') \<Longrightarrow> frame s' = frame s"
proof (induction order c prev left s rule: fiveLevelBuyLoop.induct)
  case 1
  from "1.prems" show ?case
    by (subst (asm) fiveLevelBuyLoop.simps) (force simp: bindE_eq_Inr Let_def split: if_splits option.splits
        dest: "1.IH" frame_drop)
qed

lemma fiveLevelSellLoop_frame [frame_intros]: "fiveLevelSellLoop order c prev left s = Inr (left', s') \<Longrightarrow> frame s' = frame s"
proof (induction order c prev left s rule: fiveLevelSellLoop.induct)
  case 1
  from "1.prems" show ?case
    by (subst (asm) fiveLevelSellLoop.simps) (force simp: bindE_eq_Inr Let_def split: if_splits option.splits
        dest: "1.IH" frame_drop)
qed

lemma immediateBuyLoop_frame [frame_intros]: "immediateBuyLoop order left s = Inr (left', s') \<Longrightarrow> frame s' = frame s"
proof (induction order left s rule: immediateBuyLoop.induct)
  case 1
  from "1.prems" show ?case
    by (subst (asm) immediateBuyLoop.simps) (force simp: bindE_eq_Inr Let_def split: if_splits option.splits
        dest: "1.IH" frame_drop)
qed

lemma immediateSellLoop_frame [frame_intros]: "immediateSellLoop order left s = Inr (left', s') \<Longrightarrow> frame s' = frame s"
proof (induction order left s rule: immediateSellLoop.induct)
  case 1
  from "1.prems" show ?case
    by (subst (asm) immediateSellLoop.simps) (force simp: bindE_eq_Inr Let_def split: if_splits option.splits
        dest: "1.IH" frame_drop)
qed

lemma wholeBuyLoop_frame [frame_intros]: "wholeBuyLoop order left s = Inr (left', s') \<Longrightarrow> frame s' = frame s"
proof (induction order left s rule: wholeBuyLoop.induct)
  case 1
  from "1.prems" show ?case
    by (subst (asm) wholeBuyLoop.simps) (force simp: bindE_eq_Inr Let_def split: if_splits option.splits
        dest: "1.IH" frame_drop)
qed

lemma wholeSellLoop_frame [frame_intros]: "wholeSellLoop order left s = Inr (left', s') \<Longrightarrow> frame s' = frame s"
proof (induction order left s rule: wholeSellLoop.induct)
  case 1
  from "1.prems" show ?case
    by (subst (asm) wholeSellLoop.simps) (force simp: bindE_eq_Inr Let_def split: if_splits option.splits
        dest: "1.IH" frame_drop)
qed

lemma cpBestBuyLoop_frame [frame_intros]: "cpBestBuyLoop order p left s = Inr s' \<Longrightarrow> frame s' = frame s"
proof (induction order p left s rule: cpBestBuyLoop.induct)
  case (1 order p left s)
  note def = "1.prems" [unfolded cpBestBuyLoop.simps [of order p left s]]
  show ?case
  proof (cases "left = 0")
    case False
    then obtain r where r: "querySellFirst (decl_book s) = Some r" using def by (auto split: option.splits)
    show ?thesis
    proof (cases "left < r_volume r")
      case True
      then show ?thesis using def "1.IH"(1) [OF False r True] False r by simp
    next
      case le: False
      then obtain s1 where d: "dropSellFirst (produceTrade (buy_trade (stk_code s) order r p (r_volume r)) s) = Inr s1"
        using def False r by (auto simp: bindE_eq_Inr)
      then have f: "frame s1 = frame s" by (auto dest: frame_drop)
      show ?thesis using def False r le d f "1.IH"(2) [OF False r le d refl]
        by (auto simp: Let_def split: if_splits option.splits dest: frame_drop)
    qed
  qed (use def in simp)
qed

lemma cpBestSellLoop_frame [frame_intros]: "cpBestSellLoop order p left s = Inr s' \<Longrightarrow> frame s' = frame s"
proof (induction order p left s rule: cpBestSellLoop.induct)
  case (1 order p left s)
  note def = "1.prems" [unfolded cpBestSellLoop.simps [of order p left s]]
  show ?case
  proof (cases "left = 0")
    case False
    then obtain r where r: "queryBuyFirst (decl_book s) = Some r" using def by (auto split: option.splits)
    show ?thesis
    proof (cases "left < r_volume r")
      case True
      then show ?thesis using def "1.IH"(1) [OF False r True] False r by simp
    next
      case le: False
      then obtain s1 where d: "dropBuyFirst (produceTrade (sell_trade (stk_code s) order r p (r_volume r)) s) = Inr s1"
        using def False r by (auto simp: bindE_eq_Inr)
      then have f: "frame s1 = frame s" by (auto dest: frame_drop)
      show ?thesis using def False r le d f "1.IH"(2) [OF False r le d refl]
        by (auto simp: Let_def split: if_splits option.splits dest: frame_drop)
    qed
  qed (use def in simp)
qed

lemma commitOrder_frame:
  assumes "commitOrder order s = Inr (ret, s')" shows "frame s' = frame s"
proof -
  have H: "frame s' = frame s" if "handleLimitOrder order s = Inr (r, s')" for r s'
    using that by (auto simp: handleLimitOrder_def Let_def bindE_eq_Inr split: if_splits dest!: frame_intros)
  have C: "frame s' = frame s" if "handleCounterpartyBest order s = Inr (r, s')" for r s'
    using that by (auto simp: handleCounterpartyBest_def bindE_eq_Inr split: if_splits option.splits dest!: frame_intros)
  have O: "frame s' = frame s" if "handleOurBest order s = Inr (r, s')" for r s'
    using that by (auto simp: handleOurBest_def bindE_eq_Inr split: if_splits option.splits dest!: frame_intros)
  have F: "frame s' = frame s" if "handleFiveLevelOtherCancel order s = Inr (r, s')" for r s'
    using that by (auto simp: handleFiveLevelOtherCancel_def bindE_eq_Inr split: if_splits dest!: frame_intros)
  have I: "frame s' = frame s" if "handleImmediateOtherCancel order s = Inr (r, s')" for r s'
    using that by (auto simp: handleImmediateOtherCancel_def Let_def bindE_eq_Inr split: if_splits dest!: frame_intros)
  have W: "frame s' = frame s" if "handleWholeOrCancel order s = Inr (r, s')" for r s'
    using that by (auto simp: handleWholeOrCancel_def Let_def bindE_eq_Inr split: if_splits dest!: frame_intros)
  from assms show ?thesis
    by (auto simp: commitOrder_def bindE_eq_Inr split: if_splits dest!: H C O F I W)
qed

lemma commitOrder_not_ready: "commitOrder order s = Inr (ret, s') \<Longrightarrow> not_ready_orders s' = not_ready_orders s"
  using commitOrder_frame by (simp add: frame_def)

text \<open>The loop of \<open>receiveOrder\<close>: commit the head of the heap while it is the next id.\<close>

function commitReady :: "int \<Rightarrow> StockExchange \<Rightarrow> (int \<times> StockExchange) result" where
  "commitReady ret s =
     (if not_ready_orders s = [] then Inr (ret, s)
      else if i32 (last_commit_order_id s + 1) \<noteq> o_order_id (not_ready_orders s ! 0) then Inr (ret, s)
      else
        bindE (commitOrder (not_ready_orders s ! 0) s) (\<lambda>(ret, s).
          commitReady ret
            (s\<lparr>not_ready_orders := butlast (pop_heap orderGtById (not_ready_orders s)),
               last_commit_order_id := i32 (last_commit_order_id s + 1)\<rparr>)))"
  by pat_completeness auto
termination
  by (relation "measure (\<lambda>(ret, s). length (not_ready_orders s))")
    (auto dest!: commitOrder_not_ready simp: pop_heap_frame(1))

declare commitReady.simps [simp del]

definition receiveOrder :: "Order \<Rightarrow> StockExchange \<Rightarrow> (int \<times> StockExchange) result" where
  "receiveOrder order s =
     (if o_stk_code order \<noteq> stk_code s then Inl Abort
      else commitReady 0
        (s\<lparr>not_ready_orders := push_heap orderGtById (not_ready_orders s @ [order])\<rparr>))"

text \<open>One round of \<open>run\<close>: the orders that \<open>comsumeOrder\<close> returned, in turn.\<close>

fun receiveOrders :: "Order list \<Rightarrow> StockExchange \<Rightarrow> StockExchange result" where
  "receiveOrders [] s = Inr s"
| "receiveOrders (order # orders) s = bindE (receiveOrder order s) (\<lambda>(ret, s). receiveOrders orders s)"

end
