(* ===== verification/Matching.thy ===== *)
theory Matching
  imports Stock_Exchange
begin

text \<open>
  What the matching loops of the exchange compute. The specification \<open>fill\<close> matches an incoming
  volume against a list of records, best first, under a rule \<open>adv\<close> that admits or refuses the next
  record; \<open>loop_refines\<close> shows once, for either side of the book, that a loop of the shape of the
  source implements \<open>fill\<close>. Each loop of the exchange is an instance.
\<close>

section \<open>Specification\<close>

fun fill :: "('l \<Rightarrow> Record \<Rightarrow> 'l option) \<Rightarrow> (Record \<Rightarrow> int \<Rightarrow> Trade) \<Rightarrow> 'l \<Rightarrow> int \<Rightarrow> Record list
    \<Rightarrow> Trade list \<times> int \<times> Record list" where
  "fill adv mk l left [] = ([], left, [])"
| "fill adv mk l left (r # rs) =
     (if left = 0 then ([], left, r # rs)
      else case adv l r of
          None \<Rightarrow> ([], left, r # rs)
        | Some l' \<Rightarrow>
            if left < r_volume r then ([mk r left], 0, r\<lparr>r_volume := r_volume r - left\<rparr> # rs)
            else (case fill adv mk l' (left - r_volume r) rs of
                (ts, left', rs') \<Rightarrow> (mk r (r_volume r) # ts, left', rs')))"

text \<open>The rules of the loops.\<close>

definition adv_limit :: "(double \<Rightarrow> bool) \<Rightarrow> unit \<Rightarrow> Record \<Rightarrow> unit option" where
  "adv_limit stop u r = (if stop (r_price r) then None else Some ())"

definition adv_all :: "unit \<Rightarrow> Record \<Rightarrow> unit option" where
  "adv_all u r = Some ()"

definition adv_level :: "int \<times> double \<Rightarrow> Record \<Rightarrow> (int \<times> double) option" where
  "adv_level l r = next_level (fst l) (snd l) (r_price r)"

section \<open>The loops implement the specification\<close>

lemma wf_side_best_first:
  "wf_side key h \<Longrightarrow> best_first key h = r # rs \<Longrightarrow> wf_record r"
  by (metis list.set_intros(1) list_all_iff set_best_first wf_side_def)

lemma fill_zero [simp]: "fill adv mk l 0 rs = ([], 0, rs)"
  by (cases rs) simp_all

lemma fill_ConsE [consumes 1, case_names stop part all]:
  assumes "fill adv mk l left (r # rs) = (ts, left', rs')"
  obtains "left = 0 \<or> adv l r = None" "ts = []" "left' = left" "rs' = r # rs"
  | l' where "left \<noteq> 0" "adv l r = Some l'" "left < r_volume r"
      "ts = [mk r left]" "left' = 0" "rs' = r\<lparr>r_volume := r_volume r - left\<rparr> # rs"
  | l' ts2 where "left \<noteq> 0" "adv l r = Some l'" "r_volume r \<le> left"
      "ts = mk r (r_volume r) # ts2" "fill adv mk l' (left - r_volume r) rs = (ts2, left', rs')"
proof (cases "left = 0 \<or> adv l r = None")
  case True
  then have "ts = []" "left' = left" "rs' = r # rs" using assms by (auto split: if_splits)
  with True show ?thesis by (rule that(1))
next
  case False
  then obtain l' where l': "adv l r = Some l'" "left \<noteq> 0" by auto
  show ?thesis
  proof (cases "left < r_volume r")
    case True
    show ?thesis using assms l' True by (intro that(2) [of l']) simp_all
  next
    case False
    obtain ts2 a b where "fill adv mk l' (left - r_volume r) rs = (ts2, a, b)"
      by (cases "fill adv mk l' (left - r_volume r) rs")
    then show ?thesis using assms l' False by (intro that(3) [of l' ts2]) simp_all
  qed
qed

text \<open>
  A side of the book as the loops work on it: besides the operations of \<open>book_side\<close>, a loop takes
  a part of the first record or drops it, each on the state of the exchange.
\<close>

locale matching_side = book_side +
  fixes take_first :: "int \<Rightarrow> Record \<Rightarrow> StockExchange \<Rightarrow> StockExchange"
    and drop_first :: "StockExchange \<Rightarrow> StockExchange result"
  assumes take_first: "take_first v r s =
      s\<lparr>decl_book := set_first (r\<lparr>r_volume := i32 (r_volume r - v)\<rparr>) (decl_book s)\<rparr>"
    and drop_first: "drop_first s = bindE (remove (decl_book s)) (\<lambda>b. Inr (s\<lparr>decl_book := b\<rparr>))"
begin

lemma first_wf:
  assumes "wf_side key (vec (decl_book s))" and "best_first key (vec (decl_book s)) = r # rs"
  shows "query (decl_book s) = Some r" and "0 < r_volume r" and "in_i32 (r_volume r)"
  using query_cons [OF assms] wf_side_best_first [OF assms] by (simp_all add: wf_record_def)

text \<open>A trade that takes a part of the first record, and one that takes all of it.\<close>

lemma take_step:
  assumes wf: "wf_side key (vec (decl_book s))" and bf: "best_first key (vec (decl_book s)) = r # rs"
    and v: "0 \<le> v" "v < r_volume r"
  obtains b where "take_first v r (produceTrade t s) = s\<lparr>produced := produced s @ [t], decl_book := b\<rparr>"
    "wf_side key (vec b)" "best_first key (vec b) = r\<lparr>r_volume := r_volume r - v\<rparr> # rs"
    "other b = other (decl_book s)"
proof -
  have "0 < r_volume r - v" and i: "in_i32 (r_volume r - v)"
    using first_wf [OF wf bf] v by (auto simp: in_i32_def)
  from set_cons [OF wf bf this] i show thesis
    by (intro that [of "set_first (r\<lparr>r_volume := r_volume r - v\<rparr>) (decl_book s)"])
      (simp_all add: take_first produceTrade_def)
qed

lemma drop_step:
  assumes "wf_side key (vec (decl_book s))" and "best_first key (vec (decl_book s)) = r # rs"
  obtains b where "drop_first (produceTrade t s) = Inr (s\<lparr>produced := produced s @ [t], decl_book := b\<rparr>)"
    "wf_side key (vec b)" "best_first key (vec b) = rs" "other b = other (decl_book s)"
  using remove_cons [OF assms] by (auto simp: drop_first produceTrade_def intro: that)

lemma left_after:
  assumes "wf_side key (vec (decl_book s))" and "best_first key (vec (decl_book s)) = r # rs"
    and "r_volume r \<le> left" and "in_i32 left"
  shows "0 \<le> left - r_volume r" and "in_i32 (left - r_volume r)"
  using first_wf [OF assms(1,2)] assms(3,4) by (auto simp: in_i32_def)

lemma loop_refines:
  fixes loop :: "'l \<Rightarrow> int \<Rightarrow> StockExchange \<Rightarrow> (int \<times> StockExchange) result"
  assumes eq: "\<And>l left s. loop l left s =
      (if left = 0 then Inr (left, s)
       else case query (decl_book s) of
           None \<Rightarrow> fin left s
         | Some r \<Rightarrow>
             (case adv l r of
                 None \<Rightarrow> Inr (left, s)
               | Some l' \<Rightarrow>
                   if left < r_volume r
                   then loop l' (left - left) (take_first left r (produceTrade (mk (stk_code s) r left) s))
                   else bindE (drop_first (produceTrade (mk (stk_code s) r (r_volume r)) s))
                          (\<lambda>s. loop l' (i32 (left - r_volume r)) s)))"
    and wf: "wf_side key (vec (decl_book s))" and left: "0 \<le> left" "in_i32 left"
    and fl: "fill adv (mk (stk_code s)) l left (best_first key (vec (decl_book s))) = (ts, left', rs')"
    and fin: "left' = 0 \<or> (\<forall>left s. fin left s = Inr (left, s))"
  shows "\<exists>b. loop l left s = Inr (left', s\<lparr>produced := produced s @ ts, decl_book := b\<rparr>)
    \<and> wf_side key (vec b) \<and> best_first key (vec b) = rs' \<and> other b = other (decl_book s)"
  using wf left fl
proof (induction "best_first key (vec (decl_book s))" arbitrary: l left s ts)
  case Nil
  then have "loop l left s = Inr (left, s)"
    using fin query_nil [of "decl_book s"] by (subst eq) auto
  then show ?case using Nil by (intro exI [of _ "decl_book s"]) (auto simp flip: Nil.hyps)
next
  case (Cons r rs)
  note bf = Cons.hyps(2) [symmetric]
  note q = first_wf(1) [OF Cons.prems(1) bf]
  from Cons.prems(4) have "fill adv (mk (stk_code s)) l left (r # rs) = (ts, left', rs')"
    by (simp only: bf)
  then show ?case
  proof (cases rule: fill_ConsE)
    case stop
    then have "loop l left s = Inr (left, s)" by (subst eq) (auto simp: q)
    with stop show ?thesis using Cons.prems(1) bf by (intro exI [of _ "decl_book s"]) simp
  next
    case (part l')
    obtain b where b: "take_first left r (produceTrade (mk (stk_code s) r left) s)
        = s\<lparr>produced := produced s @ ts, decl_book := b\<rparr>"
      "wf_side key (vec b)" "best_first key (vec b) = rs'" "other b = other (decl_book s)"
      using take_step [OF Cons.prems(1) bf Cons.prems(2) part(3)] part by blast
    have "loop l left s = loop l' 0 (s\<lparr>produced := produced s @ ts, decl_book := b\<rparr>)"
      using part b by (subst eq) (simp add: q)
    also have "\<dots> = Inr (0, s\<lparr>produced := produced s @ ts, decl_book := b\<rparr>)"
      by (subst eq) simp
    finally show ?thesis using b part by blast
  next
    case (all l' ts2)
    let ?t = "mk (stk_code s) r (r_volume r)" and ?left = "left - r_volume r"
    obtain b where b: "drop_first (produceTrade ?t s)
        = Inr (s\<lparr>produced := produced s @ [?t], decl_book := b\<rparr>)" (is "_ = Inr ?s")
      "wf_side key (vec b)" "best_first key (vec b) = rs" "other b = other (decl_book s)"
      using drop_step [OF Cons.prems(1) bf] by blast
    note lv = left_after [OF Cons.prems(1) bf all(3) Cons.prems(3)]
    have "loop l left s = loop l' ?left ?s"
      using all b lv by (subst eq) (simp add: q)
    then show ?thesis using Cons.hyps(1) [of ?s ?left l' ts2] b lv all by auto
  qed
qed

text \<open>The loop of a counterparty-best order, which rests its residue in the book itself.\<close>

lemma cp_loop_refines:
  fixes loop :: "int \<Rightarrow> StockExchange \<Rightarrow> StockExchange result"
  assumes eq: "\<And>left s. loop left s =
      (if left = 0 then Inr s
       else case query (decl_book s) of
           None \<Rightarrow> Inl Undefined
         | Some r \<Rightarrow>
             if left < r_volume r
             then loop (left - left) (take_first left r (produceTrade (mk (stk_code s) r left) s))
             else bindE (drop_first (produceTrade (mk (stk_code s) r (r_volume r)) s))
               (\<lambda>s. let left = i32 (left - r_volume r)
                    in if left = 0 then Inr s
                       else (case query (decl_book s) of
                           None \<Rightarrow> rest left s
                         | Some r' \<Rightarrow> if \<not> deq (r_price r') p then rest left s else loop left s)))"
    and wf: "wf_side key (vec (decl_book s))" and left: "0 < left" "in_i32 left"
    and bf: "best_first key (vec (decl_book s)) = r # rs" and rp: "deq (r_price r) p"
    and fl: "fill (adv_limit (\<lambda>q. \<not> deq q p)) (mk (stk_code s)) () left (r # rs) = (ts, left', rs')"
  shows "\<exists>b. loop left s =
      (let s' = s\<lparr>produced := produced s @ ts, decl_book := b\<rparr> in if left' = 0 then Inr s' else rest left' s')
    \<and> wf_side key (vec b) \<and> best_first key (vec b) = rs' \<and> other b = other (decl_book s)"
  using wf left bf rp fl
proof (induction "length rs" arbitrary: left s r rs ts rule: less_induct)
  case (less rs left s r ts)
  note bf = less.prems(4)
  note q = first_wf(1) [OF less.prems(1) bf]
  have left: "left \<noteq> 0" using less.prems(2) by simp
  from less.prems(6) show ?case
  proof (cases rule: fill_ConsE)
    case stop
    then show ?thesis using less.prems(5) left by (simp add: adv_limit_def)
  next
    case (part l')
    obtain b where b: "take_first left r (produceTrade (mk (stk_code s) r left) s)
        = s\<lparr>produced := produced s @ ts, decl_book := b\<rparr>"
      "wf_side key (vec b)" "best_first key (vec b) = rs'" "other b = other (decl_book s)"
      using take_step [OF less.prems(1) bf less_imp_le [OF less.prems(2)] part(3)] part by blast
    have "loop left s = loop 0 (s\<lparr>produced := produced s @ ts, decl_book := b\<rparr>)"
      using part b by (subst eq) (simp add: q)
    also have "\<dots> = Inr (s\<lparr>produced := produced s @ ts, decl_book := b\<rparr>)"
      by (subst eq) simp
    finally show ?thesis using b part by (intro exI [of _ b]) simp
  next
    case (all l' ts2)
    let ?t = "mk (stk_code s) r (r_volume r)" and ?left = "left - r_volume r"
    obtain b where b: "drop_first (produceTrade ?t s)
        = Inr (s\<lparr>produced := produced s @ [?t], decl_book := b\<rparr>)" (is "_ = Inr ?s")
      "wf_side key (vec b)" "best_first key (vec b) = rs" "other b = other (decl_book s)"
      using drop_step [OF less.prems(1) bf] by blast
    note lv = left_after [OF less.prems(1) bf all(3) less.prems(3)]
    have step: "loop left s = (if ?left = 0 then Inr ?s else case query b of None \<Rightarrow> rest ?left ?s
        | Some r' \<Rightarrow> if \<not> deq (r_price r') p then rest ?left ?s else loop ?left ?s)"
      using all b(1) lv by (subst eq) (simp add: q Let_def)
    show ?thesis
    proof (cases "?left = 0 \<or> rs = [] \<or> \<not> deq (r_price (hd rs)) p")
      case True
      then have r: "ts2 = []" "left' = ?left" "rs' = rs"
        using all(5) by (cases rs; force simp: adv_limit_def split: if_splits)+
      have "loop left s = (if left' = 0 then Inr ?s else rest left' ?s)"
        using True step b query_nil [of b] query_cons [of b "hd rs" "tl rs"] r
        by (cases rs) (auto split: if_splits)
      then show ?thesis using r all b by (intro exI [of _ b]) simp
    next
      case False
      then obtain r2 rs2 where rs: "rs = r2 # rs2" and d: "deq (r_price r2) p" by (cases rs) auto
      have "query b = Some r2" using b rs by (intro query_cons) simp_all
      then have "loop left s = loop ?left ?s" using step False d by simp
      then show ?thesis using less.hyps [of rs2 ?s ?left r2 ts2] rs b lv d all False by (auto simp: Let_def)
    qed
  qed
qed

end

interpretation sl: matching_side querySellFirst removeSellFirst setSellFirst insertSellDecl sell_key
  sell_decls buy_decls takeSellFirst dropSellFirst
  by unfold_locales (simp_all add: takeSellFirst_def dropSellFirst_def)

interpretation bl: matching_side queryBuyFirst removeBuyFirst setBuyFirst insertBuyDecl buy_key
  buy_decls sell_decls takeBuyFirst dropBuyFirst
  by unfold_locales (simp_all add: takeBuyFirst_def dropBuyFirst_def)

section \<open>Each loop of the exchange\<close>

lemma limitBuyLoop_refines:
  assumes "wf_side sell_key (sell_decls (decl_book s))" and "0 \<le> left" and "in_i32 left"
    and "fill (adv_limit (\<lambda>p. dgt p (o_price order))) (\<lambda>r v. buy_trade (stk_code s) order r (r_price r) v) () left
      (sell_side (decl_book s)) = (ts, left', rs')"
  shows "\<exists>b. limitBuyLoop order left s = Inr (left', s\<lparr>produced := produced s @ ts, decl_book := b\<rparr>)
    \<and> wf_side sell_key (sell_decls b) \<and> sell_side b = rs' \<and> buy_decls b = buy_decls (decl_book s)"
  unfolding sell_side_def
  by (rule sl.loop_refines [where loop = "\<lambda>_. limitBuyLoop order" and fin = "\<lambda>left s. Inr (left, s)"
        and mk = "\<lambda>c r v. buy_trade c order r (r_price r) v" and adv = "(adv_limit (\<lambda>p. dgt p (o_price order)))"])
    (subst limitBuyLoop.simps, use assms in \<open>simp_all add: adv_limit_def
      sell_side_def split: option.split\<close>)

lemma limitSellLoop_refines:
  assumes "wf_side buy_key (buy_decls (decl_book s))" and "0 \<le> left" and "in_i32 left"
    and "fill (adv_limit (\<lambda>p. dlt p (o_price order))) (\<lambda>r v. sell_trade (stk_code s) order r (r_price r) v) () left
      (buy_side (decl_book s)) = (ts, left', rs')"
  shows "\<exists>b. limitSellLoop order left s = Inr (left', s\<lparr>produced := produced s @ ts, decl_book := b\<rparr>)
    \<and> wf_side buy_key (buy_decls b) \<and> buy_side b = rs' \<and> sell_decls b = sell_decls (decl_book s)"
  unfolding buy_side_def
  by (rule bl.loop_refines [where loop = "\<lambda>_. limitSellLoop order" and fin = "\<lambda>left s. Inr (left, s)"
        and mk = "\<lambda>c r v. sell_trade c order r (r_price r) v" and adv = "(adv_limit (\<lambda>p. dlt p (o_price order)))"])
    (subst limitSellLoop.simps, use assms in \<open>simp_all add: adv_limit_def
      buy_side_def split: option.split\<close>)

lemma fiveLevelBuyLoop_refines:
  assumes "wf_side sell_key (sell_decls (decl_book s))" and "0 \<le> left" and "in_i32 left"
    and "fill adv_level (\<lambda>r v. buy_trade (stk_code s) order r (r_price r) v) l left
      (sell_side (decl_book s)) = (ts, left', rs')"
  shows "\<exists>b. fiveLevelBuyLoop order (fst l) (snd l) left s = Inr (left', s\<lparr>produced := produced s @ ts, decl_book := b\<rparr>)
    \<and> wf_side sell_key (sell_decls b) \<and> sell_side b = rs' \<and> buy_decls b = buy_decls (decl_book s)"
  unfolding sell_side_def
  by (rule sl.loop_refines [where loop = "\<lambda>l. fiveLevelBuyLoop order (fst l) (snd l)" and fin = "\<lambda>left s. Inr (left, s)"
        and mk = "\<lambda>c r v. buy_trade c order r (r_price r) v" and adv = "adv_level"])
    (subst fiveLevelBuyLoop.simps, use assms in \<open>simp_all add: adv_level_def
      sell_side_def split: option.split\<close>)

lemma fiveLevelSellLoop_refines:
  assumes "wf_side buy_key (buy_decls (decl_book s))" and "0 \<le> left" and "in_i32 left"
    and "fill adv_level (\<lambda>r v. sell_trade (stk_code s) order r (r_price r) v) l left
      (buy_side (decl_book s)) = (ts, left', rs')"
  shows "\<exists>b. fiveLevelSellLoop order (fst l) (snd l) left s = Inr (left', s\<lparr>produced := produced s @ ts, decl_book := b\<rparr>)
    \<and> wf_side buy_key (buy_decls b) \<and> buy_side b = rs' \<and> sell_decls b = sell_decls (decl_book s)"
  unfolding buy_side_def
  by (rule bl.loop_refines [where loop = "\<lambda>l. fiveLevelSellLoop order (fst l) (snd l)" and fin = "\<lambda>left s. Inr (left, s)"
        and mk = "\<lambda>c r v. sell_trade c order r (r_price r) v" and adv = "adv_level"])
    (subst fiveLevelSellLoop.simps, use assms in \<open>simp_all add: adv_level_def
      buy_side_def split: option.split\<close>)

lemma immediateBuyLoop_refines:
  assumes "wf_side sell_key (sell_decls (decl_book s))" and "0 \<le> left" and "in_i32 left"
    and "fill adv_all (\<lambda>r v. buy_trade (stk_code s) order r (r_price r) v) () left
      (sell_side (decl_book s)) = (ts, left', rs')"
  shows "\<exists>b. immediateBuyLoop order left s = Inr (left', s\<lparr>produced := produced s @ ts, decl_book := b\<rparr>)
    \<and> wf_side sell_key (sell_decls b) \<and> sell_side b = rs' \<and> buy_decls b = buy_decls (decl_book s)"
  unfolding sell_side_def
  by (rule sl.loop_refines [where loop = "\<lambda>_. immediateBuyLoop order" and fin = "\<lambda>left s. Inr (left, s)"
        and mk = "\<lambda>c r v. buy_trade c order r (r_price r) v" and adv = "adv_all"])
    (subst immediateBuyLoop.simps, use assms in \<open>simp_all add: adv_all_def
      sell_side_def split: option.split\<close>)

lemma immediateSellLoop_refines:
  assumes "wf_side buy_key (buy_decls (decl_book s))" and "0 \<le> left" and "in_i32 left"
    and "fill adv_all (\<lambda>r v. sell_trade (stk_code s) order r (r_price r) v) () left
      (buy_side (decl_book s)) = (ts, left', rs')"
  shows "\<exists>b. immediateSellLoop order left s = Inr (left', s\<lparr>produced := produced s @ ts, decl_book := b\<rparr>)
    \<and> wf_side buy_key (buy_decls b) \<and> buy_side b = rs' \<and> sell_decls b = sell_decls (decl_book s)"
  unfolding buy_side_def
  by (rule bl.loop_refines [where loop = "\<lambda>_. immediateSellLoop order" and fin = "\<lambda>left s. Inr (left, s)"
        and mk = "\<lambda>c r v. sell_trade c order r (r_price r) v" and adv = "adv_all"])
    (subst immediateSellLoop.simps, use assms in \<open>simp_all add: adv_all_def
      buy_side_def split: option.split\<close>)

lemma wholeBuyLoop_refines:
  assumes "wf_side sell_key (sell_decls (decl_book s))" and "0 \<le> left" and "in_i32 left"
    and "fill adv_all (\<lambda>r v. buy_trade (stk_code s) order r (r_price r) v) () left
      (sell_side (decl_book s)) = (ts, left', rs')" and "left' = 0"
  shows "\<exists>b. wholeBuyLoop order left s = Inr (left', s\<lparr>produced := produced s @ ts, decl_book := b\<rparr>)
    \<and> wf_side sell_key (sell_decls b) \<and> sell_side b = rs' \<and> buy_decls b = buy_decls (decl_book s)"
  unfolding sell_side_def
  by (rule sl.loop_refines [where loop = "\<lambda>_. wholeBuyLoop order" and fin = "\<lambda>left s. Inl Abort"
        and mk = "\<lambda>c r v. buy_trade c order r (r_price r) v" and adv = "adv_all"])
    (subst wholeBuyLoop.simps, use assms in \<open>simp_all add: adv_all_def
      sell_side_def split: option.split\<close>)

lemma wholeSellLoop_refines:
  assumes "wf_side buy_key (buy_decls (decl_book s))" and "0 \<le> left" and "in_i32 left"
    and "fill adv_all (\<lambda>r v. sell_trade (stk_code s) order r (r_price r) v) () left
      (buy_side (decl_book s)) = (ts, left', rs')" and "left' = 0"
  shows "\<exists>b. wholeSellLoop order left s = Inr (left', s\<lparr>produced := produced s @ ts, decl_book := b\<rparr>)
    \<and> wf_side buy_key (buy_decls b) \<and> buy_side b = rs' \<and> sell_decls b = sell_decls (decl_book s)"
  unfolding buy_side_def
  by (rule bl.loop_refines [where loop = "\<lambda>_. wholeSellLoop order" and fin = "\<lambda>left s. Inl Abort"
        and mk = "\<lambda>c r v. sell_trade c order r (r_price r) v" and adv = "adv_all"])
    (subst wholeSellLoop.simps, use assms in \<open>simp_all add: adv_all_def
      buy_side_def split: option.split\<close>)

lemma cpBestBuyLoop_refines:
  assumes "wf_side sell_key (sell_decls (decl_book s))" and "0 < left" and "in_i32 left"
    and "sell_side (decl_book s) = r # rs" and "deq (r_price r) p"
    and "fill (adv_limit (\<lambda>q. \<not> deq q p)) (\<lambda>r v. buy_trade (stk_code s) order r p v) () left
      (r # rs) = (ts, left', rs')"
  shows "\<exists>b. cpBestBuyLoop order p left s =
      (let s' = s\<lparr>produced := produced s @ ts, decl_book := b\<rparr>
       in if left' = 0 then Inr s' else restBuy order p left' s')
    \<and> wf_side sell_key (sell_decls b) \<and> sell_side b = rs' \<and> buy_decls b = buy_decls (decl_book s)"
  unfolding sell_side_def
  by (rule sl.cp_loop_refines [where loop = "cpBestBuyLoop order p" and rest = "restBuy order p"
        and mk = "\<lambda>c r v. buy_trade c order r p v" and p = p and r = r and rs = rs])
    (subst cpBestBuyLoop.simps, use assms in \<open>simp_all add: sell_side_def split: option.split\<close>)

lemma cpBestSellLoop_refines:
  assumes "wf_side buy_key (buy_decls (decl_book s))" and "0 < left" and "in_i32 left"
    and "buy_side (decl_book s) = r # rs" and "deq (r_price r) p"
    and "fill (adv_limit (\<lambda>q. \<not> deq q p)) (\<lambda>r v. sell_trade (stk_code s) order r p v) () left
      (r # rs) = (ts, left', rs')"
  shows "\<exists>b. cpBestSellLoop order p left s =
      (let s' = s\<lparr>produced := produced s @ ts, decl_book := b\<rparr>
       in if left' = 0 then Inr s' else restSell order p left' s')
    \<and> wf_side buy_key (buy_decls b) \<and> buy_side b = rs' \<and> sell_decls b = sell_decls (decl_book s)"
  unfolding buy_side_def
  by (rule bl.cp_loop_refines [where loop = "cpBestSellLoop order p" and rest = "restSell order p"
        and mk = "\<lambda>c r v. sell_trade c order r p v" and p = p and r = r and rs = rs])
    (subst cpBestSellLoop.simps, use assms in \<open>simp_all add: buy_side_def split: option.split\<close>)

section \<open>Properties of the specification\<close>

text \<open>The record list that is left: a suffix, of which the first record may be reduced.\<close>

abbreviation id_price :: "Record \<Rightarrow> int \<times> double" where
  "id_price r \<equiv> (r_order_id r, r_price r)"

lemma fill_suffix:
  assumes "fill adv mk l left rs = (ts, left', rs')"
  shows "\<exists>n. map id_price rs' = drop n (map id_price rs)"
  using assms
proof (induction rs arbitrary: l left ts)
  case (Cons r rs)
  from Cons.prems show ?case
  proof (cases rule: fill_ConsE)
    case (all l' ts2)
    then obtain n where "map id_price rs' = drop n (map id_price rs)" using Cons.IH by blast
    then show ?thesis by (intro exI [of _ "Suc n"]) simp
  qed (auto intro: exI [of _ 0])
qed simp

lemma fill_wf:
  assumes "fill adv mk l left rs = (ts, left', rs')" and "0 \<le> left" and "list_all wf_record rs"
  shows "list_all wf_record rs'"
  using assms
proof (induction rs arbitrary: l left ts)
  case (Cons r rs)
  from Cons.prems(1) show ?case
  proof (cases rule: fill_ConsE)
    case (all l' ts2)
    then show ?thesis using Cons.IH Cons.prems by auto
  qed (use Cons.prems in \<open>auto simp: wf_record_def num_price_def in_i32_def\<close>)
qed simp

text \<open>No volume is created or lost.\<close>

lemma fill_volume:
  assumes "fill adv mk l left rs = (ts, left', rs')" and "\<And>r v. t_volume (mk r v) = v"
  shows "sum_list (map t_volume ts) + left' = left
    \<and> sum_list (map t_volume ts) + sum_list (map r_volume rs') = sum_list (map r_volume rs)"
  using assms(1)
proof (induction rs arbitrary: l left ts)
  case (Cons r rs)
  from Cons.prems show ?case
  proof (cases rule: fill_ConsE)
    case (all l' ts2)
    then show ?thesis using Cons.IH [OF all(5)] by (auto simp: assms(2))
  qed (auto simp: assms(2))
qed simp

lemma fill_bounds:
  assumes "fill adv mk l left rs = (ts, left', rs')" and "0 \<le> left" and "list_all wf_record rs"
    and "\<And>r v. t_volume (mk r v) = v"
  shows "0 \<le> left' \<and> left' \<le> left \<and> (\<forall>t \<in> set ts. 0 < t_volume t)"
  using assms(1-3)
proof (induction rs arbitrary: l left ts)
  case (Cons r rs)
  have r: "0 < r_volume r" using Cons.prems(3) by (simp add: wf_record_def)
  from Cons.prems(1) show ?case
  proof (cases rule: fill_ConsE)
    case (all l' ts2)
    then show ?thesis using Cons.IH [OF all(5)] Cons.prems r by (auto simp: assms(4))
  qed (use Cons.prems r in \<open>auto simp: assms(4)\<close>)
qed simp

text \<open>A residue means that the side is exhausted or that the rule refuses the next record.\<close>

lemma fill_residue:
  assumes "fill adv mk l left rs = (ts, left', rs')" and "left' \<noteq> 0"
  shows "rs' = [] \<or> (\<exists>l' r rs2. rs' = r # rs2 \<and> adv l' r = None)"
  using assms(1)
proof (induction rs arbitrary: l left ts)
  case (Cons r rs)
  from Cons.prems(1) show ?case
  proof (cases rule: fill_ConsE)
    case (all l' ts2)
    then show ?thesis using Cons.IH by blast
  qed (use assms(2) in auto)
qed simp

text \<open>Every trade is with a record that the rule admitted.\<close>

lemma fill_admitted:
  assumes "fill adv mk l left rs = (ts, left', rs')" and "t \<in> set ts"
  shows "\<exists>l' r v. r \<in> set rs \<and> adv l' r \<noteq> None \<and> t = mk r v"
  using assms
proof (induction rs arbitrary: l left ts)
  case (Cons r rs)
  from Cons.prems(1) show ?case
  proof (cases rule: fill_ConsE)
    case (all l' ts2)
    then show ?thesis using Cons.IH [OF all(5)] Cons.prems(2)
      by (metis list.set_intros option.distinct(1) set_ConsD)
  next
    case (part l')
    then show ?thesis using Cons.prems(2)
      by (intro exI [of _ l] exI [of _ r] exI [of _ left]) simp
  qed (use Cons.prems(2) in simp)
qed simp

text \<open>Without a rule, the whole volume is matched unless the side is too small.\<close>

lemma fill_all_residue:
  assumes "fill adv_all mk () left rs = (ts, left', rs')" and "0 \<le> left" and "list_all wf_record rs"
    and "\<And>r v. t_volume (mk r v) = v"
  shows "left' = max 0 (left - sum_list (map r_volume rs))"
proof (cases "left' = 0")
  case False
  then have "rs' = []" using fill_residue [OF assms(1)] by (auto simp: adv_all_def)
  then show ?thesis
    using False fill_volume [OF assms(1,4)] fill_bounds [OF assms] by simp
next
  case True
  moreover have "0 \<le> sum_list (map r_volume rs')"
    using fill_wf [OF assms(1-3)] by (intro sum_list_nonneg) (auto simp: list_all_iff wf_record_def)
  ultimately show ?thesis using fill_volume [OF assms(1,4)] by simp
qed

end
