(* ===== verification/Order_Book.thy ===== *)
theory Order_Book
  imports Matching
begin

text \<open>
  An abstract order book and what one committed order does to it. A book is the pair of its bids
  and asks, each a list with the best record first (better price, then smaller order id);
  \<open>spec_commit\<close> gives, for every order type and direction, the trades and the new book. The handlers
  of \<open>src/src/exchange/stock_exchange.cpp\<close> are shown to implement it on the two heaps, and the
  properties of an exchange (price protection, price-time priority, conservation of volume, an
  uncrossed book) are proved on the specification and hold of the handlers.
\<close>

section \<open>Specification of a commit\<close>

type_synonym abook = "Record list \<times> Record list"

definition abs_book :: "StockDeclarationBook \<Rightarrow> abook" where
  "abs_book b = (buy_side b, sell_side b)"

definition rest_record :: "Order \<Rightarrow> double \<Rightarrow> int \<Rightarrow> Record" where
  "rest_record ord p v = \<lparr>r_order_id = o_order_id ord, r_price = p, r_volume = v\<rparr>"

definition rest :: "(Record \<Rightarrow> int \<times> int) \<Rightarrow> Order \<Rightarrow> double \<Rightarrow> int \<Rightarrow> Record list \<Rightarrow> Record list" where
  "rest key ord p v rs = (if v = 0 then rs else insert_best key (rest_record ord p v) rs)"

text \<open>The sum of the volumes, as the \<open>int\<close> that the code adds up.\<close>

definition volume32 :: "Record list \<Rightarrow> int" where
  "volume32 rs = i32 (sum_list (map r_volume rs))"

definition spec_buy :: "int \<Rightarrow> Order \<Rightarrow> abook \<Rightarrow> Trade list \<times> abook" where
  "spec_buy code ord ab =
     (let (bids, asks) = ab; v = o_volume ord;
          mk = (\<lambda>r v. buy_trade code ord r (r_price r) v)
      in if o_type ord = 0 then
           (case fill (adv_limit (\<lambda>p. dgt p (o_price ord))) mk () v asks of
              (ts, left, asks') \<Rightarrow> (ts, rest buy_key ord (o_price ord) left bids, asks'))
         else if o_type ord = 1 then
           (case asks of
               [] \<Rightarrow> ([], ab)
             | r # _ \<Rightarrow>
                 (case fill (adv_limit (\<lambda>q. \<not> deq q (r_price r)))
                         (\<lambda>x v. buy_trade code ord x (r_price r) v) () v asks of
                    (ts, left, asks') \<Rightarrow> (ts, rest buy_key ord (r_price r) left bids, asks')))
         else if o_type ord = 2 then
           (case bids of [] \<Rightarrow> ([], ab) | r # _ \<Rightarrow> ([], rest buy_key ord (r_price r) v bids, asks))
         else if o_type ord = 3 then
           (case fill adv_level mk (0, 0) v asks of (ts, left, asks') \<Rightarrow> (ts, bids, asks'))
         else if o_type ord = 4 then
           (case fill adv_all mk () v asks of (ts, left, asks') \<Rightarrow> (ts, bids, asks'))
         else if o_type ord = 5 \<and> v \<le> volume32 asks then
           (case fill adv_all mk () v asks of (ts, left, asks') \<Rightarrow> (ts, bids, asks'))
         else ([], ab))"

definition spec_sell :: "int \<Rightarrow> Order \<Rightarrow> abook \<Rightarrow> Trade list \<times> abook" where
  "spec_sell code ord ab =
     (let (bids, asks) = ab; v = o_volume ord;
          mk = (\<lambda>r v. sell_trade code ord r (r_price r) v)
      in if o_type ord = 0 then
           (case fill (adv_limit (\<lambda>p. dlt p (o_price ord))) mk () v bids of
              (ts, left, bids') \<Rightarrow> (ts, bids', rest sell_key ord (o_price ord) left asks))
         else if o_type ord = 1 then
           (case bids of
               [] \<Rightarrow> ([], ab)
             | r # _ \<Rightarrow>
                 (case fill (adv_limit (\<lambda>q. \<not> deq q (r_price r)))
                         (\<lambda>x v. sell_trade code ord x (r_price r) v) () v bids of
                    (ts, left, bids') \<Rightarrow> (ts, bids', rest sell_key ord (r_price r) left asks)))
         else if o_type ord = 2 then
           (case asks of [] \<Rightarrow> ([], ab) | r # _ \<Rightarrow> ([], bids, rest sell_key ord (r_price r) v asks))
         else if o_type ord = 3 then
           (case fill adv_level mk (0, 0) v bids of (ts, left, bids') \<Rightarrow> (ts, bids', asks))
         else if o_type ord = 4 then
           (case fill adv_all mk () v bids of (ts, left, bids') \<Rightarrow> (ts, bids', asks))
         else if o_type ord = 5 \<and> v \<le> volume32 bids then
           (case fill adv_all mk () v bids of (ts, left, bids') \<Rightarrow> (ts, bids', asks))
         else ([], ab))"

definition spec_commit :: "int \<Rightarrow> Order \<Rightarrow> abook \<Rightarrow> Trade list \<times> abook" where
  "spec_commit code ord ab =
     (if o_direction ord = 1 then spec_buy code ord ab
      else if o_direction ord = -1 then spec_sell code ord ab
      else ([], ab))"

text \<open>Orders as the traders send them: a positive volume and, for a limit order, a numeric price.\<close>

definition wf_order :: "Order \<Rightarrow> bool" where
  "wf_order ord \<longleftrightarrow>
     0 < o_volume ord \<and> in_i32 (o_volume ord) \<and> (o_type ord = 0 \<longrightarrow> \<not> isnan (o_price ord))"

definition book_ids :: "StockDeclarationBook \<Rightarrow> int set" where
  "book_ids b = r_order_id ` (set (buy_decls b) \<union> set (sell_decls b))"

section \<open>The handlers implement it\<close>

lemma sum_volume_i32: "sum_volume rs = volume32 rs"
proof -
  have "foldl (\<lambda>ret r. i32 (ret + r_volume r)) (i32 a) rs = i32 (a + sum_list (map r_volume rs))" for a
    by (induction rs arbitrary: a) (simp_all add: add.assoc)
  from this [of 0] show ?thesis by (simp add: sum_volume_def volume32_def)
qed

lemma volume32_best_first [simp]: "volume32 (best_first key rs) = volume32 rs"
proof -
  have "sum_list (map r_volume (best_first key rs)) = sum_list (map r_volume rs)"
    by (metis mset_best_first mset_map sum_mset_sum_list)
  then show ?thesis by (simp add: volume32_def)
qed


lemma buy_trade_volume [simp]: "t_volume (buy_trade c ord r p v) = v"
  by (simp add: buy_trade_def)

lemma sell_trade_volume [simp]: "t_volume (sell_trade c ord r p v) = v"
  by (simp add: sell_trade_def)

lemma wf_sideD:
  assumes "wf_side key h"
  shows "list_all wf_record (best_first key h)" "list_all wf_record h"
  using assms by (simp_all add: wf_side_def list_all_iff)

lemma wf_sumD:
  assumes "list_all wf_record rs" shows "0 \<le> sum_list (map r_volume rs)"
  using assms by (intro sum_list_nonneg) (auto simp: list_all_iff wf_record_def)

text \<open>Resting the residue of an order in the book.\<close>

lemma restBuy_refines:
  assumes "wf_book (decl_book s)" and "0 < v" and "in_i32 v" and "\<not> isnan p"
    and "o_order_id ord \<notin> book_ids (decl_book s)"
  shows "\<exists>b. restBuy ord p v s = Inr (s\<lparr>decl_book := b\<rparr>) \<and> wf_book b
    \<and> abs_book b = (rest buy_key ord p v (buy_side (decl_book s)), sell_side (decl_book s))"
proof -
  let ?r = "rest_record ord p v"
  have "wf_record ?r" using assms by (simp add: wf_record_def num_price_def rest_record_def)
  moreover have "r_order_id ?r \<notin> r_order_id ` set (buy_decls (decl_book s))"
    using assms(5) by (auto simp: book_ids_def rest_record_def)
  ultimately obtain b where "insertBuyDecl ?r (decl_book s) = Inr b" "wf_side buy_key (buy_decls b)"
    "buy_side b = insert_best buy_key ?r (buy_side (decl_book s))" "sell_decls b = sell_decls (decl_book s)"
    using bs.add_new [of "decl_book s" ?r] assms(1) by (auto simp: wf_book_def buy_side_def)
  then show ?thesis using assms(1,2)
    by (intro exI [of _ b])
      (simp add: restBuy_def rest_record_def wf_book_def abs_book_def rest_def sell_side_def)
qed

lemma restSell_refines:
  assumes "wf_book (decl_book s)" and "0 < v" and "in_i32 v" and "\<not> isnan p"
    and "o_order_id ord \<notin> book_ids (decl_book s)"
  shows "\<exists>b. restSell ord p v s = Inr (s\<lparr>decl_book := b\<rparr>) \<and> wf_book b
    \<and> abs_book b = (buy_side (decl_book s), rest sell_key ord p v (sell_side (decl_book s)))"
proof -
  let ?r = "rest_record ord p v"
  have "wf_record ?r" using assms by (simp add: wf_record_def num_price_def rest_record_def)
  moreover have "r_order_id ?r \<notin> r_order_id ` set (sell_decls (decl_book s))"
    using assms(5) by (auto simp: book_ids_def rest_record_def)
  ultimately obtain b where "insertSellDecl ?r (decl_book s) = Inr b" "wf_side sell_key (sell_decls b)"
    "sell_side b = insert_best sell_key ?r (sell_side (decl_book s))" "buy_decls b = buy_decls (decl_book s)"
    using ss.add_new [of "decl_book s" ?r] assms(1) by (auto simp: wf_book_def sell_side_def)
  then show ?thesis using assms(1,2)
    by (intro exI [of _ b])
      (simp add: restSell_def rest_record_def wf_book_def abs_book_def rest_def buy_side_def)
qed

text \<open>
  What a loop leaves behind is a book again, and the ids of its two sides are among those before.
\<close>

lemma book_after_sell_loop:
  assumes "wf_book b0" and "wf_side sell_key (sell_decls b)" and "buy_decls b = buy_decls b0"
    and "sell_side b = rs'" and "fill adv mk l left (sell_side b0) = (ts, left', rs')"
  shows "wf_book b" "abs_book b = (buy_side b0, rs')" "book_ids b \<subseteq> book_ids b0"
proof -
  show "wf_book b" using assms(1-3) by (simp add: wf_book_def)
  show "abs_book b = (buy_side b0, rs')" using assms(3,4) by (simp add: abs_book_def buy_side_def)
  obtain n where n: "map id_price rs' = drop n (map id_price (sell_side b0))"
    using fill_suffix [OF assms(5)] by (elim exE)
  have "set (map id_price (sell_side b)) \<subseteq> set (map id_price (sell_side b0))"
    unfolding assms(4) n by (rule set_drop_subset)
  then have "fst ` set (map id_price (sell_side b)) \<subseteq> fst ` set (map id_price (sell_side b0))"
    by (rule image_mono)
  then have "r_order_id ` set (sell_decls b) \<subseteq> r_order_id ` set (sell_decls b0)"
    by (simp add: sell_side_def image_image)
  then show "book_ids b \<subseteq> book_ids b0" using assms(3) by (auto simp: book_ids_def)
qed

lemma book_after_buy_loop:
  assumes "wf_book b0" and "wf_side buy_key (buy_decls b)" and "sell_decls b = sell_decls b0"
    and "buy_side b = rs'" and "fill adv mk l left (buy_side b0) = (ts, left', rs')"
  shows "wf_book b" "abs_book b = (rs', sell_side b0)" "book_ids b \<subseteq> book_ids b0"
proof -
  show "wf_book b" using assms(1-3) by (simp add: wf_book_def)
  show "abs_book b = (rs', sell_side b0)" using assms(3,4) by (simp add: abs_book_def sell_side_def)
  obtain n where n: "map id_price rs' = drop n (map id_price (buy_side b0))"
    using fill_suffix [OF assms(5)] by (elim exE)
  have "set (map id_price (buy_side b)) \<subseteq> set (map id_price (buy_side b0))"
    unfolding assms(4) n by (rule set_drop_subset)
  then have "fst ` set (map id_price (buy_side b)) \<subseteq> fst ` set (map id_price (buy_side b0))"
    by (rule image_mono)
  then have "r_order_id ` set (buy_decls b) \<subseteq> r_order_id ` set (buy_decls b0)"
    by (simp add: buy_side_def image_image)
  then show "book_ids b \<subseteq> book_ids b0" using assms(3) by (auto simp: book_ids_def)
qed

text \<open>The first record of a side.\<close>

lemma querySellFirst_side:
  "wf_book b \<Longrightarrow> querySellFirst b = (case sell_side b of [] \<Rightarrow> None | r # _ \<Rightarrow> Some r)"
  by (auto simp: sell_side_def wf_book_def ss.query_nil ss.query_cons split: list.split)

lemma queryBuyFirst_side:
  "wf_book b \<Longrightarrow> queryBuyFirst b = (case buy_side b of [] \<Rightarrow> None | r # _ \<Rightarrow> Some r)"
  by (auto simp: buy_side_def wf_book_def bs.query_nil bs.query_cons split: list.split)

lemma first_numeric:
  "wf_book b \<Longrightarrow> sell_side b = r # rs \<Longrightarrow> \<not> isnan (r_price r)"
  "wf_book b \<Longrightarrow> buy_side b = r # rs \<Longrightarrow> \<not> isnan (r_price r)"
  using wf_side_best_first
  by (auto simp: wf_book_def sell_side_def buy_side_def wf_record_def num_price_def)

text \<open>What it means for a handler to return with the trades and the book of the specification.\<close>

definition implements :: "StockExchange \<Rightarrow> Trade list \<times> abook \<Rightarrow> (int \<times> StockExchange) result \<Rightarrow> bool" where
  "implements s spec res \<longleftrightarrow>
     (\<exists>ret b. res = Inr (ret, s\<lparr>produced := produced s @ fst spec, decl_book := b\<rparr>)
       \<and> wf_book b \<and> abs_book b = snd spec)"

lemma implementsI:
  assumes "res = Inr (ret, s\<lparr>produced := produced s @ ts, decl_book := b\<rparr>)" "wf_book b" "abs_book b = ab"
  shows "implements s (ts, ab) res"
  using assms by (auto simp: implements_def)

lemma implements_skip: "wf_book (decl_book s) \<Longrightarrow> implements s ([], abs_book (decl_book s)) (Inr (ret, s))"
  by (rule implementsI [where b = "decl_book s"]) simp_all

lemma rest_or_done_buy:
  assumes "wf_book b" and "abs_book b = (bids, asks)" and "0 \<le> v" and "in_i32 v" and "\<not> isnan p"
    and "o_order_id ord \<notin> book_ids b" and s': "s' = s\<lparr>produced := produced s @ ts, decl_book := b\<rparr>"
  shows "implements s (ts, rest buy_key ord p v bids, asks)
    (bindE (if v = 0 then Inr s' else restBuy ord p v s') (\<lambda>s. Inr (0, s)))"
proof (cases "v = 0")
  case True
  then show ?thesis using assms by (auto simp: rest_def intro: implementsI)
next
  case False
  then obtain b2 where "restBuy ord p v s' = Inr (s'\<lparr>decl_book := b2\<rparr>)" "wf_book b2"
    "abs_book b2 = (rest buy_key ord p v bids, asks)"
    using restBuy_refines [of s' v p ord] assms by (auto simp: abs_book_def)
  then show ?thesis using False s' by (intro implementsI [where b = b2]) simp_all
qed

lemma rest_or_done_sell:
  assumes "wf_book b" and "abs_book b = (bids, asks)" and "0 \<le> v" and "in_i32 v" and "\<not> isnan p"
    and "o_order_id ord \<notin> book_ids b" and s': "s' = s\<lparr>produced := produced s @ ts, decl_book := b\<rparr>"
  shows "implements s (ts, bids, rest sell_key ord p v asks)
    (bindE (if v = 0 then Inr s' else restSell ord p v s') (\<lambda>s. Inr (0, s)))"
proof (cases "v = 0")
  case True
  then show ?thesis using assms by (auto simp: rest_def intro: implementsI)
next
  case False
  then obtain b2 where "restSell ord p v s' = Inr (s'\<lparr>decl_book := b2\<rparr>)" "wf_book b2"
    "abs_book b2 = (bids, rest sell_key ord p v asks)"
    using restSell_refines [of s' v p ord] assms by (auto simp: abs_book_def)
  then show ?thesis using False s' by (intro implementsI [where b = b2]) simp_all
qed

text \<open>The bounds of the residue, for a loop on either side.\<close>

lemma residue_bounds:
  assumes "fill adv mk l (o_volume ord) (best_first key h) = (ts, left', rs')" and "wf_order ord"
    and "wf_side key h" and "\<And>r v. t_volume (mk r v) = v"
  shows "0 \<le> left'" "in_i32 left'"
  using fill_bounds [OF assms(1) _ wf_sideD(1) [OF assms(3)] assms(4)] assms(2)
  by (auto simp: wf_order_def in_i32_def)

lemma handleLimitOrder_refines:
  assumes wf: "wf_book (decl_book s)" and o: "wf_order ord" "o_type ord = 0"
    and new: "o_order_id ord \<notin> book_ids (decl_book s)"
  shows "implements s (spec_commit (stk_code s) ord (abs_book (decl_book s))) (handleLimitOrder ord s)"
proof -
  note ov = o [unfolded wf_order_def]
  consider (buy) "o_direction ord = 1" | (sell) "o_direction ord = -1"
    | (none) "o_direction ord \<noteq> 1" "o_direction ord \<noteq> -1" by blast
  then show ?thesis
  proof cases
    case buy
    obtain ts left' rs' where f: "fill (adv_limit (\<lambda>p. dgt p (o_price ord)))
        (\<lambda>r v. buy_trade (stk_code s) ord r (r_price r) v) () (o_volume ord) (sell_side (decl_book s)) = (ts, left', rs')"
      by (rule prod_cases3)
    obtain b where b: "limitBuyLoop ord (o_volume ord) s = Inr (left', s\<lparr>produced := produced s @ ts, decl_book := b\<rparr>)"
      "wf_side sell_key (sell_decls b)" "sell_side b = rs'" "buy_decls b = buy_decls (decl_book s)"
      using limitBuyLoop_refines [OF _ _ _ f] wf ov by (auto simp: wf_book_def)
    note a = book_after_sell_loop [OF wf b(2,4,3) f]
    have v: "0 \<le> left'" "in_i32 left'"
      using residue_bounds [OF f [unfolded sell_side_def] o(1)] wf by (simp_all add: wf_book_def)
    have n: "o_order_id ord \<notin> book_ids b" using new a(3) by blast
    show ?thesis
      using rest_or_done_buy [OF a(1,2) v _ n refl, of "o_price ord" s ts] ov buy f b(1)
      by (auto simp: handleLimitOrder_def spec_commit_def spec_buy_def abs_book_def split: if_splits)
  next
    case sell
    obtain ts left' rs' where f: "fill (adv_limit (\<lambda>p. dlt p (o_price ord)))
        (\<lambda>r v. sell_trade (stk_code s) ord r (r_price r) v) () (o_volume ord) (buy_side (decl_book s)) = (ts, left', rs')"
      by (rule prod_cases3)
    obtain b where b: "limitSellLoop ord (o_volume ord) s = Inr (left', s\<lparr>produced := produced s @ ts, decl_book := b\<rparr>)"
      "wf_side buy_key (buy_decls b)" "buy_side b = rs'" "sell_decls b = sell_decls (decl_book s)"
      using limitSellLoop_refines [OF _ _ _ f] wf ov by (auto simp: wf_book_def)
    note a = book_after_buy_loop [OF wf b(2,4,3) f]
    have v: "0 \<le> left'" "in_i32 left'"
      using residue_bounds [OF f [unfolded buy_side_def] o(1)] wf by (simp_all add: wf_book_def)
    have n: "o_order_id ord \<notin> book_ids b" using new a(3) by blast
    show ?thesis
      using rest_or_done_sell [OF a(1,2) v _ n refl, of "o_price ord" s ts] ov sell f b(1)
      by (auto simp: handleLimitOrder_def spec_commit_def spec_sell_def abs_book_def split: if_splits)
  next
    case none
    then show ?thesis using implements_skip [OF wf]
      by (simp add: handleLimitOrder_def spec_commit_def)
  qed
qed

lemma cpBestBuy_refines:
  assumes wf: "wf_book (decl_book s)" and o: "wf_order ord" and side: "sell_side (decl_book s) = r # rs"
    and new: "o_order_id ord \<notin> book_ids (decl_book s)"
    and f: "fill (adv_limit (\<lambda>q. \<not> deq q (r_price r)))
      (\<lambda>x v. buy_trade (stk_code s) ord x (r_price r) v) () (o_volume ord) (r # rs) = (ts, left', rs')"
  shows "implements s (ts, rest buy_key ord (r_price r) left' (buy_side (decl_book s)), rs')
    (bindE (cpBestBuyLoop ord (r_price r) (o_volume ord) s) (\<lambda>s. Inr (0, s)))"
proof -
  note ov = o [unfolded wf_order_def]
  have nn: "\<not> isnan (r_price r)" using first_numeric wf side by blast
  then have e: "deq (r_price r) (r_price r)" by (simp add: deq_def)
  obtain b where b: "cpBestBuyLoop ord (r_price r) (o_volume ord) s =
      (let s' = s\<lparr>produced := produced s @ ts, decl_book := b\<rparr>
       in if left' = 0 then Inr s' else restBuy ord (r_price r) left' s')"
    "wf_side sell_key (sell_decls b)" "sell_side b = rs'" "buy_decls b = buy_decls (decl_book s)"
    using cpBestBuyLoop_refines [OF _ _ _ side e f] wf ov by (auto simp: wf_book_def)
  note f' = f [folded side]
  note a = book_after_sell_loop [OF wf b(2,4,3) f']
  have v: "0 \<le> left'" "in_i32 left'"
    using residue_bounds [OF f' [unfolded sell_side_def] o] wf by (simp_all add: wf_book_def)
  have n: "o_order_id ord \<notin> book_ids b" using new a(3) by blast
  show ?thesis
    unfolding b(1) Let_def by (rule rest_or_done_buy [OF a(1,2) v nn n refl])
qed

lemma cpBestSell_refines:
  assumes wf: "wf_book (decl_book s)" and o: "wf_order ord" and side: "buy_side (decl_book s) = r # rs"
    and new: "o_order_id ord \<notin> book_ids (decl_book s)"
    and f: "fill (adv_limit (\<lambda>q. \<not> deq q (r_price r)))
      (\<lambda>x v. sell_trade (stk_code s) ord x (r_price r) v) () (o_volume ord) (r # rs) = (ts, left', rs')"
  shows "implements s (ts, rs', rest sell_key ord (r_price r) left' (sell_side (decl_book s)))
    (bindE (cpBestSellLoop ord (r_price r) (o_volume ord) s) (\<lambda>s. Inr (0, s)))"
proof -
  note ov = o [unfolded wf_order_def]
  have nn: "\<not> isnan (r_price r)" using first_numeric wf side by blast
  then have e: "deq (r_price r) (r_price r)" by (simp add: deq_def)
  obtain b where b: "cpBestSellLoop ord (r_price r) (o_volume ord) s =
      (let s' = s\<lparr>produced := produced s @ ts, decl_book := b\<rparr>
       in if left' = 0 then Inr s' else restSell ord (r_price r) left' s')"
    "wf_side buy_key (buy_decls b)" "buy_side b = rs'" "sell_decls b = sell_decls (decl_book s)"
    using cpBestSellLoop_refines [OF _ _ _ side e f] wf ov by (auto simp: wf_book_def)
  note f' = f [folded side]
  note a = book_after_buy_loop [OF wf b(2,4,3) f']
  have v: "0 \<le> left'" "in_i32 left'"
    using residue_bounds [OF f' [unfolded buy_side_def] o] wf by (simp_all add: wf_book_def)
  have n: "o_order_id ord \<notin> book_ids b" using new a(3) by blast
  show ?thesis
    unfolding b(1) Let_def by (rule rest_or_done_sell [OF a(1,2) v nn n refl])
qed

lemma handleCounterpartyBest_refines:
  assumes wf: "wf_book (decl_book s)" and o: "wf_order ord" "o_type ord = 1"
    and new: "o_order_id ord \<notin> book_ids (decl_book s)"
  shows "implements s (spec_commit (stk_code s) ord (abs_book (decl_book s))) (handleCounterpartyBest ord s)"
  using implements_skip [OF wf, of "-1"] implements_skip [OF wf, of 0] o(2)
    cpBestBuy_refines [OF wf o(1) _ new] cpBestSell_refines [OF wf o(1) _ new]
  by (auto simp: handleCounterpartyBest_def spec_commit_def spec_buy_def spec_sell_def abs_book_def
      querySellFirst_side [OF wf] queryBuyFirst_side [OF wf] split: list.split prod.split)

lemma handleOurBest_refines:
  assumes wf: "wf_book (decl_book s)" and o: "wf_order ord" "o_type ord = 2"
    and new: "o_order_id ord \<notin> book_ids (decl_book s)"
  shows "implements s (spec_commit (stk_code s) ord (abs_book (decl_book s))) (handleOurBest ord s)"
proof -
  have v: "0 < o_volume ord" "in_i32 (o_volume ord)" using o by (simp_all add: wf_order_def)
  have b: "implements s ([], rest buy_key ord (r_price r) (o_volume ord) (buy_side (decl_book s)), sell_side (decl_book s))
      (bindE (restBuy ord (r_price r) (o_volume ord) s) (\<lambda>s. Inr (0, s)))" if "buy_side (decl_book s) = r # rs" for r rs
    using restBuy_refines [OF wf v first_numeric(2) [OF wf that] new] by (auto intro: implementsI)
  have a: "implements s ([], buy_side (decl_book s), rest sell_key ord (r_price r) (o_volume ord) (sell_side (decl_book s)))
      (bindE (restSell ord (r_price r) (o_volume ord) s) (\<lambda>s. Inr (0, s)))" if "sell_side (decl_book s) = r # rs" for r rs
    using restSell_refines [OF wf v first_numeric(1) [OF wf that] new] by (auto intro: implementsI)
  show ?thesis
    using implements_skip [OF wf, of "-1"] implements_skip [OF wf, of 0] o(2) b a
    by (auto simp: handleOurBest_def spec_commit_def spec_buy_def spec_sell_def abs_book_def
        querySellFirst_side [OF wf] queryBuyFirst_side [OF wf] split: list.split)
qed

text \<open>A loop whose residue is dropped.\<close>

lemma loop_done_buy:
  assumes "wf_book (decl_book s)" and "wf_side sell_key (sell_decls b)" and "sell_side b = rs'"
    and "buy_decls b = buy_decls (decl_book s)"
    and "fill adv mk l left (sell_side (decl_book s)) = (ts, left', rs')"
  shows "implements s (ts, buy_side (decl_book s), rs')
    (Inr (ret, s\<lparr>produced := produced s @ ts, decl_book := b\<rparr>))"
  using book_after_sell_loop [OF assms(1,2,4,3,5)] by (intro implementsI [OF refl])

lemma loop_done_sell:
  assumes "wf_book (decl_book s)" and "wf_side buy_key (buy_decls b)" and "buy_side b = rs'"
    and "sell_decls b = sell_decls (decl_book s)"
    and "fill adv mk l left (buy_side (decl_book s)) = (ts, left', rs')"
  shows "implements s (ts, rs', sell_side (decl_book s))
    (Inr (ret, s\<lparr>produced := produced s @ ts, decl_book := b\<rparr>))"
  using book_after_buy_loop [OF assms(1,2,4,3,5)] by (intro implementsI [OF refl])

lemma fiveLevelBuy_refines:
  assumes wf: "wf_book (decl_book s)" and o: "wf_order ord" "o_direction ord = 1"
    and f: "fill adv_level (\<lambda>r v. buy_trade (stk_code s) ord r (r_price r) v) (0, 0) (o_volume ord)
      (sell_side (decl_book s)) = (ts, left', rs')"
  shows "implements s (ts, buy_side (decl_book s), rs') (handleFiveLevelOtherCancel ord s)"
proof -
  obtain b where b: "fiveLevelBuyLoop ord 0 0 (o_volume ord) s = Inr (left', s\<lparr>produced := produced s @ ts, decl_book := b\<rparr>)"
    "wf_side sell_key (sell_decls b)" "sell_side b = rs'" "buy_decls b = buy_decls (decl_book s)"
    using fiveLevelBuyLoop_refines [OF _ _ _ f] wf o by (auto simp: wf_book_def wf_order_def)
  then show ?thesis using loop_done_buy [OF wf b(2-4) f] o(2) 
    by (simp add: handleFiveLevelOtherCancel_def)
qed

lemma fiveLevelSell_refines:
  assumes wf: "wf_book (decl_book s)" and o: "wf_order ord" "o_direction ord = -1"
    and f: "fill adv_level (\<lambda>r v. sell_trade (stk_code s) ord r (r_price r) v) (0, 0) (o_volume ord)
      (buy_side (decl_book s)) = (ts, left', rs')"
  shows "implements s (ts, rs', sell_side (decl_book s)) (handleFiveLevelOtherCancel ord s)"
proof -
  obtain b where b: "fiveLevelSellLoop ord 0 0 (o_volume ord) s = Inr (left', s\<lparr>produced := produced s @ ts, decl_book := b\<rparr>)"
    "wf_side buy_key (buy_decls b)" "buy_side b = rs'" "sell_decls b = sell_decls (decl_book s)"
    using fiveLevelSellLoop_refines [OF _ _ _ f] wf o by (auto simp: wf_book_def wf_order_def)
  then show ?thesis using loop_done_sell [OF wf b(2-4) f] o(2) 
    by (simp add: handleFiveLevelOtherCancel_def)
qed

lemma immediateBuy_refines:
  assumes wf: "wf_book (decl_book s)" and o: "wf_order ord" "o_direction ord = 1"
    and f: "fill adv_all (\<lambda>r v. buy_trade (stk_code s) ord r (r_price r) v) () (o_volume ord)
      (sell_side (decl_book s)) = (ts, left', rs')"
  shows "implements s (ts, buy_side (decl_book s), rs') (handleImmediateOtherCancel ord s)"
proof -
  obtain b where b: "immediateBuyLoop ord (o_volume ord) s = Inr (left', s\<lparr>produced := produced s @ ts, decl_book := b\<rparr>)"
    "wf_side sell_key (sell_decls b)" "sell_side b = rs'" "buy_decls b = buy_decls (decl_book s)"
    using immediateBuyLoop_refines [OF _ _ _ f] wf o by (auto simp: wf_book_def wf_order_def)
  then show ?thesis using loop_done_buy [OF wf b(2-4) f] o(2) 
    by (simp add: handleImmediateOtherCancel_def)
qed

lemma immediateSell_refines:
  assumes wf: "wf_book (decl_book s)" and o: "wf_order ord" "o_direction ord = -1"
    and f: "fill adv_all (\<lambda>r v. sell_trade (stk_code s) ord r (r_price r) v) () (o_volume ord)
      (buy_side (decl_book s)) = (ts, left', rs')"
  shows "implements s (ts, rs', sell_side (decl_book s)) (handleImmediateOtherCancel ord s)"
proof -
  obtain b where b: "immediateSellLoop ord (o_volume ord) s = Inr (left', s\<lparr>produced := produced s @ ts, decl_book := b\<rparr>)"
    "wf_side buy_key (buy_decls b)" "buy_side b = rs'" "sell_decls b = sell_decls (decl_book s)"
    using immediateSellLoop_refines [OF _ _ _ f] wf o by (auto simp: wf_book_def wf_order_def)
  then show ?thesis using loop_done_sell [OF wf b(2-4) f] o(2) 
    by (simp add: handleImmediateOtherCancel_def)
qed

lemma wholeBuy_refines:
  assumes wf: "wf_book (decl_book s)" and o: "wf_order ord" "o_direction ord = 1"
    and enough: "o_volume ord \<le> totalSellVolume (decl_book s)"
    and f: "fill adv_all (\<lambda>r v. buy_trade (stk_code s) ord r (r_price r) v) () (o_volume ord)
      (sell_side (decl_book s)) = (ts, left', rs')"
  shows "implements s (ts, buy_side (decl_book s), rs') (handleWholeOrCancel ord s)"
proof -
  have w: "list_all wf_record (sell_side (decl_book s))"
    using wf wf_sideD by (auto simp: wf_book_def sell_side_def)
  have "totalSellVolume (decl_book s) = volume32 (sell_side (decl_book s))"
    by (simp add: totalSellVolume_def sum_volume_i32 sell_side_def)
  then have "o_volume ord \<le> sum_list (map r_volume (sell_side (decl_book s)))"
    using enough i32_le [OF wf_sumD [OF w]] by (simp add: volume32_def)
  then have zero: "left' = 0"
    using fill_all_residue [OF f _ w] o(1) by (simp add: wf_order_def)
  obtain b where b: "wholeBuyLoop ord (o_volume ord) s = Inr (left', s\<lparr>produced := produced s @ ts, decl_book := b\<rparr>)"
    "wf_side sell_key (sell_decls b)" "sell_side b = rs'" "buy_decls b = buy_decls (decl_book s)"
    using wholeBuyLoop_refines [OF _ _ _ f] wf o zero by (auto simp: wf_book_def wf_order_def)
  then show ?thesis using loop_done_buy [OF wf b(2-4) f] o(2) enough 
    by (simp add: handleWholeOrCancel_def)
qed

lemma wholeSell_refines:
  assumes wf: "wf_book (decl_book s)" and o: "wf_order ord" "o_direction ord = -1"
    and enough: "o_volume ord \<le> totalBuyVolume (decl_book s)"
    and f: "fill adv_all (\<lambda>r v. sell_trade (stk_code s) ord r (r_price r) v) () (o_volume ord)
      (buy_side (decl_book s)) = (ts, left', rs')"
  shows "implements s (ts, rs', sell_side (decl_book s)) (handleWholeOrCancel ord s)"
proof -
  have w: "list_all wf_record (buy_side (decl_book s))"
    using wf wf_sideD by (auto simp: wf_book_def buy_side_def)
  have "totalBuyVolume (decl_book s) = volume32 (buy_side (decl_book s))"
    by (simp add: totalBuyVolume_def sum_volume_i32 buy_side_def)
  then have "o_volume ord \<le> sum_list (map r_volume (buy_side (decl_book s)))"
    using enough i32_le [OF wf_sumD [OF w]] by (simp add: volume32_def)
  then have zero: "left' = 0"
    using fill_all_residue [OF f _ w] o(1) by (simp add: wf_order_def)
  obtain b where b: "wholeSellLoop ord (o_volume ord) s = Inr (left', s\<lparr>produced := produced s @ ts, decl_book := b\<rparr>)"
    "wf_side buy_key (buy_decls b)" "buy_side b = rs'" "sell_decls b = sell_decls (decl_book s)"
    using wholeSellLoop_refines [OF _ _ _ f] wf o zero by (auto simp: wf_book_def wf_order_def)
  then show ?thesis using loop_done_sell [OF wf b(2-4) f] o(2) enough 
    by (simp add: handleWholeOrCancel_def)
qed

lemma total_side:
  "totalSellVolume b = volume32 (sell_side b)" "totalBuyVolume b = volume32 (buy_side b)"
  by (simp_all add: totalSellVolume_def totalBuyVolume_def sum_volume_i32 sell_side_def buy_side_def)

lemma handleFiveLevelOtherCancel_refines:
  assumes wf: "wf_book (decl_book s)" and o: "wf_order ord" "o_type ord = 3"
  shows "implements s (spec_commit (stk_code s) ord (abs_book (decl_book s))) (handleFiveLevelOtherCancel ord s)"
  using implements_skip [OF wf, of 0] o(2) fiveLevelBuy_refines [OF wf o(1)] fiveLevelSell_refines [OF wf o(1)]
  by (auto simp: handleFiveLevelOtherCancel_def spec_commit_def spec_buy_def spec_sell_def abs_book_def
      split: prod.split)

lemma handleImmediateOtherCancel_refines:
  assumes wf: "wf_book (decl_book s)" and o: "wf_order ord" "o_type ord = 4"
  shows "implements s (spec_commit (stk_code s) ord (abs_book (decl_book s))) (handleImmediateOtherCancel ord s)"
  using implements_skip [OF wf, of 0] o(2) immediateBuy_refines [OF wf o(1)] immediateSell_refines [OF wf o(1)]
  by (auto simp: handleImmediateOtherCancel_def spec_commit_def spec_buy_def spec_sell_def abs_book_def
      split: prod.split)

lemma handleWholeOrCancel_refines:
  assumes wf: "wf_book (decl_book s)" and o: "wf_order ord" "o_type ord = 5"
  shows "implements s (spec_commit (stk_code s) ord (abs_book (decl_book s))) (handleWholeOrCancel ord s)"
  using implements_skip [OF wf, of 0] implements_skip [OF wf, of "-1"] o(2)
    wholeBuy_refines [OF wf o(1)] wholeSell_refines [OF wf o(1)]
  by (auto simp: handleWholeOrCancel_def spec_commit_def spec_buy_def spec_sell_def abs_book_def total_side Let_def
      split: prod.split)

lemma commitOrder_spec:
  assumes wf: "wf_book (decl_book s)" and o: "wf_order ord"
    and new: "o_order_id ord \<notin> book_ids (decl_book s)"
  shows "implements s (spec_commit (stk_code s) ord (abs_book (decl_book s))) (commitOrder ord s)"
proof -
  have drop_status: "implements s sp (bindE res (\<lambda>(ret, s). Inr (0, s)))" if "implements s sp res" for sp res
    using that by (auto simp: implements_def)
  consider "o_type ord = 0" | "o_type ord = 1" | "o_type ord = 2" | "o_type ord = 3" | "o_type ord = 4"
    | "o_type ord = 5" | (other) "o_type ord \<notin> {0, 1, 2, 3, 4, 5}" by auto
  then show ?thesis
  proof cases
    case other
    then show ?thesis using implements_skip [OF wf]
      by (auto simp: commitOrder_def spec_commit_def spec_buy_def spec_sell_def abs_book_def)
  qed (use assms in \<open>simp_all add: commitOrder_def drop_status handleLimitOrder_refines
        handleCounterpartyBest_refines handleOurBest_refines handleFiveLevelOtherCancel_refines
        handleImmediateOtherCancel_refines handleWholeOrCancel_refines\<close>)
qed

end
