(* ===== verification/Commit_Properties.thy ===== *)
theory Commit_Properties
  imports Order_Book
begin

text \<open>
  The properties that an exchange promises its traders, proved of \<open>StockExchange::commitOrder\<close> through
  the specification of \<open>Order_Book\<close>: conservation of volume, price-time priority, an uncrossed book,
  and the price or volume guarantee of each order type.
\<close>

section \<open>Shape of a match\<close>

text \<open>
  The matched records are a prefix of the side, best first; all but the last are consumed, and the
  last may be reduced.
\<close>

definition matched :: "(Record \<Rightarrow> int \<Rightarrow> Trade) \<Rightarrow> int \<Rightarrow> Record list \<Rightarrow> Trade list \<Rightarrow> int \<Rightarrow> Record list \<Rightarrow> bool" where
  "matched mk v rs ts left rs' \<longleftrightarrow>
     0 \<le> left \<and> sum_list (map t_volume ts) + left = v \<and>
     (\<exists>n \<le> length rs. \<exists>w.
       ts = map (\<lambda>r. mk r (r_volume r)) (take n rs) \<and> rs' = drop n rs
       \<or> n < length rs \<and> 0 < w \<and> w < r_volume (rs ! n) \<and> left = 0
         \<and> ts = map (\<lambda>r. mk r (r_volume r)) (take n rs) @ [mk (rs ! n) w]
         \<and> rs' = (rs ! n)\<lparr>r_volume := r_volume (rs ! n) - w\<rparr> # drop (Suc n) rs)"

lemma matched_none: "0 \<le> v \<Longrightarrow> matched mk v rs [] v rs"
  by (auto simp: matched_def intro: exI [of _ 0])

lemma fill_matched:
  assumes "fill adv mk l left rs = (ts, left', rs')" and "0 \<le> left" and "list_all wf_record rs"
    and "\<And>r v. t_volume (mk r v) = v"
  shows "matched mk left rs ts left' rs'"
  using assms(1-3)
proof (induction rs arbitrary: l left ts)
  case Nil
  then show ?case by (simp add: matched_def)
next
  case (Cons r rs)
  from Cons.prems(1) show ?case
  proof (cases rule: fill_ConsE)
    case stop
    then show ?thesis using Cons.prems(2) by (simp add: matched_none)
  next
    case part
    then show ?thesis using Cons.prems(2) assms(4) unfolding matched_def
      by (intro conjI exI [of _ 0] exI [of _ left]) simp_all
  next
    case (all l' ts2)
    then have m: "matched mk (left - r_volume r) rs ts2 left' rs'"
      using Cons.IH [OF all(5)] Cons.prems by simp
    then obtain n w where n: "n \<le> length rs"
      "ts2 = map (\<lambda>r. mk r (r_volume r)) (take n rs) \<and> rs' = drop n rs
       \<or> n < length rs \<and> 0 < w \<and> w < r_volume (rs ! n) \<and> left' = 0
         \<and> ts2 = map (\<lambda>r. mk r (r_volume r)) (take n rs) @ [mk (rs ! n) w]
         \<and> rs' = (rs ! n)\<lparr>r_volume := r_volume (rs ! n) - w\<rparr> # drop (Suc n) rs"
      unfolding matched_def by blast
    have "0 \<le> left'" "sum_list (map t_volume ts) + left' = left"
      using m all(4) assms(4) by (simp_all add: matched_def)
    with n all(4) show ?thesis unfolding matched_def
      by (intro conjI exI [of _ "Suc n"] exI [of _ w]) simp_all
  qed
qed

text \<open>The \<open>i\<close>-th trade is with the \<open>i\<close>-th record, which the rule admitted.\<close>

lemma fill_nth:
  assumes "fill adv mk l left rs = (ts, left', rs')" and "i < length ts"
  shows "i < length rs \<and> (\<exists>l' v. adv l' (rs ! i) \<noteq> None \<and> ts ! i = mk (rs ! i) v)"
  using assms
proof (induction rs arbitrary: l left ts i)
  case (Cons r rs)
  from Cons.prems(1) show ?case
  proof (cases rule: fill_ConsE)
    case (all l' ts2)
    show ?thesis
    proof (cases i)
      case 0
      then show ?thesis using all by auto
    next
      case (Suc j)
      then show ?thesis using Cons.IH [OF all(5), of j] Cons.prems(2) all(4) by simp
    qed
  next
    case part
    then show ?thesis using Cons.prems(2) by auto
  qed (use Cons.prems(2) in simp)
qed simp

section \<open>Shape of a commit\<close>

text \<open>The side of the order, the side it matches, and the ids of a trade seen from the order.\<close>

definition own_side :: "Order \<Rightarrow> StockDeclarationBook \<Rightarrow> Record list" where
  "own_side ord b = (if o_direction ord = 1 then buy_side b else sell_side b)"

definition opp_side :: "Order \<Rightarrow> StockDeclarationBook \<Rightarrow> Record list" where
  "opp_side ord b = (if o_direction ord = 1 then sell_side b else buy_side b)"

definition own_key :: "Order \<Rightarrow> Record \<Rightarrow> int \<times> int" where
  "own_key ord = (if o_direction ord = 1 then buy_key else sell_key)"

definition own_id :: "Order \<Rightarrow> Trade \<Rightarrow> int" where
  "own_id ord t = (if o_direction ord = 1 then t_bid_id t else t_ask_id t)"

definition opp_id :: "Order \<Rightarrow> Trade \<Rightarrow> int" where
  "opp_id ord t = (if o_direction ord = 1 then t_ask_id t else t_bid_id t)"

text \<open>Whether the unmatched volume is put in the book, and at which price.\<close>

definition rests :: "Order \<Rightarrow> StockDeclarationBook \<Rightarrow> bool" where
  "rests ord b \<longleftrightarrow> o_type ord = 0 \<or> o_type ord = 1 \<and> opp_side ord b \<noteq> []
     \<or> o_type ord = 2 \<and> own_side ord b \<noteq> []"

definition rest_price :: "Order \<Rightarrow> StockDeclarationBook \<Rightarrow> double" where
  "rest_price ord b =
     (if o_type ord = 0 then o_price ord
      else if o_type ord = 1 then r_price (hd (opp_side ord b))
      else r_price (hd (own_side ord b)))"

text \<open>When an order may be committed, and the trades that a step adds.\<close>

definition can_commit :: "Order \<Rightarrow> StockExchange \<Rightarrow> bool" where
  "can_commit ord s \<longleftrightarrow> wf_book (decl_book s) \<and> wf_order ord \<and> o_order_id ord \<notin> book_ids (decl_book s)"

definition new_trades :: "StockExchange \<Rightarrow> StockExchange \<Rightarrow> Trade list" where
  "new_trades s s' = drop (length (produced s)) (produced s')"

definition trader :: "int \<Rightarrow> Order \<Rightarrow> (Record \<Rightarrow> int \<Rightarrow> Trade) \<Rightarrow> bool" where
  "trader code ord mk \<longleftrightarrow>
     (\<forall>r v. t_volume (mk r v) = v \<and> t_stk_code (mk r v) = code
       \<and> own_id ord (mk r v) = o_order_id ord \<and> opp_id ord (mk r v) = r_order_id r)"

text \<open>Why a limit or counterparty-best order stopped with a residue: the next record is refused.\<close>

definition beyond :: "Order \<Rightarrow> double \<Rightarrow> bool" where
  "beyond ord p \<longleftrightarrow> (if o_direction ord = 1 then dgt p (o_price ord) else dlt p (o_price ord))"

definition refused :: "Order \<Rightarrow> Record list \<Rightarrow> int \<Rightarrow> Record list \<Rightarrow> bool" where
  "refused ord opp left opp' \<longleftrightarrow>
     left = 0 \<or> opp' = []
     \<or> (o_type ord = 0 \<longrightarrow> beyond ord (r_price (hd opp')))
       \<and> (o_type ord = 1 \<longrightarrow> \<not> deq (r_price (hd opp')) (r_price (hd opp)))"

lemma limit_residue:
  assumes "fill (adv_limit stop) mk () left rs = (ts, left', rs')"
  shows "left' = 0 \<or> rs' = [] \<or> stop (r_price (hd rs'))"
  using fill_residue [OF assms] by (auto simp: adv_limit_def split: if_splits)

text \<open>Every trade is at the price of the record it consumes.\<close>

definition priced :: "Trade list \<Rightarrow> Record list \<Rightarrow> bool" where
  "priced ts rs \<longleftrightarrow> (\<forall>i < length ts. i < length rs \<and> deq (t_price (ts ! i)) (r_price (rs ! i)))"

lemma fill_priced:
  assumes "fill adv mk l left rs = (ts, left', rs')"
    and "\<And>l r v. r \<in> set rs \<Longrightarrow> adv l r \<noteq> None \<Longrightarrow> deq (t_price (mk r v)) (r_price r)"
  shows "priced ts rs"
  using fill_nth [OF assms(1)] assms(2) unfolding priced_def by (metis nth_mem)

lemma priced_Nil [simp]: "priced [] rs"
  by (simp add: priced_def)

lemma traderI:
  "o_direction ord = 1 \<Longrightarrow> trader code ord (\<lambda>r. buy_trade code ord r (p r))"
  "o_direction ord = -1 \<Longrightarrow> trader code ord (\<lambda>r. sell_trade code ord r (p r))"
  by (simp_all add: trader_def own_id_def opp_id_def buy_trade_def sell_trade_def)

lemma commit_specD:
  assumes "can_commit ord s" and "commitOrder ord s = Inr (ret, s')"
  shows "wf_book (decl_book s')"
    and "spec_commit (stk_code s) ord (abs_book (decl_book s)) = (new_trades s s', abs_book (decl_book s'))"
    and "produced s' = produced s @ new_trades s s'"
proof -
  obtain b where "s' = s\<lparr>produced := produced s @ fst (spec_commit (stk_code s) ord (abs_book (decl_book s))), decl_book := b\<rparr>"
    "wf_book b" "abs_book b = snd (spec_commit (stk_code s) ord (abs_book (decl_book s)))"
    using commitOrder_spec [of s ord] assms by (auto simp: can_commit_def implements_def)
  then show "wf_book (decl_book s')" "produced s' = produced s @ new_trades s s'"
    "spec_commit (stk_code s) ord (abs_book (decl_book s)) = (new_trades s s', abs_book (decl_book s'))"
    by (simp_all add: new_trades_def)
qed

text \<open>Both directions are one specification, of the order's own side and the opposite side.\<close>

definition own_trade :: "int \<Rightarrow> Order \<Rightarrow> Record \<Rightarrow> double \<Rightarrow> int \<Rightarrow> Trade" where
  "own_trade code ord = (if o_direction ord = 1 then buy_trade code ord else sell_trade code ord)"

definition spec_side :: "int \<Rightarrow> Order \<Rightarrow> Record list \<Rightarrow> Record list \<Rightarrow> Trade list \<times> Record list \<times> Record list" where
  "spec_side code ord own opp =
     (let v = o_volume ord; key = own_key ord; mk = (\<lambda>r v. own_trade code ord r (r_price r) v)
      in if o_type ord = 0 then
           (case fill (adv_limit (beyond ord)) mk () v opp of (ts, left, opp') \<Rightarrow> (ts, rest key ord (o_price ord) left own, opp'))
         else if o_type ord = 1 then
           (case opp of
               [] \<Rightarrow> ([], own, opp)
             | r # _ \<Rightarrow>
                 (case fill (adv_limit (\<lambda>q. \<not> deq q (r_price r))) (\<lambda>x v. own_trade code ord x (r_price r) v) () v opp of
                    (ts, left, opp') \<Rightarrow> (ts, rest key ord (r_price r) left own, opp')))
         else if o_type ord = 2 then
           (case own of [] \<Rightarrow> ([], own, opp) | r # _ \<Rightarrow> ([], rest key ord (r_price r) v own, opp))
         else if o_type ord = 3 then
           (case fill adv_level mk (0, 0) v opp of (ts, left, opp') \<Rightarrow> (ts, own, opp'))
         else if o_type ord = 4 \<or> o_type ord = 5 \<and> v \<le> volume32 opp then
           (case fill adv_all mk () v opp of (ts, left, opp') \<Rightarrow> (ts, own, opp'))
         else ([], own, opp))"

lemma beyond_eq:
  "o_direction ord = 1 \<Longrightarrow> beyond ord = (\<lambda>p. dgt p (o_price ord))"
  "o_direction ord = -1 \<Longrightarrow> beyond ord = (\<lambda>p. dlt p (o_price ord))"
  by (auto simp: beyond_def)

lemma spec_commit_side:
  assumes "o_direction ord = 1 \<or> o_direction ord = -1"
    and "spec_commit code ord (abs_book b) = (ts, abs_book b')"
  shows "spec_side code ord (own_side ord b) (opp_side ord b) = (ts, own_side ord b', opp_side ord b')"
  using assms(1)
proof
  assume d: "o_direction ord = 1"
  then show ?thesis using assms(2)
    by (auto simp: spec_commit_def spec_buy_def spec_side_def abs_book_def own_side_def opp_side_def own_key_def own_trade_def
        beyond_eq Let_def split: if_splits list.splits prod.splits)
next
  assume d: "o_direction ord = -1"
  then show ?thesis using assms(2)
    by (auto simp: spec_commit_def spec_sell_def spec_side_def abs_book_def own_side_def opp_side_def own_key_def own_trade_def
        beyond_eq Let_def split: if_splits list.splits prod.splits)
qed

lemma own_trade_trader:
  "o_direction ord = 1 \<or> o_direction ord = -1 \<Longrightarrow> trader code ord (\<lambda>r. own_trade code ord r (p r))"
  by (auto simp: trader_def own_id_def opp_id_def own_trade_def buy_trade_def sell_trade_def)

lemma own_trade_simps [simp]: "t_price (own_trade code ord r p v) = p" "t_volume (own_trade code ord r p v) = v"
  by (simp_all add: own_trade_def buy_trade_def sell_trade_def)

lemma fill_form:
  assumes "fill adv (\<lambda>r. own_trade code ord r (p r)) l (o_volume ord) opp = (ts, left, opp')"
    and "list_all wf_record opp" and "wf_order ord"
    and "\<And>l r. r \<in> set opp \<Longrightarrow> adv l r \<noteq> None \<Longrightarrow> deq (p r) (r_price r)"
  shows "matched (\<lambda>r. own_trade code ord r (p r)) (o_volume ord) opp ts left opp' \<and> priced ts opp"
  using fill_matched [OF assms(1) _ assms(2)] fill_priced [OF assms(1)] assms(3,4) by (simp add: wf_order_def)

lemma deq_self: "list_all wf_record opp \<Longrightarrow> r \<in> set opp \<Longrightarrow> deq (r_price r) (r_price r)"
  by (auto simp: deq_def list_all_iff wf_record_def num_price_def)

lemma adv_limit_deq: "adv_limit (\<lambda>q. \<not> deq q p) l r \<noteq> None \<Longrightarrow> deq p (r_price r)"
  by (auto simp: adv_limit_def deq_def split: if_splits)

lemma spec_side_form:
  assumes w: "list_all wf_record opp" and o: "wf_order ord" and d: "o_direction ord = 1 \<or> o_direction ord = -1"
    and sp: "spec_side code ord own opp = (ts, own', opp')"
  shows "\<exists>mk left. trader code ord mk \<and> matched mk (o_volume ord) opp ts left opp'
    \<and> refused ord opp left opp' \<and> priced ts opp \<and> own' = (if o_type ord = 0 then rest (own_key ord) ord (o_price ord) left own
        else if o_type ord = 1 \<and> opp \<noteq> [] then rest (own_key ord) ord (r_price (hd opp)) left own
        else if o_type ord = 2 \<and> own \<noteq> [] then rest (own_key ord) ord (r_price (hd own)) left own
        else own)"
proof -
  note t = own_trade_trader [OF d] and S = deq_self [OF w]
  have N: "?thesis" if "ts = []" "opp' = opp" "own' = (if o_type ord = 2 \<and> own \<noteq> []
      then rest (own_key ord) ord (r_price (hd own)) (o_volume ord) own else own)" "o_type ord \<noteq> 0" "o_type ord = 1 \<longrightarrow> opp = []"
    using that matched_none [of "o_volume ord"] o t by (intro exI) (auto simp: refused_def wf_order_def)
  consider (limit) "o_type ord = 0" | (cp) r rs where "o_type ord = 1" "opp = r # rs"
    | (none) "o_type ord = 1 \<and> opp = [] \<or> o_type ord = 2 \<or> o_type ord \<notin> {0, 1, 2, 3, 4} \<and> \<not> (o_type ord = 5 \<and> o_volume ord \<le> volume32 opp)"
    | (five) "o_type ord = 3" | (all) "o_type ord = 4 \<or> o_type ord = 5 \<and> o_volume ord \<le> volume32 opp"
    by (cases opp) auto
  then show ?thesis
  proof cases
    case limit
    then obtain left where f: "fill (adv_limit (beyond ord)) (\<lambda>r. own_trade code ord r (r_price r)) () (o_volume ord) opp = (ts, left, opp')"
      and "own' = rest (own_key ord) ord (o_price ord) left own" using sp by (auto simp: spec_side_def split: prod.splits)
    then show ?thesis using limit fill_form [OF f w o S] t [of code r_price] limit_residue [OF f] by (auto simp: refused_def)
  next
    case cp
    then obtain left where f: "fill (adv_limit (\<lambda>q. \<not> deq q (r_price r))) (\<lambda>x. own_trade code ord x (r_price r)) () (o_volume ord) opp
        = (ts, left, opp')" and "own' = rest (own_key ord) ord (r_price r) left own"
      using sp by (auto simp: spec_side_def Let_def simp del: fill.simps split: prod.splits)
    then show ?thesis using cp fill_form [OF f w o adv_limit_deq] t [of code "\<lambda>_. r_price r"] limit_residue [OF f] by (auto simp: refused_def)
  next
    case five
    then obtain left where f: "fill adv_level (\<lambda>r. own_trade code ord r (r_price r)) (0, 0) (o_volume ord) opp = (ts, left, opp')"
      and "own' = own" using sp by (auto simp: spec_side_def split: prod.splits)
    then show ?thesis using five fill_form [OF f w o S] t [of code r_price] by (auto simp: refused_def)
  next
    case all
    then obtain left where f: "fill adv_all (\<lambda>r. own_trade code ord r (r_price r)) () (o_volume ord) opp = (ts, left, opp')"
      and "own' = own" using sp by (auto simp: spec_side_def split: prod.splits)
    then show ?thesis using all fill_form [OF f w o S] t [of code r_price]
      by (intro exI [of _ "\<lambda>r. own_trade code ord r (r_price r)"] exI [of _ left]) (auto simp: refused_def)
  next
    case none
    then show ?thesis using sp by (intro N) (auto simp: spec_side_def split: list.splits)
  qed
qed

text \<open>The two directions together, on the state of the exchange.\<close>

lemma commit_form:
  assumes c: "can_commit ord s" and r: "commitOrder ord s = Inr (ret, s')"
    and d: "o_direction ord = 1 \<or> o_direction ord = -1"
  obtains mk left where "trader (stk_code s) ord mk"
    "matched mk (o_volume ord) (opp_side ord (decl_book s)) (new_trades s s') left (opp_side ord (decl_book s'))"
    "refused ord (opp_side ord (decl_book s)) left (opp_side ord (decl_book s'))"
    "priced (new_trades s s') (opp_side ord (decl_book s))"
    "own_side ord (decl_book s') = (if rests ord (decl_book s)
       then rest (own_key ord) ord (rest_price ord (decl_book s)) left (own_side ord (decl_book s))
       else own_side ord (decl_book s))"
proof -
  have w: "list_all wf_record (opp_side ord (decl_book s))" and o: "wf_order ord"
    using c wf_sideD by (auto simp: can_commit_def wf_book_def buy_side_def sell_side_def opp_side_def)
  from spec_side_form [OF w o d spec_commit_side [OF d commit_specD(2) [OF c r]]] obtain mk left where m: "trader (stk_code s) ord mk"
    "matched mk (o_volume ord) (opp_side ord (decl_book s)) (new_trades s s') left (opp_side ord (decl_book s'))"
    "refused ord (opp_side ord (decl_book s)) left (opp_side ord (decl_book s'))"
    "priced (new_trades s s') (opp_side ord (decl_book s))"
    and own: "own_side ord (decl_book s') =
      (if o_type ord = 0 then rest (own_key ord) ord (o_price ord) left (own_side ord (decl_book s))
       else if o_type ord = 1 \<and> opp_side ord (decl_book s) \<noteq> []
         then rest (own_key ord) ord (r_price (hd (opp_side ord (decl_book s)))) left (own_side ord (decl_book s))
       else if o_type ord = 2 \<and> own_side ord (decl_book s) \<noteq> []
         then rest (own_key ord) ord (r_price (hd (own_side ord (decl_book s)))) left (own_side ord (decl_book s))
       else own_side ord (decl_book s))"
    by (elim exE conjE)
  show ?thesis by (rule that [OF m]) (auto simp: rests_def rest_price_def own)
qed

section \<open>Conservation of volume\<close>

lemma side_volume:
  "sum_list (map r_volume (buy_side b)) = sum_list (map r_volume (buy_decls b))"
  "sum_list (map r_volume (sell_side b)) = sum_list (map r_volume (sell_decls b))"
  unfolding buy_side_def sell_side_def by (metis mset_best_first mset_map sum_mset_sum_list)+

lemma sum_insert_best:
  "sum_list (map f (insert_best key x ys)) = f x + sum_list (map f ys)" for f :: "'a \<Rightarrow> int"
  by (induction ys) auto

lemma sum_rest: "sum_list (map r_volume (rest key ord p v rs)) = v + sum_list (map r_volume rs)"
  by (simp add: rest_def sum_insert_best rest_record_def)

lemma matched_volume:
  assumes "matched mk v rs ts left rs'" and "\<And>r v. t_volume (mk r v) = v"
  shows "sum_list (map t_volume ts) + left = v"
    and "sum_list (map r_volume rs') + sum_list (map t_volume ts) = sum_list (map r_volume rs)"
proof -
  show "sum_list (map t_volume ts) + left = v" using assms(1) by (simp add: matched_def)
  have full: "sum_list (map t_volume (map (\<lambda>r. mk r (r_volume r)) (take n rs))) = sum_list (map r_volume (take n rs))" for n
    by (simp add: comp_def assms(2))
  have split: "sum_list (map r_volume (take n rs)) + sum_list (map r_volume (drop n rs)) = sum_list (map r_volume rs)" for n
    by (metis append_take_drop_id map_append sum_list_append)
  from assms(1) show "sum_list (map r_volume rs') + sum_list (map t_volume ts) = sum_list (map r_volume rs)"
    unfolding matched_def
  proof (elim conjE exE disjE)
    fix n w assume "ts = map (\<lambda>r. mk r (r_volume r)) (take n rs)" "rs' = drop n rs"
    then show ?thesis using full [of n] split [of n] by simp
  next
    fix n w assume "n < length rs" "ts = map (\<lambda>r. mk r (r_volume r)) (take n rs) @ [mk (rs ! n) w]"
      "rs' = (rs ! n)\<lparr>r_volume := r_volume (rs ! n) - w\<rparr> # drop (Suc n) rs"
    then show ?thesis using full [of n] split [of n] by (simp add: assms(2) flip: Cons_nth_drop_Suc)
  qed
qed

text \<open>The matched records are a prefix, consumed in order.\<close>

lemma opp_side_wf: "wf_book b \<Longrightarrow> r \<in> set (opp_side ord b) \<Longrightarrow> wf_record r"
  by (auto simp: opp_side_def wf_book_def wf_side_def sell_side_def buy_side_def list_all_iff split: if_splits)

lemma matched_positive:
  assumes "matched mk v rs ts left rs'" and "\<And>r v. t_volume (mk r v) = v"
    and "\<And>r. r \<in> set rs \<Longrightarrow> wf_record r"
  shows "\<forall>t \<in> set ts. 0 < t_volume t"
proof -
  have "0 < r_volume r" if "r \<in> set (take n rs)" for r n
    using assms(3) [of r] in_set_takeD [OF that] by (simp add: wf_record_def)
  with assms(1) show ?thesis
    by (auto simp: matched_def assms(2))
qed

lemma matched_prefix:
  assumes "matched mk v rs ts left rs'" and "trader code ord mk"
  shows "\<exists>n. map (opp_id ord) ts = map r_order_id (take n rs)
    \<and> (\<forall>t \<in> set ts. own_id ord t = o_order_id ord \<and> t_stk_code t = code)
    \<and> (\<forall>i < length ts. t_volume (ts ! i) \<le> r_volume (rs ! i)
         \<and> (Suc i < length ts \<longrightarrow> t_volume (ts ! i) = r_volume (rs ! i)))"
  using assms(1) unfolding matched_def
proof (elim conjE exE disjE)
  fix n w assume "n \<le> length rs" "ts = map (\<lambda>r. mk r (r_volume r)) (take n rs)"
  then show ?thesis using assms(2) by (intro exI [of _ n]) (auto simp: trader_def)
next
  fix n w assume n: "n < length rs" "w < r_volume (rs ! n)"
    and ts: "ts = map (\<lambda>r. mk r (r_volume r)) (take n rs) @ [mk (rs ! n) w]"
  show ?thesis using assms(2) n
    by (intro exI [of _ "Suc n"])
      (auto simp: trader_def ts nth_append less_Suc_eq take_Suc_conv_app_nth)
qed

text \<open>What is not matched rests, if orders of the type do.\<close>

lemma commit_rest:
  assumes "can_commit ord s" and "commitOrder ord s = Inr (ret, s')"
    and "o_direction ord = 1 \<or> o_direction ord = -1" and "rests ord (decl_book s)"
    and "v = o_volume ord - sum_list (map t_volume (new_trades s s'))" and "v \<noteq> 0"
  shows "rest_record ord (rest_price ord (decl_book s)) v \<in> set (own_side ord (decl_book s'))"
proof -
  from commit_form [OF assms(1-3)] obtain mk left where
    m: "matched mk (o_volume ord) (opp_side ord (decl_book s)) (new_trades s s') left (opp_side ord (decl_book s'))"
    and own: "own_side ord (decl_book s') = (if rests ord (decl_book s)
       then rest (own_key ord) ord (rest_price ord (decl_book s)) left (own_side ord (decl_book s))
       else own_side ord (decl_book s))" by blast
  from m have "left = v" using assms(5) by (simp add: matched_def)
  then show ?thesis using own assms(4,6) by (simp add: rest_def)
qed

section \<open>An uncrossed book\<close>

definition ahead :: "Order \<Rightarrow> Record \<Rightarrow> Record \<Rightarrow> bool" where
  "ahead ord x y \<longleftrightarrow> (if o_direction ord = 1 then dkey (r_price x) < dkey (r_price y)
     else dkey (r_price y) < dkey (r_price x))"

lemma uncrossed_sides:
  "uncrossed b \<longleftrightarrow> (\<forall>x \<in> set (own_side ord b). \<forall>y \<in> set (opp_side ord b). ahead ord x y)"
  by (auto simp: uncrossed_def own_side_def opp_side_def ahead_def buy_side_def sell_side_def)

lemma best_is_hd: "y \<in> set (best_first key h) \<Longrightarrow> key y \<le> key (hd (best_first key h))"
  using sorted_best_first [of key h] by (cases "best_first key h") auto

lemma opp_side_hd:
  assumes "y \<in> set (opp_side ord b)"
  shows "if o_direction ord = 1 then dkey (r_price (hd (opp_side ord b))) \<le> dkey (r_price y)
    else dkey (r_price y) \<le> dkey (r_price (hd (opp_side ord b)))"
  using best_is_hd [of y sell_key "sell_decls b"] best_is_hd [of y buy_key "buy_decls b"] assms
  by (auto simp: opp_side_def sell_side_def buy_side_def sell_key_def buy_key_def less_eq_prod_def)

lemma ahead_hd:
  assumes "ahead ord x (hd (opp_side ord b))" and "y \<in> set (opp_side ord b)"
  shows "ahead ord x y"
  using assms(1) opp_side_hd [OF assms(2)] by (auto simp: ahead_def split: if_splits)

lemma ahead_hd_other:
  assumes "\<not> deq (r_price (hd (opp_side ord b'))) (r_price (hd (opp_side ord b)))"
    and "wf_book b" and "r_price (hd (opp_side ord b')) \<in> r_price ` set (opp_side ord b)"
    and "r_price x = r_price (hd (opp_side ord b))"
  shows "ahead ord x (hd (opp_side ord b'))"
proof -
  obtain z where z: "z \<in> set (opp_side ord b)" "r_price (hd (opp_side ord b')) = r_price z"
    using assms(3) by auto
  have n: "num_price y" if "y \<in> set (opp_side ord b)" for y
    using that assms(2) by (auto simp: opp_side_def wf_book_def wf_side_def sell_side_def buy_side_def
        list_all_iff wf_record_def split: if_splits)
  have "num_price (hd (opp_side ord b))" using z(1) by (intro n) (cases "opp_side ord b"; simp)
  then have "dkey (r_price z) \<noteq> dkey (r_price (hd (opp_side ord b)))"
    using assms(1) z n [OF z(1)] by (simp add: num_price_def dbl_simps)
  then show ?thesis using opp_side_hd [OF z(1)] z(2) assms(4)
    by (auto simp: ahead_def split: if_splits)
qed

lemma matched_prices:
  assumes "matched mk v rs ts left rs'" shows "r_price ` set rs' \<subseteq> r_price ` set rs"
  using assms unfolding matched_def
proof (elim conjE exE disjE)
  fix n w assume "rs' = drop n rs"
  then show ?thesis using set_drop_subset [of n rs] by auto
next
  fix n w assume "n < length rs" "rs' = (rs ! n)\<lparr>r_volume := r_volume (rs ! n) - w\<rparr> # drop (Suc n) rs"
  then show ?thesis using set_drop_subset [of "Suc n" rs] by auto
qed

lemma commit_keeps_uncrossed:
  assumes c: "can_commit ord s" and r: "commitOrder ord s = Inr (ret, s')"
    and d: "o_direction ord = 1 \<or> o_direction ord = -1" and u: "uncrossed (decl_book s)"
  shows "uncrossed (decl_book s')"
proof -
  let ?b = "decl_book s" and ?b' = "decl_book s'"
  from commit_form [OF c r d] obtain mk left where m:
    "matched mk (o_volume ord) (opp_side ord ?b) (new_trades s s') left (opp_side ord ?b')"
    and ref: "refused ord (opp_side ord ?b) left (opp_side ord ?b')"
    and own: "own_side ord ?b' = (if rests ord ?b
       then rest (own_key ord) ord (rest_price ord ?b) left (own_side ord ?b) else own_side ord ?b)" by blast
  have wf: "wf_book ?b" "wf_order ord" and wf': "wf_book ?b'"
    using c commit_specD(1) [OF c r] by (auto simp: can_commit_def)
  have sub: "\<exists>z \<in> set (opp_side ord ?b). r_price y = r_price z" if "y \<in> set (opp_side ord ?b')" for y
    using subsetD [OF matched_prices [OF m] imageI [OF that]] by (simp add: image_iff)
  have old: "ahead ord x y" if "x \<in> set (own_side ord ?b)" "y \<in> set (opp_side ord ?b')" for x y
    using u sub [OF that(2)] that(1) unfolding uncrossed_sides [of _ ord] by (auto simp: ahead_def)
  have new: "ahead ord (rest_record ord (rest_price ord ?b) left) y"
    if rs: "rests ord ?b" "left \<noteq> 0" and y: "y \<in> set (opp_side ord ?b')" for y
  proof -
    let ?h = "hd (opp_side ord ?b')"
    have h: "?h \<in> set (opp_side ord ?b')" using y by (cases "opp_side ord ?b'") auto
    consider "o_type ord = 0" | "o_type ord = 1" | "o_type ord = 2" "own_side ord ?b \<noteq> []"
      using rs(1) by (auto simp: rests_def)
    then show ?thesis
    proof cases
      case 1
      then have "beyond ord (r_price ?h)" using ref rs(2) y by (auto simp: refused_def)
      with 1 d have "ahead ord (rest_record ord (rest_price ord ?b) left) ?h"
        by (auto simp: ahead_def beyond_def rest_record_def rest_price_def dlt_def dgt_def)
      then show ?thesis using y by (rule ahead_hd)
    next
      case 2
      then have "\<not> deq (r_price ?h) (r_price (hd (opp_side ord ?b)))" using ref rs(2) y by (auto simp: refused_def)
      moreover have "r_price ?h \<in> r_price ` set (opp_side ord ?b)" using sub [OF h] by auto
      ultimately have "ahead ord (rest_record ord (rest_price ord ?b) left) ?h"
        using 2 wf(1) by (auto simp: rest_record_def rest_price_def intro: ahead_hd_other)
      then show ?thesis using y by (rule ahead_hd)
    next
      case 3
      then have "ahead ord (hd (own_side ord ?b)) y" using y by (intro old) auto
      then show ?thesis using 3 by (simp add: ahead_def rest_record_def rest_price_def)
    qed
  qed
  show ?thesis
    unfolding uncrossed_sides [of _ ord] using old new by (auto simp: own rest_def)
qed

section \<open>The order types\<close>

text \<open>The commit of an order as one \<open>fill\<close> of the side it matches.\<close>

definition maker :: "int \<Rightarrow> Order \<Rightarrow> Record \<Rightarrow> int \<Rightarrow> Trade" where
  "maker code ord r v = (if o_direction ord = 1 then buy_trade code ord r (r_price r) v
     else sell_trade code ord r (r_price r) v)"

lemma maker_volume [simp]: "t_volume (maker code ord r v) = v"
  by (simp add: maker_def)

lemma maker_price [simp]: "t_price (maker code ord r v) = r_price r"
  by (simp add: maker_def buy_trade_def sell_trade_def)

lemma maker_eq:
  "o_direction ord = 1 \<Longrightarrow> maker code ord = (\<lambda>r v. buy_trade code ord r (r_price r) v)"
  "o_direction ord = -1 \<Longrightarrow> maker code ord = (\<lambda>r v. sell_trade code ord r (r_price r) v)"
  by (simp_all add: maker_def fun_eq_iff)

lemma commit_fill:
  assumes c: "can_commit ord s" and r: "commitOrder ord s = Inr (ret, s')"
    and d: "o_direction ord = 1 \<or> o_direction ord = -1"
  defines "opp \<equiv> opp_side ord (decl_book s)" and "opp' \<equiv> opp_side ord (decl_book s')"
  shows "o_type ord = 0 \<Longrightarrow> \<exists>left. fill (adv_limit (beyond ord)) (maker (stk_code s) ord) () (o_volume ord) opp
      = (new_trades s s', left, opp')"
    and "o_type ord = 3 \<Longrightarrow> \<exists>left. fill adv_level (maker (stk_code s) ord) (0, 0) (o_volume ord) opp
      = (new_trades s s', left, opp')"
    and "o_type ord = 4 \<or> o_type ord = 5 \<and> o_volume ord \<le> volume32 opp \<Longrightarrow>
      \<exists>left. fill adv_all (maker (stk_code s) ord) () (o_volume ord) opp = (new_trades s s', left, opp')"
    and "o_type ord = 5 \<Longrightarrow> \<not> o_volume ord \<le> volume32 opp \<Longrightarrow> new_trades s s' = [] \<and> opp' = opp"
  using commit_specD(2) [OF c r] d unfolding opp_def opp'_def
  by (auto simp: abs_book_def spec_commit_def spec_buy_def spec_sell_def opp_side_def maker_eq beyond_eq
      split: prod.splits if_splits)

lemma commit_fill_cp:
  assumes c: "can_commit ord s" and r: "commitOrder ord s = Inr (ret, s')"
    and d: "o_direction ord = 1 \<or> o_direction ord = -1" and ty: "o_type ord = 1"
  shows "\<forall>t \<in> set (new_trades s s'). t_price t = r_price (hd (opp_side ord (decl_book s)))"
proof -
  have "\<forall>t \<in> set ts. t_price t = p" if "fill adv (\<lambda>x. mk x p) () v rs = (ts, left, rs')"
    "\<And>x v. t_price (mk x p v) = p" for adv mk p v rs ts left rs'
    using fill_admitted [OF that(1)] that(2) by auto
  note A = this [of _ "\<lambda>x. buy_trade (stk_code s) ord x"] this [of _ "\<lambda>x. sell_trade (stk_code s) ord x"]
  show ?thesis
    using commit_specD(2) [OF c r] d ty A
    by (auto simp: abs_book_def spec_commit_def spec_buy_def spec_sell_def opp_side_def buy_trade_def sell_trade_def
        simp del: fill.simps split: prod.splits list.splits)
qed

lemma beyond_hd:
  assumes "beyond ord (r_price (hd (opp_side ord b)))" and "r \<in> set (opp_side ord b)"
    and "num_price r" and "\<not> isnan (o_price ord)"
  shows "beyond ord (r_price r)"
  using assms opp_side_hd [OF assms(2)]
  by (auto simp: beyond_def dgt_def dlt_def num_price_def split: if_splits)

text \<open>Type 3: the level counter bounds the number of prices, zero prices apart.\<close>

lemma next_level_cases:
  assumes "next_level c prev p = Some (c', prev')" and "\<not> isnan prev" and "\<not> isnan p"
  shows "dkey p = dkey prev \<and> c' = c \<and> prev' = prev \<or> c' = c + 1 \<and> c' \<le> 5 \<and> prev' = p"
  using assms by (auto simp: next_level_def dbl_simps split: if_splits)

lemma fill_levels:
  assumes "fill adv_level mk (c, prev) v rs = (ts, left, rs')" and "c \<le> 5" and "\<not> isnan prev"
    and "\<forall>r \<in> set rs. num_price r" and "\<And>r v. t_price (mk r v) = r_price r"
  shows "int (card (dkey ` t_price ` set ts - {dkey prev})) \<le> 5 - c"
  using assms(1-4)
proof (induction rs arbitrary: c prev v ts)
  case (Cons r rs)
  have step: "int (card (insert (dkey (r_price r)) K - {dkey prev})) \<le> 5 - c"
    if l: "adv_level (c, prev) r = Some (c', prev')" and "int (card (K - {dkey prev'})) \<le> 5 - c'" "finite K" for K c' prev'
  proof -
    have "dkey (r_price r) = dkey prev \<and> c' = c \<and> prev' = prev \<or> c' = c + 1 \<and> c' \<le> 5 \<and> prev' = r_price r"
      using next_level_cases l Cons.prems(3,4) by (simp add: adv_level_def num_price_def)
    then show ?thesis
    proof (elim disjE conjE)
      assume "c' = c + 1" "prev' = r_price r"
      have "card (insert (dkey (r_price r)) K - {dkey prev}) \<le> card (insert (dkey (r_price r)) (K - {dkey (r_price r)}))"
        using that(3) by (intro card_mono) auto
      also have "\<dots> \<le> Suc (card (K - {dkey (r_price r)}))" using that(3)
        by (simp add: card_insert_disjoint del: insert_Diff_single)
      finally show ?thesis using that(2) \<open>c' = c + 1\<close> \<open>prev' = r_price r\<close> by simp
    qed (use that(2) in simp)
  qed
  have c5: "c' \<le> 5 \<and> \<not> isnan prev'" if "adv_level (c, prev) r = Some (c', prev')" for c' prev'
    using next_level_cases [of c prev "r_price r" c' prev'] that Cons.prems by (auto simp: adv_level_def num_price_def)
  from Cons.prems(1) show ?case
  proof (cases rule: fill_ConsE)
    case stop
    then show ?thesis using Cons.prems(2) by simp
  next
    case (part l')
    then show ?thesis using step [of "fst l'" "snd l'" "{}"] c5 [of "fst l'" "snd l'"] by (simp add: assms(5))
  next
    case (all l' ts2)
    then show ?thesis using Cons.IH [of "fst l'" "snd l'"] c5 [of "fst l'" "snd l'"] Cons.prems(4)
        step [of "fst l'" "snd l'" "dkey ` t_price ` set ts2"] by (simp add: assms(5))
  qed
qed simp

lemma fill_all_total:
  assumes "fill adv_all (maker code ord) () (o_volume ord) (opp_side ord b) = (ts, left, rs')"
    and "wf_book b" and "wf_order ord"
  shows "sum_list (map t_volume ts) = min (o_volume ord) (sum_list (map r_volume (opp_side ord b)))"
proof -
  have "list_all wf_record (opp_side ord b)" using opp_side_wf [OF assms(2)] by (simp add: list_all_iff)
  then show ?thesis
    using fill_all_residue [OF assms(1) _ _ maker_volume] fill_volume [OF assms(1) maker_volume] assms(3)
    by (auto simp: wf_order_def min_def max_def split: if_splits)
qed

lemma commit_no_rest:
  assumes "can_commit ord s" and "commitOrder ord s = Inr (ret, s')"
    and "o_direction ord = 1 \<or> o_direction ord = -1" and "o_type ord \<notin> {0, 1, 2}"
  shows "own_side ord (decl_book s') = own_side ord (decl_book s)"
  by (rule commit_form [OF assms(1-3)]) (use assms(4) in \<open>auto simp: rests_def\<close>)

section \<open>A book for the witnesses\<close>

text \<open>Three asks (two at 10.0, one at 11.0) and a bid at 9.0.\<close>

definition d9 :: double where "d9 = 0x4022000000000000"
definition d10 :: double where "d10 = 0x4024000000000000"
definition d11 :: double where "d11 = 0x4026000000000000"

definition ex_state :: StockExchange where
  "ex_state = (newStockExchange 1)\<lparr>decl_book :=
     \<lparr>buy_decls = [\<lparr>r_order_id = 4, r_price = d9, r_volume = 6\<rparr>],
      sell_decls = [\<lparr>r_order_id = 1, r_price = d10, r_volume = 5\<rparr>,
                    \<lparr>r_order_id = 3, r_price = d11, r_volume = 4\<rparr>,
                    \<lparr>r_order_id = 2, r_price = d10, r_volume = 7\<rparr>]\<rparr>\<rparr>"

definition ex_buy :: "int \<Rightarrow> int \<Rightarrow> Order" where
  "ex_buy ty v = \<lparr>o_stk_code = 1, o_order_id = 5, o_direction = 1, o_type = ty, o_price = d10, o_volume = v\<rparr>"

definition ex_after :: "Order \<Rightarrow> StockExchange" where
  "ex_after ord = snd (projr (commitOrder ord ex_state))"

section \<open>Properties\<close>

text \<open>
  (C1) On a well-formed book, a commit of a well-formed order whose id is not in the book returns
  (no assert fails, no loop diverges); the trades it produces and the new book, read best first,
  are those of \<open>spec_commit\<close>, and the book is well-formed again.
\<close>

theorem commitOrder_refines:
  assumes "wf_book (decl_book s)" and "wf_order ord" and "o_order_id ord \<notin> book_ids (decl_book s)"
  shows "\<exists>ret b. commitOrder ord s =
      Inr (ret, s\<lparr>produced := produced s @ fst (spec_commit (stk_code s) ord (abs_book (decl_book s))),
                  decl_book := b\<rparr>)
    \<and> wf_book b \<and> abs_book b = snd (spec_commit (stk_code s) ord (abs_book (decl_book s)))"
  using commitOrder_spec [OF assms] by (simp add: implements_def)

theorem commitOrder_refines_witness:
  "\<exists>ret b. commitOrder (ex_buy 0 8) ex_state =
      Inr (ret, ex_state\<lparr>produced := produced ex_state
          @ fst (spec_commit (stk_code ex_state) (ex_buy 0 8) (abs_book (decl_book ex_state))), decl_book := b\<rparr>)
    \<and> wf_book b \<and> abs_book b = snd (spec_commit (stk_code ex_state) (ex_buy 0 8) (abs_book (decl_book ex_state)))"
  by (rule commitOrder_refines; code_simp)

text \<open>
  (C2) No volume is created or lost: the volume that leaves the side matched against is the volume
  of the new trades, and what the order's own side gains is the unmatched volume if orders of this
  type rest in the book, and nothing otherwise. Every trade has a positive volume.
\<close>

theorem commit_conserves_volume:
  assumes "can_commit ord s" and "commitOrder ord s = Inr (ret, s')"
    and "o_direction ord = 1 \<or> o_direction ord = -1"
  shows "sum_list (map r_volume (opp_side ord (decl_book s'))) + sum_list (map t_volume (new_trades s s'))
      = sum_list (map r_volume (opp_side ord (decl_book s)))
    \<and> sum_list (map r_volume (own_side ord (decl_book s')))
      = sum_list (map r_volume (own_side ord (decl_book s)))
        + (if rests ord (decl_book s) then o_volume ord - sum_list (map t_volume (new_trades s s')) else 0)
    \<and> sum_list (map t_volume (new_trades s s')) \<le> o_volume ord
    \<and> (\<forall>t \<in> set (new_trades s s'). 0 < t_volume t)"
proof -
  from commit_form [OF assms] obtain mk left where t: "trader (stk_code s) ord mk"
    and m: "matched mk (o_volume ord) (opp_side ord (decl_book s)) (new_trades s s') left (opp_side ord (decl_book s'))"
    and own: "own_side ord (decl_book s') = (if rests ord (decl_book s)
       then rest (own_key ord) ord (rest_price ord (decl_book s)) left (own_side ord (decl_book s))
       else own_side ord (decl_book s))" by blast
  have v: "t_volume (mk r v) = v" for r v using t by (simp add: trader_def)
  have "0 \<le> left" using m by (simp add: matched_def)
  moreover have "\<forall>t \<in> set (new_trades s s'). 0 < t_volume t"
    using matched_positive [OF m v] opp_side_wf assms(1) by (auto simp: can_commit_def)
  ultimately show ?thesis using matched_volume [OF m v] by (simp add: own sum_rest)
qed

theorem commit_conserves_volume_witness:
  "sum_list (map r_volume (opp_side (ex_buy 0 20) (decl_book (ex_after (ex_buy 0 20))))) +
     sum_list (map t_volume (new_trades ex_state (ex_after (ex_buy 0 20)))) = 16
   \<and> sum_list (map r_volume (own_side (ex_buy 0 20) (decl_book (ex_after (ex_buy 0 20))))) = 6 + 8"
proof -
  have *: "sum_list (map r_volume (opp_side (ex_buy 0 20) (decl_book ex_state))) = 16"
    "sum_list (map r_volume (own_side (ex_buy 0 20) (decl_book ex_state))) = 6"
    "sum_list (map t_volume (new_trades ex_state (ex_after (ex_buy 0 20)))) = 12"
    "rests (ex_buy 0 20) (decl_book ex_state)" "o_volume (ex_buy 0 20) = 20" by code_simp+
  have "can_commit (ex_buy 0 20) ex_state" "commitOrder (ex_buy 0 20) ex_state = Inr (0, ex_after (ex_buy 0 20))"
    "o_direction (ex_buy 0 20) = 1 \<or> o_direction (ex_buy 0 20) = -1" by code_simp+
  from commit_conserves_volume [OF this] show ?thesis using * by simp
qed

text \<open>
  (C3) Price-time priority: the trades of a commit are with the first records of the other side in
  its order (better price first, then smaller id), one each and at the record's price; all of these
  records but the last are consumed completely, so no record trades while a better one has volume
  left.
\<close>

theorem commit_priority:
  assumes "can_commit ord s" and "commitOrder ord s = Inr (ret, s')"
    and "o_direction ord = 1 \<or> o_direction ord = -1"
  shows "\<exists>n. map (opp_id ord) (new_trades s s') = map r_order_id (take n (opp_side ord (decl_book s)))
    \<and> (\<forall>t \<in> set (new_trades s s'). own_id ord t = o_order_id ord \<and> t_stk_code t = stk_code s)
    \<and> (\<forall>i < length (new_trades s s').
         deq (t_price (new_trades s s' ! i)) (r_price (opp_side ord (decl_book s) ! i))
         \<and> t_volume (new_trades s s' ! i) \<le> r_volume (opp_side ord (decl_book s) ! i)
         \<and> (Suc i < length (new_trades s s') \<longrightarrow>
              t_volume (new_trades s s' ! i) = r_volume (opp_side ord (decl_book s) ! i)))"
proof -
  from commit_form [OF assms] obtain mk left where t: "trader (stk_code s) ord mk"
    and m: "matched mk (o_volume ord) (opp_side ord (decl_book s)) (new_trades s s') left (opp_side ord (decl_book s'))"
    and p: "priced (new_trades s s') (opp_side ord (decl_book s))" by blast
  show ?thesis using matched_prefix [OF m t] p by (auto simp: priced_def)
qed

theorem commit_priority_witness:
  "\<exists>n. map (opp_id (ex_buy 0 8)) (new_trades ex_state (ex_after (ex_buy 0 8)))
     = map r_order_id (take n (opp_side (ex_buy 0 8) (decl_book ex_state)))"
proof -
  have "can_commit (ex_buy 0 8) ex_state" "commitOrder (ex_buy 0 8) ex_state = Inr (0, ex_after (ex_buy 0 8))"
    "o_direction (ex_buy 0 8) = 1 \<or> o_direction (ex_buy 0 8) = -1" by code_simp+
  from commit_priority [OF this] show ?thesis by blast
qed

text \<open>
  (C4) Limit orders: every trade is at the limit or better; and an order that is not filled leaves
  only records beyond its limit on the other side, with its remaining volume resting at its limit
  price.
\<close>

theorem limit_order_correct:
  assumes "can_commit ord s" and "commitOrder ord s = Inr (ret, s')"
    and "o_direction ord = 1 \<or> o_direction ord = -1" and "o_type ord = 0"
  shows "(\<forall>t \<in> set (new_trades s s'). \<not> beyond ord (t_price t))
    \<and> (sum_list (map t_volume (new_trades s s')) < o_volume ord \<longrightarrow>
        (\<forall>r \<in> set (opp_side ord (decl_book s')). beyond ord (r_price r))
        \<and> rest_record ord (o_price ord) (o_volume ord - sum_list (map t_volume (new_trades s s')))
            \<in> set (own_side ord (decl_book s')))"
proof -
  obtain left where f: "fill (adv_limit (beyond ord)) (maker (stk_code s) ord) () (o_volume ord)
      (opp_side ord (decl_book s)) = (new_trades s s', left, opp_side ord (decl_book s'))"
    using commit_fill(1) [OF assms] by blast
  have "\<not> beyond ord (t_price t)" if "t \<in> set (new_trades s s')" for t
    using fill_admitted [OF f that] by (auto simp: adv_limit_def split: if_splits)
  moreover have "(\<forall>r \<in> set (opp_side ord (decl_book s')). beyond ord (r_price r))
      \<and> rest_record ord (o_price ord) left \<in> set (own_side ord (decl_book s'))" if "left \<noteq> 0"
  proof
    have "\<forall>r \<in> set (opp_side ord (decl_book s')). num_price r" "\<not> isnan (o_price ord)"
      using opp_side_wf [OF commit_specD(1) [OF assms(1,2)]] assms(1,4)
      by (auto simp: can_commit_def wf_order_def wf_record_def)
    then show "\<forall>r \<in> set (opp_side ord (decl_book s')). beyond ord (r_price r)"
      using limit_residue [OF f] that by (auto intro: beyond_hd)
    show "rest_record ord (o_price ord) left \<in> set (own_side ord (decl_book s'))"
      using commit_rest [OF assms(1-3), of left] fill_volume [OF f maker_volume] that assms(4)
      by (simp add: rests_def rest_price_def)
  qed
  moreover have "left = o_volume ord - sum_list (map t_volume (new_trades s s'))"
    using fill_volume [OF f maker_volume] by simp
  ultimately show ?thesis by auto
qed

theorem limit_order_correct_witness:
  "list_all (\<lambda>t. \<not> beyond (ex_buy 0 20) (t_price t)) (new_trades ex_state (ex_after (ex_buy 0 20)))
   \<and> rest_record (ex_buy 0 20) d10 8 \<in> set (own_side (ex_buy 0 20) (decl_book (ex_after (ex_buy 0 20))))"
proof -
  have *: "sum_list (map t_volume (new_trades ex_state (ex_after (ex_buy 0 20)))) = 12"
    "o_volume (ex_buy 0 20) = 20" "o_price (ex_buy 0 20) = d10" by code_simp+
  have "can_commit (ex_buy 0 20) ex_state" "commitOrder (ex_buy 0 20) ex_state = Inr (0, ex_after (ex_buy 0 20))"
    "o_direction (ex_buy 0 20) = 1 \<or> o_direction (ex_buy 0 20) = -1" "o_type (ex_buy 0 20) = 0" by code_simp+
  from limit_order_correct [OF this] show ?thesis using * by (simp add: list_all_iff)
qed

text \<open>
  (C5) Counterparty-best orders: every trade is at the price of the best record of the other side
  before the commit, and the unmatched volume rests at that price; with the other side empty the
  order does nothing.
\<close>

theorem counterparty_best_correct:
  assumes "can_commit ord s" and "commitOrder ord s = Inr (ret, s')"
    and "o_direction ord = 1 \<or> o_direction ord = -1" and "o_type ord = 1"
  shows "(\<forall>t \<in> set (new_trades s s'). t_price t = r_price (hd (opp_side ord (decl_book s))))
    \<and> (if opp_side ord (decl_book s) = []
       then new_trades s s' = [] \<and> own_side ord (decl_book s') = own_side ord (decl_book s)
       else sum_list (map t_volume (new_trades s s')) < o_volume ord \<longrightarrow>
         rest_record ord (r_price (hd (opp_side ord (decl_book s))))
           (o_volume ord - sum_list (map t_volume (new_trades s s')))
         \<in> set (own_side ord (decl_book s')))"
proof -
  have "new_trades s s' = []" if "opp_side ord (decl_book s) = []"
    using commit_form [OF assms(1-3)] that unfolding priced_def
    by (metis length_greater_0_conv less_nat_zero_code list.size(3))
  moreover have "own_side ord (decl_book s') = own_side ord (decl_book s)" if "opp_side ord (decl_book s) = []"
    using commit_form [OF assms(1-3)] that assms(4) by (metis rests_def one_neq_zero one_eq_numeral_iff semiring_norm(83))
  ultimately show ?thesis
    using commit_fill_cp [OF assms] commit_rest [OF assms(1-3)] assms(4)
    by (auto simp: rests_def rest_price_def)
qed

theorem counterparty_best_correct_witness:
  "list_all (\<lambda>t. t_price t = d10) (new_trades ex_state (ex_after (ex_buy 1 20)))
   \<and> rest_record (ex_buy 1 20) d10 8 \<in> set (own_side (ex_buy 1 20) (decl_book (ex_after (ex_buy 1 20))))"
proof -
  have *: "sum_list (map t_volume (new_trades ex_state (ex_after (ex_buy 1 20)))) = 12"
    "o_volume (ex_buy 1 20) = 20" "r_price (hd (opp_side (ex_buy 1 20) (decl_book ex_state))) = d10"
    "opp_side (ex_buy 1 20) (decl_book ex_state) \<noteq> []" by code_simp+
  have "can_commit (ex_buy 1 20) ex_state" "commitOrder (ex_buy 1 20) ex_state = Inr (0, ex_after (ex_buy 1 20))"
    "o_direction (ex_buy 1 20) = 1 \<or> o_direction (ex_buy 1 20) = -1" "o_type (ex_buy 1 20) = 1" by code_simp+
  from counterparty_best_correct [OF this] show ?thesis using * by (simp add: list_all_iff)
qed

text \<open>
  (C6) Own-best orders: no trade; the order rests with its whole volume at the best price of its own
  side, or does nothing when that side is empty. The other side is not touched.
\<close>

theorem our_best_correct:
  assumes "can_commit ord s" and "commitOrder ord s = Inr (ret, s')"
    and "o_direction ord = 1 \<or> o_direction ord = -1" and "o_type ord = 2"
  shows "new_trades s s' = [] \<and> opp_side ord (decl_book s') = opp_side ord (decl_book s)
    \<and> own_side ord (decl_book s') =
       (if own_side ord (decl_book s) = [] then []
        else insert_best (own_key ord)
          (rest_record ord (r_price (hd (own_side ord (decl_book s)))) (o_volume ord)) (own_side ord (decl_book s)))"
  using commit_specD(2) [OF assms(1,2)] assms
  by (auto simp: abs_book_def spec_commit_def spec_buy_def spec_sell_def opp_side_def own_side_def own_key_def
      rest_def can_commit_def wf_order_def split: list.splits)

theorem our_best_correct_witness:
  "new_trades ex_state (ex_after (ex_buy 2 3)) = []
   \<and> own_side (ex_buy 2 3) (decl_book (ex_after (ex_buy 2 3)))
     = insert_best buy_key (rest_record (ex_buy 2 3) d9 3) (own_side (ex_buy 2 3) (decl_book ex_state))"
proof -
  have *: "own_side (ex_buy 2 3) (decl_book ex_state) \<noteq> []" "own_key (ex_buy 2 3) = buy_key"
    "r_price (hd (own_side (ex_buy 2 3) (decl_book ex_state))) = d9" "o_volume (ex_buy 2 3) = 3"
    by (code_simp, simp add: own_key_def ex_buy_def, code_simp+)
  have "can_commit (ex_buy 2 3) ex_state" "commitOrder (ex_buy 2 3) ex_state = Inr (0, ex_after (ex_buy 2 3))"
    "o_direction (ex_buy 2 3) = 1 \<or> o_direction (ex_buy 2 3) = -1" "o_type (ex_buy 2 3) = 2" by code_simp+
  from our_best_correct [OF this] show ?thesis using * by simp
qed

text \<open>
  (C7) Best-five-levels orders: the trades of one order have at most five different prices, a price
  of zero apart (the level counter starts from the price 0 and does not count it), and what is not
  matched is dropped.
\<close>

theorem five_level_correct:
  assumes "can_commit ord s" and "commitOrder ord s = Inr (ret, s')"
    and "o_direction ord = 1 \<or> o_direction ord = -1" and "o_type ord = 3"
  shows "card (dkey ` t_price ` set (new_trades s s') - {0}) \<le> 5
    \<and> own_side ord (decl_book s') = own_side ord (decl_book s)"
proof -
  obtain left where f: "fill adv_level (maker (stk_code s) ord) (0, 0) (o_volume ord)
      (opp_side ord (decl_book s)) = (new_trades s s', left, opp_side ord (decl_book s'))"
    using commit_fill(2) [OF assms] by blast
  have "\<forall>r \<in> set (opp_side ord (decl_book s)). num_price r"
    using opp_side_wf assms(1) by (auto simp: can_commit_def wf_record_def)
  moreover have "dkey 0 = 0" "\<not> isnan 0" by (simp_all add: dkey_def dmag_def dsign_def isnan_def)
  ultimately show ?thesis
    using fill_levels [OF f] commit_no_rest [OF assms(1-3)] assms(4) by simp
qed

theorem five_level_correct_witness:
  "card (dkey ` t_price ` set (new_trades ex_state (ex_after (ex_buy 3 20))) - {0}) \<le> 5"
proof -
  have "can_commit (ex_buy 3 20) ex_state" "commitOrder (ex_buy 3 20) ex_state = Inr (0, ex_after (ex_buy 3 20))"
    "o_direction (ex_buy 3 20) = 1 \<or> o_direction (ex_buy 3 20) = -1" "o_type (ex_buy 3 20) = 3" by code_simp+
  from five_level_correct [OF this] show ?thesis by simp
qed

text \<open>
  (C8) Immediate-or-cancel orders: the matched volume is the smaller of the order's and the whole
  volume of the other side; the rest is dropped.
\<close>

theorem immediate_correct:
  assumes "can_commit ord s" and "commitOrder ord s = Inr (ret, s')"
    and "o_direction ord = 1 \<or> o_direction ord = -1" and "o_type ord = 4"
  shows "sum_list (map t_volume (new_trades s s'))
      = min (o_volume ord) (sum_list (map r_volume (opp_side ord (decl_book s))))
    \<and> own_side ord (decl_book s') = own_side ord (decl_book s)"
  using commit_fill(3) [OF assms(1-3)] fill_all_total commit_no_rest [OF assms(1-3)] assms(1,4)
  by (auto simp: can_commit_def)

theorem immediate_correct_witness:
  "sum_list (map t_volume (new_trades ex_state (ex_after (ex_buy 4 20)))) = 16"
proof -
  have *: "sum_list (map r_volume (opp_side (ex_buy 4 20) (decl_book ex_state))) = 16" "o_volume (ex_buy 4 20) = 20"
    by code_simp+
  have "can_commit (ex_buy 4 20) ex_state" "commitOrder (ex_buy 4 20) ex_state = Inr (0, ex_after (ex_buy 4 20))"
    "o_direction (ex_buy 4 20) = 1 \<or> o_direction (ex_buy 4 20) = -1" "o_type (ex_buy 4 20) = 4" by code_simp+
  from immediate_correct [OF this] show ?thesis using * by simp
qed

text \<open>
  (C9) Whole-or-cancel orders: an order is filled completely or not at all, also when the
  \<open>int\<close> sum of the other side's volumes overflows; when that sum does not overflow, the order is filled
  exactly if the other side has enough volume.
\<close>

theorem whole_or_cancel_correct:
  assumes "can_commit ord s" and "commitOrder ord s = Inr (ret, s')"
    and "o_direction ord = 1 \<or> o_direction ord = -1" and "o_type ord = 5"
  shows "(sum_list (map t_volume (new_trades s s')) = o_volume ord
      \<or> new_trades s s' = [] \<and> opp_side ord (decl_book s') = opp_side ord (decl_book s))
    \<and> own_side ord (decl_book s') = own_side ord (decl_book s)
    \<and> (in_i32 (sum_list (map r_volume (opp_side ord (decl_book s)))) \<longrightarrow>
        (sum_list (map t_volume (new_trades s s')) = o_volume ord
         \<longleftrightarrow> o_volume ord \<le> sum_list (map r_volume (opp_side ord (decl_book s)))))"
proof -
  let ?v = "sum_list (map r_volume (opp_side ord (decl_book s)))"
  have v: "0 < o_volume ord" and wf: "wf_book (decl_book s)" "wf_order ord"
    using assms(1) by (auto simp: can_commit_def wf_order_def)
  have "list_all wf_record (opp_side ord (decl_book s))"
    using opp_side_wf [OF wf(1)] by (simp add: list_all_iff)
  then have le: "volume32 (opp_side ord (decl_book s)) \<le> ?v"
    using i32_le [OF wf_sumD] by (simp add: volume32_def)
  have ex: "in_i32 ?v \<Longrightarrow> volume32 (opp_side ord (decl_book s)) = ?v" by (simp add: volume32_def)
  show ?thesis
  proof (cases "o_volume ord \<le> volume32 (opp_side ord (decl_book s))")
    case True
    then have "sum_list (map t_volume (new_trades s s')) = o_volume ord"
      using commit_fill(3) [OF assms(1-3)] fill_all_total [OF _ wf] assms(4) le by fastforce
    then show ?thesis using True le commit_no_rest [OF assms(1-3)] assms(4) by auto
  next
    case False
    then show ?thesis
      using commit_fill(4) [OF assms] commit_no_rest [OF assms(1-3)] assms(4) ex v by auto
  qed
qed

theorem whole_or_cancel_correct_witness:
  "sum_list (map t_volume (new_trades ex_state (ex_after (ex_buy 5 16)))) = 16
   \<and> sum_list (map t_volume (new_trades ex_state (ex_after (ex_buy 5 17)))) \<noteq> 17"
proof -
  have *: "sum_list (map r_volume (opp_side (ex_buy 5 v) (decl_book ex_state))) = 16"
    "o_volume (ex_buy 5 v) = v" "in_i32 16" for v
    by (simp add: opp_side_def ex_buy_def, code_simp) (simp_all add: ex_buy_def in_i32_def)
  have "can_commit (ex_buy 5 16) ex_state" "commitOrder (ex_buy 5 16) ex_state = Inr (0, ex_after (ex_buy 5 16))"
    "o_direction (ex_buy 5 16) = 1 \<or> o_direction (ex_buy 5 16) = -1" "o_type (ex_buy 5 16) = 5" by code_simp+
  note a = whole_or_cancel_correct [OF this]
  have "can_commit (ex_buy 5 17) ex_state" "commitOrder (ex_buy 5 17) ex_state = Inr (0, ex_after (ex_buy 5 17))"
    "o_direction (ex_buy 5 17) = 1 \<or> o_direction (ex_buy 5 17) = -1" "o_type (ex_buy 5 17) = 5" by code_simp+
  note b = whole_or_cancel_correct [OF this]
  show ?thesis using a b *(3) unfolding * by simp
qed

end
