(* ===== verification/Sequencing.thy ===== *)
theory Sequencing
  imports Commit_Properties
begin

text \<open>
  The sequencing of orders in \<open>StockExchange::receiveOrder\<close>: orders arrive in any order, wait in a
  heap keyed by order id, and are committed in the order of their ids without gaps. The
  specification runs the abstract exchange \<open>spec_commit\<close> over the orders sorted by id.
\<close>

section \<open>Specification\<close>

fun spec_run :: "int \<Rightarrow> Order list \<Rightarrow> abook \<Rightarrow> Trade list \<times> abook" where
  "spec_run code [] ab = ([], ab)"
| "spec_run code (o1 # os) ab =
     (case spec_commit code o1 ab of (ts, ab1) \<Rightarrow>
        (case spec_run code os ab1 of (ts2, ab2) \<Rightarrow> (ts @ ts2, ab2)))"

text \<open>Split off the orders with the ids that follow \<open>l\<close> without a gap.\<close>

fun take_ready :: "int \<Rightarrow> Order list \<Rightarrow> Order list \<times> Order list" where
  "take_ready l [] = ([], [])"
| "take_ready l (o1 # os) =
     (if o_order_id o1 = l + 1
      then (case take_ready (l + 1) os of (now, later) \<Rightarrow> (o1 # now, later))
      else ([], o1 # os))"

lemma spec_run_append:
  "spec_run code (xs @ ys) ab =
     (case spec_run code xs ab of (ts, ab1) \<Rightarrow> (case spec_run code ys ab1 of (ts2, ab2) \<Rightarrow> (ts @ ts2, ab2)))"
  by (induction xs arbitrary: ab) (auto split: prod.splits)

lemma take_ready_append: "take_ready l os = (now, later) \<Longrightarrow> os = now @ later"
  by (induction l os arbitrary: now later rule: take_ready.induct) (auto split: if_splits prod.splits)

section \<open>The heap of waiting orders\<close>

definition id_key :: "Order \<Rightarrow> int" where
  "id_key ord = - o_order_id ord"

interpretation oh: heap_order orderGtById "\<lambda>_. True" id_key
  by unfold_locales (simp add: orderGtById_def id_key_def)

definition waiting :: "StockExchange \<Rightarrow> Order list" where
  "waiting s = best_first id_key (not_ready_orders s)"

text \<open>
  The invariant of the engine: a well-formed, uncrossed book of committed orders; a heap of waiting
  orders, each with an id of its own that is not committed yet.
\<close>

definition waits :: "int \<Rightarrow> int \<Rightarrow> Order \<Rightarrow> bool" where
  "waits code l ord \<longleftrightarrow> wf_order ord \<and> o_stk_code ord = code \<and> l < o_order_id ord \<and> o_order_id ord < 2147483647"

definition engine_inv :: "StockExchange \<Rightarrow> bool" where
  "engine_inv s \<longleftrightarrow>
     wf_book (decl_book s) \<and> uncrossed (decl_book s) \<and> 0 \<le> last_commit_order_id s
     \<and> (\<forall>i \<in> book_ids (decl_book s). i \<le> last_commit_order_id s)
     \<and> heap_inv (\<lambda>_. True) id_key (not_ready_orders s)
     \<and> distinct (map o_order_id (not_ready_orders s))
     \<and> list_all (waits (stk_code s) (last_commit_order_id s)) (not_ready_orders s)"

lemma distinct_id_key: "distinct (map id_key xs) = distinct (map o_order_id xs)"
  by (auto simp: distinct_map inj_on_def id_key_def)

lemma inj_id_key: "distinct (map o_order_id os) \<Longrightarrow> inj_on id_key (set os)"
  unfolding distinct_map by (metis (mono_tags) id_key_def inj_on_def neg_equal_iff_equal)

lemma waiting_cons:
  assumes "engine_inv s" and "not_ready_orders s \<noteq> []"
  shows "waiting s = not_ready_orders s ! 0 # best_first id_key (butlast (pop_heap orderGtById (not_ready_orders s)))"
  using oh.hv.best_first_pop assms by (simp add: waiting_def engine_inv_def distinct_id_key)

text \<open>Ids of the book after a commit.\<close>

lemma book_ids_sides: "book_ids b = r_order_id ` (set (own_side ord b) \<union> set (opp_side ord b))"
  by (auto simp: book_ids_def own_side_def opp_side_def buy_side_def sell_side_def)

lemma matched_ids:
  assumes "matched mk v rs ts left rs'" shows "r_order_id ` set rs' \<subseteq> r_order_id ` set rs"
  using assms unfolding matched_def
proof (elim conjE exE disjE)
  fix n w assume "rs' = drop n rs"
  then show ?thesis using set_drop_subset [of n rs] by auto
next
  fix n w assume "n < length rs" "rs' = (rs ! n)\<lparr>r_volume := r_volume (rs ! n) - w\<rparr> # drop (Suc n) rs"
  then show ?thesis using set_drop_subset [of "Suc n" rs] by auto
qed

lemma commit_no_direction:
  assumes "can_commit ord s" and "commitOrder ord s = Inr (ret, s')"
    and "\<not> (o_direction ord = 1 \<or> o_direction ord = -1)"
  shows "abs_book (decl_book s') = abs_book (decl_book s)"
  using commit_specD(2) [OF assms(1,2)] assms(3) by (simp add: spec_commit_def)

lemma abs_book_facts:
  assumes "abs_book b' = abs_book b"
  shows "book_ids b' = book_ids b" "uncrossed b' = uncrossed b"
proof -
  have "set (buy_decls b') = set (buy_decls b)" "set (sell_decls b') = set (sell_decls b)"
    using assms by (auto simp: abs_book_def buy_side_def sell_side_def dest!: arg_cong [where f = set])
  then show "book_ids b' = book_ids b" "uncrossed b' = uncrossed b" by (simp_all add: book_ids_def uncrossed_def)
qed

lemma commit_ids:
  assumes "can_commit ord s" and "commitOrder ord s = Inr (ret, s')"
  shows "book_ids (decl_book s') \<subseteq> insert (o_order_id ord) (book_ids (decl_book s))"
proof (cases "o_direction ord = 1 \<or> o_direction ord = -1")
  case True
  from commit_form [OF assms True] obtain mk left where
    m: "matched mk (o_volume ord) (opp_side ord (decl_book s)) (new_trades s s') left (opp_side ord (decl_book s'))"
    and own: "own_side ord (decl_book s') = (if rests ord (decl_book s)
       then rest (own_key ord) ord (rest_price ord (decl_book s)) left (own_side ord (decl_book s))
       else own_side ord (decl_book s))" by blast
  show ?thesis
    unfolding book_ids_sides [of _ ord] own using matched_ids [OF m]
    by (auto simp: rest_def rest_record_def)
next
  case False
  then show ?thesis using abs_book_facts(1) [OF commit_no_direction [OF assms]] by blast
qed

lemma commit_uncrossed_any:
  assumes "can_commit ord s" and "commitOrder ord s = Inr (ret, s')" and "uncrossed (decl_book s)"
  shows "uncrossed (decl_book s')"
  using commit_keeps_uncrossed [OF assms(1,2) _ assms(3)]
    abs_book_facts(2) [OF commit_no_direction [OF assms(1,2)]] assms(3) by blast

section \<open>The loop commits what is ready\<close>

lemma pop_waiting:
  assumes "engine_inv s" and ne: "not_ready_orders s \<noteq> []"
    and "o_order_id (not_ready_orders s ! 0) = last_commit_order_id s + 1"
  defines "tl_os \<equiv> butlast (pop_heap orderGtById (not_ready_orders s))"
  shows "heap_inv (\<lambda>_. True) id_key tl_os" "distinct (map o_order_id tl_os)"
    "list_all (waits (stk_code s) (last_commit_order_id s + 1)) tl_os"
proof -
  have d: "distinct (map o_order_id (not_ready_orders s))" and h: "heap_inv (\<lambda>_. True) id_key (not_ready_orders s)"
    and w: "list_all (waits (stk_code s) (last_commit_order_id s)) (not_ready_orders s)"
    using assms(1) by (simp_all add: engine_inv_def)
  show "heap_inv (\<lambda>_. True) id_key tl_os" unfolding tl_os_def using h ne by (rule oh.hv.invar_pop)
  show "distinct (map o_order_id tl_os)"
    unfolding tl_os_def using oh.hv.distinct_pop [OF ne] d by (simp add: distinct_id_key)
  have "mset (map o_order_id (not_ready_orders s)) = mset (o_order_id (not_ready_orders s ! 0) # map o_order_id tl_os)"
    unfolding tl_os_def using oh.hv.mset_pop_add [OF ne] by (metis list.simps(9) mset.simps(2) mset_map)
  then have new: "o_order_id (not_ready_orders s ! 0) \<notin> set (map o_order_id tl_os)"
    using d by (metis distinct.simps(2) mset_eq_imp_distinct_iff)
  have sub: "set tl_os \<subseteq> set (not_ready_orders s)" unfolding tl_os_def using ne by (rule oh.hv.set_pop)
  have "waits (stk_code s) (last_commit_order_id s + 1) x" if "x \<in> set tl_os" for x
  proof -
    have "waits (stk_code s) (last_commit_order_id s) x" using w sub that by (auto simp: list_all_iff)
    moreover have "o_order_id x \<noteq> last_commit_order_id s + 1" using new that assms(3) by force
    ultimately show ?thesis by (simp add: waits_def)
  qed
  then show "list_all (waits (stk_code s) (last_commit_order_id s + 1)) tl_os" by (simp add: list_all_iff)
qed

lemma commitReady_step:
  assumes inv: "engine_inv s" and ne: "not_ready_orders s \<noteq> []"
    and nxt: "o_order_id (not_ready_orders s ! 0) = last_commit_order_id s + 1"
  defines "sp \<equiv> spec_commit (stk_code s) (not_ready_orders s ! 0) (abs_book (decl_book s))"
  shows "\<exists>ret s2. commitReady ret0 s = commitReady ret s2 \<and> engine_inv s2 \<and> waiting s2 = tl (waiting s)
    \<and> last_commit_order_id s2 = last_commit_order_id s + 1 \<and> stk_code s2 = stk_code s
    \<and> produced s2 = produced s @ fst sp \<and> abs_book (decl_book s2) = snd sp"
proof -
  let ?o = "not_ready_orders s ! 0" and ?l = "last_commit_order_id s + 1"
  have wo: "waits (stk_code s) (last_commit_order_id s) ?o"
    using inv ne by (simp add: engine_inv_def list_all_iff)
  have l: "i32 ?l = ?l" using inv wo nxt by (intro i32_id) (simp add: engine_inv_def waits_def in_i32_def)
  have "?l \<notin> book_ids (decl_book s)" using inv by (auto simp: engine_inv_def)
  then have c: "can_commit ?o s" using inv wo nxt by (simp add: can_commit_def engine_inv_def waits_def)
  then obtain ret b where b: "commitOrder ?o s = Inr (ret, s\<lparr>produced := produced s @ fst sp, decl_book := b\<rparr>)"
    "wf_book b" "abs_book b = snd sp"
    using commitOrder_spec [of s ?o] by (auto simp: can_commit_def implements_def sp_def)
  define s2 where "s2 = s\<lparr>produced := produced s @ fst sp, decl_book := b,
    not_ready_orders := butlast (pop_heap orderGtById (not_ready_orders s)), last_commit_order_id := ?l\<rparr>"
  have "commitReady ret0 s = commitReady ret s2"
    using ne nxt l b(1) by (subst commitReady.simps) (simp add: s2_def)
  moreover have "engine_inv s2"
    using pop_waiting [OF inv ne nxt] b(2) commit_ids [OF c b(1)] commit_uncrossed_any [OF c b(1)] inv nxt
    by (fastforce simp: engine_inv_def s2_def)
  moreover have "waiting s2 = tl (waiting s)" using waiting_cons [OF inv ne] by (simp add: waiting_def s2_def)
  ultimately show ?thesis using b by (intro exI [of _ ret] exI [of _ s2]) (simp add: s2_def)
qed

lemma commitReady_run:
  assumes "engine_inv s" and "take_ready (last_commit_order_id s) (waiting s) = (now, later)"
  shows "\<exists>ret s'. commitReady ret0 s = Inr (ret, s') \<and> engine_inv s' \<and> waiting s' = later
    \<and> last_commit_order_id s' = last_commit_order_id s + int (length now) \<and> stk_code s' = stk_code s
    \<and> produced s' = produced s @ fst (spec_run (stk_code s) now (abs_book (decl_book s)))
    \<and> abs_book (decl_book s') = snd (spec_run (stk_code s) now (abs_book (decl_book s)))"
  using assms
proof (induction now arbitrary: s ret0)
  case Nil
  have w: "waiting s = later" using take_ready_append [OF Nil.prems(2)] by simp
  have "commitReady ret0 s = Inr (ret0, s)"
  proof (cases "not_ready_orders s = []")
    case False
    let ?o = "not_ready_orders s ! 0"
    have "waits (stk_code s) (last_commit_order_id s) ?o"
      using Nil.prems(1) False by (simp add: engine_inv_def list_all_iff)
    then have "i32 (last_commit_order_id s + 1) = last_commit_order_id s + 1"
      using Nil.prems(1) by (intro i32_id) (simp add: engine_inv_def waits_def in_i32_def)
    moreover have "o_order_id ?o \<noteq> last_commit_order_id s + 1"
      using Nil.prems(2) waiting_cons [OF Nil.prems(1) False] by (auto split: if_splits prod.splits)
    ultimately show ?thesis by (subst commitReady.simps) auto
  qed (subst commitReady.simps, simp)
  with Nil.prems w show ?case by simp
next
  case (Cons o1 now)
  have ne: "not_ready_orders s \<noteq> []" using Cons.prems(2) by (auto simp: waiting_def)
  note w = waiting_cons [OF Cons.prems(1) ne]
  have o1: "not_ready_orders s ! 0 = o1" "o_order_id o1 = last_commit_order_id s + 1"
    and tr: "take_ready (last_commit_order_id s + 1) (tl (waiting s)) = (now, later)"
    using Cons.prems(2) w by (auto split: if_splits prod.splits)
  from commitReady_step [OF Cons.prems(1) ne, of ret0] o1 obtain ret s2 where s2:
    "commitReady ret0 s = commitReady ret s2" "engine_inv s2" "waiting s2 = tl (waiting s)"
    "last_commit_order_id s2 = last_commit_order_id s + 1" "stk_code s2 = stk_code s"
    "produced s2 = produced s @ fst (spec_commit (stk_code s) o1 (abs_book (decl_book s)))"
    "abs_book (decl_book s2) = snd (spec_commit (stk_code s) o1 (abs_book (decl_book s)))"
    by auto
  with Cons.IH [of s2 ret] tr show ?case by (auto split: prod.splits)
qed

section \<open>Arrival in any order\<close>

lemma ids_step: "[l + 1..l + int (Suc n)] = (l + 1) # [l + 1 + 1..l + 1 + int n]"
  by (subst upto_rec1) (simp_all add: algebra_simps)

lemma take_ready_ids:
  "take_ready l os = (now, later) \<Longrightarrow> map o_order_id now = [l + 1..l + int (length now)]"
proof (induction l os arbitrary: now later rule: take_ready.induct)
  case (2 l o1 os)
  show ?case
  proof (cases "o_order_id o1 = l + 1")
    case True
    obtain n2 l2 where n2: "take_ready (l + 1) os = (n2, l2)" by (cases "take_ready (l + 1) os")
    then have "now = o1 # n2" using "2.prems" True by simp
    moreover have "map o_order_id n2 = [l + 1 + 1..l + 1 + int (length n2)]" using "2.IH" [OF True n2] .
    ultimately show ?thesis using True by (simp add: ids_step del: of_nat_Suc)
  qed (use "2.prems" in simp)
qed simp

lemma take_ready_prefix:
  assumes "map o_order_id xs = [l + 1..l + int (length xs)]"
  shows "take_ready l (xs @ ys) = (case take_ready (l + int (length xs)) ys of (now, later) \<Rightarrow> (xs @ now, later))"
  using assms
proof (induction xs arbitrary: l)
  case (Cons x xs)
  from Cons.prems have "o_order_id x = l + 1" "map o_order_id xs = [l + 1 + 1..l + 1 + int (length xs)]"
    by (simp_all add: ids_step del: of_nat_Suc)
  with Cons.IH [of "l + 1"] show ?case by (simp add: add_ac split: prod.splits)
qed simp

lemma receiveOrder_run:
  assumes inv: "engine_inv s" and o: "waits (stk_code s) (last_commit_order_id s) ord"
    and new: "o_order_id ord \<notin> o_order_id ` set (not_ready_orders s)"
    and tr: "take_ready (last_commit_order_id s) (insert_best id_key ord (waiting s)) = (now, later)"
  shows "\<exists>ret s'. receiveOrder ord s = Inr (ret, s') \<and> engine_inv s' \<and> waiting s' = later
    \<and> last_commit_order_id s' = last_commit_order_id s + int (length now) \<and> stk_code s' = stk_code s
    \<and> produced s' = produced s @ fst (spec_run (stk_code s) now (abs_book (decl_book s)))
    \<and> abs_book (decl_book s') = snd (spec_run (stk_code s) now (abs_book (decl_book s)))"
proof -
  let ?h = "push_heap orderGtById (not_ready_orders s @ [ord])"
  let ?s = "s\<lparr>not_ready_orders := ?h\<rparr>"
  have d: "distinct (map id_key (ord # not_ready_orders s))"
    using inv new by (simp add: engine_inv_def distinct_id_key) (auto simp: id_key_def)
  then have w: "waiting ?s = insert_best id_key ord (waiting s)"
    using oh.hv.best_first_push [of ord "not_ready_orders s"] by (simp add: waiting_def)
  have m: "mset ?h = mset (ord # not_ready_orders s)" by (simp add: push_heap_mset)
  have "distinct (map o_order_id ?h)"
    using d [unfolded distinct_id_key] m
      mset_eq_imp_distinct_iff [of "map o_order_id ?h" "map o_order_id (ord # not_ready_orders s)"]
    by simp
  moreover have "set ?h = insert ord (set (not_ready_orders s))"
    using oh.hv.set_push by blast
  ultimately have "engine_inv ?s"
    using inv o oh.hv.invar_push [of "not_ready_orders s" ord] by (simp add: engine_inv_def list_all_iff)
  from commitReady_run [OF this, of now later 0] show ?thesis
    using tr w o by (simp add: receiveOrder_def waits_def)
qed

lemma mset_waiting: "mset (waiting s) = mset (not_ready_orders s)"
  by (simp add: waiting_def)

text \<open>The committed prefix comes before everything that waits or is still to arrive.\<close>

lemma best_first_committed:
  assumes "take_ready l (insert_best id_key ord w) = (now, later)" and "mset w = mset nr"
    and "mset later = mset nr'" and "distinct (map o_order_id (nr @ ord # os))"
    and low: "\<And>x. x \<in> set (nr @ ord # os) \<Longrightarrow> l < o_order_id x"
  shows "best_first id_key (nr @ ord # os) = now @ best_first id_key (nr' @ os)"
proof (rule best_first_unique)
  have "mset (insert_best id_key ord w) = mset now + mset later"
    using take_ready_append [OF assms(1)] by simp
  then have a: "add_mset ord (mset nr) = mset now + mset nr'" unfolding assms(2,3) [symmetric] by simp
  have "mset (now @ best_first id_key (nr' @ os)) = (mset now + mset nr') + mset os"
    by (simp only: mset_append mset_best_first add.assoc)
  then show m: "mset (now @ best_first id_key (nr' @ os)) = mset (nr @ ord # os)"
    by (simp only: a [symmetric]) simp
  show "inj_on id_key (set (nr @ ord # os))"
    using assms(4) by (rule inj_id_key)
  note ids = take_ready_ids [OF assms(1)]
  have "sorted_wrt (\<lambda>x y. id_key y \<le> id_key x) now"
  proof -
    have "sorted (map o_order_id now)" unfolding ids by (rule sorted_upto)
    then show ?thesis by (simp add: sorted_map id_key_def)
  qed
  moreover have "id_key y \<le> id_key x" if x: "x \<in> set now" and y: "y \<in> set (nr' @ os)" for x y
  proof -
    have "distinct (map o_order_id (now @ best_first id_key (nr' @ os)))"
      using m assms(4) by (metis mset_map mset_eq_imp_distinct_iff)
    then have "o_order_id y \<notin> set [l + 1..l + int (length now)]" using y ids by force
    moreover have "l < o_order_id y" using low [of y] y m by (metis mset_best_first mset_eq_setD set_append Un_iff)
    moreover have "o_order_id x \<in> set [l + 1..l + int (length now)]" using x ids by (metis image_eqI list.set_map)
    ultimately show ?thesis by (simp add: id_key_def)
  qed
  ultimately show "sorted_wrt (\<lambda>x y. id_key y \<le> id_key x) (now @ best_first id_key (nr' @ os))"
    using sorted_best_first [of id_key "nr' @ os"] by (simp add: sorted_wrt_append)
qed

lemma take_ready_rest:
  "take_ready l os = (now, later) \<Longrightarrow> take_ready (l + int (length now)) later = ([], later)"
proof (induction l os arbitrary: now later rule: take_ready.induct)
  case (2 l o1 os)
  show ?case
  proof (cases "o_order_id o1 = l + 1")
    case True
    obtain n2 l2 where n2: "take_ready (l + 1) os = (n2, l2)" by (cases "take_ready (l + 1) os")
    then have "now = o1 # n2" "later = l2" using "2.prems" True by simp_all
    then show ?thesis using "2.IH" [OF True n2] by (simp add: add_ac)
  qed (use "2.prems" in auto)
qed simp

lemma receiveOrders_run:
  assumes "engine_inv s" and "distinct (map o_order_id (not_ready_orders s @ os))"
    and "list_all (waits (stk_code s) (last_commit_order_id s)) os"
    and "take_ready (last_commit_order_id s) (waiting s) = ([], waiting s)"
    and "take_ready (last_commit_order_id s) (best_first id_key (not_ready_orders s @ os)) = (now, later)"
  shows "\<exists>s'. receiveOrders os s = Inr s' \<and> engine_inv s' \<and> waiting s' = later
    \<and> last_commit_order_id s' = last_commit_order_id s + int (length now) \<and> stk_code s' = stk_code s
    \<and> produced s' = produced s @ fst (spec_run (stk_code s) now (abs_book (decl_book s)))
    \<and> abs_book (decl_book s') = snd (spec_run (stk_code s) now (abs_book (decl_book s)))"
  using assms
proof (induction os arbitrary: s now)
  case Nil
  then show ?case by (simp add: waiting_def)
next
  case (Cons ord os)
  let ?l = "last_commit_order_id s"
  obtain now1 later1 where tr: "take_ready ?l (insert_best id_key ord (waiting s)) = (now1, later1)"
    by (rule prod.exhaust)
  from receiveOrder_run [OF Cons.prems(1) _ _ tr] Cons.prems(2,3) obtain ret s1 where s1:
    "receiveOrder ord s = Inr (ret, s1)" "engine_inv s1" "waiting s1 = later1"
    "last_commit_order_id s1 = ?l + int (length now1)" "stk_code s1 = stk_code s"
    "produced s1 = produced s @ fst (spec_run (stk_code s) now1 (abs_book (decl_book s)))"
    "abs_book (decl_book s1) = snd (spec_run (stk_code s) now1 (abs_book (decl_book s)))"
    by auto
  have low: "?l < o_order_id x" if "x \<in> set (not_ready_orders s @ ord # os)" for x
    using that Cons.prems(1,3) by (auto simp: engine_inv_def list_all_iff waits_def)
  have m1: "mset later1 = mset (not_ready_orders s1)" using mset_waiting [of s1] s1(3) by simp
  have bf: "best_first id_key (not_ready_orders s @ ord # os) = now1 @ best_first id_key (not_ready_orders s1 @ os)"
    by (rule best_first_committed [OF tr mset_waiting m1 Cons.prems(2) low])
  note ids = take_ready_ids [OF tr]
  have dd: "distinct (map o_order_id (now1 @ not_ready_orders s1 @ os))"
  proof -
    have "mset (now1 @ not_ready_orders s1 @ os) = mset (not_ready_orders s @ ord # os)"
      using arg_cong [OF bf, of mset] by simp
    then show ?thesis using Cons.prems(2) by (metis mset_map mset_eq_imp_distinct_iff)
  qed
  obtain now2 later2 where tr2: "take_ready (last_commit_order_id s1) (best_first id_key (not_ready_orders s1 @ os)) = (now2, later2)"
    by (rule prod.exhaust)
  have now: "now = now1 @ now2" "later2 = later"
    using Cons.prems(5) take_ready_prefix [OF ids] tr2 by (simp_all add: s1(4) bf)
  have "list_all (waits (stk_code s1) (last_commit_order_id s1)) os"
  proof -
    have "last_commit_order_id s1 < o_order_id x" if "x \<in> set os" for x
    proof -
      have "o_order_id x \<notin> set [?l + 1..?l + int (length now1)]" using dd that unfolding ids [symmetric] by auto
      then show ?thesis using low [of x] that s1(4) by auto
    qed
    then show ?thesis using Cons.prems(3) s1(5) by (auto simp: list_all_iff waits_def)
  qed
  from Cons.IH [OF s1(2) _ this _ tr2 [unfolded now(2)]] dd take_ready_rest [OF tr] s1 now
  show ?case by (auto simp: spec_run_append split: prod.splits)
qed

lemma engine_inv_new: "engine_inv (newStockExchange code)"
  using bv.wf_side_empty sv.wf_side_empty oh.hv.invar_empty
  by (simp add: engine_inv_def newStockExchange_def emptyBook_def wf_book_def uncrossed_def book_ids_def)

lemma best_first_perm:
  "distinct (map o_order_id os) \<Longrightarrow> mset os = mset os' \<Longrightarrow> best_first id_key os = best_first id_key os'"
  by (rule best_first_unique) (simp_all add: inj_id_key sorted_best_first)

lemma best_first_sort:
  assumes "distinct (map o_order_id os)" shows "best_first id_key os = sort_key o_order_id os"
proof (rule best_first_unique)
  show "inj_on id_key (set os)" using assms by (rule inj_id_key)
  have "sorted (map o_order_id (sort_key o_order_id os))" by simp
  then show "sorted_wrt (\<lambda>x y. id_key y \<le> id_key x) (sort_key o_order_id os)"
    by (simp add: sorted_map id_key_def)
qed simp

definition sendable :: "int \<Rightarrow> Order list \<Rightarrow> bool" where
  "sendable code os \<longleftrightarrow> distinct (map o_order_id os) \<and> list_all (waits code 0) os"

lemma receive_sendable:
  assumes "sendable code os" and "take_ready 0 (sort_key o_order_id os) = (now, later)"
  shows "\<exists>s. receiveOrders os (newStockExchange code) = Inr s \<and> engine_inv s \<and> waiting s = later
    \<and> last_commit_order_id s = int (length now)
    \<and> produced s = fst (spec_run code now ([], [])) \<and> abs_book (decl_book s) = snd (spec_run code now ([], []))"
proof -
  have "waiting (newStockExchange code) = []" "abs_book (decl_book (newStockExchange code)) = ([], [])"
    by (simp_all add: waiting_def newStockExchange_def abs_book_def emptyBook_def buy_side_def sell_side_def)
  moreover have "best_first id_key os = sort_key o_order_id os"
    using assms(1) by (intro best_first_sort) (simp add: sendable_def)
  ultimately show ?thesis
    using receiveOrders_run [OF engine_inv_new [of code], of os now later] assms
    by (auto simp: sendable_def newStockExchange_def)
qed

text \<open>
  The engine rests when no waiting order is the next one; the orders \<open>os\<close> are new to it when each has an id of its own that is
  neither committed nor waiting.
\<close>

definition settled :: "StockExchange \<Rightarrow> bool" where
  "settled s \<longleftrightarrow> engine_inv s \<and> (\<forall>x \<in> set (not_ready_orders s). o_order_id x \<noteq> last_commit_order_id s + 1)"

definition fresh_orders :: "StockExchange \<Rightarrow> Order list \<Rightarrow> bool" where
  "fresh_orders s os \<longleftrightarrow> distinct (map o_order_id (not_ready_orders s @ os))
     \<and> list_all (waits (stk_code s) (last_commit_order_id s)) os"

lemma settled_new: "settled (newStockExchange code)"
  using engine_inv_new by (simp add: settled_def newStockExchange_def)

lemma settled_take_ready: "settled s \<Longrightarrow> take_ready (last_commit_order_id s) (waiting s) = ([], waiting s)"
proof (cases "waiting s")
  case (Cons x xs)
  assume "settled s"
  moreover have "x \<in> set (not_ready_orders s)" using mset_waiting [of s] Cons by (metis list.set_intros(1) mset_eq_setD)
  ultimately show ?thesis using Cons by (simp add: settled_def)
qed simp

lemma take_ready_settled:
  assumes "engine_inv s" and "take_ready (last_commit_order_id s) (waiting s) = ([], waiting s)"
  shows "settled s"
proof -
  have "o_order_id x \<noteq> last_commit_order_id s + 1" if x: "x \<in> set (not_ready_orders s)" for x
  proof
    assume eq: "o_order_id x = last_commit_order_id s + 1"
    obtain y ys where w: "waiting s = y # ys" using x mset_waiting [of s] by (cases "waiting s") auto
    have "sorted_wrt (\<lambda>a b. id_key b \<le> id_key a) (waiting s)" by (simp add: waiting_def sorted_best_first)
    moreover have "x \<in> set (waiting s)" using x mset_waiting [of s] by (metis mset_eq_setD)
    ultimately have "o_order_id y \<le> o_order_id x" using w by (auto simp: id_key_def)
    moreover have "y \<in> set (not_ready_orders s)" using w mset_waiting [of s] by (metis list.set_intros(1) mset_eq_setD)
    then have "last_commit_order_id s < o_order_id y" using assms(1) by (auto simp: engine_inv_def list_all_iff waits_def)
    ultimately have "o_order_id y = last_commit_order_id s + 1" using eq by simp
    then show False using assms(2) w by (auto split: prod.splits)
  qed
  then show ?thesis using assms(1) by (simp add: settled_def)
qed

lemma fresh_orders_perm:
  assumes "fresh_orders s os" and "mset os = mset os'"
  shows "fresh_orders s os'"
proof -
  have "mset (map o_order_id (not_ready_orders s @ os)) = mset (map o_order_id (not_ready_orders s @ os'))" using assms(2) by simp
  moreover have "set os' = set os" using assms(2) by (metis mset_eq_setD)
  ultimately show ?thesis using assms(1) mset_eq_imp_distinct_iff unfolding fresh_orders_def list_all_iff by metis
qed

lemma receive_fresh:
  assumes "settled s" and "fresh_orders s os"
    and "take_ready (last_commit_order_id s) (best_first id_key (not_ready_orders s @ os)) = (now, later)"
  shows "\<exists>s'. receiveOrders os s = Inr s' \<and> settled s' \<and> waiting s' = later
    \<and> last_commit_order_id s' = last_commit_order_id s + int (length now)
    \<and> produced s' = produced s @ fst (spec_run (stk_code s) now (abs_book (decl_book s)))
    \<and> abs_book (decl_book s') = snd (spec_run (stk_code s) now (abs_book (decl_book s)))"
proof -
  from receiveOrders_run [OF _ _ _ settled_take_ready [OF assms(1)] assms(3)] assms(1,2)
  obtain s' where s': "receiveOrders os s = Inr s'" "engine_inv s'" "waiting s' = later"
    "last_commit_order_id s' = last_commit_order_id s + int (length now)"
    "produced s' = produced s @ fst (spec_run (stk_code s) now (abs_book (decl_book s)))"
    "abs_book (decl_book s') = snd (spec_run (stk_code s) now (abs_book (decl_book s)))"
    by (auto simp: settled_def fresh_orders_def)
  moreover have "settled s'"
    using take_ready_settled [OF s'(2)] take_ready_rest [OF assms(3)] s'(3,4) by simp
  ultimately show ?thesis by blast
qed

section \<open>Properties\<close>

text \<open>
  (C10) However the orders of one stock arrive (each id once, well-formed), the engine takes them
  without a failed assert, and after each of them: exactly the gap-free run of ids 1, 2, ... that
  has arrived is committed, in the order of the ids; the trades and the book are those of the
  abstract exchange on that run; the other orders wait; and the book is well-formed and uncrossed.
\<close>

theorem receive_sequences_orders:
  assumes "distinct (map o_order_id os)"
    and "\<forall>ord \<in> set os. wf_order ord \<and> o_stk_code ord = code \<and> 0 < o_order_id ord \<and> o_order_id ord < 2147483647"
    and "take_ready 0 (sort_key o_order_id os) = (now, later)"
  shows "\<exists>s. receiveOrders os (newStockExchange code) = Inr s
    \<and> last_commit_order_id s = int (length now) \<and> mset (not_ready_orders s) = mset later
    \<and> produced s = fst (spec_run code now ([], []))
    \<and> (buy_side (decl_book s), sell_side (decl_book s)) = snd (spec_run code now ([], []))
    \<and> wf_book (decl_book s) \<and> uncrossed (decl_book s)"
proof -
  have "sendable code os" using assms(1,2) by (simp add: sendable_def waits_def list_all_iff)
  from receive_sendable [OF this assms(3)] obtain s where s: "receiveOrders os (newStockExchange code) = Inr s"
    "engine_inv s" "waiting s = later" "last_commit_order_id s = int (length now)"
    "produced s = fst (spec_run code now ([], []))" "abs_book (decl_book s) = snd (spec_run code now ([], []))"
    by blast
  then show ?thesis using mset_waiting [of s] by (simp add: engine_inv_def abs_book_def)
qed

definition ex_orders :: "Order list" where
  "ex_orders =
    [\<lparr>o_stk_code = 1, o_order_id = 2, o_direction = 1, o_type = 0, o_price = d10, o_volume = 8\<rparr>,
     \<lparr>o_stk_code = 1, o_order_id = 4, o_direction = 1, o_type = 4, o_price = d10, o_volume = 2\<rparr>,
     \<lparr>o_stk_code = 1, o_order_id = 1, o_direction = -1, o_type = 0, o_price = d9, o_volume = 5\<rparr>]"

theorem receive_sequences_orders_witness:
  "\<exists>s. receiveOrders ex_orders (newStockExchange 1) = Inr s \<and> last_commit_order_id s = 2
    \<and> length (produced s) = 1"
proof -
  have a: "distinct (map o_order_id ex_orders)"
    "\<forall>ord \<in> set ex_orders. wf_order ord \<and> o_stk_code ord = 1 \<and> 0 < o_order_id ord \<and> o_order_id ord < 2147483647"
    by code_simp+
  have t: "take_ready 0 (sort_key o_order_id ex_orders) = ([ex_orders ! 2, ex_orders ! 0], [ex_orders ! 1])"
    by code_simp
  have "length (fst (spec_run 1 [ex_orders ! 2, ex_orders ! 0] ([], []))) = 1" by code_simp
  with receive_sequences_orders [OF a t] show ?thesis by auto
qed

text \<open>
  (C11) The outcome does not depend on the order of arrival: from any state in which the engine rests, two arrival orders of
  the same new orders (each id once, neither committed nor waiting; gaps are allowed) produce the same trades in the
  same order and the same book, commit up to the same id and leave the same orders waiting, and the engine
  rests again.
\<close>

theorem arrival_order_irrelevant:
  assumes "settled s" and "fresh_orders s os" and "mset os = mset os'"
  shows "\<exists>a b. receiveOrders os s = Inr a \<and> receiveOrders os' s = Inr b
    \<and> produced b = produced a \<and> abs_book (decl_book b) = abs_book (decl_book a)
    \<and> last_commit_order_id b = last_commit_order_id a \<and> mset (not_ready_orders b) = mset (not_ready_orders a)
    \<and> settled a \<and> settled b"
proof -
  have f': "fresh_orders s os'" using fresh_orders_perm [OF assms(2,3)] .
  have same: "best_first id_key (not_ready_orders s @ os') = best_first id_key (not_ready_orders s @ os)"
    using assms(2,3) by (intro best_first_perm [symmetric]) (simp_all add: fresh_orders_def)
  obtain now later where tr: "take_ready (last_commit_order_id s) (best_first id_key (not_ready_orders s @ os)) = (now, later)"
    by (rule prod.exhaust)
  from receive_fresh [OF assms(1,2) tr] obtain a where a: "receiveOrders os s = Inr a" "settled a" "waiting a = later"
    "last_commit_order_id a = last_commit_order_id s + int (length now)"
    "produced a = produced s @ fst (spec_run (stk_code s) now (abs_book (decl_book s)))"
    "abs_book (decl_book a) = snd (spec_run (stk_code s) now (abs_book (decl_book s)))" by blast
  from receive_fresh [OF assms(1) f' tr [folded same]] obtain b where b: "receiveOrders os' s = Inr b" "settled b" "waiting b = later"
    "last_commit_order_id b = last_commit_order_id s + int (length now)"
    "produced b = produced s @ fst (spec_run (stk_code s) now (abs_book (decl_book s)))"
    "abs_book (decl_book b) = snd (spec_run (stk_code s) now (abs_book (decl_book s)))" by blast
  have "mset (not_ready_orders b) = mset (not_ready_orders a)"
    using mset_waiting [of a] mset_waiting [of b] a(3) b(3) by simp
  with a b show ?thesis by auto
qed

text \<open>Two arrival orders of the ids 4 and 1 at a new engine: order 1 is committed, order 4 waits for the missing ones.\<close>

theorem arrival_order_irrelevant_witness:
  "\<exists>a b. receiveOrders [ex_orders ! 1, ex_orders ! 2] (newStockExchange 1) = Inr a
    \<and> receiveOrders [ex_orders ! 2, ex_orders ! 1] (newStockExchange 1) = Inr b
    \<and> produced b = produced a \<and> mset (not_ready_orders b) = mset (not_ready_orders a)"
proof -
  have "settled (newStockExchange 1)" by (rule settled_new)
  moreover have "fresh_orders (newStockExchange 1) [ex_orders ! 1, ex_orders ! 2]" by code_simp
  moreover have "mset [ex_orders ! 1, ex_orders ! 2] = mset [ex_orders ! 2, ex_orders ! 1]" by simp
  ultimately show ?thesis using arrival_order_irrelevant by blast
qed

lemma heap_head_least:
  assumes "heap_inv (\<lambda>_. True) id_key h" and "ord \<in> set h"
  shows "o_order_id (h ! 0) \<le> o_order_id ord"
proof -
  obtain i where "i < length h" "h ! i = ord" using assms(2) by (auto simp: in_set_conv_nth)
  then show ?thesis using heap_top [of id_key "length h" h i] assms(1) by (simp add: heap_inv_def id_key_def)
qed

lemma receive_blocked:
  assumes "heap_inv (\<lambda>_. True) id_key (not_ready_orders s)" and "stale \<in> set (not_ready_orders s)"
    and "o_order_id stale \<le> last_commit_order_id s" and "in_i32 (last_commit_order_id s + 1)"
    and "o_stk_code ord = stk_code s"
  shows "receiveOrder ord s
    = Inr (0, s\<lparr>not_ready_orders := push_heap orderGtById (not_ready_orders s @ [ord])\<rparr>)"
proof -
  let ?h = "push_heap orderGtById (not_ready_orders s @ [ord])"
  have "stale \<in> set ?h" using assms(2) oh.hv.set_push by blast
  moreover have "heap_inv (\<lambda>_. True) id_key ?h" using assms(1) by (intro oh.hv.invar_push) simp_all
  ultimately have "o_order_id (?h ! 0) \<le> last_commit_order_id s" using heap_head_least assms(3) by fastforce
  then have "i32 (last_commit_order_id s + 1) \<noteq> o_order_id (?h ! 0)" using assms(4) by simp
  then show ?thesis using assms(5) by (simp add: receiveOrder_def commitReady.simps)
qed

text \<open>
  (C12) An order whose id is already committed (a duplicate or stale id) is never removed from the
  heap, and nothing is committed after it: whatever orders of the stock follow, they are all put into the heap, whose
  head is then an order with an id that is committed (this order or one with a smaller id), and no trade is produced.
\<close>

theorem stale_id_blocks:
  assumes "heap_inv (\<lambda>_. True) id_key (not_ready_orders s)" and "stale \<in> set (not_ready_orders s)"
    and "o_order_id stale \<le> last_commit_order_id s" and "in_i32 (last_commit_order_id s + 1)"
    and "\<forall>ord \<in> set os. o_stk_code ord = stk_code s"
  shows "\<exists>s'. receiveOrders os s = Inr s' \<and> produced s' = produced s \<and> decl_book s' = decl_book s
    \<and> last_commit_order_id s' = last_commit_order_id s
    \<and> mset (not_ready_orders s') = mset (not_ready_orders s) + mset os
    \<and> stale \<in> set (not_ready_orders s') \<and> o_order_id (not_ready_orders s' ! 0) \<le> o_order_id stale"
  using assms
proof (induction os arbitrary: s)
  case Nil
  then show ?case using heap_head_least by simp
next
  case (Cons ord os)
  let ?s = "s\<lparr>not_ready_orders := push_heap orderGtById (not_ready_orders s @ [ord])\<rparr>"
  have r: "receiveOrder ord s = Inr (0, ?s)" using Cons.prems by (intro receive_blocked) auto
  have "stale \<in> set (not_ready_orders ?s)" using Cons.prems(2) oh.hv.set_push by simp
  moreover have "heap_inv (\<lambda>_. True) id_key (not_ready_orders ?s)"
    using Cons.prems(1) oh.hv.invar_push by simp
  ultimately show ?case
    using Cons.IH [of ?s] Cons.prems(3-5) r by (auto simp: push_heap_mset)
qed

definition ex_blocked :: StockExchange where
  "ex_blocked = (newStockExchange 1)\<lparr>not_ready_orders := [ex_orders ! 2], last_commit_order_id := 1\<rparr>"

theorem stale_id_blocks_witness:
  "\<exists>s'. receiveOrders [ex_orders ! 0, ex_orders ! 1] ex_blocked = Inr s' \<and> produced s' = []
    \<and> last_commit_order_id s' = 1"
proof -
  have "heap_inv (\<lambda>_. True) id_key (not_ready_orders ex_blocked)" "ex_orders ! 2 \<in> set (not_ready_orders ex_blocked)"
    "o_order_id (ex_orders ! 2) \<le> last_commit_order_id ex_blocked" "in_i32 (last_commit_order_id ex_blocked + 1)"
    "\<forall>ord \<in> set [ex_orders ! 0, ex_orders ! 1]. o_stk_code ord = stk_code ex_blocked"
    by (simp add: heap_inv_def heap_upto_def ex_blocked_def; fail | code_simp)+
  from stale_id_blocks [OF this] show ?thesis by (auto simp: ex_blocked_def newStockExchange_def)
qed

end
