(* ===== verification/Sync.thy ===== *)
theory Sync
  imports Prelude
begin

text \<open>
  Objects that threads share under one mutex and some condition variables, the way \<open>BlockQueue\<close> and
  \<open>SlidingWindow\<close> are written. A method is the list of its statements between the construction of the lock and
  its destruction; threads execute them one at a time, in any interleaving. A thread that waits gives the mutex
  back, sleeps, and has to take the mutex again when it is notified or wakes up by itself.

  The contract \<open>monitor_object\<close> says what the methods of a class have to satisfy; under it, all calls behave as if
  each were one step (\<open>run_atomic\<close>), no wake-up is lost (\<open>no_lost_wakeup\<close>), and threads stand still only when
  all of them wait for a condition that does not hold (\<open>progress\<close>).
\<close>

section \<open>Statements\<close>

text \<open>
  \<open>'q\<close> is the object, \<open>'r\<close> the local result of the method, \<open>'k\<close> names a condition variable. \<open>Wait k p\<close> is
  \<open>k.wait(lock, p)\<close>, \<open>ReturnIf p r\<close> is \<open>if (p) return r\<close>, \<open>Notify k p\<close> is \<open>if (p) k.notify_all()\<close>; \<open>Exec\<close> is any
  other statement, which may throw.
\<close>

datatype ('q, 'r, 'k) stmt =
    Wait 'k "'q \<Rightarrow> bool"
  | ReturnIf "'q \<Rightarrow> bool" 'r
  | Exec "'q \<Rightarrow> 'r \<Rightarrow> ('q \<times> 'r) result"
  | Notify 'k "'q \<Rightarrow> bool"

type_synonym ('q, 'r, 'k) code = "('q, 'r, 'k) stmt list"

text \<open>A method executed by one thread alone, when no wait in it has to sleep: the object left and the result.\<close>

fun exec_all :: "('q, 'r, 'k) code \<Rightarrow> 'q \<Rightarrow> 'r \<Rightarrow> 'q \<times> 'r result" where
  "exec_all [] q r = (q, Inr r)"
| "exec_all (Wait k p # ss) q r = exec_all ss q r"
| "exec_all (ReturnIf p r' # ss) q r = (if p q then (q, Inr r') else exec_all ss q r)"
| "exec_all (Exec f # ss) q r = (case f q r of Inl e \<Rightarrow> (q, Inl e) | Inr (q', r') \<Rightarrow> exec_all ss q' r')"
| "exec_all (Notify k p # ss) q r = exec_all ss q r"

text \<open>The same execution notifies \<open>k\<close>.\<close>

fun notifies :: "'k \<Rightarrow> ('q, 'r, 'k) code \<Rightarrow> 'q \<Rightarrow> 'r \<Rightarrow> bool" where
  "notifies k [] q r = False"
| "notifies k (Wait _ p # ss) q r = notifies k ss q r"
| "notifies k (ReturnIf p r' # ss) q r = (\<not> p q \<and> notifies k ss q r)"
| "notifies k (Exec f # ss) q r = (case f q r of Inl e \<Rightarrow> False | Inr (q', r') \<Rightarrow> notifies k ss q' r')"
| "notifies k (Notify k' p # ss) q r = (k' = k \<and> p q \<or> notifies k ss q r)"

fun is_wait :: "('q, 'r, 'k) stmt \<Rightarrow> bool" where
  "is_wait (Wait k p) = True"
| "is_wait _ = False"

text \<open>A method whose first statement is a wait can proceed only when its condition holds.\<close>

fun enabled :: "('q, 'r, 'k) code \<Rightarrow> 'q \<Rightarrow> bool" where
  "enabled (Wait k p # ss) q = p q"
| "enabled _ q = True"

section \<open>Threads\<close>

datatype ('q, 'r, 'k, 'c) thread =
    Idle
  | Entering 'c                        \<comment> \<open>at the construction of the lock\<close>
  | Running 'c "('q, 'r, 'k) code" 'r  \<comment> \<open>owns the mutex, with these statements left\<close>
  | Asleep 'k 'c "('q, 'r, 'k) code" 'r
  | Woken 'c "('q, 'r, 'k) code" 'r    \<comment> \<open>woken, has to take the mutex again\<close>
  | Returned 'c "'r result"

record ('q, 'r, 'k, 'c) shared =
  s_obj :: 'q
  s_owner :: "nat option"
  s_threads :: "nat \<Rightarrow> ('q, 'r, 'k, 'c) thread"

definition wake_all :: "'k \<Rightarrow> (nat \<Rightarrow> ('q, 'r, 'k, 'c) thread) \<Rightarrow> nat \<Rightarrow> ('q, 'r, 'k, 'c) thread" where
  "wake_all k ts t = (case ts t of Asleep k' c ss r \<Rightarrow> if k' = k then Woken c ss r else ts t | _ \<Rightarrow> ts t)"

text \<open>What one thread does next. The label is the call that returns (or throws) with this step.\<close>

inductive sync_step :: "('c \<Rightarrow> ('q, 'r, 'k) code) \<Rightarrow> 'r \<Rightarrow> ('q, 'r, 'k, 'c) shared \<Rightarrow> ('c \<times> 'r result) list
    \<Rightarrow> ('q, 'r, 'k, 'c) shared \<Rightarrow> bool" for code r0 where
  lock: "s_threads s t = Entering c \<Longrightarrow> s_owner s = None \<Longrightarrow>
    sync_step code r0 s [] (s\<lparr>s_owner := Some t, s_threads := (s_threads s)(t := Running c (code c) r0)\<rparr>)"
| pass: "s_threads s t = Running c (Wait k p # ss) r \<Longrightarrow> p (s_obj s) \<Longrightarrow>
    sync_step code r0 s [] (s\<lparr>s_threads := (s_threads s)(t := Running c ss r)\<rparr>)"
| sleep: "s_threads s t = Running c (Wait k p # ss) r \<Longrightarrow> \<not> p (s_obj s) \<Longrightarrow>
    sync_step code r0 s [] (s\<lparr>s_owner := None, s_threads := (s_threads s)(t := Asleep k c (Wait k p # ss) r)\<rparr>)"
| relock: "s_threads s t = Woken c ss r \<Longrightarrow> s_owner s = None \<Longrightarrow>
    sync_step code r0 s [] (s\<lparr>s_owner := Some t, s_threads := (s_threads s)(t := Running c ss r)\<rparr>)"
| early: "s_threads s t = Running c (ReturnIf p r' # ss) r \<Longrightarrow>
    sync_step code r0 s [] (s\<lparr>s_threads := (s_threads s)(t := (if p (s_obj s) then Running c [] r' else Running c ss r))\<rparr>)"
| exec: "s_threads s t = Running c (Exec f # ss) r \<Longrightarrow> f (s_obj s) r = Inr (q, r') \<Longrightarrow>
    sync_step code r0 s [] (s\<lparr>s_obj := q, s_threads := (s_threads s)(t := Running c ss r')\<rparr>)"
| throw: "s_threads s t = Running c (Exec f # ss) r \<Longrightarrow> f (s_obj s) r = Inl e \<Longrightarrow>
    sync_step code r0 s [(c, Inl e)] (s\<lparr>s_owner := None, s_threads := (s_threads s)(t := Returned c (Inl e))\<rparr>)"
| notify: "s_threads s t = Running c (Notify k p # ss) r \<Longrightarrow>
    sync_step code r0 s [] (s\<lparr>s_threads :=
      (if p (s_obj s) then wake_all k (s_threads s) else s_threads s)(t := Running c ss r)\<rparr>)"
| unlock: "s_threads s t = Running c [] r \<Longrightarrow>
    sync_step code r0 s [(c, Inr r)] (s\<lparr>s_owner := None, s_threads := (s_threads s)(t := Returned c (Inr r))\<rparr>)"

text \<open>Besides, threads start calls, and a sleeping thread may wake up without a notification.\<close>

inductive env_step :: "('q, 'r, 'k, 'c) shared \<Rightarrow> ('q, 'r, 'k, 'c) shared \<Rightarrow> bool" where
  call: "s_threads s t = Idle \<or> s_threads s t = Returned c' res \<Longrightarrow>
    env_step s (s\<lparr>s_threads := (s_threads s)(t := Entering c)\<rparr>)"
| spurious: "s_threads s t = Asleep k c ss r \<Longrightarrow> env_step s (s\<lparr>s_threads := (s_threads s)(t := Woken c ss r)\<rparr>)"

definition shared_start :: "'q \<Rightarrow> ('q, 'r, 'k, 'c) shared" where
  "shared_start q = \<lparr>s_obj = q, s_owner = None, s_threads = \<lambda>_. Idle\<rparr>"

text \<open>The states that threads reach on an object, with the calls that have returned, in the order of their return.\<close>

inductive sync_run :: "('c \<Rightarrow> ('q, 'r, 'k) code) \<Rightarrow> 'r \<Rightarrow> 'q \<Rightarrow> ('c \<times> 'r result) list
    \<Rightarrow> ('q, 'r, 'k, 'c) shared \<Rightarrow> bool" for code r0 q0 where
  start: "sync_run code r0 q0 [] (shared_start q0)"
| step: "sync_run code r0 q0 h s \<Longrightarrow> sync_step code r0 s l s' \<Longrightarrow> sync_run code r0 q0 (h @ l) s'"
| env: "sync_run code r0 q0 h s \<Longrightarrow> env_step s s' \<Longrightarrow> sync_run code r0 q0 h s'"

text \<open>The atomic execution of calls, one after the other.\<close>

inductive seq_run :: "('c \<Rightarrow> ('q, 'r, 'k) code) \<Rightarrow> 'r \<Rightarrow> 'q \<Rightarrow> ('c \<times> 'r result) list \<Rightarrow> 'q \<Rightarrow> bool" for code r0 q0 where
  start: "seq_run code r0 q0 [] q0"
| call: "seq_run code r0 q0 h q \<Longrightarrow> enabled (code c) q \<Longrightarrow> exec_all (code c) q r0 = (q', res) \<Longrightarrow>
    seq_run code r0 q0 (h @ [(c, res)]) q'"

section \<open>Calls one after the other\<close>

text \<open>Every atomic execution is one that threads can have: here, calls that do not overlap.\<close>

definition outside :: "(nat \<Rightarrow> ('q, 'r, 'k, 'c) thread) \<Rightarrow> bool" where
  "outside ts \<longleftrightarrow> (\<forall>t. ts t = Idle \<or> (\<exists>c res. ts t = Returned c res))"

lemma wake_all_outside:
  assumes "\<And>u. u \<noteq> t \<Longrightarrow> ts u = Idle \<or> (\<exists>c res. ts u = Returned c res)"
  shows "(wake_all k ts)(t := th) = ts(t := th)"
  using assms by (fastforce simp: wake_all_def fun_eq_iff)

lemma solo_run:
  assumes "sync_run code r0 q0 h \<lparr>s_obj = q, s_owner = Some t, s_threads = ts(t := Running c ss r)\<rparr>" and "outside ts"
    and "enabled ss q" and "list_all (\<lambda>st. \<not> is_wait st) (tl ss)" and "exec_all ss q r = (q', res)"
  shows "sync_run code r0 q0 (h @ [(c, res)]) \<lparr>s_obj = q', s_owner = None, s_threads = ts(t := Returned c res)\<rparr>"
  using assms(1,3-5)
proof (induction ss arbitrary: q r)
  case Nil
  from sync_run.step [OF Nil.prems(1) sync_step.unlock [where t = t]] Nil.prems(4) show ?case by (auto simp del: fun_upd_apply simp: fun_upd_same)
next
  case (Cons st ss)
  have tl: "list_all (\<lambda>st. \<not> is_wait st) (tl ss)" using Cons.prems(3) by (cases ss) simp_all
  have en: "enabled ss q1" for q1
    using Cons.prems(3) by (cases "(ss, q1)" rule: enabled.cases) auto
  note go = sync_run.step [OF Cons.prems(1)]
  show ?case
  proof (cases st)
    case (Wait k p)
    with go [OF sync_step.pass [where t = t]] Cons.prems Cons.IH [OF _ en tl] show ?thesis by (auto simp del: fun_upd_apply simp: fun_upd_same)
  next
    case (ReturnIf p r')
    show ?thesis
    proof (cases "p q")
      case True
      with go [OF sync_step.early [where t = t]] ReturnIf
      have "sync_run code r0 q0 h \<lparr>s_obj = q, s_owner = Some t, s_threads = ts(t := Running c [] r')\<rparr>" by (auto simp del: fun_upd_apply simp: fun_upd_same)
      from sync_run.step [OF this sync_step.unlock [where t = t]] Cons.prems(4) True ReturnIf show ?thesis by (auto simp del: fun_upd_apply simp: fun_upd_same)
    next
      case False
      with go [OF sync_step.early [where t = t]] Cons.prems Cons.IH [OF _ en tl] ReturnIf show ?thesis by (auto simp del: fun_upd_apply simp: fun_upd_same)
    qed
  next
    case (Exec f)
    show ?thesis
    proof (cases "f q r")
      case (Inl e)
      with go [OF sync_step.throw [where t = t]] Cons.prems(4) Exec show ?thesis by (auto simp del: fun_upd_apply simp: fun_upd_same)
    next
      case (Inr a)
      with go [OF sync_step.exec [where t = t]] Cons.prems Cons.IH [OF _ en tl] Exec show ?thesis
        by (cases a) (auto simp del: fun_upd_apply simp: fun_upd_same)
    qed
  next
    case (Notify k p)
    have "(wake_all k (ts(t := Running c (st # ss) r)))(t := Running c ss r) = ts(t := Running c ss r)"
      using wake_all_outside [of t "ts(t := Running c (st # ss) r)" k] assms(2) by (simp add: outside_def)
    with go [OF sync_step.notify [where t = t]] Cons.prems Cons.IH [OF _ en tl] Notify show ?thesis
      by (cases "p q") (auto simp del: fun_upd_apply simp: fun_upd_same)
  qed
qed

lemma seq_run_threads:
  assumes "seq_run code r0 q0 h q" and "\<And>c. list_all (\<lambda>st. \<not> is_wait st) (tl (code c))"
  shows "\<exists>ts. outside ts \<and> sync_run code r0 q0 h \<lparr>s_obj = q, s_owner = None, s_threads = ts\<rparr>"
  using assms(1)
proof induction
  case start
  show ?case using sync_run.start [of code r0 q0]
    by (intro exI [of _ "\<lambda>_. Idle"]) (simp add: outside_def shared_start_def)
next
  case (call h q c q' res)
  then obtain ts where ts: "outside ts" "sync_run code r0 q0 h \<lparr>s_obj = q, s_owner = None, s_threads = ts\<rparr>" by blast
  have "ts 0 = Idle \<or> (\<exists>c res. ts 0 = Returned c res)" using ts(1) by (simp add: outside_def)
  then have "sync_run code r0 q0 h \<lparr>s_obj = q, s_owner = None, s_threads = ts(0 := Entering c)\<rparr>"
    using sync_run.env [OF ts(2) env_step.call [where t = 0 and c = c]] by auto
  from sync_run.step [OF this sync_step.lock [where t = 0]]
  have "sync_run code r0 q0 h \<lparr>s_obj = q, s_owner = Some 0, s_threads = ts(0 := Running c (code c) r0)\<rparr>" by simp
  note run = solo_run [OF this ts(1) call.hyps(2) assms(2) call.hyps(3)]
  have "outside (ts(0 := Returned c res))" using ts(1) by (simp add: outside_def)
  with run show ?case by blast
qed

section \<open>The contract of a synchronised class\<close>

text \<open>
  \<open>valid\<close> is the invariant of the object, \<open>holds k\<close> the condition that threads wait for on \<open>k\<close>. Methods wait
  only before they do anything else; each one keeps the invariant; and one that makes a condition true notifies
  its condition variable.
\<close>

locale monitor_object =
  fixes code :: "'c \<Rightarrow> ('q, 'r, 'k) code"
    and r0 :: 'r
    and valid :: "'q \<Rightarrow> bool"
    and holds :: "'k \<Rightarrow> 'q \<Rightarrow> bool"
  assumes waits_first: "list_all (\<lambda>st. \<not> is_wait st) (tl (code c))"
    and waits_for: "code c = Wait k p # ss \<Longrightarrow> p = holds k"
    and keeps_valid: "valid q \<Longrightarrow> enabled (code c) q \<Longrightarrow> valid (fst (exec_all (code c) q r0))"
    and notifies_change: "valid q \<Longrightarrow> enabled (code c) q \<Longrightarrow> \<not> holds k q \<Longrightarrow>
      holds k (fst (exec_all (code c) q r0)) \<Longrightarrow> notifies k (code c) q r0"
begin

text \<open>
  \<open>base\<close> is the object as the last call that ended has left it. The running thread is either before its wait,
  or past it; then what is left of its method has the outcome that the whole method has on \<open>base\<close>.
\<close>

definition unwoken :: "'q \<Rightarrow> ('q, 'r, 'k, 'c) shared \<Rightarrow> bool" where
  "unwoken base s \<longleftrightarrow> (\<forall>t k c ss r. s_threads s t = Asleep k c ss r \<longrightarrow> \<not> holds k base)"

definition at_wait :: "'q \<Rightarrow> ('q, 'r, 'k, 'c) shared \<Rightarrow> 'c \<Rightarrow> ('q, 'r, 'k) code \<Rightarrow> 'r \<Rightarrow> bool" where
  "at_wait base s c ss r \<longleftrightarrow>
     ss = code c \<and> r = r0 \<and> s_obj s = base \<and> (\<exists>k p ss'. code c = Wait k p # ss') \<and> unwoken base s"

definition past_wait :: "'q \<Rightarrow> ('q, 'r, 'k, 'c) shared \<Rightarrow> 'c \<Rightarrow> ('q, 'r, 'k) code \<Rightarrow> 'r \<Rightarrow> bool" where
  "past_wait base s c ss r \<longleftrightarrow>
     enabled (code c) base \<and> list_all (\<lambda>st. \<not> is_wait st) ss
     \<and> exec_all ss (s_obj s) r = exec_all (code c) base r0
     \<and> (\<forall>t k c' ss' r'. s_threads s t = Asleep k c' ss' r' \<longrightarrow>
          holds k (fst (exec_all ss (s_obj s) r)) \<longrightarrow> notifies k ss (s_obj s) r)"

definition resumable :: "('q, 'r, 'k, 'c) thread \<Rightarrow> bool" where
  "resumable th = (case th of
       Asleep k c ss r \<Rightarrow> ss = code c \<and> r = r0 \<and> (\<exists>ss'. code c = Wait k (holds k) # ss')
     | Woken c ss r \<Rightarrow> ss = code c \<and> r = r0 \<and> (\<exists>k p ss'. code c = Wait k p # ss')
     | _ \<Rightarrow> True)"

definition sync_inv :: "'q \<Rightarrow> ('q, 'r, 'k, 'c) shared \<Rightarrow> bool" where
  "sync_inv base s \<longleftrightarrow>
     valid base \<and> (\<forall>t. resumable (s_threads s t))
     \<and> (\<forall>t c ss r. s_threads s t = Running c ss r \<longrightarrow>
          s_owner s = Some t \<and> (at_wait base s c ss r \<or> past_wait base s c ss r))
     \<and> (\<forall>t. s_owner s = Some t \<longrightarrow> (\<exists>c ss r. s_threads s t = Running c ss r))
     \<and> (s_owner s = None \<longrightarrow> s_obj s = base \<and> unwoken base s)"

lemma inv_running:
  assumes "sync_inv base s" and "s_threads s t = Running c ss r"
  shows "s_owner s = Some t" and "at_wait base s c ss r \<or> past_wait base s c ss r"
  using assms unfolding sync_inv_def by blast+

lemma inv_free:
  assumes "sync_inv base s" and "s_owner s = None"
  shows "s_obj s = base" and "unwoken base s" and "s_threads s t \<noteq> Running c ss r"
  using assms unfolding sync_inv_def by (blast, blast, metis option.discI)

text \<open>The invariant of a state in which only \<open>t\<close> can run, and of one in which no thread does.\<close>

lemma inv_ownedI:
  assumes "valid base" and "\<And>u. resumable (s_threads s u)" and "s_owner s = Some t"
    and "s_threads s t = Running c ss r" and "at_wait base s c ss r \<or> past_wait base s c ss r"
    and "\<And>u c' ss' r'. s_threads s u = Running c' ss' r' \<Longrightarrow> u = t"
  shows "sync_inv base s"
  using assms(1-5) assms(6) [of _] unfolding sync_inv_def by (metis option.distinct(1) option.inject thread.inject(2))

lemma inv_freeI:
  assumes "valid base" and "\<And>u. resumable (s_threads s u)" and "s_owner s = None"
    and "\<And>u c ss r. s_threads s u \<noteq> Running c ss r" and "s_obj s = base" and "unwoken base s"
  shows "sync_inv base s"
  using assms unfolding sync_inv_def by simp

lemma begin_call:
  assumes "sync_inv base s" and "s_owner s = None"
  shows "at_wait base (s\<lparr>s_owner := Some t, s_threads := (s_threads s)(t := Running c (code c) r0)\<rparr>) c (code c) r0
    \<or> past_wait base (s\<lparr>s_owner := Some t, s_threads := (s_threads s)(t := Running c (code c) r0)\<rparr>) c (code c) r0"
proof (cases "\<exists>k p ss'. code c = Wait k p # ss'")
  case True
  then show ?thesis using assms by (simp add: at_wait_def sync_inv_def unwoken_def)
next
  case False
  then have e: "enabled (code c) base" by (cases "(code c, base)" rule: enabled.cases) auto
  have "list_all (\<lambda>st. \<not> is_wait st) (code c)"
    using False waits_first [of c] by (cases "code c") (auto elim: is_wait.elims)
  then show ?thesis
    using assms e notifies_change [of base c] by (auto simp: past_wait_def sync_inv_def unwoken_def)
qed

lemma wake_all_simps [simp]:
  "wake_all k ts t = Running c ss r \<longleftrightarrow> ts t = Running c ss r"
  "wake_all k ts t = Asleep k' c ss r \<longleftrightarrow> ts t = Asleep k' c ss r \<and> k' \<noteq> k"
  by (auto simp: wake_all_def split: thread.splits)

lemma resumable_wake_all: "resumable (ts t) \<Longrightarrow> resumable (wake_all k ts t)"
  by (auto simp: wake_all_def resumable_def split: thread.splits)

lemma running_unique:
  "sync_inv base s \<Longrightarrow> s_threads s t = Running c ss r \<Longrightarrow> s_threads s u = Running c' ss' r' \<Longrightarrow> u = t"
  using inv_running(1) [of base s t c ss r] inv_running(1) [of base s u c' ss' r'] by simp

text \<open>A step of the owner to another point past its wait.\<close>

lemma continue_inv:
  assumes inv: "sync_inv base s" and t: "s_threads s t = Running c ss r"
    and past: "past_wait base s' c ss' r'" and ts: "s_threads s' = ts(t := Running c ss' r')"
    and others: "\<And>u. u \<noteq> t \<Longrightarrow> ts u = s_threads s u \<or> (\<exists>k. ts u = wake_all k (s_threads s) u)"
    and own: "s_owner s' = s_owner s"
  shows "sync_inv base s'"
proof -
  have res: "resumable (s_threads s' u)" for u
  proof (cases "u = t")
    case True
    then show ?thesis by (simp add: ts resumable_def)
  next
    case False
    have "resumable (s_threads s u)" using inv by (simp add: sync_inv_def)
    then show ?thesis using False others [OF False] resumable_wake_all [of "s_threads s"] ts by auto
  qed
  have run: "u = t" if "s_threads s' u = Running c1 ss1 r1" for u c1 ss1 r1
    using that others [of u] running_unique [OF inv t, of u] ts by (metis fun_upd_other wake_all_simps(1))
  show ?thesis
  proof (rule inv_ownedI [where t = t and c = c and ss = ss' and r = r'])
    show "valid base" using inv by (simp add: sync_inv_def)
    show "s_owner s' = Some t" using inv_running(1) [OF inv t] own by simp
    show "s_threads s' t = Running c ss' r'" by (simp add: ts)
    show "at_wait base s' c ss' r' \<or> past_wait base s' c ss' r'" using past ..
  qed (fact res, fact run)
qed

text \<open>The owner gives the mutex back, with the object at \<open>base'\<close>.\<close>

lemma release_inv:
  assumes inv: "sync_inv base s" and t: "s_threads s t = Running c ss r"
    and ts: "s_threads s' = (s_threads s)(t := th)" and own: "s_owner s' = None"
    and th: "\<And>c ss r. th \<noteq> Running c ss r" "resumable th"
    and base: "valid (s_obj s')" "unwoken (s_obj s') s'"
  shows "sync_inv (s_obj s') s'"
proof -
  have "s_threads s' u \<noteq> Running c1 ss1 r1" for u c1 ss1 r1
    using running_unique [OF inv t] th(1) ts by (cases "u = t") auto
  moreover have "resumable (s_threads s' u)" for u using inv th(2) ts by (cases "u = t") (simp_all add: sync_inv_def)
  ultimately show ?thesis using base own by (intro inv_freeI) simp_all
qed

text \<open>When nothing is left of a method, its outcome is that of the whole method on \<open>base\<close>.\<close>

lemma finish_inv:
  assumes inv: "sync_inv base s" and t: "s_threads s t = Running c ss r" and past: "past_wait base s c ss r"
    and fin: "exec_all ss (s_obj s) r = (s_obj s, res)" and quiet: "\<And>k. \<not> notifies k ss (s_obj s) r"
  shows "enabled (code c) base" and "exec_all (code c) base r0 = (s_obj s, res)"
    and "sync_inv (s_obj s) (s\<lparr>s_owner := None, s_threads := (s_threads s)(t := Returned c res)\<rparr>)"
proof -
  show e: "enabled (code c) base" "exec_all (code c) base r0 = (s_obj s, res)"
    using past fin by (simp_all add: past_wait_def)
  have "valid (s_obj s)" using keeps_valid [of base c] inv e by (simp add: sync_inv_def)
  moreover have "unwoken (s_obj s) s" using past quiet fin by (auto simp: past_wait_def unwoken_def)
  ultimately show "sync_inv (s_obj s) (s\<lparr>s_owner := None, s_threads := (s_threads s)(t := Returned c res)\<rparr>)"
    using release_inv [OF inv t, of "s\<lparr>s_owner := None, s_threads := (s_threads s)(t := Returned c res)\<rparr>" "Returned c res"]
    by (simp add: resumable_def unwoken_def)
qed

text \<open>A thread takes the mutex and stands at the begin of its method.\<close>

lemma acquire_inv:
  assumes inv: "sync_inv base s" and own: "s_owner s = None"
  shows "sync_inv base (s\<lparr>s_owner := Some t, s_threads := (s_threads s)(t := Running c (code c) r0)\<rparr>)" (is "sync_inv base ?s")
proof (rule inv_ownedI [where t = t and c = c and ss = "code c" and r = r0])
  show "at_wait base ?s c (code c) r0 \<or> past_wait base ?s c (code c) r0" by (rule begin_call [OF assms])
  show "u = t" if "s_threads ?s u = Running c' ss' r'" for u c' ss' r'
    using that inv_free(3) [OF assms, of u c' ss' r'] by (cases "u = t") simp_all
qed (use inv in \<open>simp_all add: sync_inv_def, simp add: resumable_def\<close>)

lemma pass_inv:
  assumes inv: "sync_inv base s" and run: "s_threads s t = Running c (Wait k p # ss) r" and p: "p (s_obj s)"
    and s': "s' = s\<lparr>s_threads := (s_threads s)(t := Running c ss r)\<rparr>"
  shows "sync_inv base s'"
proof -
  have w: "at_wait base s c (Wait k p # ss) r" using inv_running(2) [OF inv run] by (simp add: past_wait_def)
  then have code: "code c = Wait k p # ss" "r = r0" "s_obj s = base" by (simp_all add: at_wait_def)
  have "list_all (\<lambda>st. \<not> is_wait st) ss" using waits_first [of c] code by simp
  moreover have e: "enabled (code c) base" using code p by simp
  moreover have "holds k' (fst (exec_all ss base r)) \<Longrightarrow> notifies k' ss base r"
    if "s_threads s u = Asleep k' c' ss' r'" for u k' c' ss' r'
  proof -
    assume h: "holds k' (fst (exec_all ss base r))"
    have "valid base" using inv by (simp add: sync_inv_def)
    moreover have "\<not> holds k' base" using that w unfolding at_wait_def unwoken_def by blast
    ultimately show "notifies k' ss base r" using notifies_change [of base c k'] e h code by simp
  qed
  ultimately have "past_wait base s' c ss r" using s' code by (auto simp: past_wait_def)
  then show ?thesis using continue_inv [OF inv run, of s' ss r "s_threads s"] s' by simp
qed

lemma sleep_inv:
  assumes inv: "sync_inv base s" and run: "s_threads s t = Running c (Wait k p # ss) r" and p: "\<not> p (s_obj s)"
    and s': "s' = s\<lparr>s_owner := None, s_threads := (s_threads s)(t := Asleep k c (Wait k p # ss) r)\<rparr>"
  shows "sync_inv base s'"
proof -
  have w: "at_wait base s c (Wait k p # ss) r" using inv_running(2) [OF inv run] by (simp add: past_wait_def)
  then have code: "code c = Wait k p # ss" "r = r0" "s_obj s = base" by (simp_all add: at_wait_def)
  then have h: "p = holds k" by (intro waits_for)
  have "unwoken base s'" using w s' p h code by (auto simp: at_wait_def unwoken_def)
  then show ?thesis
    using release_inv [OF inv run, of s' "Asleep k c (Wait k p # ss) r"] s' code h inv
    by (simp add: resumable_def sync_inv_def)
qed

lemma early_inv:
  assumes inv: "sync_inv base s" and run: "s_threads s t = Running c (ReturnIf p r' # ss) r"
    and s': "s' = s\<lparr>s_threads := (s_threads s)(t := (if p (s_obj s) then Running c [] r' else Running c ss r))\<rparr>"
  shows "sync_inv base s'"
proof -
  have w: "past_wait base s c (ReturnIf p r' # ss) r" using inv_running(2) [OF inv run] by (auto simp: at_wait_def)
  show ?thesis
  proof (cases "p (s_obj s)")
    case True
    then have "exec_all (code c) base r0 = (s_obj s, Inr r')" using w by (simp add: past_wait_def)
    then have "past_wait base s' c [] r'" using w s' True by (auto simp: past_wait_def)
    then show ?thesis using continue_inv [OF inv run, of s' "[]" r' "s_threads s"] s' True by simp
  next
    case False
    then have "past_wait base s' c ss r" using w s' by (auto simp: past_wait_def)
    then show ?thesis using continue_inv [OF inv run, of s' ss r "s_threads s"] s' False by simp
  qed
qed

lemma sync_step_inv:
  assumes "sync_step code r0 s l s'" and inv: "sync_inv base s"
  shows "\<exists>base'. sync_inv base' s' \<and> (l = [] \<and> base' = base
    \<or> (\<exists>c res. l = [(c, res)] \<and> enabled (code c) base \<and> exec_all (code c) base r0 = (base', res)))"
  using assms(1)
proof cases
  case (lock t c)
  then show ?thesis using acquire_inv [OF inv lock(4)] by blast
next
  case (relock t c ss r)
  have "resumable (s_threads s t)" using inv by (simp add: sync_inv_def)
  then have "ss = code c" "r = r0" using relock(3) by (simp_all add: resumable_def)
  then show ?thesis using relock acquire_inv [OF inv relock(4)] by blast
next
  case (pass t c k p ss r)
  then show ?thesis using pass_inv [OF inv pass(3,4)] by blast
next
  case (sleep t c k p ss r)
  then show ?thesis using sleep_inv [OF inv sleep(3,4)] by blast
next
  case (early t c p r' ss r)
  then show ?thesis using early_inv [OF inv early(3)] by blast
next
  case (exec t c f ss r q r')
  have p: "past_wait base s c (Exec f # ss) r" using inv_running(2) [OF inv exec(3)] by (auto simp: at_wait_def)
  then have "past_wait base s' c ss r'" using exec by (auto simp: past_wait_def)
  then have "sync_inv base s'" using continue_inv [OF inv exec(3), of s' ss r' "s_threads s"] exec by simp
  then show ?thesis using exec by blast
next
  case (throw t c f ss r e)
  have "past_wait base s c (Exec f # ss) r" using inv_running(2) [OF inv throw(3)] by (auto simp: at_wait_def)
  from finish_inv [OF inv throw(3) this, of "Inl e"] throw show ?thesis by auto
next
  case (notify t c k p ss r)
  have past: "past_wait base s c (Notify k p # ss) r" using inv_running(2) [OF inv notify(3)] by (auto simp: at_wait_def)
  then have "past_wait base s' c ss r" using notify by (auto simp: past_wait_def split: if_splits) blast
  then have "sync_inv base s'"
    using continue_inv [OF inv notify(3), of s' ss r "if p (s_obj s) then wake_all k (s_threads s) else s_threads s"]
    unfolding notify by (cases "p (s_obj s)") auto
  then show ?thesis using notify by blast
next
  case (unlock t c r)
  have "past_wait base s c [] r" using inv_running(2) [OF inv unlock(3)] by (auto simp: at_wait_def)
  from finish_inv [OF inv unlock(3) this, of "Inr r"] unlock show ?thesis by auto
qed

lemma env_step_inv:
  assumes "env_step s s'" and inv: "sync_inv base s"
  shows "sync_inv base s'"
proof -
  from assms(1) obtain t th where s': "s' = s\<lparr>s_threads := (s_threads s)(t := th)\<rparr>"
    and th: "(\<exists>c. th = Entering c) \<or> (\<exists>k c ss r. s_threads s t = Asleep k c ss r \<and> th = Woken c ss r)"
    and t: "\<And>c ss r. s_threads s t \<noteq> Running c ss r"
    by (cases rule: env_step.cases) auto
  have r: "resumable (s_threads s u)" for u using inv by (simp add: sync_inv_def)
  have "resumable th" using th r [of t] unfolding resumable_def by (elim disjE exE conjE) auto
  then have res: "resumable (s_threads s' u)" for u using r [of u] by (cases "u = t") (simp_all add: s')
  have run: "s_threads s u = Running c ss r" if "s_threads s' u = Running c ss r" for u c ss r
    using that th by (cases "u = t") (auto simp: s')
  have slp: "s_threads s u = Asleep k c ss r" if "s_threads s' u = Asleep k c ss r" for u k c ss r
    using that th by (cases "u = t") (auto simp: s')
  have un: "unwoken base s \<Longrightarrow> unwoken base s'" using slp unfolding unwoken_def by blast
  show ?thesis
  proof (cases "s_owner s")
    case None
    have "s_threads s' u \<noteq> Running c ss r" for u c ss r using run inv_free(3) [OF inv None] by blast
    then show ?thesis
      using inv None res inv_free(1,2) [OF inv None] un by (intro inv_freeI) (simp_all add: s' sync_inv_def)
  next
    case (Some w)
    then obtain c ss r where w: "s_threads s w = Running c ss r" using inv unfolding sync_inv_def by blast
    have "at_wait base s' c ss r \<or> past_wait base s' c ss r"
    proof (rule disj_forward [OF inv_running(2) [OF inv w]])
      show "at_wait base s' c ss r" if "at_wait base s c ss r" using that un by (simp add: at_wait_def s')
      show "past_wait base s' c ss r" if p: "past_wait base s c ss r"
        unfolding past_wait_def
      proof (intro conjI allI impI)
        fix u k c' ss' r'
        assume a: "s_threads s' u = Asleep k c' ss' r'" and h: "holds k (fst (exec_all ss (s_obj s') r))"
        have "s_threads s u = Asleep k c' ss' r'" using a by (rule slp)
        moreover have "holds k (fst (exec_all ss (s_obj s) r))" using h by (simp add: s')
        ultimately have "notifies k ss (s_obj s) r" using p unfolding past_wait_def by blast
        then show "notifies k ss (s_obj s') r" by (simp add: s')
      qed (use p in \<open>simp_all add: past_wait_def s'\<close>)
    qed
    then show ?thesis
    proof (intro inv_ownedI [where t = w and c = c and ss = ss and r = r])
      show "s_threads s' w = Running c ss r" using w t by (cases "w = t") (simp_all add: s')
      show "u = w" if "s_threads s' u = Running c' ss' r'" for u c' ss' r'
        using running_unique [OF inv w run [OF that]] .
    qed (use inv Some res in \<open>simp_all add: s' sync_inv_def\<close>)
  qed
qed

lemma sync_run_inv:
  assumes "sync_run code r0 q0 h s" and "valid q0"
  shows "\<exists>base. seq_run code r0 q0 h base \<and> sync_inv base s"
  using assms(1)
proof induction
  case start
  have "sync_inv q0 (shared_start q0)"
    using assms(2) by (intro inv_freeI) (simp_all add: shared_start_def resumable_def unwoken_def)
  then show ?case by (auto intro: seq_run.start)
next
  case (step h s l s')
  then obtain base where b: "seq_run code r0 q0 h base" "sync_inv base s" by blast
  from sync_step_inv [OF step.hyps(2) b(2)] show ?case using b(1) by (auto intro: seq_run.call)
next
  case (env h s s')
  then show ?case using env_step_inv by blast
qed

text \<open>
  Calls are atomic: those that have returned, in this order, are an execution one after the other, and between
  calls the object is what this execution leaves.
\<close>

lemma run_atomic:
  assumes "sync_run code r0 q0 h s" and "valid q0"
  shows "\<exists>q. seq_run code r0 q0 h q \<and> valid q \<and> (s_owner s = None \<longrightarrow> s_obj s = q)"
proof -
  obtain base where "seq_run code r0 q0 h base" and b: "sync_inv base s" using sync_run_inv [OF assms] by blast
  moreover have "valid base" using b by (simp add: sync_inv_def)
  ultimately show ?thesis by (intro exI [of _ base] conjI impI) (simp_all add: inv_free(1) [OF b])
qed

lemma no_lost_wakeup:
  assumes "sync_run code r0 q0 h s" and "valid q0" and "s_owner s = None" and "s_threads s t = Asleep k c ss r"
  shows "\<not> holds k (s_obj s)"
proof -
  obtain base where b: "sync_inv base s" using sync_run_inv [OF assms(1,2)] by blast
  have "unwoken (s_obj s) s" using inv_free(1,2) [OF b assms(3)] by simp
  with assms(4) show ?thesis unfolding unwoken_def by blast
qed

text \<open>At most one thread is between lock and unlock.\<close>

lemma mutual_exclusion:
  assumes "sync_run code r0 q0 h s" and "valid q0"
    and "s_threads s t = Running c ss r" and "s_threads s u = Running c' ss' r'"
  shows "u = t"
  using sync_run_inv [OF assms(1,2)] running_unique assms(3,4) by blast

lemma owner_steps:
  assumes "s_threads s t = Running c ss r"
  shows "\<exists>l s'. sync_step code r0 s l s'"
proof (cases ss)
  case Nil
  then show ?thesis using assms by (auto intro: sync_step.unlock)
next
  case (Cons st ss')
  show ?thesis
  proof (cases st)
    case (Wait k p)
    then show ?thesis using assms Cons by (cases "p (s_obj s)") (auto intro: sync_step.pass sync_step.sleep)
  next
    case (ReturnIf p r')
    then show ?thesis using assms Cons by (auto intro: sync_step.early)
  next
    case (Exec f)
    then show ?thesis
      using assms Cons by (cases "f (s_obj s) r") (auto intro: sync_step.exec sync_step.throw)
  next
    case (Notify k p)
    then show ?thesis using assms Cons by (auto intro: sync_step.notify)
  qed
qed

text \<open>Threads stand still only when the mutex is free and every thread is outside the class or asleep.\<close>

lemma progress:
  assumes "sync_run code r0 q0 h s" and "valid q0" and "\<nexists>l s'. sync_step code r0 s l s'"
  shows "s_owner s = None"
    and "s_threads s t = Idle \<or> (\<exists>c res. s_threads s t = Returned c res)
      \<or> (\<exists>k c ss r. s_threads s t = Asleep k c ss r \<and> \<not> holds k (s_obj s))"
proof -
  obtain base where inv: "sync_inv base s" using sync_run_inv [OF assms(1,2)] by blast
  have nr: "s_threads s u \<noteq> Running c ss r" for u c ss r using owner_steps assms(3) by blast
  then show own: "s_owner s = None" using inv unfolding sync_inv_def by (metis option.exhaust)
  have "s_threads s t \<noteq> Entering c" "s_threads s t \<noteq> Woken c ss r" for c ss r
    using assms(3) own by (auto intro: sync_step.lock sync_step.relock)
  then show "s_threads s t = Idle \<or> (\<exists>c res. s_threads s t = Returned c res)
      \<or> (\<exists>k c ss r. s_threads s t = Asleep k c ss r \<and> \<not> holds k (s_obj s))"
    using nr [of t] no_lost_wakeup [OF assms(1,2) own, of t] by (cases "s_threads s t") auto
qed

end

end
