(* ===== verification/Block_Queue.thy ===== *)
theory Block_Queue
  imports Prelude
begin

text \<open>
  \<open>src/src/common/block_queue.hpp\<close>: the bounded queues between threads, \<open>BlockQueue\<close> on a ring of fixed
  size and \<open>BlockQueueSTL\<close> on a deque, with every call as one step (\<open>Sync_Queues\<close> shows that the mutex makes them
  so); \<open>put\<close> and \<open>take\<close> wait on a condition variable, and are \<open>None\<close> in the model as long as they would wait.
  Accesses outside the vector are \<open>Undefined\<close>. Both implement the contract \<open>fifo\<close>.
\<close>

section \<open>BlockQueue\<close>

record 'a BlockQueue =
  bq_queue :: "'a list"
  bq_maxCapacity :: nat
  bq_head :: nat
  bq_tail :: nat
  bq_sz :: nat

text \<open>The constructor for a capacity that is not negative; with a negative one the vector throws, which its callers say.\<close>

definition newBlockQueue :: "'a \<Rightarrow> nat \<Rightarrow> 'a BlockQueue" where
  "newBlockQueue init cap =
     \<lparr>bq_queue = replicate cap init, bq_maxCapacity = cap, bq_head = 0, bq_tail = 0, bq_sz = 0\<rparr>"

definition bq_push :: "'a \<Rightarrow> 'a BlockQueue \<Rightarrow> 'a BlockQueue result" where
  "bq_push t q =
     (if length (bq_queue q) \<le> bq_tail q then Inl Undefined
      else Inr (q\<lparr>bq_queue := (bq_queue q)[bq_tail q := t],
                  bq_tail := (bq_tail q + 1) mod bq_maxCapacity q, bq_sz := bq_sz q + 1\<rparr>))"

definition bq_pop :: "'a BlockQueue \<Rightarrow> ('a \<times> 'a BlockQueue) result" where
  "bq_pop q =
     (if length (bq_queue q) \<le> bq_head q then Inl Undefined
      else Inr (bq_queue q ! bq_head q,
                q\<lparr>bq_head := (bq_head q + 1) mod bq_maxCapacity q, bq_sz := bq_sz q - 1\<rparr>))"

definition bq_put :: "'a \<Rightarrow> 'a BlockQueue \<Rightarrow> 'a BlockQueue option result" where
  "bq_put t q = (if bq_sz q < bq_maxCapacity q then bindE (bq_push t q) (\<lambda>q. Inr (Some q)) else Inr None)"

definition bq_take :: "'a BlockQueue \<Rightarrow> ('a \<times> 'a BlockQueue) option result" where
  "bq_take q = (if bq_sz q > 0 then bindE (bq_pop q) (\<lambda>r. Inr (Some r)) else Inr None)"

definition bq_offer :: "'a \<Rightarrow> 'a BlockQueue \<Rightarrow> (bool \<times> 'a BlockQueue) result" where
  "bq_offer t q =
     (if bq_sz q \<ge> bq_maxCapacity q then Inr (False, q) else bindE (bq_push t q) (\<lambda>q. Inr (True, q)))"

definition bq_poll :: "'a BlockQueue \<Rightarrow> ('a option \<times> 'a BlockQueue) result" where
  "bq_poll q =
     (if bq_sz q = 0 then Inr (None, q) else bindE (bq_pop q) (\<lambda>(t, q). Inr (Some t, q)))"

definition bq_empty :: "'a BlockQueue \<Rightarrow> bool" where
  "bq_empty q \<longleftrightarrow> bq_sz q = 0"

definition bq_full :: "'a BlockQueue \<Rightarrow> bool" where
  "bq_full q \<longleftrightarrow> bq_sz q \<ge> bq_maxCapacity q"

definition bq_size :: "'a BlockQueue \<Rightarrow> nat" where
  "bq_size q = bq_sz q"

section \<open>BlockQueueSTL\<close>

text \<open>
  The capacity is an \<open>int\<close>, \<open>-1\<close> for an unbounded queue. The code compares the unsigned \<open>size()\<close> with
  it, so another negative capacity counts as one near \<open>2^64\<close>.
\<close>

record 'a BlockQueueSTL =
  stl_queue :: "'a list"
  stl_maxCapacity :: int

definition newBlockQueueSTL :: "int \<Rightarrow> 'a BlockQueueSTL" where
  "newBlockQueueSTL cap = \<lparr>stl_queue = [], stl_maxCapacity = cap\<rparr>"

definition stl_room :: "'a BlockQueueSTL \<Rightarrow> bool" where
  "stl_room q \<longleftrightarrow> int (length (stl_queue q)) < stl_maxCapacity q mod 18446744073709551616"

definition stl_put :: "'a \<Rightarrow> 'a BlockQueueSTL \<Rightarrow> 'a BlockQueueSTL option result" where
  "stl_put t q =
     (if stl_maxCapacity q \<noteq> -1 \<and> \<not> stl_room q then Inr None
      else Inr (Some (q\<lparr>stl_queue := stl_queue q @ [t]\<rparr>)))"

definition stl_take :: "'a BlockQueueSTL \<Rightarrow> ('a \<times> 'a BlockQueueSTL) option result" where
  "stl_take q =
     (case stl_queue q of [] \<Rightarrow> Inr None | t # ts \<Rightarrow> Inr (Some (t, q\<lparr>stl_queue := ts\<rparr>)))"

definition stl_offer :: "'a \<Rightarrow> 'a BlockQueueSTL \<Rightarrow> (bool \<times> 'a BlockQueueSTL) result" where
  "stl_offer t q =
     (if stl_maxCapacity q \<noteq> -1 \<and> \<not> stl_room q then Inr (False, q)
      else Inr (True, q\<lparr>stl_queue := stl_queue q @ [t]\<rparr>))"

definition stl_poll :: "'a BlockQueueSTL \<Rightarrow> ('a option \<times> 'a BlockQueueSTL) result" where
  "stl_poll q =
     (case stl_queue q of [] \<Rightarrow> Inr (None, q) | t # ts \<Rightarrow> Inr (Some t, q\<lparr>stl_queue := ts\<rparr>))"

definition stl_empty :: "'a BlockQueueSTL \<Rightarrow> bool" where
  "stl_empty q \<longleftrightarrow> stl_queue q = []"

definition stl_full :: "'a BlockQueueSTL \<Rightarrow> bool" where
  "stl_full q \<longleftrightarrow> stl_maxCapacity q \<noteq> -1 \<and> \<not> stl_room q"

definition stl_size :: "'a BlockQueueSTL \<Rightarrow> nat" where
  "stl_size q = length (stl_queue q)"

section \<open>The contract of a bounded queue\<close>

locale fifo =
  fixes put :: "'a \<Rightarrow> 'q \<Rightarrow> 'q option result"
    and take :: "'q \<Rightarrow> ('a \<times> 'q) option result"
    and offer :: "'a \<Rightarrow> 'q \<Rightarrow> (bool \<times> 'q) result"
    and poll :: "'q \<Rightarrow> ('a option \<times> 'q) result"
    and room :: "'q \<Rightarrow> nat \<Rightarrow> bool"
    and rep :: "'q \<Rightarrow> 'a list \<Rightarrow> bool"
  assumes put_room: "rep q xs \<Longrightarrow> room q (length xs) \<Longrightarrow>
      \<exists>q'. put x q = Inr (Some q') \<and> rep q' (xs @ [x]) \<and> room q' = room q"
    and put_full: "rep q xs \<Longrightarrow> \<not> room q (length xs) \<Longrightarrow> put x q = Inr None"
    and take_nil: "rep q [] \<Longrightarrow> take q = Inr None"
    and take_cons: "rep q (x # xs) \<Longrightarrow> \<exists>q'. take q = Inr (Some (x, q')) \<and> rep q' xs \<and> room q' = room q"
    and offer_put: "rep q xs \<Longrightarrow>
      offer x q = bindE (put x q) (\<lambda>r. Inr (case r of None \<Rightarrow> (False, q) | Some q' \<Rightarrow> (True, q')))"
    and poll_take: "rep q xs \<Longrightarrow>
      poll q = bindE (take q) (\<lambda>r. Inr (case r of None \<Rightarrow> (None, q) | Some (x, q') \<Rightarrow> (Some x, q')))"

section \<open>Both queues keep the contract\<close>

definition bq_rep :: "'a BlockQueue \<Rightarrow> 'a list \<Rightarrow> bool" where
  "bq_rep q xs \<longleftrightarrow>
     length (bq_queue q) = bq_maxCapacity q \<and> bq_sz q = length xs \<and> length xs \<le> bq_maxCapacity q
     \<and> (0 < bq_maxCapacity q \<longrightarrow> bq_head q < bq_maxCapacity q)
     \<and> bq_tail q = (bq_head q + length xs) mod bq_maxCapacity q
     \<and> (\<forall>i < length xs. bq_queue q ! ((bq_head q + i) mod bq_maxCapacity q) = xs ! i)"

definition bq_room :: "'a BlockQueue \<Rightarrow> nat \<Rightarrow> bool" where
  "bq_room q n \<longleftrightarrow> n < bq_maxCapacity q"

lemma bq_rep_new: "bq_rep (newBlockQueue d c) []"
  by (simp add: bq_rep_def newBlockQueue_def)

lemma ring_slots_differ:
  fixes h c i n :: nat
  assumes "i < n" "n < c"
  shows "(h + n) mod c \<noteq> (h + i) mod c"
proof
  assume "(h + n) mod c = (h + i) mod c"
  then have "c dvd (h + n) - (h + i)" using assms(1) by (intro mod_eq_dvd_iff_nat [THEN iffD1]) simp_all
  then show False using assms by (auto dest: dvd_imp_le)
qed

lemma bq_push_rep:
  assumes "bq_rep q xs" and "length xs < bq_maxCapacity q"
  shows "\<exists>q'. bq_push x q = Inr q' \<and> bq_rep q' (xs @ [x]) \<and> bq_maxCapacity q' = bq_maxCapacity q"
proof -
  let ?c = "bq_maxCapacity q" and ?h = "bq_head q"
  have r: "length (bq_queue q) = ?c" "bq_sz q = length xs" "?h < ?c" "bq_tail q = (?h + length xs) mod ?c"
    "\<forall>i < length xs. bq_queue q ! ((?h + i) mod ?c) = xs ! i"
    using assms by (simp_all add: bq_rep_def)
  have t: "bq_tail q < ?c" using assms(2) r(4) by simp
  have slots: "(bq_queue q)[bq_tail q := x] ! ((?h + i) mod ?c) = (xs @ [x]) ! i" if "i < length (xs @ [x])" for i
  proof (cases "i = length xs")
    case True
    then show ?thesis using r t by simp
  next
    case False
    then have "i < length xs" using that by simp
    then show ?thesis using ring_slots_differ [of i "length xs" ?c ?h] assms(2) r by (simp add: nth_append)
  qed
  have "((?h + length xs) mod ?c + 1) mod ?c = (?h + length (xs @ [x])) mod ?c" by (simp add: mod_Suc_eq)
  then show ?thesis using r(1-4) t slots assms(2) by (auto simp: bq_push_def bq_rep_def not_le)
qed

lemma bq_pop_rep:
  assumes "bq_rep q (x # xs)"
  shows "\<exists>q'. bq_pop q = Inr (x, q') \<and> bq_rep q' xs \<and> bq_maxCapacity q' = bq_maxCapacity q"
proof -
  let ?c = "bq_maxCapacity q" and ?h = "bq_head q"
  have r: "length (bq_queue q) = ?c" "?h < ?c" "length xs < ?c"
    "\<forall>i < length (x # xs). bq_queue q ! ((?h + i) mod ?c) = (x # xs) ! i"
    using assms by (simp_all add: bq_rep_def)
  have "bq_queue q ! ?h = x" using r(4) r(2) by (auto dest!: spec [of _ 0])
  moreover have "bq_queue q ! (((?h + 1) mod ?c + i) mod ?c) = xs ! i" if "i < length xs" for i
    using r(4) that by (auto dest!: spec [of _ "Suc i"] simp: mod_add_left_eq)
  moreover have "((?h + 1) mod ?c + length xs) mod ?c = (?h + length (x # xs)) mod ?c" by (simp add: mod_add_left_eq)
  ultimately show ?thesis using assms r by (simp add: bq_pop_def bq_rep_def)
qed

interpretation bq: fifo bq_put bq_take bq_offer bq_poll bq_room bq_rep
proof
  fix q :: "'a BlockQueue" and xs x
  assume r: "bq_rep q xs"
  then have sz: "bq_sz q = length xs" by (simp add: bq_rep_def)
  show "bq_room q (length xs) \<Longrightarrow> \<exists>q'. bq_put x q = Inr (Some q') \<and> bq_rep q' (xs @ [x]) \<and> bq_room q' = bq_room q"
    using bq_push_rep [OF r, of x] sz by (auto simp: bq_put_def bq_room_def fun_eq_iff)
  show "\<not> bq_room q (length xs) \<Longrightarrow> bq_put x q = Inr None" using sz by (simp add: bq_put_def bq_room_def)
  show "bq_offer x q = bindE (bq_put x q) (\<lambda>r. Inr (case r of None \<Rightarrow> (False, q) | Some q' \<Rightarrow> (True, q')))"
    by (simp add: bq_offer_def bq_put_def bindE_assoc not_less)
  show "bq_poll q = bindE (bq_take q) (\<lambda>r. Inr (case r of None \<Rightarrow> (None, q) | Some (x, q') \<Rightarrow> (Some x, q')))"
    by (cases "bq_pop q") (auto simp: bq_poll_def bq_take_def split: prod.splits)
next
  fix q :: "'a BlockQueue" and x xs assume r: "bq_rep q (x # xs)"
  then have "0 < bq_sz q" by (simp add: bq_rep_def)
  then show "\<exists>q'. bq_take q = Inr (Some (x, q')) \<and> bq_rep q' xs \<and> bq_room q' = bq_room q"
    using bq_pop_rep [OF r] by (auto simp: bq_take_def bq_room_def fun_eq_iff)
qed (simp add: bq_take_def bq_rep_def)

definition stl_rep :: "'a BlockQueueSTL \<Rightarrow> 'a list \<Rightarrow> bool" where
  "stl_rep q xs \<longleftrightarrow> stl_queue q = xs"

definition stl_limit :: "'a BlockQueueSTL \<Rightarrow> nat \<Rightarrow> bool" where
  "stl_limit q n \<longleftrightarrow> stl_maxCapacity q = -1 \<or> int n < stl_maxCapacity q mod 18446744073709551616"

interpretation stl: fifo stl_put stl_take stl_offer stl_poll stl_limit stl_rep
  by unfold_locales
    (auto simp: stl_put_def stl_take_def stl_offer_def stl_poll_def stl_limit_def stl_rep_def stl_room_def
      fun_eq_iff split: list.splits)

end
