(* ===== verification/Sync_Queues.thy ===== *)
theory Sync_Queues
  imports Sync Block_Queue
begin

text \<open>
  The two queue classes of \<open>src/src/common/block_queue.hpp\<close> statement by statement, under their mutex and their
  two condition variables, with any number of threads. \<open>Block_Queue\<close> has their methods as single steps; here the
  mutex is part of the model, and that the methods behave as single steps is shown.
\<close>

section \<open>The methods\<close>

datatype queue_cond = CondEmpty | CondFull

datatype 'a queue_call = Put 'a | Take | Offer 'a | Poll | IsEmpty | IsFull | GetSize

text \<open>\<open>poll\<close> assigns its reference argument only when it returns \<open>true\<close>.\<close>

datatype 'a queue_ret = RVoid | RElem 'a | RBool bool | RPoll "'a option" | RSize nat

definition bq_store :: "'a \<Rightarrow> 'a BlockQueue \<Rightarrow> 'r \<Rightarrow> ('a BlockQueue \<times> 'r) result" where
  "bq_store t q r =
     (if length (bq_queue q) \<le> bq_tail q then Inl Undefined else Inr (q\<lparr>bq_queue := (bq_queue q)[bq_tail q := t]\<rparr>, r))"

definition bq_next_tail :: "'a BlockQueue \<Rightarrow> 'r \<Rightarrow> ('a BlockQueue \<times> 'r) result" where
  "bq_next_tail q r = Inr (q\<lparr>bq_tail := (bq_tail q + 1) mod bq_maxCapacity q\<rparr>, r)"

definition bq_inc :: "'a BlockQueue \<Rightarrow> 'r \<Rightarrow> ('a BlockQueue \<times> 'r) result" where
  "bq_inc q r = Inr (q\<lparr>bq_sz := bq_sz q + 1\<rparr>, r)"

definition bq_load :: "('a \<Rightarrow> 'r) \<Rightarrow> 'a BlockQueue \<Rightarrow> 'r \<Rightarrow> ('a BlockQueue \<times> 'r) result" where
  "bq_load mk q r = (if length (bq_queue q) \<le> bq_head q then Inl Undefined else Inr (q, mk (bq_queue q ! bq_head q)))"

definition bq_next_head :: "'a BlockQueue \<Rightarrow> 'r \<Rightarrow> ('a BlockQueue \<times> 'r) result" where
  "bq_next_head q r = Inr (q\<lparr>bq_head := (bq_head q + 1) mod bq_maxCapacity q\<rparr>, r)"

definition bq_dec :: "'a BlockQueue \<Rightarrow> 'r \<Rightarrow> ('a BlockQueue \<times> 'r) result" where
  "bq_dec q r = Inr (q\<lparr>bq_sz := bq_sz q - 1\<rparr>, r)"

definition ret_stmt :: "('q \<Rightarrow> 'r) \<Rightarrow> 'q \<Rightarrow> 'r \<Rightarrow> ('q \<times> 'r) result" where
  "ret_stmt f q r = Inr (q, f q)"

definition bq_holds :: "queue_cond \<Rightarrow> 'a BlockQueue \<Rightarrow> bool" where
  "bq_holds k q = (case k of CondEmpty \<Rightarrow> bq_sz q > 0 | CondFull \<Rightarrow> bq_sz q < bq_maxCapacity q)"

fun bq_code :: "'a queue_call \<Rightarrow> ('a BlockQueue, 'a queue_ret, queue_cond) code" where
  "bq_code (Put t) =
     [Wait CondFull (bq_holds CondFull), Exec (bq_store t), Exec bq_next_tail, Exec bq_inc, Notify CondEmpty (\<lambda>_. True)]"
| "bq_code Take =
     [Wait CondEmpty (bq_holds CondEmpty), Exec (bq_load RElem), Exec bq_next_head, Exec bq_dec, Notify CondFull (\<lambda>_. True)]"
| "bq_code (Offer t) =
     [ReturnIf (\<lambda>q. bq_sz q \<ge> bq_maxCapacity q) (RBool False), Exec (bq_store t), Exec bq_next_tail, Exec bq_inc,
      Notify CondEmpty (\<lambda>_. True), Exec (ret_stmt (\<lambda>_. RBool True))]"
| "bq_code Poll =
     [ReturnIf (\<lambda>q. bq_sz q = 0) (RPoll None), Exec (bq_load (\<lambda>x. RPoll (Some x))), Exec bq_next_head, Exec bq_dec,
      Notify CondFull (\<lambda>_. True)]"
| "bq_code IsEmpty = [Exec (ret_stmt (\<lambda>q. RBool (bq_empty q)))]"
| "bq_code IsFull = [Exec (ret_stmt (\<lambda>q. RBool (bq_full q)))]"
| "bq_code GetSize = [Exec (ret_stmt (\<lambda>q. RSize (bq_size q)))]"

text \<open>The queue on a deque; \<open>full()\<close> reads the constant capacity before it takes the lock.\<close>

definition stl_push_back :: "'a \<Rightarrow> 'a BlockQueueSTL \<Rightarrow> 'r \<Rightarrow> ('a BlockQueueSTL \<times> 'r) result" where
  "stl_push_back t q r = Inr (q\<lparr>stl_queue := stl_queue q @ [t]\<rparr>, r)"

definition stl_front :: "('a \<Rightarrow> 'r) \<Rightarrow> 'a BlockQueueSTL \<Rightarrow> 'r \<Rightarrow> ('a BlockQueueSTL \<times> 'r) result" where
  "stl_front mk q r = (case stl_queue q of [] \<Rightarrow> Inl Undefined | x # xs \<Rightarrow> Inr (q, mk x))"

definition stl_pop_front :: "'a BlockQueueSTL \<Rightarrow> 'r \<Rightarrow> ('a BlockQueueSTL \<times> 'r) result" where
  "stl_pop_front q r = (case stl_queue q of [] \<Rightarrow> Inl Undefined | x # xs \<Rightarrow> Inr (q\<lparr>stl_queue := xs\<rparr>, r))"

definition stl_holds :: "queue_cond \<Rightarrow> 'a BlockQueueSTL \<Rightarrow> bool" where
  "stl_holds k q = (case k of CondEmpty \<Rightarrow> stl_queue q \<noteq> [] | CondFull \<Rightarrow> stl_room q)"

text \<open>The capacity \<open>cap\<close> is a constant of the object: without a bound, \<open>put\<close> does not wait.\<close>

fun stl_code :: "int \<Rightarrow> 'a queue_call \<Rightarrow> ('a BlockQueueSTL, 'a queue_ret, queue_cond) code" where
  "stl_code cap (Put t) =
     (if cap \<noteq> -1 then [Wait CondFull (stl_holds CondFull)] else []) @ [Exec (stl_push_back t), Notify CondEmpty (\<lambda>_. True)]"
| "stl_code cap Take =
     [Wait CondEmpty (stl_holds CondEmpty), Exec (stl_front RElem), Exec stl_pop_front, Notify CondFull (\<lambda>_. True)]"
| "stl_code cap (Offer t) =
     [ReturnIf (\<lambda>q. cap \<noteq> -1 \<and> \<not> stl_room q) (RBool False), Exec (stl_push_back t),
      Notify CondEmpty (\<lambda>_. True), Exec (ret_stmt (\<lambda>_. RBool True))]"
| "stl_code cap Poll =
     [ReturnIf (\<lambda>q. stl_queue q = []) (RPoll None), Exec (stl_front (\<lambda>x. RPoll (Some x))), Exec stl_pop_front,
      Notify CondFull (\<lambda>_. True)]"
| "stl_code cap IsEmpty = [Exec (ret_stmt (\<lambda>q. RBool (stl_empty q)))]"
| "stl_code cap IsFull = [Exec (ret_stmt (\<lambda>q. RBool (stl_full q)))]"
| "stl_code cap GetSize = [Exec (ret_stmt (\<lambda>q. RSize (stl_size q)))]"

lemmas queue_stmt_defs = bq_store_def bq_next_tail_def bq_inc_def bq_load_def bq_next_head_def bq_dec_def ret_stmt_def
  bq_holds_def stl_push_back_def stl_front_def stl_pop_front_def stl_holds_def

section \<open>The methods as single steps\<close>

lemma bq_exec_put:
  "bq_push t q = Inr q' \<Longrightarrow> exec_all (bq_code (Put t)) q r = (q', Inr r)"
  by (auto simp: queue_stmt_defs bq_push_def split: if_splits)

lemma bq_exec_take:
  "bq_pop q = Inr (x, q') \<Longrightarrow> exec_all (bq_code Take) q r = (q', Inr (RElem x))"
  by (auto simp: queue_stmt_defs bq_pop_def split: if_splits)

lemma bq_exec_offer:
  "bq_offer t q = Inr (b, q') \<Longrightarrow> exec_all (bq_code (Offer t)) q r = (q', Inr (RBool b))"
  by (auto simp: queue_stmt_defs bq_offer_def bq_push_def split: if_splits)

lemma bq_exec_poll:
  "bq_poll q = Inr (x, q') \<Longrightarrow> exec_all (bq_code Poll) q r = (q', Inr (RPoll x))"
  by (auto simp: queue_stmt_defs bq_poll_def bq_pop_def split: if_splits)

lemma stl_exec:
  "stl_put t q = Inr (Some q') \<Longrightarrow> exec_all (stl_code cap (Put t)) q r = (q', Inr r)"
  "stl_take q = Inr (Some (x, q')) \<Longrightarrow> exec_all (stl_code cap Take) q r = (q', Inr (RElem x))"
  "stl_maxCapacity q = cap \<Longrightarrow> stl_offer t q = Inr (b, q') \<Longrightarrow> exec_all (stl_code cap (Offer t)) q r = (q', Inr (RBool b))"
  "stl_poll q = Inr (y, q') \<Longrightarrow> exec_all (stl_code cap Poll) q r = (q', Inr (RPoll y))"
  by (auto simp: queue_stmt_defs stl_put_def stl_take_def stl_offer_def stl_poll_def split: if_splits list.splits)

section \<open>A queue shared by threads\<close>

text \<open>What calls have put into the queue and taken out of it, in the order in which they returned.\<close>

fun put_by :: "'a queue_call \<times> 'a queue_ret result \<Rightarrow> 'a list" where
  "put_by (Put t, Inr RVoid) = [t]"
| "put_by (Offer t, Inr (RBool True)) = [t]"
| "put_by _ = []"

fun taken_by :: "'a queue_call \<times> 'a queue_ret result \<Rightarrow> 'a list" where
  "taken_by (Take, Inr (RElem x)) = [x]"
| "taken_by (Poll, Inr (RPoll (Some x))) = [x]"
| "taken_by _ = []"

definition all_put :: "('a queue_call \<times> 'a queue_ret result) list \<Rightarrow> 'a list" where
  "all_put h = concat (map put_by h)"

definition all_taken :: "('a queue_call \<times> 'a queue_ret result) list \<Rightarrow> 'a list" where
  "all_taken h = concat (map taken_by h)"

locale synchronised_queue = fifo put take offer poll room rep
  for put :: "'a \<Rightarrow> 'q \<Rightarrow> 'q option result"
    and take :: "'q \<Rightarrow> ('a \<times> 'q) option result"
    and offer :: "'a \<Rightarrow> 'q \<Rightarrow> (bool \<times> 'q) result"
    and poll :: "'q \<Rightarrow> ('a option \<times> 'q) result"
    and room :: "'q \<Rightarrow> nat \<Rightarrow> bool"
    and rep :: "'q \<Rightarrow> 'a list \<Rightarrow> bool" +
  fixes code :: "'a queue_call \<Rightarrow> ('q, 'a queue_ret, queue_cond) code"
    and holds :: "queue_cond \<Rightarrow> 'q \<Rightarrow> bool"
  assumes enabled_put: "rep q xs \<Longrightarrow> enabled (code (Put x)) q \<Longrightarrow> room q (length xs)"
    and enabled_take: "rep q xs \<Longrightarrow> enabled (code Take) q \<Longrightarrow> xs \<noteq> []"
    and exec_put: "rep q xs \<Longrightarrow> put x q = Inr (Some q') \<Longrightarrow> exec_all (code (Put x)) q RVoid = (q', Inr RVoid)"
    and exec_take: "rep q xs \<Longrightarrow> take q = Inr (Some (x, q')) \<Longrightarrow> exec_all (code Take) q RVoid = (q', Inr (RElem x))"
    and exec_offer: "rep q xs \<Longrightarrow> offer x q = Inr (b, q') \<Longrightarrow> exec_all (code (Offer x)) q RVoid = (q', Inr (RBool b))"
    and exec_poll: "rep q xs \<Longrightarrow> poll q = Inr (y, q') \<Longrightarrow> exec_all (code Poll) q RVoid = (q', Inr (RPoll y))"
    and exec_query: "c \<in> {IsEmpty, IsFull, GetSize} \<Longrightarrow> \<exists>r. exec_all (code c) q RVoid = (q, Inr r)"
    and code_waits_first: "list_all (\<lambda>st. \<not> is_wait st) (tl (code c))"
    and code_waits_for: "code c = Wait k p # ss \<Longrightarrow> p = holds k"
    and code_notifies: "rep q xs \<Longrightarrow> enabled (code c) q \<Longrightarrow> \<not> holds k q \<Longrightarrow>
      holds k (fst (exec_all (code c) q RVoid)) \<Longrightarrow> notifies k (code c) q RVoid"
begin

lemma offer_cases:
  assumes "rep q xs"
  obtains q' where "offer x q = Inr (True, q')" "rep q' (xs @ [x])" "room q' = room q"
  | "offer x q = Inr (False, q)"
  using offer_put [OF assms, of x] put_room [OF assms, of x] put_full [OF assms, of x]
  by (cases "room q (length xs)") auto

lemma poll_cases:
  assumes "rep q xs"
  obtains y ys q' where "xs = y # ys" "poll q = Inr (Some y, q')" "rep q' ys" "room q' = room q"
  | "xs = []" "poll q = Inr (None, q)"
proof (cases xs)
  case Nil
  then show ?thesis using that(2) poll_take [OF assms] take_nil [of q] assms by simp
next
  case (Cons y ys)
  then obtain q' where "take q = Inr (Some (y, q'))" "rep q' ys" "room q' = room q"
    using take_cons [of q y ys] assms by blast
  then show ?thesis using that(1) poll_take [OF assms] Cons by simp
qed

text \<open>One call: it returns normally, and what it puts or takes is what the queue gains or loses.\<close>

lemma call_effect:
  assumes r: "rep q xs" and e: "enabled (code c) q" and x: "exec_all (code c) q RVoid = (q', res)"
  shows "\<exists>ys. rep q' ys \<and> room q' = room q \<and> xs @ put_by (c, res) = taken_by (c, res) @ ys \<and> isl res = False"
proof (cases c)
  case (Put t)
  then obtain q1 where "put t q = Inr (Some q1)" "rep q1 (xs @ [t])" "room q1 = room q"
    using put_room [OF r enabled_put [OF r]] e by blast
  then show ?thesis using exec_put [OF r, of t q1] x Put by auto
next
  case Take
  then obtain y ys where "xs = y # ys" using enabled_take [OF r] e by (cases xs) auto
  then obtain q1 where "take q = Inr (Some (y, q1))" "rep q1 ys" "room q1 = room q" "xs = y # ys"
    using take_cons [of q y ys] r by blast
  then show ?thesis using exec_take [OF r, of y q1] x Take by auto
next
  case (Offer t)
  from r show ?thesis
  proof (cases rule: offer_cases [of q xs t])
    case (1 q1)
    then show ?thesis using exec_offer [OF r, of t True q1] x Offer by auto
  next
    case 2
    then show ?thesis using exec_offer [OF r, of t False q] x Offer r by auto
  qed
next
  case Poll
  from r show ?thesis
  proof (cases rule: poll_cases)
    case (1 y ys q1)
    then show ?thesis using exec_poll [OF r, of "Some y" q1] x Poll by auto
  next
    case 2
    then show ?thesis using exec_poll [OF r, of None q] x Poll r by auto
  qed
qed (use exec_query [of c q] x r in auto)

lemma calls_effect:
  assumes "seq_run code RVoid q0 h q" and "rep q0 []"
  shows "\<exists>xs. rep q xs \<and> room q = room q0 \<and> all_put h = all_taken h @ xs \<and> (\<forall>(c, res) \<in> set h. isl res = False)"
  using assms(1)
proof induction
  case start
  then show ?case using assms(2) by (simp add: all_put_def all_taken_def)
next
  case (call h q c q' res)
  then obtain xs where xs: "rep q xs" "room q = room q0" "all_put h = all_taken h @ xs"
    "\<forall>(c, res) \<in> set h. isl res = False" by blast
  from call_effect [OF xs(1) call.hyps(2,3)] obtain ys where
    "rep q' ys" "room q' = room q" "xs @ put_by (c, res) = taken_by (c, res) @ ys" "isl res = False" by blast
  then show ?case using xs by (intro exI [of _ ys]) (auto simp: all_put_def all_taken_def)
qed

end

sublocale synchronised_queue \<subseteq> monitor_object code RVoid "\<lambda>q. \<exists>xs. rep q xs" holds
proof
  fix q c
  assume "\<exists>xs. rep q xs" and "enabled (code c) q"
  then show "\<exists>xs. rep (fst (exec_all (code c) q RVoid)) xs"
    using call_effect [of q _ c "fst (exec_all (code c) q RVoid)" "snd (exec_all (code c) q RVoid)"] by auto
qed (use code_waits_first code_waits_for code_notifies in blast)+

context synchronised_queue
begin

text \<open>First in, first out, whatever the threads do.\<close>

lemma threads_fifo:
  assumes "sync_run code RVoid q0 h s" and "rep q0 []"
  shows "\<exists>q xs. rep q xs \<and> room q = room q0 \<and> all_put h = all_taken h @ xs \<and> (\<forall>(c, res) \<in> set h. isl res = False)
    \<and> (s_owner s = None \<longrightarrow> s_obj s = q)"
proof -
  have "\<exists>xs. rep q0 xs" using assms(2) by blast
  from run_atomic [OF assms(1) this] obtain q where q: "seq_run code RVoid q0 h q" "s_owner s = None \<longrightarrow> s_obj s = q"
    by (elim exE conjE) (rule that)
  have "(\<exists>xs. rep q xs \<and> room q = room q0 \<and> all_put h = all_taken h @ xs \<and> (\<forall>(c, res) \<in> set h. isl res = False))"
    by (rule calls_effect [OF q(1) assms(2)])
  with q(2) show ?thesis by (elim exE) (rule exI [of _ q], rule exI, (intro conjI; simp))
qed

end

interpretation bqs: synchronised_queue bq_put bq_take bq_offer bq_poll bq_room bq_rep bq_code bq_holds
proof
  fix q :: "'a BlockQueue" and xs x b y q' c k
  assume r: "bq_rep q xs"
  show "enabled (bq_code (Put x)) q \<Longrightarrow> bq_room q (length xs)"
    using r by (simp add: bq_holds_def bq_room_def bq_rep_def)
  show "enabled (bq_code Take) q \<Longrightarrow> xs \<noteq> []" using r by (auto simp: bq_holds_def bq_rep_def)
  show "bq_put x q = Inr (Some q') \<Longrightarrow> exec_all (bq_code (Put x)) q RVoid = (q', Inr RVoid)"
    by (rule bq_exec_put) (auto simp: bq_put_def bindE_eq_Inr split: if_splits)
  show "bq_take q = Inr (Some (x, q')) \<Longrightarrow> exec_all (bq_code Take) q RVoid = (q', Inr (RElem x))"
    by (rule bq_exec_take) (auto simp: bq_take_def bindE_eq_Inr split: if_splits)
  show "bq_offer x q = Inr (b, q') \<Longrightarrow> exec_all (bq_code (Offer x)) q RVoid = (q', Inr (RBool b))"
    by (rule bq_exec_offer)
  show "bq_poll q = Inr (y, q') \<Longrightarrow> exec_all (bq_code Poll) q RVoid = (q', Inr (RPoll y))"
    by (rule bq_exec_poll)
  show "enabled (bq_code c) q \<Longrightarrow> \<not> bq_holds k q \<Longrightarrow> bq_holds k (fst (exec_all (bq_code c) q RVoid)) \<Longrightarrow>
      notifies k (bq_code c) q RVoid"
    by (cases c; cases k) (auto simp: queue_stmt_defs split: if_splits)
next
  fix q :: "'a BlockQueue" and c :: "'a queue_call"
  assume "c \<in> {IsEmpty, IsFull, GetSize}"
  then show "\<exists>r. exec_all (bq_code c) q RVoid = (q, Inr r)" by (auto simp: ret_stmt_def)
next
  fix c :: "'a queue_call" and k p ss
  show "list_all (\<lambda>st. \<not> is_wait st) (tl (bq_code c))" by (cases c) simp_all
  show "bq_code c = Wait k p # ss \<Longrightarrow> p = bq_holds k" by (cases c) auto
qed

definition stl_has :: "int \<Rightarrow> 'a BlockQueueSTL \<Rightarrow> 'a list \<Rightarrow> bool" where
  "stl_has cap q xs \<longleftrightarrow> stl_queue q = xs \<and> stl_maxCapacity q = cap"

interpretation stls: synchronised_queue stl_put stl_take stl_offer stl_poll stl_limit "stl_has cap" "stl_code cap" stl_holds
  for cap
proof
  fix q :: "'a BlockQueueSTL" and xs x b y q' c k
  assume r: "stl_has cap q xs"
  show "enabled (stl_code cap (Put x)) q \<Longrightarrow> stl_limit q (length xs)"
    using r by (auto simp: stl_holds_def stl_limit_def stl_has_def stl_room_def split: if_splits)
  show "enabled (stl_code cap Take) q \<Longrightarrow> xs \<noteq> []" using r by (auto simp: stl_holds_def stl_has_def)
  show "stl_put x q = Inr (Some q') \<Longrightarrow> exec_all (stl_code cap (Put x)) q RVoid = (q', Inr RVoid)" by (rule stl_exec(1))
  show "stl_take q = Inr (Some (x, q')) \<Longrightarrow> exec_all (stl_code cap Take) q RVoid = (q', Inr (RElem x))" by (rule stl_exec(2))
  show "stl_poll q = Inr (y, q') \<Longrightarrow> exec_all (stl_code cap Poll) q RVoid = (q', Inr (RPoll y))" by (rule stl_exec(4))
  show "stl_offer x q = Inr (b, q') \<Longrightarrow> exec_all (stl_code cap (Offer x)) q RVoid = (q', Inr (RBool b))"
    using r by (intro stl_exec(3)) (simp_all add: stl_has_def)
  show "enabled (stl_code cap c) q \<Longrightarrow> \<not> stl_holds k q \<Longrightarrow> stl_holds k (fst (exec_all (stl_code cap c) q RVoid)) \<Longrightarrow>
      notifies k (stl_code cap c) q RVoid"
    by (cases c; cases k) (auto simp: queue_stmt_defs stl_room_def split: if_splits list.splits)
next
  fix q :: "'a BlockQueueSTL" and c :: "'a queue_call"
  assume "c \<in> {IsEmpty, IsFull, GetSize}"
  then show "\<exists>r. exec_all (stl_code cap c) q RVoid = (q, Inr r)" by (auto simp: ret_stmt_def)
next
  fix c :: "'a queue_call" and k p ss
  show "list_all (\<lambda>st. \<not> is_wait st) (tl (stl_code cap c))" by (cases c) simp_all
  show "stl_code cap c = Wait k p # ss \<Longrightarrow> p = stl_holds k" by (cases c) (auto split: if_splits)
qed (auto simp: stl_put_def stl_take_def stl_offer_def stl_poll_def stl_limit_def stl_has_def stl_room_def
    fun_eq_iff split: list.splits)

section \<open>Properties\<close>

text \<open>
  (C16) First in, first out, for any number of threads that call \<open>put\<close>, \<open>take\<close>, \<open>offer\<close> and \<open>poll\<close> of a ring queue in any
  interleaving of their statements: no call fails; what the returned calls have taken is, in the order of their
  return, a prefix of what they have put; the rest is in the ring and fits its capacity.
\<close>

theorem block_queue_threads:
  assumes "sync_run bq_code RVoid (newBlockQueue d c) h s"
  shows "\<exists>q xs. bq_rep q xs \<and> all_put h = all_taken h @ xs \<and> length xs \<le> c \<and> (\<forall>(call, res) \<in> set h. isl res = False)
    \<and> (s_owner s = None \<longrightarrow> s_obj s = q)"
proof -
  from bqs.threads_fifo [OF assms bq_rep_new] obtain q xs where q: "bq_rep q xs" "bq_room q = bq_room (newBlockQueue d c)"
    "all_put h = all_taken h @ xs" "\<forall>(call, res) \<in> set h. isl res = False" "s_owner s = None \<longrightarrow> s_obj s = q"
    by (elim exE conjE) (rule that)
  from fun_cong [OF q(2), of "bq_maxCapacity q"] fun_cong [OF q(2), of c]
  have "bq_maxCapacity q = c" by (simp add: bq_room_def newBlockQueue_def)
  then have "length xs \<le> c" using q(1) by (simp add: bq_rep_def)
  with q show ?thesis by (intro exI [of _ q] exI [of _ xs]) simp
qed

text \<open>Three calls one after the other, as a run of threads.\<close>

lemma ex_queue_run:
  "\<exists>ts. outside ts \<and> sync_run bq_code RVoid (newBlockQueue (0::nat) 2)
     [(Put 5, Inr RVoid), (Offer 6, Inr (RBool True)), (Take, Inr (RElem 5))]
     \<lparr>s_obj = \<lparr>bq_queue = [5, 6], bq_maxCapacity = 2, bq_head = 1, bq_tail = 0, bq_sz = 1\<rparr>, s_owner = None, s_threads = ts\<rparr>"
proof -
  let ?q = "newBlockQueue (0::nat) 2"
  have two: "replicate 2 (0::nat) = [0, 0]" by (simp add: numeral_2_eq_2)
  have "seq_run bq_code RVoid ?q ([] @ [(Put 5, Inr RVoid)]) (?q\<lparr>bq_queue := [5, 0], bq_tail := 1, bq_sz := 1\<rparr>)"
    by (rule seq_run.call [OF seq_run.start]) (simp_all add: queue_stmt_defs newBlockQueue_def two)
  then have "seq_run bq_code RVoid ?q (([] @ [(Put 5, Inr RVoid)]) @ [(Offer 6, Inr (RBool True))])
      (?q\<lparr>bq_queue := [5, 6], bq_tail := 0, bq_sz := 2\<rparr>)"
    by (rule seq_run.call) (simp_all add: queue_stmt_defs newBlockQueue_def)
  then have "seq_run bq_code RVoid ?q ((([] @ [(Put 5, Inr RVoid)]) @ [(Offer 6, Inr (RBool True))]) @ [(Take, Inr (RElem 5))])
      (?q\<lparr>bq_queue := [5, 6], bq_head := 1, bq_tail := 0, bq_sz := 1\<rparr>)"
    by (rule seq_run.call) (simp_all add: queue_stmt_defs newBlockQueue_def)
  from seq_run_threads [OF this bqs.code_waits_first] show ?thesis by (simp add: newBlockQueue_def)
qed

theorem block_queue_threads_witness:
  "\<exists>h q xs. bq_rep q xs \<and> all_put h = [5, 6 :: nat] \<and> all_taken h = [5] \<and> [5, 6 :: nat] = [5] @ xs"
proof -
  obtain ts where "sync_run bq_code RVoid (newBlockQueue (0::nat) 2)
     [(Put 5, Inr RVoid), (Offer 6, Inr (RBool True)), (Take, Inr (RElem 5))]
     \<lparr>s_obj = \<lparr>bq_queue = [5, 6], bq_maxCapacity = 2, bq_head = 1, bq_tail = 0, bq_sz = 1\<rparr>, s_owner = None, s_threads = ts\<rparr>"
    using ex_queue_run by blast
  from block_queue_threads [OF this] obtain q xs where "bq_rep q xs"
    "all_put [(Put 5, Inr RVoid), (Offer 6, Inr (RBool True)), (Take, Inr (RElem (5::nat)))] = all_taken
       [(Put 5, Inr RVoid), (Offer 6, Inr (RBool True)), (Take, Inr (RElem 5))] @ xs" by blast
  then show ?thesis
    by (intro exI [of _ "[(Put 5, Inr RVoid), (Offer 6, Inr (RBool True)), (Take, Inr (RElem (5::nat)))]"] exI [of _ q] exI [of _ xs])
      (simp add: all_put_def all_taken_def)
qed

text \<open>
  (C17) No wake-up is lost and threads do not block each other: when no thread can take a step, none is inside a
  method holding the mutex; a thread that waits in \<open>put\<close> then waits at a full ring and one that waits in \<open>take\<close> at an
  empty one, so that never both do.
\<close>

theorem block_queue_no_deadlock:
  assumes "sync_run bq_code RVoid (newBlockQueue d c) h s" and "0 < c"
    and "\<nexists>l s'. sync_step bq_code RVoid s l s'"
  shows "s_owner s = None
    \<and> (\<forall>t. s_threads s t = Idle \<or> (\<exists>call res. s_threads s t = Returned call res)
        \<or> (\<exists>k call ss r. s_threads s t = Asleep k call ss r
             \<and> bq_sz (s_obj s) = (case k of CondEmpty \<Rightarrow> 0 | CondFull \<Rightarrow> c)))
    \<and> \<not> ((\<exists>t call ss r. s_threads s t = Asleep CondEmpty call ss r) \<and> (\<exists>t call ss r. s_threads s t = Asleep CondFull call ss r))"
proof -
  have v: "\<exists>xs. bq_rep (newBlockQueue d c) xs" by (rule exI, rule bq_rep_new)
  note own = bqs.progress(1) [OF assms(1) v assms(3)]
  from bqs.threads_fifo [OF assms(1) bq_rep_new] obtain q xs where
    q: "bq_rep q xs" "bq_room q = bq_room (newBlockQueue d c)" "s_owner s = None \<longrightarrow> s_obj s = q"
    by (elim exE conjE) (rule that)
  from fun_cong [OF q(2), of "bq_maxCapacity q"] fun_cong [OF q(2), of c]
  have cap: "bq_maxCapacity (s_obj s) = c" "bq_sz (s_obj s) \<le> c"
    using q(1,3) own by (auto simp: bq_room_def newBlockQueue_def bq_rep_def)
  have sz: "bq_sz (s_obj s) = (case k of CondEmpty \<Rightarrow> 0 | CondFull \<Rightarrow> c)" if "\<not> bq_holds k (s_obj s)" for k
    using that cap by (cases k) (simp_all add: bq_holds_def)
  have asleep: "bq_sz (s_obj s) = (case k of CondEmpty \<Rightarrow> 0 | CondFull \<Rightarrow> c)" if "s_threads s t = Asleep k call ss r" for t k call ss r
    using bqs.no_lost_wakeup [OF assms(1) v own that] by (rule sz)
  have "s_threads s t = Idle \<or> (\<exists>call res. s_threads s t = Returned call res)
        \<or> (\<exists>k call ss r. s_threads s t = Asleep k call ss r
             \<and> bq_sz (s_obj s) = (case k of CondEmpty \<Rightarrow> 0 | CondFull \<Rightarrow> c))" for t
    using bqs.progress(2) [OF assms(1) v assms(3), of t] sz by blast
  moreover have "\<not> ((\<exists>t call ss r. s_threads s t = Asleep CondEmpty call ss r) \<and> (\<exists>t call ss r. s_threads s t = Asleep CondFull call ss r))"
    using asleep [where k = CondEmpty] asleep [where k = CondFull] assms(2) by (metis less_irrefl queue_cond.case)
  ultimately show ?thesis using own by blast
qed

text \<open>A queue of one element that is full, and a thread that waits in \<open>put\<close>.\<close>

lemma ex_full_run:
  "\<exists>ts. outside ts \<and> sync_run bq_code RVoid (newBlockQueue (0::nat) 1) [(Put 5, Inr RVoid)]
     \<lparr>s_obj = \<lparr>bq_queue = [5], bq_maxCapacity = 1, bq_head = 0, bq_tail = 0, bq_sz = 1\<rparr>, s_owner = None,
      s_threads = ts(0 := Asleep CondFull (Put 6) (bq_code (Put 6)) RVoid)\<rparr>"
proof -
  let ?q = "newBlockQueue (0::nat) 1"
  let ?q1 = "\<lparr>bq_queue = [5::nat], bq_maxCapacity = 1, bq_head = 0, bq_tail = 0, bq_sz = 1\<rparr>"
  have "seq_run bq_code RVoid ?q ([] @ [(Put 5, Inr RVoid)]) ?q1"
    by (rule seq_run.call [OF seq_run.start]) (simp_all add: queue_stmt_defs newBlockQueue_def)
  from seq_run_threads [OF this bqs.code_waits_first] obtain ts where ts: "outside ts"
    "sync_run bq_code RVoid ?q [(Put 5, Inr RVoid)] \<lparr>s_obj = ?q1, s_owner = None, s_threads = ts\<rparr>" by auto
  have "ts 0 = Idle \<or> (\<exists>c res. ts 0 = Returned c res)" using ts(1) by (simp add: outside_def)
  then have "sync_run bq_code RVoid ?q [(Put 5, Inr RVoid)] \<lparr>s_obj = ?q1, s_owner = None, s_threads = ts(0 := Entering (Put 6))\<rparr>"
    using sync_run.env [OF ts(2) env_step.call [where t = 0 and c = "Put 6"]] by auto
  from sync_run.step [OF this sync_step.lock [where t = 0]]
  have "sync_run bq_code RVoid ?q [(Put 5, Inr RVoid)]
    \<lparr>s_obj = ?q1, s_owner = Some 0, s_threads = ts(0 := Running (Put 6) (bq_code (Put 6)) RVoid)\<rparr>" by simp
  from sync_run.step [OF this sync_step.sleep [where t = 0 and k = CondFull and p = "bq_holds CondFull"]]
  have "sync_run bq_code RVoid ?q [(Put 5, Inr RVoid)]
    \<lparr>s_obj = ?q1, s_owner = None, s_threads = ts(0 := Asleep CondFull (Put 6) (bq_code (Put 6)) RVoid)\<rparr>"
    by (simp add: bq_holds_def)
  then show ?thesis using ts(1) by blast
qed

theorem block_queue_no_deadlock_witness:
  "\<exists>s t call ss r. sync_run bq_code RVoid (newBlockQueue (0::nat) 1) [(Put 5, Inr RVoid)] s
    \<and> s_threads s t = Asleep CondFull call ss r \<and> s_owner s = None \<and> bq_sz (s_obj s) = 1"
proof -
  obtain ts s where ts: "outside ts" and run: "sync_run bq_code RVoid (newBlockQueue (0::nat) 1) [(Put 5, Inr RVoid)] s"
    and s: "s = \<lparr>s_obj = \<lparr>bq_queue = [5], bq_maxCapacity = 1, bq_head = 0, bq_tail = 0, bq_sz = 1\<rparr>, s_owner = None,
      s_threads = ts(0 := Asleep CondFull (Put 6) (bq_code (Put 6)) RVoid)\<rparr>"
    using ex_full_run by blast
  have t: "s_threads s 0 = Asleep CondFull (Put 6) (bq_code (Put 6)) RVoid"
    "t \<noteq> 0 \<Longrightarrow> s_threads s t = Idle \<or> (\<exists>c res. s_threads s t = Returned c res)" for t
    using ts by (simp_all add: s outside_def)
  have no: "\<nexists>l s'. sync_step bq_code RVoid s l s'"
  proof clarify
    fix l s' assume "sync_step bq_code RVoid s l s'"
    then show False by (cases rule: sync_step.cases; metis t thread.distinct)
  qed
  have own: "s_owner s = None" using block_queue_no_deadlock [OF run zero_less_one no] by (rule conjunct1)
  have "bq_sz (s_obj s) = 1" by (simp add: s)
  with t(1) run own show ?thesis by blast
qed

end
