(* ===== verification/Sliding_Window.thy ===== *)
theory Sliding_Window
  imports Prelude
begin

text \<open>
  \<open>src/src/common/sliding_window.hpp\<close>: the reorder buffer between the order receiver and a stock's
  engine, a ring of \<open>capacity\<close> slots with a flag each. A slot index outside the vectors is an access
  outside the object. \<open>get\<close> blocks on the condition variable; in the model it is \<open>None\<close> as long as it
  would wait. Each call is one step (\<open>Sync_Window\<close> shows that the mutex makes it so).

  The specification is a map from sequence numbers to elements, of which only the \<open>capacity\<close> numbers
  from the next one on can be present; the ring stores number \<open>k\<close> in slot \<open>k mod capacity\<close>.
\<close>

section \<open>The window\<close>

record 'a SlidingWindow =
  sw_data :: "'a list"
  sw_avaliable :: "bool list"
  sw_capacity :: nat
  sw_head :: nat

text \<open>The constructor for a capacity that is not negative; with a negative one the vectors throw, which its caller says.\<close>

definition newSlidingWindow :: "'a \<Rightarrow> nat \<Rightarrow> 'a SlidingWindow" where
  "newSlidingWindow init capacity =
     \<lparr>sw_data = replicate capacity init, sw_avaliable = replicate capacity False, sw_capacity = capacity, sw_head = 0\<rparr>"

text \<open>\<open>ASSERT\<close> throws the status \<open>UNKNOWN_ERROR\<close>, which is 1.\<close>

definition sw_put :: "'a \<Rightarrow> nat \<Rightarrow> 'a SlidingWindow \<Rightarrow> 'a SlidingWindow result" where
  "sw_put t idx w =
     (if length (sw_avaliable w) \<le> idx then Inl Undefined
      else if sw_avaliable w ! idx then Inl (UbiquantException 1)
      else Inr (w\<lparr>sw_data := (sw_data w)[idx := t], sw_avaliable := (sw_avaliable w)[idx := True]\<rparr>))"

definition sw_advance :: "'a SlidingWindow \<Rightarrow> 'a SlidingWindow" where
  "sw_advance w = w\<lparr>sw_avaliable := (sw_avaliable w)[sw_head w := False], sw_head := (sw_head w + 1) mod sw_capacity w\<rparr>"

definition sw_get :: "'a SlidingWindow \<Rightarrow> ('a \<times> 'a SlidingWindow) option result" where
  "sw_get w =
     (if length (sw_avaliable w) \<le> sw_head w then Inl Undefined
      else if \<not> sw_avaliable w ! sw_head w then Inr None
      else Inr (Some (sw_data w ! sw_head w, sw_advance w)))"

definition sw_poll :: "'a SlidingWindow \<Rightarrow> ('a option \<times> 'a SlidingWindow) result" where
  "sw_poll w =
     (if length (sw_avaliable w) \<le> sw_head w then Inl Undefined
      else if \<not> sw_avaliable w ! sw_head w then Inr (None, w)
      else Inr (Some (sw_data w ! sw_head w), sw_advance w))"

text \<open>The loop \<open>while (window.poll(t))\<close> that takes what is ready.\<close>

definition sw_filled :: "'a SlidingWindow \<Rightarrow> nat" where
  "sw_filled w = count_list (sw_avaliable w) True"

lemma count_list_update_False:
  "i < length xs \<Longrightarrow> xs ! i \<Longrightarrow> count_list (xs[i := False]) True < count_list xs True"
  by (induction xs arbitrary: i) (auto simp: nth_Cons' split: nat.splits)

lemma sw_poll_filled: "sw_poll w = Inr (Some x, w') \<Longrightarrow> sw_filled w' < sw_filled w"
  by (auto simp: sw_poll_def sw_filled_def sw_advance_def count_list_update_False split: if_splits)

function sw_drain :: "'a SlidingWindow \<Rightarrow> ('a list \<times> 'a SlidingWindow) result" where
  "sw_drain w =
     (case sw_poll w of
        Inl e \<Rightarrow> Inl e
      | Inr (None, w) \<Rightarrow> Inr ([], w)
      | Inr (Some x, w) \<Rightarrow> bindE (sw_drain w) (\<lambda>(xs, w). Inr (x # xs, w)))"
  by pat_completeness auto
termination
  by (relation "measure sw_filled") (auto dest: sw_poll_filled)

declare sw_drain.simps [simp del]

section \<open>Specification\<close>

definition sw_rep :: "'a SlidingWindow \<Rightarrow> nat \<Rightarrow> (nat \<rightharpoonup> 'a) \<Rightarrow> bool" where
  "sw_rep w n m \<longleftrightarrow>
     0 < sw_capacity w \<and> length (sw_data w) = sw_capacity w \<and> length (sw_avaliable w) = sw_capacity w
     \<and> sw_head w = n mod sw_capacity w \<and> dom m \<subseteq> {n..<n + sw_capacity w}
     \<and> (\<forall>k \<in> {n..<n + sw_capacity w}.
          (sw_avaliable w ! (k mod sw_capacity w) \<longleftrightarrow> m k \<noteq> None)
          \<and> (\<forall>x. m k = Some x \<longrightarrow> sw_data w ! (k mod sw_capacity w) = x))"

lemma mod_window_inj:
  fixes n c j k :: nat
  assumes "n \<le> j" "j < n + c" "n \<le> k" "k < n + c" "j mod c = k mod c"
  shows "j = k"
proof (rule ccontr)
  assume "j \<noteq> k"
  then consider "j < k" | "k < j" by linarith
  then show False
  proof cases
    case 1
    then have "c dvd k - j" using assms(5) by (metis less_imp_le mod_eq_dvd_iff_nat)
    then show False using 1 assms by (auto dest: dvd_imp_le)
  next
    case 2
    then have "c dvd j - k" using assms(5) by (metis less_imp_le mod_eq_dvd_iff_nat)
    then show False using 2 assms by (auto dest: dvd_imp_le)
  qed
qed

lemma sw_rep_advance:
  assumes r: "sw_rep w n m" and x: "m n = Some x"
  shows "sw_rep (sw_advance w) (Suc n) (m(n := None))"
proof -
  let ?c = "sw_capacity w"
  have c: "0 < ?c" "n mod ?c < ?c" "sw_head w = n mod ?c" "length (sw_avaliable w) = ?c"
    and d: "dom m \<subseteq> {n..<n + ?c}" using r by (simp_all add: sw_rep_def)
  have slot: "(((sw_avaliable w)[n mod ?c := False]) ! (k mod ?c) \<longleftrightarrow> (m(n := None)) k \<noteq> None)
      \<and> (\<forall>y. (m(n := None)) k = Some y \<longrightarrow> sw_data w ! (k mod ?c) = y)"
    if k: "k \<in> {Suc n..<Suc n + ?c}" for k
  proof (cases "k = n + ?c")
    case True
    then have "m k = None" using d by auto
    then show ?thesis using True c by simp
  next
    case False
    have "n = k" if "n mod ?c = k mod ?c"
      using mod_window_inj [of n n ?c k] k False c(1) that by simp
    then have "k mod ?c \<noteq> n mod ?c" using k by force
    moreover have "n \<noteq> k" "k \<in> {n..<n + ?c}" using k False by auto
    moreover have "(sw_avaliable w ! (k mod ?c) \<longleftrightarrow> m k \<noteq> None) \<and> (\<forall>y. m k = Some y \<longrightarrow> sw_data w ! (k mod ?c) = y)"
      using r calculation(3) unfolding sw_rep_def by blast
    ultimately show ?thesis by simp
  qed
  have "dom (m(n := None)) \<subseteq> {Suc n..<Suc n + ?c}"
  proof
    fix k assume "k \<in> dom (m(n := None))"
    then have "k \<in> dom m" "k \<noteq> n" by (auto split: if_splits)
    then show "k \<in> {Suc n..<Suc n + ?c}" using subsetD [OF d, of k] by simp
  qed
  moreover have "(n mod ?c + 1) mod ?c = Suc n mod ?c" by (simp add: mod_Suc_eq)
  moreover have "length (sw_data w) = ?c" using r by (simp add: sw_rep_def)
  ultimately show ?thesis using c slot unfolding sw_rep_def sw_advance_def by simp
qed

text \<open>
  The contract of a reorder buffer: \<open>rep w n m\<close> says that \<open>w\<close> waits for number \<open>n\<close> and holds \<open>m\<close>.
\<close>

locale reorder_buffer =
  fixes size_of :: "'w \<Rightarrow> nat"
    and put_at :: "'a \<Rightarrow> nat \<Rightarrow> 'w \<Rightarrow> 'w result"
    and take_next :: "'w \<Rightarrow> ('a option \<times> 'w) result"
    and rep :: "'w \<Rightarrow> nat \<Rightarrow> (nat \<rightharpoonup> 'a) \<Rightarrow> bool"
  assumes size_pos: "rep w n m \<Longrightarrow> 0 < size_of w"
    and rep_dom: "rep w n m \<Longrightarrow> dom m \<subseteq> {n..<n + size_of w}"
    and put_new: "rep w n m \<Longrightarrow> n \<le> k \<Longrightarrow> k < n + size_of w \<Longrightarrow> m k = None \<Longrightarrow>
      \<exists>w'. put_at x (k mod size_of w) w = Inr w' \<and> rep w' n (m(k \<mapsto> x)) \<and> size_of w' = size_of w"
    and take_none: "rep w n m \<Longrightarrow> m n = None \<Longrightarrow> take_next w = Inr (None, w)"
    and take_some: "rep w n m \<Longrightarrow> m n = Some x \<Longrightarrow>
      \<exists>w'. take_next w = Inr (Some x, w') \<and> rep w' (Suc n) (m(n := None)) \<and> size_of w' = size_of w"
begin

text \<open>A loop that takes elements until none is ready returns the run from \<open>n\<close> on.\<close>

lemma drain_run:
  fixes drain :: "'w \<Rightarrow> ('a list \<times> 'w) result"
  assumes eq: "\<And>w. drain w =
      (case take_next w of
         Inl e \<Rightarrow> Inl e
       | Inr (None, w) \<Rightarrow> Inr ([], w)
       | Inr (Some x, w) \<Rightarrow> bindE (drain w) (\<lambda>(xs, w). Inr (x # xs, w)))"
    and "rep w n m" and "finite (dom m)"
  shows "\<exists>xs w'. drain w = Inr (xs, w') \<and> size_of w' = size_of w
    \<and> rep w' (n + length xs) (m |` {n + length xs..})
    \<and> (\<forall>i < length xs. m (n + i) = Some (xs ! i)) \<and> m (n + length xs) = None"
  using assms(2,3)
proof (induction "card (dom m)" arbitrary: w n m rule: less_induct)
  case less
  have low: "m |` {n..} = m"
  proof
    fix k show "(m |` {n..}) k = m k"
      using rep_dom [OF less.prems(1)] by (cases "m k") (auto simp: restrict_map_def dest: domI)
  qed
  show ?case
  proof (cases "m n")
    case None
    then show ?thesis
      using less.prems take_none low by (subst eq) (auto intro!: exI [of _ "[]"])
  next
    case (Some x)
    obtain w1 where w1: "take_next w = Inr (Some x, w1)" "rep w1 (Suc n) (m(n := None))" "size_of w1 = size_of w"
      using take_some [OF less.prems(1) Some] by blast
    have "card (dom (m(n := None))) < card (dom m)"
      using psubset_card_mono [OF less.prems(2), of "dom m - {n}"] Some by (auto simp: domI)
    from less.hyps [OF this w1(2)] less.prems(2) obtain xs w' where xs:
      "drain w1 = Inr (xs, w')" "size_of w' = size_of w"
      "rep w' (Suc n + length xs) (m(n := None) |` {Suc n + length xs..})"
      "\<forall>i < length xs. (m(n := None)) (Suc n + i) = Some (xs ! i)" "(m(n := None)) (Suc n + length xs) = None"
      using w1(3) by auto
    have "m(n := None) |` {Suc n + length xs..} = m |` {n + length (x # xs)..}"
      by (auto simp: restrict_map_def fun_eq_iff)
    moreover have "\<forall>i < length (x # xs). m (n + i) = Some ((x # xs) ! i)"
    proof (intro allI impI)
      fix i assume "i < length (x # xs)"
      then show "m (n + i) = Some ((x # xs) ! i)" using xs(4) Some by (cases i) auto
    qed
    ultimately show ?thesis
      using w1(1) xs by (subst eq) (intro exI [of _ "x # xs"] exI [of _ w'], simp)
  qed
qed

end

interpretation sw: reorder_buffer sw_capacity sw_put sw_poll sw_rep
proof
  fix w :: "'a SlidingWindow" and n k m x
  assume r: "sw_rep w n m" and k: "n \<le> k" "k < n + sw_capacity w" "m k = None"
  let ?c = "sw_capacity w"
  let ?w = "w\<lparr>sw_data := (sw_data w)[k mod ?c := x], sw_avaliable := (sw_avaliable w)[k mod ?c := True]\<rparr>"
  have c: "0 < ?c" "k mod ?c < ?c" using r by (simp_all add: sw_rep_def)
  have free: "\<not> sw_avaliable w ! (k mod ?c)" using r k by (auto simp: sw_rep_def)
  have "sw_put x (k mod ?c) w = Inr ?w"
    using r c free by (simp add: sw_put_def sw_rep_def not_le)
  moreover have "sw_rep ?w n (m(k \<mapsto> x))"
    using r k c mod_window_inj [of n _ ?c k] by (auto simp: sw_rep_def nth_list_update)
  ultimately show "\<exists>w'. sw_put x (k mod ?c) w = Inr w' \<and> sw_rep w' n (m(k \<mapsto> x)) \<and> sw_capacity w' = ?c"
    by auto
next
  fix w :: "'a SlidingWindow" and n m x
  assume r: "sw_rep w n m" and x: "m n = Some x"
  let ?c = "sw_capacity w"
  have c: "0 < ?c" "n mod ?c < ?c" using r by (simp_all add: sw_rep_def)
  have "sw_poll w = Inr (Some x, sw_advance w)"
    using r x c by (auto simp: sw_poll_def sw_rep_def)
  moreover have "sw_rep (sw_advance w) (Suc n) (m(n := None))"
    using r x by (rule sw_rep_advance)
  ultimately show "\<exists>w'. sw_poll w = Inr (Some x, w') \<and> sw_rep w' (Suc n) (m(n := None)) \<and> sw_capacity w' = ?c"
    by (auto simp: sw_advance_def)
next
  fix w :: "'a SlidingWindow" and n m
  assume r: "sw_rep w n m" and "m n = None"
  then have "\<not> sw_avaliable w ! (n mod sw_capacity w)" "n mod sw_capacity w < sw_capacity w"
    by (auto simp: sw_rep_def)
  then show "sw_poll w = Inr (None, w)" using r by (simp add: sw_poll_def sw_rep_def)
qed (auto simp: sw_rep_def)

lemma sw_rep_new: "0 < c \<Longrightarrow> sw_rep (newSlidingWindow d c) 0 Map.empty"
  by (simp add: sw_rep_def newSlidingWindow_def)

lemma sw_rep_finite: "sw_rep w n m \<Longrightarrow> finite (dom m)"
  by (rule finite_subset [OF sw.rep_dom]) simp_all

text \<open>A slot that is taken is detected.\<close>

lemma sw_put_taken:
  assumes "sw_rep w n m" and "n \<le> k" "k < n + sw_capacity w" "m k \<noteq> None"
  shows "sw_put x (k mod sw_capacity w) w = Inl (UbiquantException 1)"
proof -
  have "sw_avaliable w ! (k mod sw_capacity w)" "k mod sw_capacity w < sw_capacity w"
    using assms by (auto simp: sw_rep_def)
  then show ?thesis using assms(1) by (simp add: sw_put_def sw_rep_def)
qed

lemma sw_drain_run:
  assumes "sw_rep w n m"
  shows "\<exists>xs w'. sw_drain w = Inr (xs, w') \<and> sw_capacity w' = sw_capacity w
    \<and> sw_rep w' (n + length xs) (m |` {n + length xs..})
    \<and> (\<forall>i < length xs. m (n + i) = Some (xs ! i)) \<and> m (n + length xs) = None"
  by (rule sw.drain_run [OF sw_drain.simps assms sw_rep_finite [OF assms]])

section \<open>Properties\<close>

text \<open>
  (C13) A window that waits for number n accepts, in any order, each of the \<open>capacity\<close> numbers from n
  on exactly once: a put of a number it does not hold succeeds and adds it and nothing else, and a
  put of a number it holds throws and stores nothing.
\<close>

theorem window_put_correct:
  assumes "sw_rep w n m" and "n \<le> k" and "k < n + sw_capacity w"
  shows "(m k = None \<longrightarrow> (\<exists>w'. sw_put x (k mod sw_capacity w) w = Inr w' \<and> sw_rep w' n (m(k \<mapsto> x))))
    \<and> (m k \<noteq> None \<longrightarrow> sw_put x (k mod sw_capacity w) w = Inl (UbiquantException 1))"
  using sw.put_new [OF assms, of x] sw_put_taken [OF assms, of x] by blast

theorem window_put_correct_witness:
  "\<exists>w'. sw_put 7 (2 mod 3) (newSlidingWindow (0::nat) 3) = Inr w' \<and> sw_rep w' 0 [2 \<mapsto> 7]"
proof -
  have "sw_rep (newSlidingWindow (0::nat) 3) 0 Map.empty" by (rule sw_rep_new) simp
  from window_put_correct [OF this, of 2 7] show ?thesis by (simp add: newSlidingWindow_def)
qed

text \<open>
  (C14) Draining a window ends and returns exactly the elements with the numbers n, n+1, ... up to the
  first one that has not arrived, in this order; the rest stay, and the window waits for that number.
\<close>

theorem window_drain_correct:
  assumes "sw_rep w n m"
  shows "\<exists>xs w'. sw_drain w = Inr (xs, w') \<and> sw_rep w' (n + length xs) (m |` {n + length xs..})
    \<and> (\<forall>i < length xs. m (n + i) = Some (xs ! i)) \<and> m (n + length xs) = None"
  using sw_drain_run [OF assms] by blast

definition ex_window :: "nat SlidingWindow" where
  "ex_window = \<lparr>sw_data = [5, 0, 4], sw_avaliable = [True, False, True], sw_capacity = 3, sw_head = 2\<rparr>"

theorem window_drain_correct_witness:
  "\<exists>xs w'. sw_drain ex_window = Inr (xs, w') \<and> length xs = 2"
proof -
  let ?m = "[2 \<mapsto> 4, 3 \<mapsto> 5] :: nat \<rightharpoonup> nat"
  have "{2..<5} = {2, 3, 4::nat}" by auto
  then have "sw_rep ex_window 2 ?m" by (auto simp: sw_rep_def ex_window_def)
  from window_drain_correct [OF this] obtain xs w' where x: "sw_drain ex_window = Inr (xs, w')"
    "\<forall>i < length xs. ?m (2 + i) = Some (xs ! i)" "?m (2 + length xs) = None" by blast
  have "\<not> 2 < length xs" using x(2) by (auto dest!: spec [of _ 2])
  moreover have "length xs \<noteq> 0" "length xs \<noteq> 1" using x(3) by auto
  ultimately have "length xs = 2" by linarith
  then show ?thesis using x(1) by blast
qed

end
