(* ===== verification/Sync_Window.thy ===== *)
theory Sync_Window
  imports Sync_Queues Sliding_Window
begin

text \<open>
  The methods of \<open>src/src/common/sliding_window.hpp\<close> statement by statement, under the mutex and the condition
  variable of the class. \<open>put\<close> notifies only when it fills the slot that is waited for, and \<open>get\<close> does not notify at
  all when it moves on to the next slot; that this suffices is shown.
\<close>

section \<open>The methods\<close>

datatype 'a window_call = WPut 'a nat | WGet | WPoll

definition sw_ready :: "unit \<Rightarrow> 'a SlidingWindow \<Rightarrow> bool" where
  "sw_ready k w = sw_avaliable w ! sw_head w"

definition sw_check :: "nat \<Rightarrow> 'a SlidingWindow \<Rightarrow> 'r \<Rightarrow> ('a SlidingWindow \<times> 'r) result" where
  "sw_check idx w r =
     (if length (sw_avaliable w) \<le> idx then Inl Undefined
      else if sw_avaliable w ! idx then Inl (UbiquantException 1) else Inr (w, r))"

definition sw_write :: "'a \<Rightarrow> nat \<Rightarrow> 'a SlidingWindow \<Rightarrow> 'r \<Rightarrow> ('a SlidingWindow \<times> 'r) result" where
  "sw_write t idx w r =
     (if length (sw_data w) \<le> idx then Inl Undefined else Inr (w\<lparr>sw_data := (sw_data w)[idx := t]\<rparr>, r))"

definition sw_mark :: "nat \<Rightarrow> bool \<Rightarrow> 'a SlidingWindow \<Rightarrow> 'r \<Rightarrow> ('a SlidingWindow \<times> 'r) result" where
  "sw_mark idx b w r =
     (if length (sw_avaliable w) \<le> idx then Inl Undefined else Inr (w\<lparr>sw_avaliable := (sw_avaliable w)[idx := b]\<rparr>, r))"

definition sw_read :: "('a \<Rightarrow> 'r) \<Rightarrow> 'a SlidingWindow \<Rightarrow> 'r \<Rightarrow> ('a SlidingWindow \<times> 'r) result" where
  "sw_read mk w r =
     (if length (sw_data w) \<le> sw_head w then Inl Undefined else Inr (w, mk (sw_data w ! sw_head w)))"

definition sw_next_head :: "'a SlidingWindow \<Rightarrow> 'r \<Rightarrow> ('a SlidingWindow \<times> 'r) result" where
  "sw_next_head w r = Inr (w\<lparr>sw_head := (sw_head w + 1) mod sw_capacity w\<rparr>, r)"

fun sw_code :: "'a window_call \<Rightarrow> ('a SlidingWindow, 'a queue_ret, unit) code" where
  "sw_code (WPut t idx) =
     [Exec (sw_check idx), Exec (sw_write t idx), Exec (sw_mark idx True), Notify () (\<lambda>w. idx = sw_head w)]"
| "sw_code WGet =
     [Wait () (sw_ready ()), Exec (sw_read RElem), Exec (\<lambda>w. sw_mark (sw_head w) False w), Exec sw_next_head]"
| "sw_code WPoll =
     [ReturnIf (\<lambda>w. \<not> sw_ready () w) (RPoll None), Exec (sw_read (\<lambda>x. RPoll (Some x))),
      Exec (\<lambda>w. sw_mark (sw_head w) False w), Exec sw_next_head]"

lemmas window_stmt_defs = sw_ready_def sw_check_def sw_write_def sw_mark_def sw_read_def sw_next_head_def

section \<open>The methods as single steps\<close>

definition sw_valid :: "'a SlidingWindow \<Rightarrow> bool" where
  "sw_valid w \<longleftrightarrow> 0 < sw_capacity w \<and> sw_head w < sw_capacity w
     \<and> length (sw_data w) = sw_capacity w \<and> length (sw_avaliable w) = sw_capacity w"

lemma sw_valid_new: "0 < c \<Longrightarrow> sw_valid (newSlidingWindow d c)"
  by (simp add: sw_valid_def newSlidingWindow_def)

lemma sw_exec_put:
  assumes "sw_valid w"
  shows "exec_all (sw_code (WPut t idx)) w r = (case sw_put t idx w of Inl e \<Rightarrow> (w, Inl e) | Inr w' \<Rightarrow> (w', Inr r))"
  using assms by (auto simp: window_stmt_defs sw_put_def sw_valid_def)

lemma sw_exec_take:
  assumes "sw_valid w" and "sw_ready () w"
  shows "exec_all (sw_code WGet) w r = (sw_advance w, Inr (RElem (sw_data w ! sw_head w)))"
    and "exec_all (sw_code WPoll) w r = (sw_advance w, Inr (RPoll (Some (sw_data w ! sw_head w))))"
  using assms by (auto simp: window_stmt_defs sw_advance_def sw_valid_def)

lemma sw_exec_poll_none: "\<not> sw_ready () w \<Longrightarrow> exec_all (sw_code WPoll) w r = (w, Inr (RPoll None))"
  by simp

lemma sw_valid_put: "sw_valid w \<Longrightarrow> sw_put t idx w = Inr w' \<Longrightarrow> sw_valid w'"
  by (auto simp: sw_valid_def sw_put_def split: if_splits)

lemma sw_valid_advance: "sw_valid w \<Longrightarrow> sw_valid (sw_advance w)"
  by (auto simp: sw_valid_def sw_advance_def)

text \<open>Only a \<open>put\<close> into the slot at the head makes the head available while threads wait.\<close>

lemma sw_put_ready:
  assumes "sw_put t idx w = Inr w'" and "\<not> sw_ready () w" and "sw_ready () w'"
  shows "idx = sw_head w"
  using assms by (cases "idx = sw_head w") (auto simp: sw_put_def sw_ready_def split: if_splits)

interpretation sws: monitor_object sw_code RVoid sw_valid sw_ready
proof
  fix w :: "'a SlidingWindow" and c :: "'a window_call" and k
  assume v: "sw_valid w" and e: "enabled (sw_code c) w"
  show "sw_valid (fst (exec_all (sw_code c) w RVoid))"
  proof (cases c)
    case (WPut t idx)
    then show ?thesis using v sw_valid_put [OF v, of t idx] unfolding WPut sw_exec_put [OF v] by (auto split: sum.split)
  next
    case WGet
    then have "sw_ready () w" using e by simp
    then show ?thesis unfolding WGet using v by (simp only: sw_exec_take fst_conv sw_valid_advance)
  next
    case WPoll
    then show ?thesis unfolding WPoll using v
      by (cases "sw_ready () w") (simp_all only: sw_exec_take sw_exec_poll_none fst_conv sw_valid_advance not_False_eq_True simp_thms)
  qed
  assume n: "\<not> sw_ready k w" and h: "sw_ready k (fst (exec_all (sw_code c) w RVoid))"
  show "notifies k (sw_code c) w RVoid"
  proof (cases c)
    case (WPut t idx)
    obtain w' where w': "sw_put t idx w = Inr w'"
      using h n unfolding WPut sw_exec_put [OF v] by (cases "sw_put t idx w") auto
    then have "sw_ready () w'" using h unfolding WPut sw_exec_put [OF v] by simp
    then have "idx = sw_head w" using sw_put_ready [OF w'] n by simp
    then show ?thesis using w' v by (auto simp: WPut window_stmt_defs sw_put_def sw_valid_def split: if_splits)
  qed (use n e h in \<open>simp_all\<close>)
next
  fix c :: "'a window_call" and k p ss
  show "list_all (\<lambda>st. \<not> is_wait st) (tl (sw_code c))" by (cases c) simp_all
  show "sw_code c = Wait k p # ss \<Longrightarrow> p = sw_ready k" by (cases c) auto
qed

section \<open>Properties\<close>

text \<open>The calls of the window as the rest of the development has them: each one a single step.\<close>

inductive window_run :: "'a SlidingWindow \<Rightarrow> ('a window_call \<times> 'a queue_ret result) list \<Rightarrow> 'a SlidingWindow \<Rightarrow> bool"
  for w0 where
  start: "window_run w0 [] w0"
| put: "window_run w0 h w \<Longrightarrow> sw_put t idx w = Inr w' \<Longrightarrow> window_run w0 (h @ [(WPut t idx, Inr RVoid)]) w'"
| put_throws: "window_run w0 h w \<Longrightarrow> sw_put t idx w = Inl e \<Longrightarrow> window_run w0 (h @ [(WPut t idx, Inl e)]) w"
| get: "window_run w0 h w \<Longrightarrow> sw_get w = Inr (Some (x, w')) \<Longrightarrow> window_run w0 (h @ [(WGet, Inr (RElem x))]) w'"
| poll: "window_run w0 h w \<Longrightarrow> sw_poll w = Inr (x, w') \<Longrightarrow> window_run w0 (h @ [(WPoll, Inr (RPoll x))]) w'"

lemma seq_run_window:
  assumes "seq_run sw_code RVoid w0 h w" and "sw_valid w0"
  shows "window_run w0 h w \<and> sw_valid w"
  using assms(1)
proof induction
  case start
  then show ?case using assms(2) by (simp add: window_run.start)
next
  case (call h w c w' res)
  then have r: "window_run w0 h w" and v: "sw_valid w" by simp_all
  have v': "sw_valid w'" using sws.keeps_valid [OF v call.hyps(2)] call.hyps(3) by simp
  have len: "\<not> length (sw_avaliable w) \<le> sw_head w" using v by (simp add: sw_valid_def)
  have "window_run w0 (h @ [(c, res)]) w'"
  proof (cases c)
    case (WPut t idx)
    then show ?thesis using call.hyps(3) window_run.put [OF r, of t idx] window_run.put_throws [OF r, of t idx]
      unfolding WPut sw_exec_put [OF v] by (auto split: sum.splits)
  next
    case WGet
    then have rd: "sw_ready () w" using call.hyps(2) by simp
    then have "sw_get w = Inr (Some (sw_data w ! sw_head w, sw_advance w))" using len by (simp add: sw_get_def sw_ready_def)
    then show ?thesis using call.hyps(3) window_run.get [OF r] unfolding WGet sw_exec_take [OF v rd] by auto
  next
    case WPoll
    show ?thesis
    proof (cases "sw_ready () w")
      case True
      then have "sw_poll w = Inr (Some (sw_data w ! sw_head w), sw_advance w)" using len by (simp add: sw_poll_def sw_ready_def)
      then show ?thesis using call.hyps(3) window_run.poll [OF r] unfolding WPoll sw_exec_take [OF v True] by auto
    next
      case False
      then have "sw_poll w = Inr (None, w)" using len by (simp add: sw_poll_def sw_ready_def)
      then show ?thesis using call.hyps(3) window_run.poll [OF r] unfolding WPoll sw_exec_poll_none [OF False] by auto
    qed
  qed
  with v' show ?case by simp
qed

text \<open>
  (C15) A window shared by any number of threads, in any interleaving of their statements: the calls that have returned
  are, in the order of their return, an execution of \<open>put\<close>, \<open>get\<close> and \<open>poll\<close> as single steps on a new window, which
  leads to the window that is there when no thread holds the mutex; and then a thread sleeps in \<open>get\<close> only if
  the slot at the head has not been filled, although \<open>put\<close> notifies for that slot only.
\<close>

theorem window_threads:
  assumes "sync_run sw_code RVoid (newSlidingWindow d c) h s" and "0 < c"
  shows "(\<exists>w. window_run (newSlidingWindow d c) h w \<and> (s_owner s = None \<longrightarrow> s_obj s = w))
    \<and> (\<forall>t k call ss r. s_owner s = None \<longrightarrow> s_threads s t = Asleep k call ss r \<longrightarrow>
         \<not> sw_avaliable (s_obj s) ! sw_head (s_obj s))"
proof
  note v = sw_valid_new [OF assms(2), of d]
  obtain w where "seq_run sw_code RVoid (newSlidingWindow d c) h w" and "s_owner s = None \<longrightarrow> s_obj s = w"
    using sws.run_atomic [OF assms(1) v] by (elim exE conjE) (rule that)
  with seq_run_window [OF _ v]
  show "\<exists>w. window_run (newSlidingWindow d c) h w \<and> (s_owner s = None \<longrightarrow> s_obj s = w)"
    by (intro exI [of _ w]) simp
  show "\<forall>t k call ss r. s_owner s = None \<longrightarrow> s_threads s t = Asleep k call ss r \<longrightarrow>
         \<not> sw_avaliable (s_obj s) ! sw_head (s_obj s)"
    using sws.no_lost_wakeup [OF assms(1) v] by (simp add: sw_ready_def)
qed

text \<open>A put into the second slot, then a thread that waits in \<open>get\<close> for the first.\<close>

theorem window_threads_witness:
  "\<exists>s. sync_run sw_code RVoid (newSlidingWindow (0::nat) 2) [(WPut 7 1, Inr RVoid)] s
    \<and> (\<exists>w. window_run (newSlidingWindow 0 2) [(WPut (7::nat) 1, Inr RVoid)] w) \<and> s_threads s 0 = Asleep () WGet (sw_code WGet) RVoid
    \<and> \<not> sw_avaliable (s_obj s) ! sw_head (s_obj s)"
proof -
  let ?w = "newSlidingWindow (0::nat) 2" and ?h = "[(WPut (7::nat) 1, Inr RVoid)]"
  let ?w1 = "\<lparr>sw_data = [0, 7::nat], sw_avaliable = [False, True], sw_capacity = 2, sw_head = 0\<rparr>"
  have two: "replicate 2 x = [x, x]" for x by (simp add: numeral_2_eq_2)
  have "seq_run sw_code RVoid ?w ([] @ ?h) ?w1"
    by (rule seq_run.call [OF seq_run.start]) (simp_all add: window_stmt_defs newSlidingWindow_def two)
  from seq_run_threads [OF this sws.waits_first] obtain ts where ts: "outside ts"
    "sync_run sw_code RVoid ?w ?h \<lparr>s_obj = ?w1, s_owner = None, s_threads = ts\<rparr>" by auto
  have "ts 0 = Idle \<or> (\<exists>c res. ts 0 = Returned c res)" using ts(1) by (simp add: outside_def)
  then have "sync_run sw_code RVoid ?w ?h \<lparr>s_obj = ?w1, s_owner = None, s_threads = ts(0 := Entering WGet)\<rparr>"
    using sync_run.env [OF ts(2) env_step.call [where t = 0 and c = WGet]] by auto
  from sync_run.step [OF this sync_step.lock [where t = 0]]
  have "sync_run sw_code RVoid ?w ?h \<lparr>s_obj = ?w1, s_owner = Some 0, s_threads = ts(0 := Running WGet (sw_code WGet) RVoid)\<rparr>"
    by simp
  from sync_run.step [OF this sync_step.sleep [where t = 0 and k = "()" and p = "sw_ready ()"]]
  have run: "sync_run sw_code RVoid ?w ?h \<lparr>s_obj = ?w1, s_owner = None, s_threads = ts(0 := Asleep () WGet (sw_code WGet) RVoid)\<rparr>"
    (is "sync_run _ _ _ _ ?s") by (simp add: sw_ready_def)
  have t: "s_threads ?s 0 = Asleep () WGet (sw_code WGet) RVoid" "s_owner ?s = None" by simp_all
  from window_threads [OF run zero_less_numeral] have
    "\<exists>w. window_run ?w ?h w" "\<not> sw_avaliable (s_obj ?s) ! sw_head (s_obj ?s)" using t by blast+
  with run t(1) show ?thesis by blast
qed

end
