(* ===== verification/Queue_Demo.thy ===== *)
theory Queue_Demo
  imports Block_Queue
begin

text \<open>
  \<open>testBlockQueue\<close> of \<open>src/src/common/block_queue.hpp\<close>: one producer and two consumers on a queue of two places.
  Every call of a queue method is one step (\<open>Sync_Queues\<close>), and so is printing a number; the threads take turns
  in any order.
\<close>

section \<open>The program\<close>

text \<open>Where a consumer is: before \<open>empty()\<close>, in \<open>take()\<close>, before the output, after the loop.\<close>

datatype consumer = Testing | Taking | Printing int | Finished

record demo =
  dm_queue :: "int BlockQueue"
  dm_next :: nat                   \<comment> \<open>\<open>i\<close> of the producer\<close>
  dm_consumer :: "bool \<Rightarrow> consumer" \<comment> \<open>the threads \<open>t2\<close> and \<open>t3\<close>\<close>
  dm_taken :: "int list"           \<comment> \<open>the results of \<open>take()\<close>, in their order\<close>
  dm_printed :: "int list"

definition demo_init :: demo where
  "demo_init = \<lparr>dm_queue = newBlockQueue 0 2, dm_next = 0, dm_consumer = (\<lambda>_. Testing), dm_taken = [], dm_printed = []\<rparr>"

inductive demo_step :: "demo \<Rightarrow> demo \<Rightarrow> bool" where
  produce: "dm_next s < 9 \<Longrightarrow> bq_put (int (dm_next s)) (dm_queue s) = Inr (Some q) \<Longrightarrow>
    demo_step s (s\<lparr>dm_queue := q, dm_next := dm_next s + 1\<rparr>)"
| test: "dm_consumer s c = Testing \<Longrightarrow>
    demo_step s (s\<lparr>dm_consumer := (dm_consumer s)(c := if bq_empty (dm_queue s) then Finished else Taking)\<rparr>)"
| consume: "dm_consumer s c = Taking \<Longrightarrow> bq_take (dm_queue s) = Inr (Some (x, q)) \<Longrightarrow>
    demo_step s (s\<lparr>dm_queue := q, dm_consumer := (dm_consumer s)(c := Printing x), dm_taken := dm_taken s @ [x]\<rparr>)"
| print: "dm_consumer s c = Printing x \<Longrightarrow>
    demo_step s (s\<lparr>dm_consumer := (dm_consumer s)(c := Testing), dm_printed := dm_printed s @ [x]\<rparr>)"

inductive_simps demo_step_simps: "demo_step s s'"

text \<open>The threads can be joined.\<close>

definition demo_joined :: "demo \<Rightarrow> bool" where
  "demo_joined s \<longleftrightarrow> dm_next s = 9 \<and> dm_consumer s False = Finished \<and> dm_consumer s True = Finished"

section \<open>Lemmas\<close>

definition in_hand :: "consumer \<Rightarrow> int list" where
  "in_hand c = (case c of Printing x \<Rightarrow> [x] | _ \<Rightarrow> [])"

lemma in_hand_simps [simp]:
  "in_hand Testing = []" "in_hand Taking = []" "in_hand Finished = []" "in_hand (Printing x) = [x]"
  by (simp_all add: in_hand_def)

text \<open>The numbers taken and those in the queue are the numbers put, in order; what is taken is printed or in hand.\<close>

definition demo_inv :: "demo \<Rightarrow> bool" where
  "demo_inv s \<longleftrightarrow> dm_next s \<le> 9 \<and> (\<exists>xs. bq_rep (dm_queue s) xs \<and> bq_maxCapacity (dm_queue s) = 2 \<and> dm_taken s @ xs = map int [0..<dm_next s])
     \<and> mset (dm_taken s) = mset (dm_printed s) + mset (in_hand (dm_consumer s False)) + mset (in_hand (dm_consumer s True))"

lemma demo_step_inv:
  assumes "demo_step s s'" and "demo_inv s"
  shows "demo_inv s'"
proof -
  obtain xs where r: "bq_rep (dm_queue s) xs" "bq_maxCapacity (dm_queue s) = 2" "dm_taken s @ xs = map int [0..<dm_next s]"
    and m: "mset (dm_taken s) = mset (dm_printed s) + mset (in_hand (dm_consumer s False)) + mset (in_hand (dm_consumer s True))"
    and n: "dm_next s \<le> 9"
    using assms(2) by (auto simp: demo_inv_def)
  show ?thesis using assms(1)
  proof cases
    case (produce q)
    then have "length xs < 2" using r bq.put_full [OF r(1)] by (force simp: bq_room_def)
    then have "bq_rep q (xs @ [int (dm_next s)]) \<and> bq_maxCapacity q = 2"
      using bq_push_rep [OF r(1), of "int (dm_next s)"] r(2) produce by (auto simp: bq_put_def bindE_eq_Inr split: if_splits)
    moreover have "dm_taken s @ (xs @ [int (dm_next s)]) = map int [0..<Suc (dm_next s)]"
      using r(3) by (simp flip: append_assoc)
    ultimately have "\<exists>ys. bq_rep q ys \<and> bq_maxCapacity q = 2 \<and> dm_taken s @ ys = map int [0..<Suc (dm_next s)]" by blast
    then show ?thesis using produce m by (simp add: demo_inv_def)
  next
    case (test c)
    then show ?thesis using r m n by (cases c) (auto simp: demo_inv_def)
  next
    case (consume c x q)
    then obtain ys where xs: "xs = x # ys" "bq_rep q ys" "bq_maxCapacity q = 2"
      using r bq.take_nil bq_pop_rep by (cases xs) (fastforce simp: bq_take_def bindE_eq_Inr split: if_splits)+
    have "\<exists>zs. bq_rep q zs \<and> bq_maxCapacity q = 2 \<and> dm_taken s @ x # zs = map int [0..<dm_next s]"
      using r(3) xs by blast
    then show ?thesis using consume m n by (cases c) (simp_all add: demo_inv_def)
  next
    case (print c x)
    then show ?thesis using r m n by (cases c) (auto simp: demo_inv_def)
  qed
qed

lemma demo_init_inv: "demo_inv demo_init"
  by (simp add: demo_inv_def demo_init_def bq_rep_new) (simp add: newBlockQueue_def)

lemma demo_reachable_inv: "demo_step\<^sup>*\<^sup>* demo_init s \<Longrightarrow> demo_inv s"
  by (induction rule: rtranclp_induct) (simp_all add: demo_init_inv demo_step_inv)

text \<open>The queue hands out the numbers in order, whatever the order of the threads.\<close>

lemma demo_taken_prefix: "demo_step\<^sup>*\<^sup>* demo_init s \<Longrightarrow> dm_taken s = map int [0..<length (dm_taken s)]"
proof -
  assume "demo_step\<^sup>*\<^sup>* demo_init s"
  then obtain xs where "dm_taken s @ xs = map int [0..<dm_next s]" using demo_reachable_inv by (auto simp: demo_inv_def)
  then have t: "take (length (dm_taken s)) (map int [0..<dm_next s]) = dm_taken s" "length (dm_taken s) \<le> dm_next s"
    by (metis append_eq_conv_conj, metis le_add1 length_append length_map length_upt minus_nat.diff_0)
  then show ?thesis by (metis add_0 take_map take_upt)
qed

text \<open>
  The program may hang: when the consumers look at the queue before the producer has put anything, they quit, and
  the producer waits for a place forever.
\<close>

definition demo_hung :: demo where
  "demo_hung = \<lparr>dm_queue = \<lparr>bq_queue = [0, 1], bq_maxCapacity = 2, bq_head = 0, bq_tail = 0, bq_sz = 2\<rparr>, dm_next = 2,
     dm_consumer = (\<lambda>_. Finished), dm_taken = [], dm_printed = []\<rparr>"

lemma demo_reaches_hung: "demo_step\<^sup>*\<^sup>* demo_init demo_hung"
proof -
  let ?s1 = "demo_init\<lparr>dm_consumer := (\<lambda>_. Testing)(False := Finished)\<rparr>"
  let ?s2 = "demo_init\<lparr>dm_consumer := (\<lambda>_. Finished)\<rparr>"
  let ?s3 = "?s2\<lparr>dm_queue := \<lparr>bq_queue = [0, 0], bq_maxCapacity = 2, bq_head = 0, bq_tail = 1, bq_sz = 1\<rparr>, dm_next := 1\<rparr>"
  note defs = demo_init_def newBlockQueue_def bq_empty_def bq_put_def bq_push_def numeral_2_eq_2
  have "demo_step demo_init ?s1" using demo_step.test [of demo_init False] by (simp add: defs)
  moreover have "(\<lambda>c. if c = False then Finished else Testing)(True := Finished) = (\<lambda>_. Finished)" by (auto simp: fun_eq_iff)
  then have "demo_step ?s1 ?s2" using demo_step.test [of ?s1 True] by (simp add: defs fun_upd_def)
  moreover have "demo_step ?s2 ?s3" using demo_step.produce [of ?s2] by (simp add: defs)
  moreover have "demo_step ?s3 demo_hung" using demo_step.produce [of ?s3] by (simp add: defs demo_hung_def)
  ultimately show ?thesis by (meson converse_rtranclp_into_rtranclp rtranclp.rtrancl_refl)
qed

lemma demo_hung_stuck: "\<not> demo_step demo_hung s \<and> \<not> demo_joined demo_hung"
  by (simp add: demo_step_simps demo_joined_def) (simp add: demo_hung_def bq_put_def)

end
