(* ===== verification/Spin_Lock.thy ===== *)
theory Spin_Lock
  imports Prelude
begin

text \<open>
  The atomic operations and the spin lock of \<open>src/src/utils/util.h\<close>. \<open>CAS\<close> and \<open>FAA\<close> take the word behind the
  pointer and give it back; each is one step of a thread. Threads take the lock, work on the data that it
  protects one statement at a time, and release it, in any interleaving.
\<close>

section \<open>Atomic operations\<close>

definition CAS :: "'a::len word \<Rightarrow> 'a word \<Rightarrow> 'a word \<Rightarrow> bool \<times> 'a word" where
  "CAS mem oldval newval = (if mem = oldval then (True, newval) else (False, mem))"

definition FAA :: "64 word \<Rightarrow> 64 word \<Rightarrow> 64 word \<times> 64 word" where
  "FAA mem add_val = (mem, mem + add_val)"

text \<open>One turn of the loop in \<open>lock32\<close>, and \<open>unlock32\<close>.\<close>

definition lock32_turn :: "32 word \<Rightarrow> bool \<times> 32 word" where
  "lock32_turn lock_ptr = CAS lock_ptr 0 1"

definition unlock32 :: "32 word \<Rightarrow> 32 word" where
  "unlock32 lock_ptr = 0"

section \<open>Threads\<close>

datatype 'd pc = Idle | Spinning "('d \<Rightarrow> 'd) list" | Critical "('d \<Rightarrow> 'd) list" "('d \<Rightarrow> 'd) list"

text \<open>\<open>Critical fs gs\<close>: the statements done and those left. \<open>finished\<close>: the sections in the order of their release.\<close>

record 'd spin_state =
  sp_lock :: "32 word"
  sp_data :: 'd
  sp_pc :: "nat \<Rightarrow> 'd pc"
  sp_finished :: "('d \<Rightarrow> 'd) list list"

inductive spin_step :: "'d spin_state \<Rightarrow> 'd spin_state \<Rightarrow> bool" where
  enter: "sp_pc s t = Idle \<Longrightarrow> spin_step s (s\<lparr>sp_pc := (sp_pc s)(t := Spinning fs)\<rparr>)"
| spin: "sp_pc s t = Spinning fs \<Longrightarrow> lock32_turn (sp_lock s) = (False, l) \<Longrightarrow> spin_step s (s\<lparr>sp_lock := l\<rparr>)"
| acquire: "sp_pc s t = Spinning fs \<Longrightarrow> lock32_turn (sp_lock s) = (True, l) \<Longrightarrow>
    spin_step s (s\<lparr>sp_lock := l, sp_pc := (sp_pc s)(t := Critical [] fs)\<rparr>)"
| work: "sp_pc s t = Critical fs (g # gs) \<Longrightarrow>
    spin_step s (s\<lparr>sp_data := g (sp_data s), sp_pc := (sp_pc s)(t := Critical (fs @ [g]) gs)\<rparr>)"
| release: "sp_pc s t = Critical fs [] \<Longrightarrow>
    spin_step s (s\<lparr>sp_lock := unlock32 (sp_lock s), sp_pc := (sp_pc s)(t := Idle), sp_finished := sp_finished s @ [fs]\<rparr>)"

inductive_cases spin_stepE: "spin_step s s'"

definition spin_init :: "'d \<Rightarrow> 'd spin_state" where
  "spin_init d = \<lparr>sp_lock = 0, sp_data = d, sp_pc = (\<lambda>_. Idle), sp_finished = []\<rparr>"

section \<open>Lemmas\<close>

abbreviation run_all :: "('d \<Rightarrow> 'd) list \<Rightarrow> 'd \<Rightarrow> 'd" where
  "run_all \<equiv> fold (\<lambda>f. f)"

definition critical :: "'d pc \<Rightarrow> bool" where
  "critical p \<longleftrightarrow> (\<exists>fs gs. p = Critical fs gs)"

lemma critical_simps [simp]: "critical (Critical fs gs)" "\<not> critical Idle" "\<not> critical (Spinning fs)"
  by (simp_all add: critical_def)

text \<open>
  The lock is 0 or 1; while it is 0 nobody is inside, while it is 1 exactly one thread is; the data is what the
  finished sections and the statements of the thread inside have made of it.
\<close>

definition spin_inv :: "'d \<Rightarrow> 'd spin_state \<Rightarrow> bool" where
  "spin_inv d s \<longleftrightarrow>
     (sp_lock s = 0 \<and> (\<forall>t. \<not> critical (sp_pc s t)) \<and> sp_data s = run_all (concat (sp_finished s)) d)
   \<or> (sp_lock s = 1 \<and> (\<exists>t fs gs. sp_pc s t = Critical fs gs \<and> (\<forall>u. u \<noteq> t \<longrightarrow> \<not> critical (sp_pc s u))
        \<and> sp_data s = run_all (concat (sp_finished s) @ fs) d))"

lemma lock32_turn_True: "lock32_turn l = (True, l') \<longleftrightarrow> l = 0 \<and> l' = 1"
  by (auto simp: lock32_turn_def CAS_def)

lemma lock32_turn_False: "lock32_turn l = (False, l') \<longleftrightarrow> l \<noteq> 0 \<and> l' = l"
  by (auto simp: lock32_turn_def CAS_def)

lemma spin_inv_inside:
  assumes "spin_inv d s" and "sp_pc s t = Critical fs gs"
  shows "sp_lock s = 1" and "\<And>u. u \<noteq> t \<Longrightarrow> \<not> critical (sp_pc s u)" and "sp_data s = run_all (concat (sp_finished s) @ fs) d"
proof -
  obtain t' fs' gs' where t': "sp_lock s = 1" "sp_pc s t' = Critical fs' gs'" "\<And>u. u \<noteq> t' \<Longrightarrow> \<not> critical (sp_pc s u)"
    "sp_data s = run_all (concat (sp_finished s) @ fs') d"
    using assms unfolding spin_inv_def by (metis critical_simps(1))
  moreover have "t' = t" using t'(3) [of t] assms(2) by auto
  ultimately show "sp_lock s = 1" "\<And>u. u \<noteq> t \<Longrightarrow> \<not> critical (sp_pc s u)" "sp_data s = run_all (concat (sp_finished s) @ fs) d"
    using assms(2) by auto
qed

lemma spin_inv_insideI:
  "sp_lock s = 1 \<Longrightarrow> sp_pc s t = Critical fs gs \<Longrightarrow> (\<And>u. u \<noteq> t \<Longrightarrow> \<not> critical (sp_pc s u))
    \<Longrightarrow> sp_data s = run_all (concat (sp_finished s) @ fs) d \<Longrightarrow> spin_inv d s"
  unfolding spin_inv_def by blast

lemma spin_step_inv:
  assumes "spin_step s s'" and "spin_inv d s"
  shows "spin_inv d s'"
  using assms
proof cases
  case (enter t fs)
  show ?thesis
  proof (cases "\<exists>u. critical (sp_pc s u)")
    case True
    then obtain u gs hs where u: "sp_pc s u = Critical gs hs" by (auto simp: critical_def)
    then show ?thesis using enter spin_inv_inside [OF assms(2) u] by (intro spin_inv_insideI [of _ u gs hs]) auto
  next
    case False
    then show ?thesis using enter assms(2) by (auto simp: spin_inv_def critical_def)
  qed
next
  case (acquire t fs l)
  then show ?thesis using assms(2) by (auto simp: spin_inv_def lock32_turn_True)
next
  case (work t fs g gs)
  then show ?thesis using spin_inv_inside [OF assms(2) work(2)] by (auto simp: spin_inv_def)
next
  case (release t fs)
  then show ?thesis using spin_inv_inside [OF assms(2) release(2)] by (auto simp: spin_inv_def unlock32_def)
qed (use assms(2) in \<open>simp add: spin_inv_def lock32_turn_False\<close>)

lemma spin_reachable_inv: "spin_step\<^sup>*\<^sup>* (spin_init d) s \<Longrightarrow> spin_inv d s"
proof (induction rule: rtranclp_induct)
  case base
  show ?case by (simp add: spin_inv_def spin_init_def)
qed (rule spin_step_inv)

text \<open>At most one thread is inside, and whole sections take effect one after the other.\<close>

lemma spin_lock_exclusive:
  assumes "spin_step\<^sup>*\<^sup>* (spin_init d) s" and "critical (sp_pc s t)" and "critical (sp_pc s u)"
  shows "t = u"
  using spin_inv_inside(2) [OF spin_reachable_inv [OF assms(1)]] assms(2,3) by (metis critical_def)

lemma spin_lock_atomic:
  assumes "spin_step\<^sup>*\<^sup>* (spin_init d) s" and "\<And>t. \<not> critical (sp_pc s t)"
  shows "sp_data s = run_all (concat (sp_finished s)) d"
  using spin_reachable_inv [OF assms(1)] assms(2) unfolding spin_inv_def by (metis critical_simps(1))

text \<open>While a thread spins, it or the thread inside can go on.\<close>

lemma spin_lock_progress:
  assumes "spin_step\<^sup>*\<^sup>* (spin_init d) s" and "sp_pc s t = Spinning fs"
  shows "(\<exists>l. lock32_turn (sp_lock s) = (True, l)) \<or> (\<exists>u. critical (sp_pc s u))"
  using spin_reachable_inv [OF assms(1)] by (auto simp: spin_inv_def lock32_turn_True critical_def)

text \<open>\<open>FAA\<close> with 1 gives every caller another number, up to \<open>2 ^ 64\<close> calls.\<close>

fun FAA_calls :: "nat \<Rightarrow> 64 word \<Rightarrow> 64 word list \<times> 64 word" where
  "FAA_calls 0 mem = ([], mem)"
| "FAA_calls (Suc n) mem = (let (old, mem) = FAA mem 1; (rest, mem) = FAA_calls n mem in (old # rest, mem))"

lemma FAA_calls_numbers: "FAA_calls n mem = (map (\<lambda>i. mem + of_nat i) [0..<n], mem + of_nat n)"
proof (induction n arbitrary: mem)
  case (Suc n)
  have "map (\<lambda>i. mem + of_nat i) [0..<Suc n] = mem # map (\<lambda>i. mem + 1 + of_nat i) [0..<n]"
    by (simp only: upt_conv_Cons [OF zero_less_Suc] list.map map_Suc_upt [symmetric] map_map) (simp add: add.assoc)
  then show ?case by (simp only: FAA_calls.simps FAA_def Let_def Suc case_prod_conv) (simp add: algebra_simps)
qed simp

lemma FAA_calls_distinct: "n \<le> 2 ^ 64 \<Longrightarrow> distinct (fst (FAA_calls n mem))"
  by (auto simp: FAA_calls_numbers distinct_map inj_on_def of_nat_inverse word_of_nat_eq_iff take_bit_nat_eq_self)

end
