(* ===== verification/Wire.thy ===== *)
theory Wire
  imports Types
begin

text \<open>
  The byte strings on the wire: the structs of \<open>src/src/common/type.hpp\<close> copied byte by byte (x86-64
  layout: little-endian, \<open>Order\<close> 32 bytes with four bytes of padding at the end, \<open>CommTrade\<close>, \<open>Trade\<close> and
  \<open>OrderAck\<close> without padding), \<open>get_elem_from_buf\<close>, and the messages that the senders of
  \<open>trader/order_sender.cpp\<close> and \<open>exchange/trade_sender.cpp\<close> build and that the receivers of
  \<open>exchange/order_receiver.cpp\<close> and \<open>trader/trade_receiver.cpp\<close> take apart. The padding bytes of an \<open>Order\<close>
  are whatever the memory holds, an argument of the encoding.
\<close>

section \<open>Little-endian numbers\<close>

type_synonym byte = "8 word"

primrec le_bytes :: "nat \<Rightarrow> int \<Rightarrow> byte list" where
  "le_bytes 0 x = []"
| "le_bytes (Suc n) x = word_of_int x # le_bytes n (x div 256)"

primrec of_le :: "byte list \<Rightarrow> int" where
  "of_le [] = 0"
| "of_le (b # bs) = uint b + 256 * of_le bs"

definition dec_int :: "byte list \<Rightarrow> int" where
  "dec_int bs = i32 (of_le bs)"

definition dec_double :: "byte list \<Rightarrow> double" where
  "dec_double bs = word_of_int (of_le bs)"

section \<open>Structs\<close>

definition sub_bytes :: "nat \<Rightarrow> nat \<Rightarrow> byte list \<Rightarrow> byte list" where
  "sub_bytes i n bs = take n (drop i bs)"

definition enc_order :: "byte list \<Rightarrow> Order \<Rightarrow> byte list" where
  "enc_order pad x =
     le_bytes 4 (o_stk_code x) @ le_bytes 4 (o_order_id x) @ le_bytes 4 (o_direction x) @ le_bytes 4 (o_type x)
     @ le_bytes 8 (uint (o_price x)) @ le_bytes 4 (o_volume x) @ pad"

definition dec_order :: "byte list \<Rightarrow> Order" where
  "dec_order bs =
     \<lparr>o_stk_code = dec_int (sub_bytes 0 4 bs), o_order_id = dec_int (sub_bytes 4 4 bs),
      o_direction = dec_int (sub_bytes 8 4 bs), o_type = dec_int (sub_bytes 12 4 bs),
      o_price = dec_double (sub_bytes 16 8 bs), o_volume = dec_int (sub_bytes 24 4 bs)\<rparr>"

definition enc_trade :: "Trade \<Rightarrow> byte list" where
  "enc_trade x =
     le_bytes 4 (t_stk_code x) @ le_bytes 4 (t_bid_id x) @ le_bytes 4 (t_ask_id x)
     @ le_bytes 8 (uint (t_price x)) @ le_bytes 4 (t_volume x)"

definition dec_trade :: "byte list \<Rightarrow> Trade" where
  "dec_trade bs =
     \<lparr>t_stk_code = dec_int (sub_bytes 0 4 bs), t_bid_id = dec_int (sub_bytes 4 4 bs),
      t_ask_id = dec_int (sub_bytes 8 4 bs), t_price = dec_double (sub_bytes 12 8 bs),
      t_volume = dec_int (sub_bytes 20 4 bs)\<rparr>"

definition enc_commtrade :: "CommTrade \<Rightarrow> byte list" where
  "enc_commtrade x =
     le_bytes 4 (ct_stk_code x) @ le_bytes 4 (ct_bid_id x) @ le_bytes 4 (ct_ask_id x) @ le_bytes 4 (ct_dummy x)
     @ le_bytes 8 (uint (ct_price x)) @ le_bytes 4 (ct_volume x)"

definition dec_commtrade :: "byte list \<Rightarrow> CommTrade" where
  "dec_commtrade bs =
     \<lparr>ct_stk_code = dec_int (sub_bytes 0 4 bs), ct_bid_id = dec_int (sub_bytes 4 4 bs),
      ct_ask_id = dec_int (sub_bytes 8 4 bs), ct_dummy = dec_int (sub_bytes 12 4 bs),
      ct_price = dec_double (sub_bytes 16 8 bs), ct_volume = dec_int (sub_bytes 24 4 bs)\<rparr>"

definition enc_orderack :: "OrderAck \<Rightarrow> byte list" where
  "enc_orderack x = le_bytes 4 (a_stk_code x) @ le_bytes 4 (a_order_id x)"

definition dec_orderack :: "byte list \<Rightarrow> OrderAck" where
  "dec_orderack bs = \<lparr>a_stk_code = dec_int (sub_bytes 0 4 bs), a_order_id = dec_int (sub_bytes 4 4 bs)\<rparr>"

section \<open>Reading from a buffer\<close>

text \<open>\<open>get_elem_from_buf\<close> for a type of \<open>sz\<close> bytes that \<open>dec\<close> reads; and a loop of such reads.\<close>

definition get_elem_from_buf :: "nat \<Rightarrow> (byte list \<Rightarrow> 'a) \<Rightarrow> byte list \<Rightarrow> nat \<Rightarrow> ('a \<times> nat) result" where
  "get_elem_from_buf sz dec buf offset =
     (if offset + sz \<le> length buf then Inr (dec (sub_bytes offset sz buf), offset + sz)
      else Inl Undefined)"

fun get_elems :: "nat \<Rightarrow> (byte list \<Rightarrow> 'a) \<Rightarrow> nat \<Rightarrow> byte list \<Rightarrow> nat \<Rightarrow> ('a list \<times> nat) result" where
  "get_elems sz dec 0 buf offset = Inr ([], offset)"
| "get_elems sz dec (Suc n) buf offset =
     bindE (get_elem_from_buf sz dec buf offset) (\<lambda>(x, offset).
       bindE (get_elems sz dec n buf offset) (\<lambda>(xs, offset). Inr (x # xs, offset)))"

text \<open>\<open>c_str()\<close> ends with a zero byte.\<close>

definition c_str :: "byte list \<Rightarrow> byte list" where
  "c_str str = str @ [0]"

text \<open>
  The member functions \<open>append_to_str\<close> and \<open>from_str\<close> of \<open>Order\<close>. \<open>from_str\<close> moves the start of the buffer
  by \<open>offset\<close> and then reads at \<open>offset\<close> of it.
\<close>

definition append_to_str :: "byte list \<Rightarrow> Order \<Rightarrow> byte list \<Rightarrow> byte list" where
  "append_to_str pad x str = str @ enc_order pad x"

definition from_str :: "byte list \<Rightarrow> nat \<Rightarrow> (Order \<times> nat) result" where
  "from_str str offset =
     (let buf = drop offset (c_str str) in get_elem_from_buf 32 dec_order buf offset)"

section \<open>Messages\<close>

definition ORDER_MSG :: int where "ORDER_MSG = 1"
definition TRADE_MSG :: int where "TRADE_MSG = 2"
definition ORDER_ACK_MSG :: int where "ORDER_ACK_MSG = 3"

text \<open>The store of \<open>cnt\<close> behind the message code, after the orders are appended.\<close>

definition patch_u32 :: "nat \<Rightarrow> int \<Rightarrow> byte list \<Rightarrow> byte list" where
  "patch_u32 i x bs = take i bs @ le_bytes 4 x @ drop (i + 4) bs"

definition order_msg :: "(Order \<Rightarrow> byte list) \<Rightarrow> Order list \<Rightarrow> byte list" where
  "order_msg pad orders =
     patch_u32 4 (int (length orders))
       (foldl (\<lambda>msg x. msg @ enc_order (pad x) x) (le_bytes 4 ORDER_MSG @ le_bytes 4 0) orders)"

definition convert_trade_to_commtrade :: "Trade \<Rightarrow> CommTrade" where
  "convert_trade_to_commtrade t =
     \<lparr>ct_stk_code = t_stk_code t, ct_bid_id = t_bid_id t, ct_ask_id = t_ask_id t, ct_dummy = 0,
      ct_price = t_price t, ct_volume = t_volume t\<rparr>"

definition convert_commtrade_to_trade :: "CommTrade \<Rightarrow> Trade" where
  "convert_commtrade_to_trade c =
     \<lparr>t_stk_code = ct_stk_code c, t_bid_id = ct_bid_id c, t_ask_id = ct_ask_id c,
      t_price = ct_price c, t_volume = ct_volume c\<rparr>"

definition trade_msg :: "Trade \<Rightarrow> byte list" where
  "trade_msg t = le_bytes 4 TRADE_MSG @ le_bytes 4 1 @ enc_commtrade (convert_trade_to_commtrade t)"

definition ack_msg :: "OrderAck \<Rightarrow> byte list" where
  "ack_msg a = le_bytes 4 ORDER_ACK_MSG @ le_bytes 4 1 @ enc_orderack a"

text \<open>The receivers.\<close>

definition msg_code :: "byte list \<Rightarrow> (int \<times> nat) result" where
  "msg_code msg = get_elem_from_buf 4 of_le (c_str msg) 0"

definition parse_orders :: "byte list \<Rightarrow> Order list result" where
  "parse_orders msg =
     bindE (msg_code msg) (\<lambda>(code, offset).
       if code \<noteq> ORDER_MSG then Inl (UbiquantException 1)
       else bindE (get_elem_from_buf 4 of_le (c_str msg) offset) (\<lambda>(cnt, offset).
         bindE (get_elems 32 dec_order (nat cnt) (c_str msg) offset) (\<lambda>(orders, offset). Inr orders)))"

definition parse_trades :: "byte list \<Rightarrow> Trade list result" where
  "parse_trades msg =
     bindE (get_elem_from_buf 4 of_le (c_str msg) 4) (\<lambda>(cnt, offset).
       bindE (get_elems 28 dec_commtrade (nat cnt) (c_str msg) offset) (\<lambda>(trades, offset).
         Inr (map convert_commtrade_to_trade trades)))"

definition parse_acks :: "byte list \<Rightarrow> OrderAck list result" where
  "parse_acks msg =
     bindE (get_elem_from_buf 4 of_le (c_str msg) 4) (\<lambda>(cnt, offset).
       bindE (get_elems 8 dec_orderack (nat cnt) (c_str msg) offset) (\<lambda>(acks, offset). Inr acks))"

section \<open>Lemmas\<close>

lemma length_le_bytes [simp]: "length (le_bytes n x) = n"
  by (induction n arbitrary: x) simp_all

lemma of_le_bytes: "of_le (le_bytes n x) = x mod 256 ^ n"
proof (induction n arbitrary: x)
  case (Suc n)
  have "uint (word_of_int x :: 8 word) = x mod 256" by (simp add: uint_word_of_int)
  then show ?case using Suc [of "x div 256"] by (simp add: zmod_zmult2_eq add.commute)
qed simp

lemma dec_int_bytes [simp]: "in_i32 x \<Longrightarrow> dec_int (le_bytes 4 x) = x"
proof -
  assume "in_i32 x"
  then have "i32 x = x" by simp
  moreover have "i32 (x mod 4294967296) = i32 x" by (simp add: i32_def mod_add_left_eq)
  ultimately show ?thesis by (simp add: dec_int_def of_le_bytes)
qed

lemma dec_double_bytes [simp]: "dec_double (le_bytes 8 (uint x)) = x"
proof -
  have "uint x mod 18446744073709551616 = uint x"
    using uint_lt2p [of x] by (intro mod_pos_pos_trivial) simp_all
  then show ?thesis by (simp add: dec_double_def of_le_bytes)
qed

lemma sub_bytes_append:
  "length xs \<le> i \<Longrightarrow> sub_bytes i n (xs @ ys) = sub_bytes (i - length xs) n ys"
  "length xs = n \<Longrightarrow> sub_bytes 0 n (xs @ ys) = xs"
  "length xs = n \<Longrightarrow> sub_bytes 0 n xs = xs"
  by (simp_all add: sub_bytes_def)

text \<open>The contract of an encoding of fixed size, and reading back what was written.\<close>

locale codec =
  fixes sz :: nat and enc :: "'a \<Rightarrow> byte list" and dec :: "byte list \<Rightarrow> 'a" and ok :: "'a \<Rightarrow> bool"
  assumes enc_size: "ok x \<Longrightarrow> length (enc x) = sz"
    and dec_enc: "ok x \<Longrightarrow> dec (enc x) = x"
begin

lemma get_elem: "ok x \<Longrightarrow> get_elem_from_buf sz dec (pre @ enc x @ post) (length pre) = Inr (x, length pre + sz)"
  by (simp add: get_elem_from_buf_def sub_bytes_append enc_size dec_enc)

lemma get_elems:
  "list_all ok xs \<Longrightarrow> get_elems sz dec (length xs) (pre @ concat (map enc xs) @ post) (length pre)
     = Inr (xs, length pre + sz * length xs)"
proof (induction xs arbitrary: pre)
  case (Cons x xs)
  then show ?case
    using get_elem [of x pre "concat (map enc xs) @ post"] Cons.IH [of "pre @ enc x"]
    by (simp add: enc_size)
qed simp

end

interpretation u32: codec 4 "le_bytes 4" of_le "\<lambda>x. 0 \<le> x \<and> x < 4294967296"
  by unfold_locales (simp_all add: of_le_bytes)

definition order_ok :: "Order \<Rightarrow> bool" where
  "order_ok x \<longleftrightarrow> in_i32 (o_stk_code x) \<and> in_i32 (o_order_id x) \<and> in_i32 (o_direction x)
     \<and> in_i32 (o_type x) \<and> in_i32 (o_volume x)"

lemma dec_enc_order:
  assumes "order_ok x" shows "dec_order (enc_order pad x) = x"
  using assms by (simp add: enc_order_def dec_order_def sub_bytes_append order_ok_def)

lemma order_codec: "(\<And>x. length (pad x) = 4) \<Longrightarrow> codec 32 (\<lambda>x. enc_order (pad x) x) dec_order order_ok"
  by unfold_locales (simp_all add: dec_enc_order, simp add: enc_order_def)

interpretation ord: codec 32 "enc_order (replicate 4 0)" dec_order order_ok
  by (rule order_codec [of "\<lambda>_. replicate 4 0"]) simp

definition trade_ok :: "Trade \<Rightarrow> bool" where
  "trade_ok x \<longleftrightarrow> in_i32 (t_stk_code x) \<and> in_i32 (t_bid_id x) \<and> in_i32 (t_ask_id x) \<and> in_i32 (t_volume x)"

interpretation tr: codec 24 enc_trade dec_trade trade_ok
  by unfold_locales (simp_all add: enc_trade_def dec_trade_def sub_bytes_append trade_ok_def)

definition commtrade_ok :: "CommTrade \<Rightarrow> bool" where
  "commtrade_ok x \<longleftrightarrow> in_i32 (ct_stk_code x) \<and> in_i32 (ct_bid_id x) \<and> in_i32 (ct_ask_id x)
     \<and> in_i32 (ct_dummy x) \<and> in_i32 (ct_volume x)"

interpretation ct: codec 28 enc_commtrade dec_commtrade commtrade_ok
  by unfold_locales (simp_all add: enc_commtrade_def dec_commtrade_def sub_bytes_append commtrade_ok_def)

definition ack_ok :: "OrderAck \<Rightarrow> bool" where
  "ack_ok x \<longleftrightarrow> in_i32 (a_stk_code x) \<and> in_i32 (a_order_id x)"

interpretation ack: codec 8 enc_orderack dec_orderack ack_ok
  by unfold_locales (simp_all add: enc_orderack_def dec_orderack_def sub_bytes_append ack_ok_def)

text \<open>Messages as header, count and elements.\<close>

lemma foldl_concat: "foldl (\<lambda>msg x. msg @ f x) init xs = init @ concat (map f xs)"
  by (induction xs arbitrary: init) simp_all

lemma order_msg_eq:
  "order_msg pad xs = le_bytes 4 ORDER_MSG @ le_bytes 4 (int (length xs)) @ concat (map (\<lambda>x. enc_order (pad x) x) xs)"
  by (simp add: order_msg_def patch_u32_def foldl_concat)

lemma header_code:
  assumes "0 \<le> code" and "code < 4294967296"
  shows "msg_code (le_bytes 4 code @ rest) = Inr (code, 4)"
  using u32.get_elem [of code "[]" "rest @ [0]"] assms by (simp add: msg_code_def c_str_def)

lemma header_count:
  assumes "n < 4294967296"
  shows "get_elem_from_buf 4 of_le (c_str (le_bytes 4 code @ le_bytes 4 (int n) @ rest)) 4 = Inr (int n, 8)"
  using u32.get_elem [of "int n" "le_bytes 4 code" "rest @ [0]"] assms by (simp add: c_str_def)

lemma parse_trade_msg:
  assumes "trade_ok t" shows "parse_trades (trade_msg t) = Inr [t]"
proof -
  let ?c = "convert_trade_to_commtrade t"
  have "commtrade_ok ?c" using assms by (simp add: commtrade_ok_def trade_ok_def convert_trade_to_commtrade_def)
  then have "get_elems 28 dec_commtrade 1 (c_str (trade_msg t)) 8 = Inr ([?c], 36)"
    using ct.get_elems [of "[?c]" "le_bytes 4 TRADE_MSG @ le_bytes 4 1" "[0]"]
    by (simp add: trade_msg_def c_str_def)
  moreover have "convert_commtrade_to_trade ?c = t"
    by (simp add: convert_commtrade_to_trade_def convert_trade_to_commtrade_def)
  ultimately show ?thesis
    using header_count [of 1 TRADE_MSG "enc_commtrade ?c"] by (simp add: parse_trades_def trade_msg_def)
qed

lemma parse_ack_msg:
  assumes "ack_ok a" shows "parse_acks (ack_msg a) = Inr [a]"
proof -
  have "get_elems 8 dec_orderack 1 (c_str (ack_msg a)) 8 = Inr ([a], 16)"
    using ack.get_elems [of "[a]" "le_bytes 4 ORDER_ACK_MSG @ le_bytes 4 1" "[0]"] assms
    by (simp add: ack_msg_def c_str_def)
  then show ?thesis
    using header_count [of 1 ORDER_ACK_MSG "enc_orderack a"] by (simp add: parse_acks_def ack_msg_def)
qed

lemma parse_order_msgs:
  assumes "list_all order_ok xs" and "length xs < 4294967296" and "\<forall>x. length (pad x) = 4"
  shows "parse_orders (order_msg pad xs) = Inr xs"
proof -
  have c: "codec 32 (\<lambda>x. enc_order (pad x) x) dec_order order_ok"
    using assms(3) by (intro order_codec) simp
  have "get_elems 32 dec_order (length xs) (c_str (order_msg pad xs)) 8 = Inr (xs, 8 + 32 * length xs)"
    using codec.get_elems [OF c assms(1), of "le_bytes 4 ORDER_MSG @ le_bytes 4 (int (length xs))" "[0]"]
    by (simp add: order_msg_eq c_str_def)
  moreover have "get_elem_from_buf 4 of_le (c_str (order_msg pad xs)) 4 = Inr (int (length xs), 8)"
    using header_count [OF assms(2)] by (simp add: order_msg_eq)
  moreover have "msg_code (order_msg pad xs) = Inr (ORDER_MSG, 4)"
    by (simp add: order_msg_eq header_code ORDER_MSG_def)
  ultimately show ?thesis by (simp add: parse_orders_def)
qed

lemma parse_order_msg:
  assumes "order_ok x" and "\<forall>x. length (pad x) = 4"
  shows "parse_orders (order_msg pad [x]) = Inr [x]"
  using assms by (intro parse_order_msgs) simp_all

section \<open>Properties\<close>

definition ex_wire_order :: Order where
  "ex_wire_order = \<lparr>o_stk_code = 3, o_order_id = 70000, o_direction = -1, o_type = 0,
     o_price = 0x4024000000000000, o_volume = 12\<rparr>"

text \<open>
  (C18) The order message survives the wire: the receiver reads back exactly the orders that the sender
  put into the message, in order, whatever the padding bytes are.
\<close>

theorem order_msg_roundtrip:
  assumes "list_all order_ok xs" and "length xs < 4294967296" and "\<forall>x. length (pad x) = 4"
  shows "parse_orders (order_msg pad xs) = Inr xs"
  using assms by (rule parse_order_msgs)

theorem order_msg_roundtrip_witness:
  "parse_orders (order_msg (\<lambda>_. [1, 2, 3, 4]) [ex_wire_order, ex_wire_order]) = Inr [ex_wire_order, ex_wire_order]"
  by (rule order_msg_roundtrip) (simp_all add: order_ok_def ex_wire_order_def in_i32_def)

text \<open>
  (C19) Trades and acknowledgements survive the wire: a message of either kind is recognised by its
  code, and the receiver reads back exactly the trade (the acknowledgement) that was sent.
\<close>

theorem reply_msgs_roundtrip:
  assumes "trade_ok t" and "ack_ok a"
  shows "msg_code (trade_msg t) = Inr (TRADE_MSG, 4) \<and> parse_trades (trade_msg t) = Inr [t]
    \<and> msg_code (ack_msg a) = Inr (ORDER_ACK_MSG, 4) \<and> parse_acks (ack_msg a) = Inr [a]"
  using parse_trade_msg [OF assms(1)] parse_ack_msg [OF assms(2)] header_code [of TRADE_MSG]
    header_code [of ORDER_ACK_MSG]
  by (simp add: trade_msg_def ack_msg_def TRADE_MSG_def ORDER_ACK_MSG_def)

theorem reply_msgs_roundtrip_witness:
  "parse_trades (trade_msg \<lparr>t_stk_code = 1, t_bid_id = 5, t_ask_id = 6, t_price = 7, t_volume = 8\<rparr>)
     = Inr [\<lparr>t_stk_code = 1, t_bid_id = 5, t_ask_id = 6, t_price = 7, t_volume = 8\<rparr>]"
  using reply_msgs_roundtrip [of "\<lparr>t_stk_code = 1, t_bid_id = 5, t_ask_id = 6, t_price = 7, t_volume = 8\<rparr>"
      "\<lparr>a_stk_code = 1, a_order_id = 2\<rparr>"] by (simp add: trade_ok_def ack_ok_def in_i32_def)

text \<open>
  \<open>from_str\<close> reads back what \<open>append_to_str\<close> wrote only at offset 0: it adds the offset twice, so at
  an offset k it reads the bytes from 2k on, and an order appended behind another one is not read.
\<close>

lemma from_str_reads_twice_offset:
  "from_str str k = get_elem_from_buf 32 dec_order (drop k (c_str str)) k
   \<and> (2 * k + 32 \<le> length (c_str str) \<longrightarrow>
        from_str str k = Inr (dec_order (sub_bytes (2 * k) 32 (c_str str)), k + 32))
   \<and> (order_ok x \<longrightarrow> length pad = 4 \<longrightarrow> from_str (append_to_str pad x []) 0 = Inr (x, 32)
        \<and> from_str (append_to_str pad x (append_to_str pad x [])) 32 = Inl Undefined)"
proof -
  have "from_str (append_to_str pad x []) 0 = Inr (x, 32)" if "order_ok x" "length pad = 4"
    using codec.get_elem [OF order_codec [of "\<lambda>_. pad"] that(1), of "[]" "[0]"] that(2)
    by (simp add: from_str_def append_to_str_def c_str_def)
  moreover have "from_str (append_to_str pad x (append_to_str pad x [])) 32 = Inl Undefined" if "length pad = 4"
    using that by (simp add: from_str_def append_to_str_def c_str_def get_elem_from_buf_def enc_order_def)
  moreover have "from_str str k = Inr (dec_order (sub_bytes (2 * k) 32 (c_str str)), k + 32)"
    if "2 * k + 32 \<le> length (c_str str)"
    using that by (simp add: from_str_def get_elem_from_buf_def sub_bytes_def flip: mult_2)
  moreover have "from_str str k = get_elem_from_buf 32 dec_order (drop k (c_str str)) k"
    by (simp add: from_str_def)
  ultimately show ?thesis by blast
qed

section \<open>Every byte string as an order message\<close>

text \<open>
  The bytes of a message with the orders \<open>xs\<close>, each followed by its own padding.
\<close>

definition order_frame :: "byte list list \<Rightarrow> Order list \<Rightarrow> byte list" where
  "order_frame pads xs = le_bytes 4 ORDER_MSG @ le_bytes 4 (int (length xs)) @ concat (map2 enc_order pads xs)"

lemma of_le_range: "0 \<le> of_le bs \<and> of_le bs < 256 ^ length bs"
proof (induction bs)
  case (Cons b bs)
  have "0 \<le> uint b" "uint b < 256" using uint_lt2p [of b] by simp_all
  with Cons show ?case by simp
qed simp

lemma le_bytes_of_le: "length bs = n \<Longrightarrow> le_bytes n (of_le bs) = bs"
proof (induction bs arbitrary: n)
  case (Cons b bs)
  have "0 \<le> uint b" "uint b < 256" using uint_lt2p [of b] by simp_all
  then have "(uint b + 256 * of_le bs) div 256 = of_le bs" by simp
  moreover have "(256 :: byte) = 0" by simp
  then have "word_of_int (uint b + 256 * of_le bs) = b" by (simp only: of_int_add of_int_mult of_int_numeral) simp
  ultimately show ?case using Cons by (auto simp del: of_int_add)
qed simp

lemma le_bytes_mod: "le_bytes n (x mod 256 ^ n) = le_bytes n x"
  using le_bytes_of_le [of "le_bytes n x" n] by (simp add: of_le_bytes)

lemma le_bytes_dec_int: "length bs = 4 \<Longrightarrow> le_bytes 4 (dec_int bs) = bs"
proof -
  assume "length bs = 4"
  moreover have "i32 x mod 4294967296 = x mod 4294967296" for x
    by (simp add: i32_def mod_diff_left_eq)
  ultimately show ?thesis
    using le_bytes_mod [of 4 "dec_int bs"] le_bytes_mod [of 4 "of_le bs"] by (simp add: dec_int_def le_bytes_of_le)
qed

lemma le_bytes_dec_double: "length bs = 8 \<Longrightarrow> le_bytes 8 (uint (dec_double bs)) = bs"
  using of_le_range [of bs] by (simp add: dec_double_def uint_word_of_int le_bytes_of_le)

text \<open>Reading is injective: the bytes of an order are its encoding with the padding they hold.\<close>

lemma enc_dec_order:
  assumes "length bs = 32"
  shows "enc_order (drop 28 bs) (dec_order bs) = bs"
proof -
  have take_step: "sub_bytes i n bs @ drop (i + n) bs = drop i bs" for i n
    by (simp add: sub_bytes_def) (metis append_take_drop_id drop_drop add.commute)
  show ?thesis
    using assms take_step [of 0 4] take_step [of 4 4] take_step [of 8 4] take_step [of 12 4] take_step [of 16 8] take_step [of 24 4]
    by (simp add: enc_order_def dec_order_def le_bytes_dec_int le_bytes_dec_double sub_bytes_def)
qed

lemma dec_order_ok: "order_ok (dec_order bs)"
  by (simp add: order_ok_def dec_order_def dec_int_def)

lemma get_elems_eq:
  assumes "0 < sz"
  shows "get_elems sz dec n buf offset =
    (if n = 0 \<or> offset + sz * n \<le> length buf
     then Inr (map (\<lambda>i. dec (sub_bytes (offset + sz * i) sz buf)) [0..<n], offset + sz * n) else Inl Undefined)"
proof (induction n arbitrary: offset)
  case (Suc n)
  show ?case using assms
    by (auto simp: get_elem_from_buf_def Suc.IH add.assoc map_upt_Suc simp del: upt_Suc)
qed simp

lemma concat_blocks: "k + sz * n \<le> length bs \<Longrightarrow> concat (map (\<lambda>i. sub_bytes (k + sz * i) sz bs) [0..<n]) = take (sz * n) (drop k bs)"
proof (induction n)
  case (Suc n)
  have "take (sz * n + sz) (drop k bs) = take (sz * n) (drop k bs) @ take sz (drop (k + sz * n) bs)"
    by (simp add: take_add add.commute [of k])
  then show ?case using Suc by (simp add: sub_bytes_def add.commute [of sz "sz * n"])
qed simp

lemma get_frame_elems:
  assumes "list_all order_ok xs" and "length pads = length xs" and "list_all (\<lambda>p. length p = 4) pads"
  shows "get_elems 32 dec_order (length xs) (pre @ concat (map2 enc_order pads xs) @ post) (length pre)
    = Inr (xs, length pre + 32 * length xs)"
  using assms
proof (induction xs arbitrary: pre pads)
  case (Cons x xs)
  then obtain p ps where p: "pads = p # ps" by (cases pads) auto
  have "get_elem_from_buf 32 dec_order (pre @ enc_order p x @ concat (map2 enc_order ps xs) @ post) (length pre)
      = Inr (x, length pre + 32)"
    using codec.get_elem [OF order_codec [of "\<lambda>_. p"], of x pre] Cons.prems p by simp
  moreover have "length (enc_order p x) = 32" using Cons.prems p by (simp add: enc_order_def)
  ultimately show ?case using Cons.IH [of ps "pre @ enc_order p x"] Cons.prems p by simp
qed simp

text \<open>What is read from a buffer that is long enough is the frame that stands there.\<close>

lemma frame_elems:
  assumes "get_elems 32 dec_order n buf k = Inr (xs, k')"
  shows "length xs = n \<and> list_all order_ok xs \<and> (\<exists>pads rest. length pads = n \<and> list_all (\<lambda>p. length p = 4) pads
    \<and> drop k buf = concat (map2 enc_order pads xs) @ rest)"
proof (cases "n = 0")
  case False
  let ?b = "\<lambda>i. sub_bytes (k + 32 * i) 32 buf"
  have len: "k + 32 * n \<le> length buf" and xs: "xs = map (\<lambda>i. dec_order (?b i)) [0..<n]"
    using assms False by (auto simp: get_elems_eq split: if_splits)
  define pads where "pads = map (\<lambda>i. drop 28 (?b i)) [0..<n]"
  have size: "length (?b i) = 32" if "i < n" for i using that len by (simp add: sub_bytes_def)
  have "map2 enc_order pads xs = map ?b [0..<n]"
    using size by (auto simp: pads_def xs enc_dec_order intro: nth_equalityI)
  then have "drop k buf = concat (map2 enc_order pads xs) @ drop (32 * n) (drop k buf)"
    using concat_blocks [OF len] by (simp del: drop_drop)
  moreover have "length pads = n" "list_all (\<lambda>p. length p = 4) pads"
    using size by (simp_all add: pads_def list_all_iff)
  moreover have "length xs = n" "list_all order_ok xs" by (simp_all add: xs list_all_iff dec_order_ok)
  ultimately show ?thesis by blast
qed (use assms in auto)

lemma parse_orders_frame:
  assumes "length xs < 4294967296" and "list_all order_ok xs" and "length pads = length xs"
    and "list_all (\<lambda>p. length p = 4) pads" and "c_str msg = order_frame pads xs @ rest"
  shows "parse_orders msg = Inr xs"
proof -
  let ?h = "le_bytes 4 ORDER_MSG @ le_bytes 4 (int (length xs))"
  have "msg_code msg = Inr (ORDER_MSG, 4)"
    using u32.get_elem [of ORDER_MSG "[]"] assms(5) by (simp add: msg_code_def order_frame_def ORDER_MSG_def)
  moreover have "get_elem_from_buf 4 of_le (c_str msg) 4 = Inr (int (length xs), 8)"
    using u32.get_elem [of "int (length xs)" "le_bytes 4 ORDER_MSG"] assms(1,5) by (simp add: order_frame_def)
  moreover have "get_elems 32 dec_order (length xs) (c_str msg) 8 = Inr (xs, 8 + 32 * length xs)"
    using get_frame_elems [OF assms(2-4), of ?h rest] assms(5) by (simp add: order_frame_def)
  ultimately show ?thesis by (simp add: parse_orders_def)
qed

lemma parse_orders_eq:
  "parse_orders msg =
     (let buf = c_str msg; cnt = nat (of_le (sub_bytes 4 4 buf)) in
      if length msg < 3 then Inl Undefined
      else if of_le (take 4 buf) \<noteq> ORDER_MSG then Inl (UbiquantException 1)
      else if length msg < 7 then Inl Undefined
      else bindE (get_elems 32 dec_order cnt buf 8) (\<lambda>(orders, offset). Inr orders))"
  by (simp add: parse_orders_def msg_code_def get_elem_from_buf_def c_str_def sub_bytes_def Let_def)

lemma parse_orders_only_frames:
  assumes "parse_orders msg = Inr xs"
  shows "length xs < 4294967296 \<and> list_all order_ok xs
    \<and> (\<exists>pads rest. length pads = length xs \<and> list_all (\<lambda>p. length p = 4) pads \<and> c_str msg = order_frame pads xs @ rest)"
proof -
  let ?buf = "c_str msg" let ?cnt = "of_le (sub_bytes 4 4 ?buf)"
  have len: "8 \<le> length ?buf" and code: "of_le (take 4 ?buf) = ORDER_MSG"
    and "\<exists>k. get_elems 32 dec_order (nat ?cnt) ?buf 8 = Inr (xs, k)"
    using assms by (auto simp: parse_orders_eq Let_def bindE_eq_Inr c_str_def split: if_splits)
  then obtain pads rest where xs: "length xs = nat ?cnt" "list_all order_ok xs"
    and pads: "length pads = nat ?cnt" "list_all (\<lambda>p. length p = 4) pads" "drop 8 ?buf = concat (map2 enc_order pads xs) @ rest"
    using frame_elems by blast
  have size: "length (sub_bytes 4 4 ?buf) = 4" using len by (simp add: sub_bytes_def)
  then have cnt: "0 \<le> ?cnt" "?cnt < 4294967296" using of_le_range [of "sub_bytes 4 4 ?buf"] by simp_all
  have "?buf = take 4 ?buf @ sub_bytes 4 4 ?buf @ drop 8 ?buf"
    using append_take_drop_id [of 4 "drop 4 ?buf"] by (simp add: sub_bytes_def)
  also have "take 4 ?buf = le_bytes 4 ORDER_MSG" using le_bytes_of_le [of "take 4 ?buf" 4] code len by simp
  also have "sub_bytes 4 4 ?buf = le_bytes 4 (int (length xs))" using le_bytes_of_le [OF size] xs(1) cnt by simp
  finally have "?buf = order_frame pads xs @ rest" by (simp add: order_frame_def pads(3))
  with xs pads cnt show ?thesis by auto
qed

text \<open>
  (C20) On every byte string the receiver of orders accepts exactly the order messages: it returns the orders \<open>xs\<close>
  if and only if the string, with the zero at its end, starts with the message code, the number of orders, and the bytes of these
  orders, so no bytes are taken for an order that was not written there. It raises the exception if and only if the
  code is another one; what is left is a message that is too short for its header or its count, beyond which it reads.
\<close>

theorem parse_orders_accepts:
  "(parse_orders msg = Inr xs \<longleftrightarrow>
      length xs < 4294967296 \<and> list_all order_ok xs \<and>
      (\<exists>pads rest. length pads = length xs \<and> list_all (\<lambda>p. length p = 4) pads \<and> c_str msg = order_frame pads xs @ rest))
   \<and> (parse_orders msg = Inl (UbiquantException 1) \<longleftrightarrow> 3 \<le> length msg \<and> of_le (take 4 (c_str msg)) \<noteq> ORDER_MSG)
   \<and> (parse_orders msg = Inl Undefined \<longleftrightarrow>
        length msg < 3 \<or> of_le (take 4 (c_str msg)) = ORDER_MSG
          \<and> (length msg < 7 \<or> 0 < of_le (sub_bytes 4 4 (c_str msg))
               \<and> int (length msg + 1) < 8 + 32 * of_le (sub_bytes 4 4 (c_str msg))))"
proof (intro conjI)
  show "parse_orders msg = Inr xs \<longleftrightarrow> length xs < 4294967296 \<and> list_all order_ok xs \<and>
      (\<exists>pads rest. length pads = length xs \<and> list_all (\<lambda>p. length p = 4) pads \<and> c_str msg = order_frame pads xs @ rest)"
    using parse_orders_only_frames parse_orders_frame by blast
  have "0 \<le> of_le (sub_bytes 4 4 (c_str msg))" using of_le_range by blast
  then show "parse_orders msg = Inl Undefined \<longleftrightarrow> length msg < 3 \<or> of_le (take 4 (c_str msg)) = ORDER_MSG
      \<and> (length msg < 7 \<or> 0 < of_le (sub_bytes 4 4 (c_str msg)) \<and> int (length msg + 1) < 8 + 32 * of_le (sub_bytes 4 4 (c_str msg)))"
    by (auto simp: parse_orders_eq Let_def get_elems_eq c_str_def)
qed (auto simp: parse_orders_eq Let_def get_elems_eq)

text \<open>A trade message is refused; an order message cut short by two bytes is read beyond its end.\<close>

theorem parse_orders_accepts_witness:
  "parse_orders (le_bytes 4 TRADE_MSG @ le_bytes 4 1 @ replicate 28 0) = Inl (UbiquantException 1)
   \<and> parse_orders (le_bytes 4 ORDER_MSG @ le_bytes 4 1 @ replicate 30 0) = Inl Undefined"
proof
  show "parse_orders (le_bytes 4 TRADE_MSG @ le_bytes 4 1 @ replicate 28 0) = Inl (UbiquantException 1)"
    by (rule parse_orders_accepts [THEN conjunct2, THEN conjunct1, THEN iffD2])
      (simp add: c_str_def of_le_bytes TRADE_MSG_def ORDER_MSG_def)
  show "parse_orders (le_bytes 4 ORDER_MSG @ le_bytes 4 1 @ replicate 30 0) = Inl Undefined"
    by (rule parse_orders_accepts [THEN conjunct2, THEN conjunct2, THEN iffD2])
      (simp add: c_str_def of_le_bytes sub_bytes_append ORDER_MSG_def)
qed

end
