(* ===== verification/Config.thy ===== *)
theory Config
  imports Prelude
begin

text \<open>
  \<open>src/src/common/config.h\<close> and \<open>config.cpp\<close>: the static members of class \<open>Config\<close> as a record, and the
  readers of the two configuration files. A file is its list of lines. Calls of \<open>exit\<close> are errors.
\<close>

section \<open>The configuration\<close>

record Config =
  data_folder :: string
  trade_output_folder :: string
  network_config_file :: string
  partition_idx :: int
  sliding_window_size :: int
  stock_num :: int
  trader_num :: int
  exchange_num :: int
  loader_nx_matrix :: int
  loader_ny_matrix :: int
  loader_nz_matrix :: int
  load_mode :: int
  traders_addr :: "string list"
  exchanges_addr :: "string list"
  trader_port2exchange_port :: "(int \<times> int) list list list"

definition initConfig :: Config where
  "initConfig =
     \<lparr>data_folder = [], trade_output_folder = [],
      network_config_file = ''/home/team-7/yzh/awsome-10w/network.host'',
      partition_idx = -1, sliding_window_size = 100, stock_num = 10, trader_num = 2, exchange_num = 2,
      loader_nx_matrix = 500, loader_ny_matrix = 1000, loader_nz_matrix = 1000, load_mode = 0,
      traders_addr = [], exchanges_addr = [], trader_port2exchange_port = []\<rparr>"

section \<open>Words and numbers of a line\<close>

definition isspace :: "char \<Rightarrow> bool" where
  "isspace c \<longleftrightarrow> c \<in> {CHR '' '', CHR 0x09, CHR 0x0A, CHR 0x0B, CHR 0x0C, CHR 0x0D}"

definition digit :: "char \<Rightarrow> int option" where
  "digit c = (let n = of_char c :: int in if 48 \<le> n \<and> n \<le> 57 then Some (n - 48) else None)"

fun digits :: "int \<Rightarrow> string \<Rightarrow> int" where
  "digits acc [] = acc"
| "digits acc (c # cs) = (case digit c of None \<Rightarrow> acc | Some d \<Rightarrow> digits (10 * acc + d) cs)"

text \<open>\<open>strtol\<close> with its saturation, and \<open>atoi\<close>, which keeps the low 32 bits.\<close>

definition sat64 :: "int \<Rightarrow> int" where
  "sat64 x = max (- 9223372036854775808) (min 9223372036854775807 x)"

definition atoi :: "string \<Rightarrow> int" where
  "atoi s =
     (let t = dropWhile isspace s
      in i32 (sat64 (case t of
            [] \<Rightarrow> 0
          | c # cs \<Rightarrow> if c = CHR ''-'' then - digits 0 cs
                      else if c = CHR ''+'' then digits 0 cs else digits 0 t)))"

text \<open>The decimal numeral of an \<open>int\<close>, as \<open>%d\<close> and \<open>std::to_string\<close> print it.\<close>

definition digit_char :: "nat \<Rightarrow> char" where
  "digit_char d = char_of (48 + d)"

fun show_nat :: "nat \<Rightarrow> string" where
  "show_nat n = (if n < 10 then [digit_char n] else show_nat (n div 10) @ [digit_char (n mod 10)])"

declare show_nat.simps [simp del]

definition show_int :: "int \<Rightarrow> string" where
  "show_int x = (if x < 0 then CHR ''-'' # show_nat (nat (- x)) else show_nat (nat x))"

text \<open>The words that \<open>>>\<close> takes from a line one after the other.\<close>

fun words_acc :: "string \<Rightarrow> string \<Rightarrow> string list" where
  "words_acc w [] = (if w = [] then [] else [w])"
| "words_acc w (c # cs) =
     (if isspace c then (if w = [] then words_acc [] cs else w # words_acc [] cs)
      else words_acc (w @ [c]) cs)"

definition words_of :: "string \<Rightarrow> string list" where
  "words_of line = words_acc [] line"

section \<open>Items\<close>

definition end_slash :: "string \<Rightarrow> string" where
  "end_slash f = (if last f \<noteq> CHR ''/'' then f @ ''/'' else f)"

definition set_immutable_config :: "string \<Rightarrow> string \<Rightarrow> Config \<Rightarrow> (bool \<times> Config) result" where
  "set_immutable_config cfg_name value c =
     (if cfg_name = ''data_folder'' then
        if value = [] then Inl (ExitProcess (-1)) else Inr (True, c\<lparr>data_folder := end_slash value\<rparr>)
      else if cfg_name = ''trade_output_folder'' then
        if value = [] then Inl (ExitProcess (-1)) else Inr (True, c\<lparr>trade_output_folder := end_slash value\<rparr>)
      else if cfg_name = ''network_config_file'' then
        if value = [] then Inl (ExitProcess (-1)) else Inr (True, c\<lparr>network_config_file := value\<rparr>)
      else if cfg_name = ''sliding_window_size'' then Inr (True, c\<lparr>sliding_window_size := atoi value\<rparr>)
      else if cfg_name = ''stock_num'' then Inr (True, c\<lparr>stock_num := atoi value\<rparr>)
      else if cfg_name = ''trader_num'' then Inr (True, c\<lparr>trader_num := atoi value\<rparr>)
      else if cfg_name = ''exchange_num'' then Inr (True, c\<lparr>exchange_num := atoi value\<rparr>)
      else if cfg_name = ''loader_nx_matrix'' then Inr (True, c\<lparr>loader_nx_matrix := atoi value\<rparr>)
      else if cfg_name = ''loader_ny_matrix'' then Inr (True, c\<lparr>loader_ny_matrix := atoi value\<rparr>)
      else if cfg_name = ''loader_nz_matrix'' then Inr (True, c\<lparr>loader_nz_matrix := atoi value\<rparr>)
      else Inr (False, c))"

definition set_mutable_config :: "string \<Rightarrow> string \<Rightarrow> Config \<Rightarrow> bool \<times> Config" where
  "set_mutable_config cfg_name value c = (False, c)"

text \<open>A \<open>std::map\<close> from names to values: an association list sorted by name (bytes compare unsigned).\<close>

fun str_less :: "string \<Rightarrow> string \<Rightarrow> bool" where
  "str_less _ [] = False"
| "str_less [] (d # ds) = True"
| "str_less (c # cs) (d # ds) =
     ((of_char c :: nat) < of_char d \<or> c = d \<and> str_less cs ds)"

fun items_put :: "string \<Rightarrow> string \<Rightarrow> (string \<times> string) list \<Rightarrow> (string \<times> string) list" where
  "items_put k v [] = [(k, v)]"
| "items_put k v ((k', v') # kvs) =
     (if k = k' then (k, v) # kvs
      else if str_less k k' then (k, v) # (k', v') # kvs
      else (k', v') # items_put k v kvs)"

fun pair_items :: "string list \<Rightarrow> (string \<times> string) list \<Rightarrow> (string \<times> string) list" where
  "pair_items (row # val # ws) items = pair_items ws (items_put row val items)"
| "pair_items _ items = items"

definition str2items :: "string \<Rightarrow> (string \<times> string) list \<Rightarrow> (string \<times> string) list" where
  "str2items str items = pair_items (words_of str) items"

text \<open>
  The loop of \<open>file2items\<close>. The variables \<open>row\<close> and \<open>val\<close> live outside the loop, and an extraction that
  finds no word leaves its variable as it is.
\<close>

definition skip_line :: "string \<Rightarrow> bool" where
  "skip_line line \<longleftrightarrow> line = [] \<or> hd line = CHR ''#''"

fun file_items :: "string list \<Rightarrow> string \<Rightarrow> string \<Rightarrow> (string \<times> string) list \<Rightarrow> (string \<times> string) list" where
  "file_items [] row val items = items"
| "file_items (line # lines) row val items =
     (if skip_line line then file_items lines row val items
      else let (row, val) =
             (case words_of line of [] \<Rightarrow> (row, val) | [w] \<Rightarrow> (w, val) | w # w' # _ \<Rightarrow> (w, w'))
           in file_items lines row val (items_put row val items))"

type_synonym files = "string \<rightharpoonup> string list"

definition file2items :: "files \<Rightarrow> string \<Rightarrow> (string \<times> string) list \<Rightarrow> (string \<times> string) list result" where
  "file2items fs fname items =
     (case fs fname of None \<Rightarrow> Inl (ExitProcess 0) | Some lines \<Rightarrow> Inr (file_items lines [] [] items))"

definition reload_config :: "string \<Rightarrow> Config \<Rightarrow> Config" where
  "reload_config str c =
     fold (\<lambda>(k, v) c. snd (set_mutable_config k v c)) (str2items str []) c"

section \<open>The network file\<close>

text \<open>
  \<open>iss >> n\<close> for an \<open>int\<close>: \<open>None\<close> if nothing is left (the variable keeps its value), else the value (0 if
  there is no number) and the rest of the line, \<open>None\<close> for a stream that has failed.
\<close>

definition read_int :: "string \<Rightarrow> (int \<times> string option) option" where
  "read_int s =
     (let t = dropWhile isspace s;
          u = (case t of [] \<Rightarrow> [] | c # cs \<Rightarrow> if c = CHR ''-'' \<or> c = CHR ''+'' then cs else t);
          ds = takeWhile (\<lambda>c. digit c \<noteq> None) u;
          v = (if t \<noteq> [] \<and> hd t = CHR ''-'' then - digits 0 ds else digits 0 ds)
      in if t = [] then None
         else if ds = [] then Some (0, None)
         else if v < - 2147483648 then Some (- 2147483648, None)
         else if 2147483647 < v then Some (2147483647, None)
         else Some (v, Some (dropWhile (\<lambda>c. digit c \<noteq> None) u)))"

text \<open>Two ports into fresh variables; one that is not written is indeterminate.\<close>

definition read_ports :: "string \<Rightarrow> (int \<times> int) result" where
  "read_ports s =
     (case read_int s of
        Some (trader_port, Some rest) \<Rightarrow>
          (case read_int rest of Some (exchange_port, _) \<Rightarrow> Inr (trader_port, exchange_port) | None \<Rightarrow> Inl Undefined)
      | _ \<Rightarrow> Inl Undefined)"

definition rest_of :: "string \<Rightarrow> string" where
  "rest_of line = dropWhile (\<lambda>c. \<not> isspace c) (dropWhile isspace line)"

definition set_addr :: "nat \<Rightarrow> string \<Rightarrow> string list \<Rightarrow> string list" where
  "set_addr i line addrs = (case words_of (rest_of line) of [] \<Rightarrow> addrs | w # _ \<Rightarrow> addrs[i := w])"

definition add_ports :: "nat \<Rightarrow> nat \<Rightarrow> string \<Rightarrow> Config \<Rightarrow> Config result" where
  "add_ports i j line c =
     bindE (read_ports (rest_of line)) (\<lambda>p.
       let m = trader_port2exchange_port c
       in Inr (c\<lparr>trader_port2exchange_port := m[i := (m ! i)[j := (m ! i ! j) @ [p]]]\<rparr>))"

definition network_item :: "string \<Rightarrow> string \<Rightarrow> Config \<Rightarrow> Config result" where
  "network_item row line c =
     (if row = ''trader0'' then Inr (c\<lparr>traders_addr := set_addr 0 line (traders_addr c)\<rparr>)
      else if row = ''trader1'' then Inr (c\<lparr>traders_addr := set_addr 1 line (traders_addr c)\<rparr>)
      else if row = ''exchange0'' then Inr (c\<lparr>exchanges_addr := set_addr 0 line (exchanges_addr c)\<rparr>)
      else if row = ''exchange1'' then Inr (c\<lparr>exchanges_addr := set_addr 1 line (exchanges_addr c)\<rparr>)
      else if row = ''trader0:exchange0'' then add_ports 0 0 line c
      else if row = ''trader0:exchange1'' then add_ports 0 1 line c
      else if row = ''trader1:exchange0'' then add_ports 1 0 line c
      else if row = ''trader1:exchange1'' then add_ports 1 1 line c
      else Inr c)"

fun network_items :: "string list \<Rightarrow> string \<Rightarrow> Config \<Rightarrow> Config result" where
  "network_items [] row c = Inr c"
| "network_items (line # lines) row c =
     (if skip_line line then network_items lines row c
      else let row = (case words_of line of [] \<Rightarrow> row | w # _ \<Rightarrow> w)
           in bindE (network_item row line c) (network_items lines row))"

definition load_network_config :: "files \<Rightarrow> string \<Rightarrow> Config \<Rightarrow> Config result" where
  "load_network_config fs fname c =
     (case fs fname of
        None \<Rightarrow> Inl (ExitProcess 0)
      | Some lines \<Rightarrow>
          network_items lines []
            (c\<lparr>traders_addr := [[], []], exchanges_addr := [[], []],
               trader_port2exchange_port := [[[], []], [[], []]]\<rparr>))"

section \<open>Loading\<close>

fun apply_items :: "(string \<times> string) list \<Rightarrow> Config \<Rightarrow> Config result" where
  "apply_items [] c = Inr c"
| "apply_items ((k, v) # items) c =
     bindE (set_immutable_config k v c) (\<lambda>(done, c).
       if done then apply_items items c
       else apply_items items (snd (set_mutable_config k v c)))"

definition load_config :: "files \<Rightarrow> string \<Rightarrow> Config \<Rightarrow> Config result" where
  "load_config fs fname c =
     bindE (file2items fs fname []) (\<lambda>items.
       bindE (apply_items items c) (\<lambda>c. load_network_config fs (network_config_file c) c))"

end
