(* ===== verification/Config_Properties.thy ===== *)
theory Config_Properties
  imports Config
begin

text \<open>
  Properties of the configuration (\<open>src/src/common/config.h\<close>): the values that loading establishes, and that
  a network file is read back as it was written.
\<close>

section \<open>Numerals\<close>

lemma digit_char_digit: "d < 10 \<Longrightarrow> digit (digit_char d) = Some (int d)"
  using of_nat_of_char [of "digit_char d", where 'a = int] by (simp add: digit_def digit_char_def of_char_of)

lemma digit_char_nospace: "d < 10 \<Longrightarrow> \<not> isspace (digit_char d)"
proof -
  assume d: "d < 10"
  then have "(of_char (digit_char d) :: nat) = 48 + d" by (simp add: digit_char_def of_char_of)
  then show ?thesis using d by (auto simp: isspace_def)
qed

lemma digits_append:
  "list_all (\<lambda>c. digit c \<noteq> None) cs \<Longrightarrow> digits acc (cs @ ds) = digits (digits acc cs) ds"
  by (induction cs arbitrary: acc) (auto split: option.splits)

lemma show_nat_digits:
  "list_all (\<lambda>c. digit c \<noteq> None) (show_nat n) \<and> list_all (\<lambda>c. \<not> isspace c) (show_nat n)
   \<and> show_nat n \<noteq> [] \<and> digits 0 (show_nat n) = int n"
proof (induction n rule: less_induct)
  case (less n)
  show ?case
  proof (cases "n < 10")
    case True
    then show ?thesis by (simp add: show_nat.simps [of n] digit_char_digit digit_char_nospace)
  next
    case False
    then have "n div 10 < n" by simp
    note IH = less [OF this]
    have "digits 0 (show_nat n) = 10 * int (n div 10) + int (n mod 10)"
      using IH False by (simp add: show_nat.simps [of n] digits_append digit_char_digit)
    also have "\<dots> = int n" by presburger
    finally show ?thesis
      using IH False by (simp add: show_nat.simps [of n] digit_char_digit digit_char_nospace)
  qed
qed

lemma digit_minus [simp]: "digit (CHR ''-'') = None" "digit (CHR ''+'') = None" "digit (CHR '' '') = None"
  by (simp_all add: digit_def)

lemma isspace_simps [simp]: "isspace (CHR '' '')" "\<not> isspace (CHR ''-'')"
  by (simp_all add: isspace_def)

lemma show_int_nospace: "list_all (\<lambda>c. \<not> isspace c) (show_int x)"
  using show_nat_digits by (simp add: show_int_def)

lemma show_nat_hd: "\<exists>c cs. show_nat n = c # cs \<and> digit c \<noteq> None \<and> \<not> isspace c \<and> c \<noteq> CHR ''-'' \<and> c \<noteq> CHR ''+''"
proof -
  have "show_nat n \<noteq> []" "list_all (\<lambda>c. digit c \<noteq> None) (show_nat n)" "list_all (\<lambda>c. \<not> isspace c) (show_nat n)"
    using show_nat_digits by blast+
  then show ?thesis by (cases "show_nat n") (auto intro: ccontr)
qed

text \<open>A number is read up to the first character that is not a digit.\<close>

lemma takeWhile_dropWhile_digits:
  assumes "list_all (\<lambda>c. digit c \<noteq> None) cs" and "rest = [] \<or> digit (hd rest) = None"
  shows "takeWhile (\<lambda>c. digit c \<noteq> None) (cs @ rest) = cs \<and> dropWhile (\<lambda>c. digit c \<noteq> None) (cs @ rest) = rest"
proof -
  have "takeWhile (\<lambda>c. digit c \<noteq> None) rest = [] \<and> dropWhile (\<lambda>c. digit c \<noteq> None) rest = rest"
    using assms(2) by (cases rest) auto
  then show ?thesis using assms(1) by (simp add: list_all_iff)
qed

lemma read_int_show:
  assumes "in_i32 x" and "rest = [] \<or> digit (hd rest) = None"
  shows "read_int (CHR '' '' # show_int x @ rest) = Some (x, Some rest)"
proof -
  define ds where "ds = show_nat (nat \<bar>x\<bar>)"
  have d: "list_all (\<lambda>c. digit c \<noteq> None) ds" "digits 0 ds = \<bar>x\<bar>" "ds \<noteq> []"
    using show_nat_digits [of "nat \<bar>x\<bar>"] by (simp_all add: ds_def)
  obtain c cs where c: "ds = c # cs" "\<not> isspace c" "c \<noteq> CHR ''-''" "c \<noteq> CHR ''+''"
    using show_nat_hd by (metis ds_def)
  have s: "show_int x = (if x < 0 then CHR ''-'' # ds else ds)" by (simp add: show_int_def ds_def)
  note tw = takeWhile_dropWhile_digits [OF d(1) assms(2)]
  show ?thesis
  proof (cases "x < 0")
    case True
    then show ?thesis using tw d assms(1) by (simp add: read_int_def s in_i32_def Let_def)
  next
    case False
    then show ?thesis using tw d assms(1) c by (simp add: read_int_def s in_i32_def Let_def)
  qed
qed

section \<open>Words\<close>

lemma words_acc_append:
  "list_all (\<lambda>c. \<not> isspace c) u \<Longrightarrow> words_acc w (u @ v) = words_acc (w @ u) v"
  by (induction u arbitrary: w) auto

lemma words_of_key:
  assumes "list_all (\<lambda>c. \<not> isspace c) key" and "key \<noteq> []"
  shows "words_of (key @ CHR '' '' # v) = key # words_of v"
  using assms by (simp add: words_of_def words_acc_append)

lemma words_of_word:
  assumes "list_all (\<lambda>c. \<not> isspace c) w" and "w \<noteq> []"
  shows "words_of w = [w]" and "words_of (CHR '' '' # w) = [w]"
  using assms words_acc_append [of w "[]" "[]"] by (simp_all add: words_of_def)

lemma rest_of_key:
  assumes "list_all (\<lambda>c. \<not> isspace c) key" and "key \<noteq> []"
  shows "rest_of (key @ CHR '' '' # v) = CHR '' '' # v"
proof -
  have "dropWhile isspace (key @ CHR '' '' # v) = key @ CHR '' '' # v" using assms by (cases key) auto
  then show ?thesis using assms(1) by (simp add: rest_of_def list_all_iff)
qed

section \<open>The network file\<close>

definition addr_line :: "string \<Rightarrow> string \<Rightarrow> string" where
  "addr_line key addr = key @ '' '' @ addr"

definition port_line :: "string \<Rightarrow> int \<times> int \<Rightarrow> string" where
  "port_line key p = key @ '' '' @ show_int (fst p) @ '' '' @ show_int (snd p)"

definition network_lines :: "Config \<Rightarrow> string list" where
  "network_lines c =
     [addr_line ''trader0'' (traders_addr c ! 0), addr_line ''trader1'' (traders_addr c ! 1),
      addr_line ''exchange0'' (exchanges_addr c ! 0), addr_line ''exchange1'' (exchanges_addr c ! 1)]
     @ map (port_line ''trader0:exchange0'') (trader_port2exchange_port c ! 0 ! 0)
     @ map (port_line ''trader0:exchange1'') (trader_port2exchange_port c ! 0 ! 1)
     @ map (port_line ''trader1:exchange0'') (trader_port2exchange_port c ! 1 ! 0)
     @ map (port_line ''trader1:exchange1'') (trader_port2exchange_port c ! 1 ! 1)"

definition addr_ok :: "string \<Rightarrow> bool" where
  "addr_ok a \<longleftrightarrow> a \<noteq> [] \<and> list_all (\<lambda>c. \<not> isspace c) a"

text \<open>Two traders and two exchanges, with ports that are numbers of type \<open>int\<close>.\<close>

definition network_typed :: "Config \<Rightarrow> bool" where
  "network_typed c \<longleftrightarrow>
     length (traders_addr c) = 2 \<and> length (exchanges_addr c) = 2 \<and> length (trader_port2exchange_port c) = 2
     \<and> list_all (\<lambda>row. length row = 2) (trader_port2exchange_port c)
     \<and> list_all (list_all (list_all (\<lambda>(p, q). in_i32 p \<and> in_i32 q))) (trader_port2exchange_port c)"

lemma list2: "length xs = 2 \<Longrightarrow> xs = [xs ! 0, xs ! 1]"
  by (auto simp: numeral_2_eq_2 length_Suc_conv)

lemma network_items_line:
  assumes "list_all (\<lambda>c. \<not> isspace c) key" and "key \<noteq> []" and "hd key \<noteq> CHR ''#''"
  shows "network_items ((key @ CHR '' '' # v) # lines) row c
    = bindE (network_item key (key @ CHR '' '' # v) c) (network_items lines key)"
  using assms by (simp add: skip_line_def words_of_key)

lemma set_addr_line:
  assumes "list_all (\<lambda>c. \<not> isspace c) key" and "key \<noteq> []" and "addr_ok a"
  shows "set_addr i (key @ CHR '' '' # a) addrs = addrs[i := a]"
  using assms by (simp add: set_addr_def rest_of_key words_of_word addr_ok_def)

lemma add_ports_line:
  assumes "list_all (\<lambda>c. \<not> isspace c) key" and "key \<noteq> []" and "in_i32 (fst p)" and "in_i32 (snd p)"
  shows "add_ports i j (port_line key p) c =
    Inr (c\<lparr>trader_port2exchange_port := (trader_port2exchange_port c)[i := (trader_port2exchange_port c ! i)[j := trader_port2exchange_port c ! i ! j @ [p]]]\<rparr>)"
proof -
  have "read_ports (rest_of (port_line key p)) = Inr p"
    using assms read_int_show [OF assms(3), of "CHR '' '' # show_int (snd p)"] read_int_show [OF assms(4), of "[]"]
    by (simp add: port_line_def rest_of_key read_ports_def)
  then show ?thesis by (simp add: add_ports_def Let_def)
qed

text \<open>The lines of the ports between trader \<open>i\<close> and exchange \<open>j\<close> append these ports.\<close>

lemma network_items_ports:
  assumes "list_all (\<lambda>c. \<not> isspace c) key" and "key \<noteq> []" and "hd key \<noteq> CHR ''#''"
    and item: "\<And>line c. network_item key line c = add_ports i j line c"
    and "list_all (\<lambda>(p, q). in_i32 p \<and> in_i32 q) ps"
    and "i < length (trader_port2exchange_port c)" and "j < length (trader_port2exchange_port c ! i)"
  shows "\<exists>row'. network_items (map (port_line key) ps @ lines) row c = network_items lines row'
    (c\<lparr>trader_port2exchange_port := (trader_port2exchange_port c)[i := (trader_port2exchange_port c ! i)[j := trader_port2exchange_port c ! i ! j @ ps]]\<rparr>)"
  using assms(5-7)
proof (induction ps arbitrary: row c)
  case (Cons p ps)
  let ?m = "trader_port2exchange_port c"
  let ?c = "c\<lparr>trader_port2exchange_port := ?m[i := (?m ! i)[j := ?m ! i ! j @ [p]]]\<rparr>"
  have p: "in_i32 (fst p)" "in_i32 (snd p)" using Cons.prems(1) by auto
  have "network_items (map (port_line key) (p # ps) @ lines) row c = network_items (map (port_line key) ps @ lines) key ?c"
    using network_items_line [OF assms(1-3), of "show_int (fst p) @ '' '' @ show_int (snd p)" "map (port_line key) ps @ lines" row c]
      add_ports_line [OF assms(1,2) p, of i j c] by (simp add: item port_line_def)
  then show ?case using Cons.IH [of ?c key] Cons.prems by simp
qed auto

text \<open>
  (C38) A network file gives back what was written: when the addresses are words and the ports are numbers of type
  \<open>int\<close>, loading a file with one line per address and per pair of ports sets exactly these
  addresses and port tables, whatever the configuration held before, and nothing else.
\<close>

theorem network_file_roundtrip:
  assumes "network_typed d" and "list_all addr_ok (traders_addr d)" and "list_all addr_ok (exchanges_addr d)"
    and "fs fname = Some (network_lines d)"
  shows "load_network_config fs fname c = Inr (c\<lparr>traders_addr := traders_addr d, exchanges_addr := exchanges_addr d,
    trader_port2exchange_port := trader_port2exchange_port d\<rparr>)"
proof -
  obtain t0 t1 e0 e1 where t: "traders_addr d = [t0, t1]" and e: "exchanges_addr d = [e0, e1]"
    using assms(1) list2 by (metis network_typed_def)
  obtain r0 r1 where r: "trader_port2exchange_port d = [r0, r1]"
    using assms(1) list2 by (metis network_typed_def)
  then have "length r0 = 2" "length r1 = 2" using assms(1) by (simp_all add: network_typed_def)
  then obtain p00 p01 p10 p11 where "r0 = [p00, p01]" "r1 = [p10, p11]" using list2 by metis
  note r = r [unfolded this]
  have ok: "addr_ok t0" "addr_ok t1" "addr_ok e0" "addr_ok e1"
    "list_all (\<lambda>(p, q). in_i32 p \<and> in_i32 q) p00" "list_all (\<lambda>(p, q). in_i32 p \<and> in_i32 q) p01"
    "list_all (\<lambda>(p, q). in_i32 p \<and> in_i32 q) p10" "list_all (\<lambda>(p, q). in_i32 p \<and> in_i32 q) p11"
    using assms(1-3) by (simp_all add: t e r network_typed_def)
  let ?c = "c\<lparr>traders_addr := [t0, t1], exchanges_addr := [e0, e1], trader_port2exchange_port := [[[], []], [[], []]]\<rparr>"
  let ?l3 = "map (port_line ''trader1:exchange1'') p11"
  let ?l2 = "map (port_line ''trader1:exchange0'') p10 @ ?l3"
  let ?l1 = "map (port_line ''trader0:exchange1'') p01 @ ?l2"
  let ?l0 = "map (port_line ''trader0:exchange0'') p00 @ ?l1"
  have "load_network_config fs fname c = network_items ?l0 ''exchange1'' ?c"
    using ok(1-4) network_items_line [of "''trader0''" t0] network_items_line [of "''trader1''" t1]
      network_items_line [of "''exchange0''" e0] network_items_line [of "''exchange1''" e1]
      set_addr_line [of "''trader0''" t0] set_addr_line [of "''trader1''" t1] set_addr_line [of "''exchange0''" e0] set_addr_line [of "''exchange1''" e1]
    by (cases c) (simp add: load_network_config_def assms(4) network_lines_def addr_line_def t e r network_item_def isspace_def)
  also obtain ra where "\<dots> = network_items ?l1 ra (?c\<lparr>trader_port2exchange_port := [[p00, []], [[], []]]\<rparr>)"
    using network_items_ports [OF _ _ _ _ ok(5), of "''trader0:exchange0''" 0 0 ?c ?l1 "''exchange1''"]
    by (auto simp: network_item_def isspace_def)
  also obtain rb where "\<dots> = network_items ?l2 rb (?c\<lparr>trader_port2exchange_port := [[p00, p01], [[], []]]\<rparr>)"
    using network_items_ports [OF _ _ _ _ ok(6), of "''trader0:exchange1''" 0 1 "?c\<lparr>trader_port2exchange_port := [[p00, []], [[], []]]\<rparr>" ?l2 ra]
    by (auto simp: network_item_def isspace_def)
  also obtain rc where "\<dots> = network_items ?l3 rc (?c\<lparr>trader_port2exchange_port := [[p00, p01], [p10, []]]\<rparr>)"
    using network_items_ports [OF _ _ _ _ ok(7), of "''trader1:exchange0''" 1 0 "?c\<lparr>trader_port2exchange_port := [[p00, p01], [[], []]]\<rparr>" ?l3 rb]
    by (auto simp: network_item_def isspace_def)
  also obtain rd where "\<dots> = network_items [] rd (?c\<lparr>trader_port2exchange_port := [[p00, p01], [p10, p11]]\<rparr>)"
    using network_items_ports [OF _ _ _ _ ok(8), of "''trader1:exchange1''" 1 1 "?c\<lparr>trader_port2exchange_port := [[p00, p01], [p10, []]]\<rparr>" "[]" rc]
    by (auto simp: network_item_def isspace_def)
  finally show ?thesis by (simp add: t e r)
qed

definition ex_network :: Config where
  "ex_network = initConfig\<lparr>traders_addr := [''10.0.0.1'', ''10.0.0.2''], exchanges_addr := [''10.0.0.3'', ''10.0.0.4''],
     trader_port2exchange_port := [[[(5555, 6666), (5556, 6667), (5557, 6668)], []], [[], [(-1, 80)]]]\<rparr>"

theorem network_file_roundtrip_witness:
  "load_network_config [''network.host'' \<mapsto> network_lines ex_network] ''network.host'' initConfig
     = Inr (initConfig\<lparr>traders_addr := [''10.0.0.1'', ''10.0.0.2''], exchanges_addr := [''10.0.0.3'', ''10.0.0.4''],
         trader_port2exchange_port := [[[(5555, 6666), (5556, 6667), (5557, 6668)], []], [[], [(-1, 80)]]]\<rparr>)"
  using network_file_roundtrip [of ex_network "[''network.host'' \<mapsto> network_lines ex_network]" "''network.host''" initConfig]
  by (simp add: ex_network_def network_typed_def addr_ok_def isspace_def in_i32_def)

section \<open>What loading establishes\<close>

definition folder_ok :: "string \<Rightarrow> bool" where
  "folder_ok f \<longleftrightarrow> f = [] \<or> last f = CHR ''/''"

definition settings_typed :: "Config \<Rightarrow> bool" where
  "settings_typed c \<longleftrightarrow>
     folder_ok (data_folder c) \<and> folder_ok (trade_output_folder c) \<and> network_config_file c \<noteq> []
     \<and> in_i32 (partition_idx c) \<and> in_i32 (sliding_window_size c) \<and> in_i32 (stock_num c) \<and> in_i32 (trader_num c)
     \<and> in_i32 (exchange_num c) \<and> in_i32 (loader_nx_matrix c) \<and> in_i32 (loader_ny_matrix c) \<and> in_i32 (loader_nz_matrix c)
     \<and> in_i32 (load_mode c)"

text \<open>The settings without the network tables.\<close>

definition settings :: "Config \<Rightarrow> Config" where
  "settings c = c\<lparr>traders_addr := [], exchanges_addr := [], trader_port2exchange_port := []\<rparr>"

lemma settings_typed_settings: "settings_typed (settings c) = settings_typed c"
  by (simp add: settings_typed_def settings_def)

lemma atoi_range [simp]: "in_i32 (atoi s)"
  by (simp add: atoi_def Let_def)

lemma end_slash_ok [simp]: "folder_ok (end_slash f)"
  by (simp add: folder_ok_def end_slash_def)

lemma set_immutable_typed:
  "set_immutable_config k v c = Inr (b, c') \<Longrightarrow> settings_typed c \<Longrightarrow> settings_typed c'"
  by (auto simp: set_immutable_config_def settings_typed_def split: if_splits)

lemma set_immutable_fixed:
  "set_immutable_config k v c = Inr (b, c') \<Longrightarrow> partition_idx c' = partition_idx c \<and> load_mode c' = load_mode c"
  by (auto simp: set_immutable_config_def split: if_splits)

lemma apply_items_typed:
  "apply_items items c = Inr c' \<Longrightarrow> settings_typed c
    \<Longrightarrow> settings_typed c' \<and> partition_idx c' = partition_idx c \<and> load_mode c' = load_mode c"
proof (induction items arbitrary: c)
  case (Cons kv items)
  obtain k v where kv: "kv = (k, v)" by (cases kv)
  then obtain b d where d: "set_immutable_config k v c = Inr (b, d)" "apply_items items d = Inr c'"
    using Cons.prems(1) by (auto simp: bindE_eq_Inr set_mutable_config_def split: if_splits)
  then show ?case using Cons.IH [OF d(2)] set_immutable_typed [OF d(1) Cons.prems(2)] set_immutable_fixed [OF d(1)] by simp
qed simp

lemma read_int_range: "read_int s = Some (x, r) \<Longrightarrow> in_i32 x"
  by (auto simp: read_int_def in_i32_def Let_def split: if_splits)

lemma read_ports_range: "read_ports s = Inr p \<Longrightarrow> in_i32 (fst p) \<and> in_i32 (snd p)"
  by (auto simp: read_ports_def dest: read_int_range split: option.splits prod.splits)

lemma list_all_update: "list_all P xs \<Longrightarrow> P x \<Longrightarrow> list_all P (xs[i := x])"
  by (induction xs arbitrary: i) (auto split: nat.splits)

lemma add_ports_typed:
  assumes "add_ports i j line c = Inr c'" and "network_typed c" and "i < 2" and "j < 2"
  shows "network_typed c' \<and> settings c' = settings c"
proof -
  let ?m = "trader_port2exchange_port c"
  obtain p where p: "read_ports (rest_of line) = Inr p"
    and c: "c' = c\<lparr>trader_port2exchange_port := ?m[i := (?m ! i)[j := ?m ! i ! j @ [p]]]\<rparr>"
    using assms(1) by (auto simp: add_ports_def Let_def bindE_eq_Inr)
  have i: "i < length ?m" "length (?m ! i) = 2" "list_all (list_all (\<lambda>(p, q). in_i32 p \<and> in_i32 q)) (?m ! i)"
    using assms(2,3) by (auto simp: network_typed_def list_all_length)
  have "list_all (\<lambda>(p, q). in_i32 p \<and> in_i32 q) (?m ! i ! j)" using i(2,3) assms(4) by (simp add: list_all_length)
  then have "list_all (\<lambda>(p, q). in_i32 p \<and> in_i32 q) (?m ! i ! j @ [p])"
    using read_ports_range [OF p] by (simp add: case_prod_beta)
  then show ?thesis using assms(2) i by (simp add: c network_typed_def settings_def list_all_update)
qed

lemma network_item_typed:
  assumes "network_item row line c = Inr c'" and "network_typed c"
  shows "network_typed c' \<and> settings c' = settings c"
proof -
  have "length (set_addr i l as) = length as" for i l as by (simp add: set_addr_def split: list.splits)
  then have a: "network_typed (c\<lparr>traders_addr := set_addr i l (traders_addr c)\<rparr>)"
    "network_typed (c\<lparr>exchanges_addr := set_addr i l (exchanges_addr c)\<rparr>)" for i l
    using assms(2) by (simp_all add: network_typed_def)
  show ?thesis using assms a add_ports_typed [OF _ assms(2)]
    by (auto simp: network_item_def settings_def split: if_splits)
qed

lemma network_items_typed:
  "network_items lines row c = Inr c' \<Longrightarrow> network_typed c \<Longrightarrow> network_typed c' \<and> settings c' = settings c"
proof (induction lines arbitrary: row c)
  case (Cons line lines)
  then show ?case
    by (cases "skip_line line") (auto simp: Let_def bindE_eq_Inr dest: network_item_typed split: list.splits)
qed simp

lemma load_network_typed:
  assumes "load_network_config fs fname c = Inr c'"
  shows "network_typed c' \<and> settings c' = settings c"
  using assms network_items_typed
  by (auto simp: load_network_config_def network_typed_def settings_def split: option.splits)

text \<open>
  After \<open>load_config\<close> the tables have their sizes, numbers are in the range of \<open>int\<close>, folders end in a slash; what
  the command line sets before is kept.
\<close>

lemma load_config_typed:
  assumes "load_config fs fname c = Inr c'" and "settings_typed c"
  shows "settings_typed c' \<and> network_typed c' \<and> partition_idx c' = partition_idx c \<and> load_mode c' = load_mode c"
proof -
  obtain items d where d: "apply_items items c = Inr d" "load_network_config fs (network_config_file d) d = Inr c'"
    using assms(1) by (auto simp: load_config_def bindE_eq_Inr)
  have "settings c' = settings d" using load_network_typed [OF d(2)] by simp
  then have "settings_typed c' = settings_typed d" "partition_idx c' = partition_idx d" "load_mode c' = load_mode d"
    using settings_typed_settings [of c'] settings_typed_settings [of d] by (auto simp: settings_def dest: arg_cong [of _ _ partition_idx] arg_cong [of _ _ load_mode])
  then show ?thesis using apply_items_typed [OF d(1) assms(2)] load_network_typed [OF d(2)] by simp
qed

end
