(* ===== verification/Exchange_Core.thy ===== *)
theory Exchange_Core
  imports Sequencing Sliding_Window Block_Queue Wire Config "HOL-Library.Signed_Division"
begin

text \<open>
  The exchange process: \<open>src/src/exchange/exchange.cpp\<close> (one engine and one sliding window per stock),
  the order receiver \<open>exchange/order_receiver.cpp\<close> and the trade sender \<open>exchange/trade_sender.cpp\<close>.
  \<open>exReceiveOrder\<close> is the receiver thread's call, \<open>comsumeOrder\<close> and \<open>runRound\<close> are what the thread of a
  stock does; the messages for the traders leave through the queue of the trade sender.
\<close>

section \<open>The state\<close>

record Exchange =
  stock_exchange :: "int \<rightharpoonup> StockExchange"
  order_buffer :: "int \<rightharpoonup> Order SlidingWindow"

text \<open>An \<open>Order\<close> of a fresh vector is zero.\<close>

definition zeroOrder :: Order where
  "zeroOrder = \<lparr>o_stk_code = 0, o_order_id = 0, o_direction = 0, o_type = 0, o_price = 0, o_volume = 0\<rparr>"

definition stk_codes :: "Config \<Rightarrow> int list" where
  "stk_codes cfg = filter (\<lambda>i. i smod exchange_num cfg = partition_idx cfg) [1..stock_num cfg]"

text \<open>A negative window size is too large for the vectors of the first window.\<close>

definition newExchange :: "Config \<Rightarrow> Exchange result" where
  "newExchange cfg =
     (if exchange_num cfg = 0 \<and> 1 \<le> stock_num cfg then Inl Undefined
      else if sliding_window_size cfg < 0 \<and> stk_codes cfg \<noteq> [] then Inl LengthError
      else Inr \<lparr>stock_exchange = (\<lambda>code. if code \<in> set (stk_codes cfg) then Some (newStockExchange code) else None),
                order_buffer = (\<lambda>code. if code \<in> set (stk_codes cfg)
                  then Some (newSlidingWindow zeroOrder (nat (sliding_window_size cfg))) else None)\<rparr>)"

section \<open>Operations\<close>

text \<open>
  \<open>Exchange::receiveOrder\<close>: the slot is \<open>(order_id - 1) % sliding_window_size\<close>, a signed remainder that is
  converted to an unsigned index. An exception of \<open>at\<close> or \<open>put\<close> is caught and the order is dropped; the
  result says whether it was stored.
\<close>

definition exReceiveOrder :: "Config \<Rightarrow> Order \<Rightarrow> Exchange \<Rightarrow> (bool \<times> Exchange) result" where
  "exReceiveOrder cfg order ex =
     (if sliding_window_size cfg = 0 then Inl Undefined
      else let window_idx = i32 (o_order_id order - 1) smod sliding_window_size cfg
           in (case order_buffer ex (o_stk_code order) of
                 None \<Rightarrow> Inr (False, ex)
               | Some w \<Rightarrow>
                   if window_idx < 0 then Inl Undefined
                   else (case sw_put order (nat window_idx) w of
                           Inr w' \<Rightarrow> Inr (True, ex\<lparr>order_buffer := (order_buffer ex)(o_stk_code order \<mapsto> w')\<rparr>)
                         | Inl (UbiquantException c) \<Rightarrow> Inr (False, ex)
                         | Inl e \<Rightarrow> Inl e)))"

text \<open>Orders that are received one after the other.\<close>

fun receiveAll :: "Config \<Rightarrow> Order list \<Rightarrow> Exchange \<Rightarrow> Exchange result" where
  "receiveAll cfg [] ex = Inr ex"
| "receiveAll cfg (order # orders) ex =
     bindE (exReceiveOrder cfg order ex) (\<lambda>(stored, ex). receiveAll cfg orders ex)"

text \<open>The loop of the order receiver over one message: every order is received before the next one is read.\<close>

fun receiveElems :: "Config \<Rightarrow> nat \<Rightarrow> byte list \<Rightarrow> nat \<Rightarrow> Exchange \<Rightarrow> Exchange result" where
  "receiveElems cfg 0 buf offset ex = Inr ex"
| "receiveElems cfg (Suc n) buf offset ex =
     bindE (get_elem_from_buf 32 dec_order buf offset) (\<lambda>(order, offset).
     bindE (exReceiveOrder cfg order ex) (\<lambda>(stored, ex). receiveElems cfg n buf offset ex))"

definition orderReceiver :: "Config \<Rightarrow> byte list \<Rightarrow> Exchange \<Rightarrow> Exchange result" where
  "orderReceiver cfg msg ex =
     bindE (msg_code msg) (\<lambda>(code, offset).
       if code \<noteq> ORDER_MSG then Inl (UbiquantException 1)
       else bindE (get_elem_from_buf 4 of_le (c_str msg) offset) (\<lambda>(cnt, offset).
         receiveElems cfg (nat cnt) (c_str msg) offset ex))"

text \<open>
  \<open>Exchange::comsumeOrder\<close>: \<open>order_buffer[stk_code]\<close> makes an empty window for an unknown code. The
  orders, the acknowledgement if there are any, and the exchange.
\<close>

definition comsumeOrder :: "int \<Rightarrow> Exchange \<Rightarrow> (Order list \<times> OrderAck option \<times> Exchange) result" where
  "comsumeOrder code ex =
     (let w = (case order_buffer ex code of None \<Rightarrow> newSlidingWindow zeroOrder 0 | Some w \<Rightarrow> w)
      in bindE (sw_drain w) (\<lambda>(orders, w).
           Inr (orders,
                if orders = [] then None
                else Some \<lparr>a_stk_code = code, a_order_id = o_order_id (last orders)\<rparr>,
                ex\<lparr>order_buffer := (order_buffer ex)(code \<mapsto> w)\<rparr>)))"

text \<open>
  One round of \<open>StockExchange::run\<close>, with the messages it puts into the queue of the trade sender: the
  acknowledgement before the orders are handled, then the trades.
\<close>

definition runRound :: "int \<Rightarrow> Exchange \<Rightarrow> (byte list list \<times> Exchange) result" where
  "runRound code ex =
     (case stock_exchange ex code of
        None \<Rightarrow> Inl Undefined
      | Some s \<Rightarrow>
          bindE (comsumeOrder code ex) (\<lambda>(orders, ack, ex).
            bindE (receiveOrders orders s) (\<lambda>s'.
              Inr ((case ack of None \<Rightarrow> [] | Some a \<Rightarrow> [ack_msg a]) @ map trade_msg (new_trades s s'),
                   ex\<lparr>stock_exchange := (stock_exchange ex)(code \<mapsto> s')\<rparr>))))"

text \<open>\<open>Exchange::handleSingleOrder\<close>, for local runs; a missing engine is a null pointer.\<close>

definition handleSingleOrder :: "Order \<Rightarrow> Exchange \<Rightarrow> (int \<times> Exchange) result" where
  "handleSingleOrder order ex =
     (if \<not> (1 \<le> o_stk_code order \<and> o_stk_code order \<le> 10) then Inl Abort
      else case stock_exchange ex (o_stk_code order) of
          None \<Rightarrow> Inl Undefined
        | Some s \<Rightarrow>
            bindE (receiveOrder order s) (\<lambda>(ret, s).
              Inr (0, ex\<lparr>stock_exchange := (stock_exchange ex)(o_stk_code order \<mapsto> s)\<rparr>)))"

section \<open>The trade sender\<close>

definition newTradeQueue :: "Config \<Rightarrow> byte list BlockQueue result" where
  "newTradeQueue cfg =
     (let cap = i32 (sliding_window_size cfg * stock_num cfg) sdiv 2
      in if cap < 0 then Inl LengthError else Inr (newBlockQueue [] (nat cap)))"

definition put_trade :: "Trade \<Rightarrow> byte list BlockQueue \<Rightarrow> byte list BlockQueue option result" where
  "put_trade t q = bq_put (trade_msg t) q"

definition put_order_ack :: "OrderAck \<Rightarrow> byte list BlockQueue \<Rightarrow> byte list BlockQueue option result" where
  "put_order_ack a q = bq_put (ack_msg a) q"

section \<open>Lemmas\<close>

text \<open>
  To receive the orders of a message while it is read is the same as to read it first: both calls can only fail by undefined
  behaviour.
\<close>

lemma exReceiveOrder_error: "exReceiveOrder cfg order ex = Inl e \<Longrightarrow> e = Undefined"
  by (auto simp: exReceiveOrder_def sw_put_def Let_def split: if_splits option.splits)

lemma get_elems_error: "get_elems sz dec n buf offset = Inl e \<Longrightarrow> e = Undefined"
  by (induction n arbitrary: offset) (auto simp: get_elem_from_buf_def bindE_def split: if_splits sum.splits)

lemma receiveElems_eq:
  "receiveElems cfg n buf offset ex = bindE (get_elems 32 dec_order n buf offset) (\<lambda>(orders, offset). receiveAll cfg orders ex)"
proof (induction n arbitrary: offset ex)
  case (Suc n)
  show ?case
  proof (cases "get_elem_from_buf 32 dec_order buf offset")
    case (Inr r)
    obtain x k where r: "r = (x, k)" by (cases r)
    show ?thesis
    proof (cases "exReceiveOrder cfg x ex")
      case (Inl e)
      then show ?thesis using Inr r exReceiveOrder_error [OF Inl] get_elems_error [of 32 dec_order n buf k]
        by (cases "get_elems 32 dec_order n buf k") auto
    next
      case (Inr q)
      then show ?thesis using \<open>get_elem_from_buf 32 dec_order buf offset = Inr r\<close> r Suc.IH
        by (cases "get_elems 32 dec_order n buf k") (auto split: prod.splits)
    qed
  qed simp
qed simp

lemma orderReceiver_eq: "orderReceiver cfg msg ex = bindE (parse_orders msg) (\<lambda>orders. receiveAll cfg orders ex)"
  by (auto simp: orderReceiver_def parse_orders_def receiveElems_eq bindE_assoc intro!: bindE_cong split: prod.splits)

text \<open>
  What the exchange has received: \<open>src code k\<close> is the order of stock \<open>code\<close> with the id \<open>k + 1\<close>, \<open>n code\<close>
  is the number of orders that its engine has taken, and the window holds the orders \<open>m code\<close>.
\<close>

type_synonym source = "int \<Rightarrow> nat \<Rightarrow> Order"

definition source_ok :: "source \<Rightarrow> int set \<Rightarrow> bool" where
  "source_ok src codes \<longleftrightarrow>
     (\<forall>code \<in> codes. \<forall>k < 2147483646. o_stk_code (src code k) = code \<and> o_order_id (src code k) = int k + 1
        \<and> wf_order (src code k))"

definition taken :: "source \<Rightarrow> int \<Rightarrow> nat \<Rightarrow> Order list" where
  "taken src code n = map (src code) [0..<n]"

definition stock_ok :: "source \<Rightarrow> nat \<Rightarrow> int \<Rightarrow> nat \<Rightarrow> (nat \<rightharpoonup> Order) \<Rightarrow> StockExchange \<Rightarrow> Order SlidingWindow \<Rightarrow> bool" where
  "stock_ok src W code n m s w \<longleftrightarrow>
     sw_rep w n m \<and> sw_capacity w = W
     \<and> (\<forall>k x. m k = Some x \<longrightarrow> x = src code k \<and> k < 2147483646) \<and> n \<le> 2147483646
     \<and> engine_inv s \<and> stk_code s = code \<and> not_ready_orders s = [] \<and> last_commit_order_id s = int n
     \<and> produced s = fst (spec_run code (taken src code n) ([], []))
     \<and> abs_book (decl_book s) = snd (spec_run code (taken src code n) ([], []))"

lemma take_ready_taken:
  assumes "source_ok src codes" "code \<in> codes" "n + l \<le> 2147483646"
  defines "os \<equiv> map (src code) [n..<n + l]"
  shows "map o_order_id os = [int n + 1..int n + int l]"
proof -
  have "map o_order_id os = map (\<lambda>k. int k + 1) [n..<n + l]"
    unfolding os_def using assms(1-3) by (auto simp: source_ok_def)
  also have "\<dots> = [int n + 1..int n + int l]"
  proof (rule nth_equalityI)
    fix i assume "i < length (map (\<lambda>k. int k + 1) [n..<n + l])"
    then show "map (\<lambda>k. int k + 1) [n..<n + l] ! i = [int n + 1..int n + int l] ! i" by (simp add: nth_upto)
  qed simp
  finally show ?thesis .
qed

lemma receive_taken:
  assumes ok: "source_ok src codes" "code \<in> codes" "n + l \<le> 2147483646"
    and s: "engine_inv s" "stk_code s = code" "not_ready_orders s = []" "last_commit_order_id s = int n"
  defines "os \<equiv> map (src code) [n..<n + l]"
  shows "\<exists>s'. receiveOrders os s = Inr s' \<and> engine_inv s' \<and> not_ready_orders s' = []
    \<and> last_commit_order_id s' = int (n + l) \<and> stk_code s' = code
    \<and> produced s' = produced s @ fst (spec_run code os (abs_book (decl_book s)))
    \<and> abs_book (decl_book s') = snd (spec_run code os (abs_book (decl_book s)))"
proof -
  have ids: "map o_order_id os = [int n + 1..int n + int (length os)]"
    using take_ready_taken [OF ok] by (simp add: os_def)
  then have d: "distinct (map o_order_id os)" by (simp add: distinct_upto)
  have "sorted (map o_order_id os)" unfolding ids by (rule sorted_upto)
  then have bf: "best_first id_key os = os"
    using best_first_sort [OF d] by (simp add: sorted_sort_id sort_key_id_if_sorted)
  have tr: "take_ready (int n) os = (os, [])"
    using take_ready_prefix [OF ids, of "[]"] by simp
  have "list_all (waits code (int n)) os"
    using ok by (auto simp: os_def list_all_iff waits_def source_ok_def)
  moreover have "waiting s = []" using s(3) by (simp add: waiting_def)
  ultimately obtain s' where "receiveOrders os s = Inr s'" "engine_inv s'" "waiting s' = []"
    "last_commit_order_id s' = int n + int (length os)" "stk_code s' = code"
    "produced s' = produced s @ fst (spec_run code os (abs_book (decl_book s)))"
    "abs_book (decl_book s') = snd (spec_run code os (abs_book (decl_book s)))"
    using receiveOrders_run [OF s(1), of os os "[]"] s d bf tr by auto
  moreover from this(3) have "not_ready_orders s' = []" using mset_waiting [of s'] by simp
  ultimately show ?thesis by (simp add: os_def)
qed

lemma spec_run_taken:
  "spec_run code (taken src code (n + l)) ab =
     (case spec_run code (taken src code n) ab of (ts, ab1) \<Rightarrow>
        (case spec_run code (map (src code) [n..<n + l]) ab1 of (ts2, ab2) \<Rightarrow> (ts @ ts2, ab2)))"
  unfolding taken_def upt_add_eq_append [OF le0, of n l] map_append by (rule spec_run_append)

text \<open>An order arrives that the window has room for.\<close>

lemma stock_ok_arrive:
  assumes "stock_ok src W code n m s w" and "n \<le> k" "k < n + W" "m k = None" "k < 2147483646"
  shows "\<exists>w'. sw_put (src code k) (k mod W) w = Inr w' \<and> stock_ok src W code n (m(k \<mapsto> src code k)) s w'"
proof -
  have r: "sw_rep w n m" "sw_capacity w = W" using assms(1) by (simp_all add: stock_ok_def)
  obtain w' where w': "sw_put (src code k) (k mod W) w = Inr w'" "sw_rep w' n (m(k \<mapsto> src code k))" "sw_capacity w' = W"
    using sw.put_new [OF r(1), of k "src code k"] assms(2-4) r(2) by auto
  have "stock_ok src W code n (m(k \<mapsto> src code k)) s w'"
    using assms(1,5) w'(2,3) by (simp add: stock_ok_def)
  then show ?thesis using w'(1) by blast
qed

text \<open>The engine drains the window and commits.\<close>

lemma drained_taken:
  assumes "\<forall>i < length xs. m (n + i) = Some (xs ! i)" and "\<And>k x. m k = Some x \<Longrightarrow> x = src code k"
  shows "xs = map (src code) [n..<n + length xs]"
  by (rule nth_equalityI) (use assms in \<open>auto\<close>)

lemma stock_ok_round:
  assumes ok: "source_ok src codes" "code \<in> codes" and st: "stock_ok src W code n m s w"
  shows "\<exists>l w' s'. sw_drain w = Inr (map (src code) [n..<n + l], w')
    \<and> receiveOrders (map (src code) [n..<n + l]) s = Inr s'
    \<and> stock_ok src W code (n + l) (m |` {n + l..}) s' w'
    \<and> (\<forall>i < l. m (n + i) \<noteq> None) \<and> m (n + l) = None"
proof -
  have r: "sw_rep w n m" and c: "sw_capacity w = W" and src: "\<And>k x. m k = Some x \<Longrightarrow> x = src code k \<and> k < 2147483646"
    and n: "n \<le> 2147483646" and s: "engine_inv s" "stk_code s = code" "not_ready_orders s = []" "last_commit_order_id s = int n"
    and p: "produced s = fst (spec_run code (taken src code n) ([], []))"
      "abs_book (decl_book s) = snd (spec_run code (taken src code n) ([], []))"
    using st by (auto simp: stock_ok_def)
  obtain xs w' where xs: "sw_drain w = Inr (xs, w')" "sw_capacity w' = W"
    "sw_rep w' (n + length xs) (m |` {n + length xs..})"
    "\<forall>i < length xs. m (n + i) = Some (xs ! i)" "m (n + length xs) = None"
    using sw_drain_run [OF r] c by blast
  have eq: "xs = map (src code) [n..<n + length xs]"
    by (rule drained_taken [OF xs(4)]) (use src in blast)
  have "n + length xs \<le> 2147483646"
  proof (cases "length xs")
    case (Suc j)
    then have "n + j < 2147483646" using src xs(4) by (metis lessI)
    then show ?thesis using Suc by simp
  qed (use n in simp)
  from receive_taken [OF ok this s] obtain s' where s': "receiveOrders (map (src code) [n..<n + length xs]) s = Inr s'"
    "engine_inv s'" "not_ready_orders s' = []" "last_commit_order_id s' = int (n + length xs)" "stk_code s' = code"
    "produced s' = produced s @ fst (spec_run code (map (src code) [n..<n + length xs]) (abs_book (decl_book s)))"
    "abs_book (decl_book s') = snd (spec_run code (map (src code) [n..<n + length xs]) (abs_book (decl_book s)))"
    by blast
  have "stock_ok src W code (n + length xs) (m |` {n + length xs..}) s' w'"
    using xs s' src p \<open>n + length xs \<le> 2147483646\<close>
    by (auto simp: stock_ok_def spec_run_taken restrict_map_def split: prod.splits if_splits)
  then show ?thesis using xs s'(1) eq by (intro exI [of _ "length xs"] exI [of _ w'] exI [of _ s']) auto
qed

text \<open>The whole exchange.\<close>

definition exchange_ok :: "source \<Rightarrow> Config \<Rightarrow> (int \<Rightarrow> nat) \<Rightarrow> (int \<Rightarrow> nat \<rightharpoonup> Order) \<Rightarrow> Exchange \<Rightarrow> bool" where
  "exchange_ok src cfg n m ex \<longleftrightarrow>
     0 < sliding_window_size cfg \<and>
     (\<forall>code \<in> set (stk_codes cfg). \<exists>s w. stock_exchange ex code = Some s \<and> order_buffer ex code = Some w
        \<and> stock_ok src (nat (sliding_window_size cfg)) code (n code) (m code) s w)"

lemma exchange_ok_new:
  assumes "newExchange cfg = Inr ex" and "0 < sliding_window_size cfg"
  shows "exchange_ok src cfg (\<lambda>_. 0) (\<lambda>_. Map.empty) ex"
  using assms engine_inv_new sw_rep_new [of "nat (sliding_window_size cfg)" zeroOrder]
  by (auto simp: exchange_ok_def newExchange_def stock_ok_def taken_def newStockExchange_def abs_book_def
      emptyBook_def buy_side_def sell_side_def newSlidingWindow_def split: if_splits)

lemma smod_nat: "int k smod int W = int (k mod W)"
  by (simp add: signed_modulo_int_def signed_divide_int_def minus_div_mult_eq_mod
      zmod_int sgn_if minus_mult_div_eq_mod)

lemma exchange_ok_arrive:
  assumes "exchange_ok src cfg n m ex" and "source_ok src (set (stk_codes cfg))" and "code \<in> set (stk_codes cfg)"
    and "n code \<le> k" "k < n code + nat (sliding_window_size cfg)" "m code k = None" "k < 2147483646"
  shows "\<exists>ex'. exReceiveOrder cfg (src code k) ex = Inr (True, ex')
    \<and> exchange_ok src cfg n (m(code := (m code)(k \<mapsto> src code k))) ex' \<and> stock_exchange ex' = stock_exchange ex"
proof -
  let ?W = "nat (sliding_window_size cfg)"
  obtain s w where sw: "stock_exchange ex code = Some s" "order_buffer ex code = Some w"
    "stock_ok src ?W code (n code) (m code) s w" and W: "0 < sliding_window_size cfg"
    using assms(1,3) by (auto simp: exchange_ok_def)
  obtain w' where w': "sw_put (src code k) (k mod ?W) w = Inr w'"
    "stock_ok src ?W code (n code) ((m code)(k \<mapsto> src code k)) s w'"
    using stock_ok_arrive [OF sw(3) assms(4-7)] by blast
  have "i32 (o_order_id (src code k) - 1) = int k" "o_stk_code (src code k) = code"
    using assms(2,3,7) by (auto simp: source_ok_def in_i32_def intro!: i32_id)
  moreover have "int k smod sliding_window_size cfg = int (k mod ?W)" using smod_nat [of k ?W] W by simp
  ultimately have "exReceiveOrder cfg (src code k) ex = Inr (True, ex\<lparr>order_buffer := (order_buffer ex)(code \<mapsto> w')\<rparr>)"
    using sw w' W by (simp add: exReceiveOrder_def)
  moreover have "exchange_ok src cfg n (m(code := (m code)(k \<mapsto> src code k))) (ex\<lparr>order_buffer := (order_buffer ex)(code \<mapsto> w')\<rparr>)"
    using assms(1) sw w' by (auto simp: exchange_ok_def)
  ultimately show ?thesis by simp
qed

lemma exchange_ok_round:
  assumes "exchange_ok src cfg n m ex" and "source_ok src (set (stk_codes cfg))" and "code \<in> set (stk_codes cfg)"
  shows "\<exists>l ts ex'. runRound code ex =
      Inr ((if l = 0 then [] else [ack_msg \<lparr>a_stk_code = code, a_order_id = int (n code + l)\<rparr>]) @ map trade_msg ts, ex')
    \<and> exchange_ok src cfg (n(code := n code + l)) (m(code := m code |` {n code + l..})) ex'
    \<and> fst (spec_run code (taken src code (n code + l)) ([], []))
        = fst (spec_run code (taken src code (n code)) ([], [])) @ ts
    \<and> (\<forall>i < l. m code (n code + i) \<noteq> None) \<and> m code (n code + l) = None"
proof -
  let ?W = "nat (sliding_window_size cfg)" and ?n = "n code"
  obtain s w where sw: "stock_exchange ex code = Some s" "order_buffer ex code = Some w"
    and st: "stock_ok src ?W code ?n (m code) s w"
    using assms(1,3) by (auto simp: exchange_ok_def)
  from stock_ok_round [OF assms(2,3) st] obtain l w' s' where
    l: "sw_drain w = Inr (map (src code) [?n..<?n + l], w')" "receiveOrders (map (src code) [?n..<?n + l]) s = Inr s'"
    and st': "stock_ok src ?W code (?n + l) (m code |` {?n + l..}) s' w'"
    and m: "\<forall>i < l. m code (?n + i) \<noteq> None" "m code (?n + l) = None" by blast
  have "o_order_id (last (map (src code) [?n..<?n + l])) = int (?n + l)" if "0 < l"
  proof -
    have "l - 1 < l" using that by simp
    with m(1) have "m code (?n + (l - 1)) \<noteq> None" by blast
    then have "?n + (l - 1) < 2147483646" using st by (auto simp: stock_ok_def)
    then have "?n + l - 1 < 2147483646" using that by simp
    moreover have "last [?n..<?n + l] = ?n + l - 1" using that by simp
    ultimately show ?thesis
      using that assms(2,3) by (simp add: last_map source_ok_def)
  qed
  then have r: "runRound code ex =
      Inr ((if l = 0 then [] else [ack_msg \<lparr>a_stk_code = code, a_order_id = int (?n + l)\<rparr>]) @ map trade_msg (new_trades s s'),
        ex\<lparr>order_buffer := (order_buffer ex)(code \<mapsto> w'), stock_exchange := (stock_exchange ex)(code \<mapsto> s')\<rparr>)"
    using sw l by (simp add: runRound_def comsumeOrder_def)
  have "produced s' = produced s @ new_trades s s'"
    using st st' by (simp add: stock_ok_def new_trades_def spec_run_taken split: prod.splits)
  then have "fst (spec_run code (taken src code (?n + l)) ([], [])) = fst (spec_run code (taken src code ?n) ([], [])) @ new_trades s s'"
    using st st' by (simp add: stock_ok_def)
  moreover have "exchange_ok src cfg (n(code := ?n + l)) (m(code := m code |` {?n + l..}))
      (ex\<lparr>order_buffer := (order_buffer ex)(code \<mapsto> w'), stock_exchange := (stock_exchange ex)(code \<mapsto> s')\<rparr>)"
    using assms(1) st' by (auto simp: exchange_ok_def)
  ultimately show ?thesis using r m by blast
qed

section \<open>Properties\<close>

definition ex_cfg :: Config where
  "ex_cfg = initConfig\<lparr>partition_idx := 0\<rparr>"

definition ex_src :: source where
  "ex_src code k = \<lparr>o_stk_code = code, o_order_id = int k + 1, o_direction = 1, o_type = 0, o_price = d10, o_volume = 5\<rparr>"

lemma ex_src_ok: "source_ok ex_src codes"
proof -
  have "\<not> isnan d10" by code_simp
  then show ?thesis by (simp add: source_ok_def ex_src_def wf_order_def in_i32_def)
qed

lemma ex_code: "2 \<in> set (stk_codes ex_cfg)"
  by code_simp

lemma ex_cfg_new: "\<exists>ex. newExchange ex_cfg = Inr ex \<and> exchange_ok ex_src ex_cfg (\<lambda>_. 0) (\<lambda>_. Map.empty) ex"
proof -
  have "exchange_num ex_cfg = 2" "0 < sliding_window_size ex_cfg" by (simp_all add: ex_cfg_def initConfig_def)
  then obtain ex where "newExchange ex_cfg = Inr ex" by (simp add: newExchange_def)
  then show ?thesis using exchange_ok_new \<open>0 < sliding_window_size ex_cfg\<close> by blast
qed

text \<open>
  (C21) A round of a stock's thread never fails: it takes from the window exactly the orders that have
  arrived without a gap behind the last one taken, commits them, and sends one acknowledgement with
  the id of the last of them (none if there is none) followed by the new trades, which are those that
  the abstract exchange produces for these orders.
\<close>

theorem exchange_round_correct:
  assumes "exchange_ok src cfg n m ex" and "source_ok src (set (stk_codes cfg))" and "code \<in> set (stk_codes cfg)"
  shows "\<exists>l ts ex'. runRound code ex =
      Inr ((if l = 0 then [] else [ack_msg \<lparr>a_stk_code = code, a_order_id = int (n code + l)\<rparr>]) @ map trade_msg ts, ex')
    \<and> exchange_ok src cfg (n(code := n code + l)) (m(code := m code |` {n code + l..})) ex'
    \<and> fst (spec_run code (taken src code (n code + l)) ([], []))
        = fst (spec_run code (taken src code (n code)) ([], [])) @ ts
    \<and> (\<forall>i < l. m code (n code + i) \<noteq> None) \<and> m code (n code + l) = None"
  by (rule exchange_ok_round [OF assms])

theorem exchange_round_correct_witness:
  "\<exists>ex ex1 msgs ex2. newExchange ex_cfg = Inr ex \<and> exReceiveOrder ex_cfg (ex_src 2 0) ex = Inr (True, ex1)
     \<and> runRound 2 ex1 = Inr (ack_msg \<lparr>a_stk_code = 2, a_order_id = 1\<rparr> # msgs, ex2)"
proof -
  obtain ex where ex: "newExchange ex_cfg = Inr ex" "exchange_ok ex_src ex_cfg (\<lambda>_. 0) (\<lambda>_. Map.empty) ex"
    using ex_cfg_new by blast
  have W: "nat (sliding_window_size ex_cfg) = 100" by (simp add: ex_cfg_def initConfig_def)
  obtain ex1 where ex1: "exReceiveOrder ex_cfg (ex_src 2 0) ex = Inr (True, ex1)"
    "exchange_ok ex_src ex_cfg (\<lambda>_. 0) ((\<lambda>_. Map.empty)(2 := [0 \<mapsto> ex_src 2 0])) ex1"
    using exchange_ok_arrive [OF ex(2) ex_src_ok ex_code, of 0] W by auto
  from exchange_round_correct [OF ex1(2) ex_src_ok ex_code] obtain l ts ex2 where
    r: "runRound 2 ex1 = Inr ((if l = 0 then [] else [ack_msg \<lparr>a_stk_code = 2, a_order_id = int (0 + l)\<rparr>]) @ map trade_msg ts, ex2)"
    and l: "\<forall>i < l. [0 \<mapsto> ex_src 2 0] i \<noteq> None" "[0 \<mapsto> ex_src 2 0] l = None" by auto
  have "l = 1" using l by (cases l; cases "l - 1") (auto dest!: spec [of _ 1] split: if_splits)
  then show ?thesis using ex(1) ex1(1) r by auto
qed

end
