(* ===== verification/Trader.thy ===== *)
theory Trader
  imports Types Config Block_Queue Wire "HOL-Library.Signed_Division"
begin

text \<open>
  The trader process: \<open>src/src/trader/trader_controller.h\<close> and \<open>trader_controller.cpp\<close> (the shared window
  starts and hooked trades, the check of an order, the loops that choose what to send),
  \<open>trader/order_sender.cpp\<close> and \<open>trader/trade_receiver.cpp\<close>, and the order generators of
  \<open>common/type.hpp\<close> and \<open>common/loader.hpp\<close>. Accesses outside a vector or array are \<open>Undefined\<close>.
\<close>

section \<open>Vectors\<close>

definition at :: "'a list \<Rightarrow> int \<Rightarrow> 'a result" where
  "at xs i = (if 0 \<le> i \<and> i < int (length xs) then Inr (xs ! nat i) else Inl Undefined)"

text \<open>Division of non-negative numbers truncates as in HOL.\<close>

lemma smod_nonneg: "0 \<le> x \<Longrightarrow> 0 < n \<Longrightarrow> x smod n = x mod (n :: int)"
  by (cases "x = 0") (simp_all add: signed_modulo_int_def signed_divide_int_def minus_mult_div_eq_mod [symmetric])

lemma sdiv_nonneg: "0 \<le> x \<Longrightarrow> 0 < n \<Longrightarrow> x sdiv n = x div (n :: int)"
  by (cases "x = 0") (simp_all add: signed_divide_int_def)

lemma at_simps [simp]:
  "0 \<le> i \<Longrightarrow> i < int (length xs) \<Longrightarrow> at xs i = Inr (xs ! nat i)"
  by (simp add: at_def)

lemma at_Inr: "at xs i = Inr x \<longleftrightarrow> 0 \<le> i \<and> i < int (length xs) \<and> x = xs ! nat i"
  by (auto simp: at_def)

section \<open>SharedTradeInfo\<close>

record SharedTradeInfo =
  sliding_window_start :: "int list"
  hooked_trade :: "(int \<rightharpoonup> int) list"

definition newSharedTradeInfo :: "Config \<Rightarrow> (int \<rightharpoonup> int) list \<Rightarrow> SharedTradeInfo" where
  "newSharedTradeInfo cfg hooked =
     \<lparr>sliding_window_start = replicate (nat (stock_num cfg)) 1, hooked_trade = hooked\<rparr>"

definition update_sliding_window_start :: "int \<Rightarrow> int \<Rightarrow> SharedTradeInfo \<Rightarrow> SharedTradeInfo result" where
  "update_sliding_window_start stock_code new_start s =
     bindE (at (sliding_window_start s) (stock_code - 1)) (\<lambda>old.
       if new_start \<ge> old
       then Inr (s\<lparr>sliding_window_start := (sliding_window_start s)[nat (stock_code - 1) := new_start]\<rparr>)
       else Inl Abort)"

definition get_sliding_window_start :: "int \<Rightarrow> SharedTradeInfo \<Rightarrow> int result" where
  "get_sliding_window_start stock_code s = at (sliding_window_start s) (stock_code - 1)"

definition update_if_hooked :: "int \<Rightarrow> int \<Rightarrow> int \<Rightarrow> SharedTradeInfo \<Rightarrow> SharedTradeInfo result" where
  "update_if_hooked stock_code trade_idx volume s =
     bindE (at (hooked_trade s) (stock_code - 1)) (\<lambda>h.
       case h trade_idx of
         None \<Rightarrow> Inr s
       | Some v \<Rightarrow>
           if v = -1
           then Inr (s\<lparr>hooked_trade := (hooked_trade s)[nat (stock_code - 1) := h(trade_idx \<mapsto> volume)]\<rparr>)
           else Inl Abort)"

definition get_hooked_volume :: "int \<Rightarrow> int \<Rightarrow> SharedTradeInfo \<Rightarrow> int result" where
  "get_hooked_volume stock_code trade_idx s =
     bindE (at (hooked_trade s) (stock_code - 1)) (\<lambda>h.
       case h trade_idx of None \<Rightarrow> Inl Abort | Some v \<Rightarrow> Inr v)"

section \<open>Order generators\<close>

text \<open>\<open>OrderInfoMatrix\<close>: the four matrices as flat arrays.\<close>

record OrderInfoMatrix =
  direction_matrix :: "int list"
  type_matrix :: "int list"
  price_matrix :: "double list"
  volume_matrix :: "int list"

definition flat_idx :: "int \<Rightarrow> int \<Rightarrow> int \<Rightarrow> int \<Rightarrow> int \<Rightarrow> int" where
  "flat_idx ny nz x y z = i32 (i32 (i32 (x * i32 (ny * nz)) + i32 (y * nz)) + z)"

definition matrix_order :: "Config \<Rightarrow> OrderInfoMatrix \<Rightarrow> int \<Rightarrow> SortStruct \<Rightarrow> int \<Rightarrow> int \<Rightarrow> int \<Rightarrow> Order result" where
  "matrix_order cfg oim stock_code ss nx ny nz =
     (let x = get_x (ss_coor ss); y = get_y (ss_coor ss); z = get_z (ss_coor ss); i = flat_idx ny nz x y z
      in if \<not> (0 \<le> x \<and> x < nx \<and> 0 \<le> y \<and> y < ny \<and> 0 \<le> z \<and> z < nz) then Inl Abort
         else if stock_num cfg = 0 then Inl Undefined
         else if stock_code \<noteq> x smod stock_num cfg + 1 then Inl Abort
         else bindE (at (direction_matrix oim) i) (\<lambda>direction.
              bindE (at (type_matrix oim) i) (\<lambda>ty.
              bindE (at (price_matrix oim) i) (\<lambda>price.
              bindE (at (volume_matrix oim) i) (\<lambda>volume.
                Inr \<lparr>o_stk_code = stock_code, o_order_id = ss_order_id ss, o_direction = direction,
                     o_type = ty, o_price = price, o_volume = volume\<rparr>)))))"

text \<open>
  \<open>OrderGenerator\<close> for one stock: five cache files, of which \<open>num_partition\<close> = 10 parts of \<open>length\<close> numbers
  are read one after the other into five arrays. A read that reaches the end of the file leaves the
  rest of the array as it is.
\<close>

record OrderGenerator =
  f_order_id :: "int list"
  f_direction :: "int list"
  f_type :: "int list"
  f_price :: "double list"
  f_volume :: "int list"
  b_order_id :: "int list"
  b_direction :: "int list"
  b_type :: "int list"
  b_price :: "double list"
  b_volume :: "int list"
  start_idx :: int
  cur_partition :: int

definition read_array :: "nat \<Rightarrow> 'a list \<Rightarrow> 'a list \<Rightarrow> 'a list \<times> 'a list" where
  "read_array n file buf = (let xs = take n file in (xs @ drop (length xs) buf, drop n file))"

definition og_load_data :: "nat \<Rightarrow> OrderGenerator \<Rightarrow> bool \<times> OrderGenerator" where
  "og_load_data len g =
     (if cur_partition g \<ge> 10 then (False, g)
      else let (bo, fo) = read_array len (f_order_id g) (b_order_id g);
               (bd, fd) = read_array len (f_direction g) (b_direction g);
               (bt, ft) = read_array len (f_type g) (b_type g);
               (bp, fp) = read_array len (f_price g) (b_price g);
               (bv, fv) = read_array len (f_volume g) (b_volume g)
           in (True, g\<lparr>f_order_id := fo, f_direction := fd, f_type := ft, f_price := fp, f_volume := fv,
                 b_order_id := bo, b_direction := bd, b_type := bt, b_price := bp, b_volume := bv,
                 start_idx := 0, cur_partition := cur_partition g + 1\<rparr>))"

text \<open>
  \<open>generate_order\<close> returns an order of type -1 when there is none left (\<open>None\<close>). The
  index stays below \<open>length\<close>, an \<open>int\<close>, so \<open>commit\<close> does not overflow.
\<close>

definition og_generate_order :: "nat \<Rightarrow> int \<Rightarrow> OrderGenerator \<Rightarrow> (Order option \<times> OrderGenerator) result" where
  "og_generate_order len stk_code g =
     (let (more, g) = (if start_idx g \<ge> int len then og_load_data len g else (True, g))
      in if \<not> more then Inr (None, g)
         else bindE (at (b_order_id g) (start_idx g)) (\<lambda>oid.
              bindE (at (b_direction g) (start_idx g)) (\<lambda>direction.
              bindE (at (b_type g) (start_idx g)) (\<lambda>ty.
              bindE (at (b_price g) (start_idx g)) (\<lambda>price.
              bindE (at (b_volume g) (start_idx g)) (\<lambda>volume.
                Inr (Some \<lparr>o_stk_code = stk_code, o_order_id = oid, o_direction = direction,
                           o_type = ty, o_price = price, o_volume = volume\<rparr>, g)))))))"

definition og_commit :: "OrderGenerator \<Rightarrow> OrderGenerator" where
  "og_commit g = g\<lparr>start_idx := start_idx g + 1\<rparr>"

definition og_length :: "Config \<Rightarrow> int" where
  "og_length cfg = i32 (i32 (loader_nx_matrix cfg * loader_ny_matrix cfg) * loader_nz_matrix cfg)
     sdiv stock_num cfg sdiv 10"

section \<open>The check of an order\<close>

record TraderController =
  price_limits :: "double list list"
  hook :: "(int \<rightharpoonup> HookTarget) list"
  sorted_order_structs :: "SortStruct list list"
  next_sorted_struct_idx :: "int list"
  oim :: OrderInfoMatrix
  sharedInfo :: SharedTradeInfo

definition check_hook :: "Order \<Rightarrow> int \<Rightarrow> TraderController \<Rightarrow> Order option result" where
  "check_hook order t tc =
     bindE (at (hook tc) t) (\<lambda>h.
       case h (o_order_id order) of
         None \<Rightarrow> Inr (Some order)
       | Some ht \<Rightarrow>
           bindE (get_hooked_volume (target_stk_code ht) (target_trade_idx ht) (sharedInfo tc)) (\<lambda>v.
             Inr (if v = -1 then None
                  else if v > arg ht then Some (order\<lparr>o_type := -1\<rparr>)
                  else Some order)))"

definition check_price :: "Order \<Rightarrow> int \<Rightarrow> TraderController \<Rightarrow> Order result" where
  "check_price order t tc =
     (if o_type order = 0 then
        bindE (at (price_limits tc) 0) (\<lambda>low. bindE (at low t) (\<lambda>low.
          if dlt (o_price order) low then Inr (order\<lparr>o_type := -1\<rparr>)
          else bindE (at (price_limits tc) 1) (\<lambda>high. bindE (at high t) (\<lambda>high.
                 Inr (if dgt (o_price order) high then order\<lparr>o_type := -1\<rparr> else order)))))
      else Inr order)"

text \<open>\<open>check_order\<close>: \<open>None\<close> when the order cannot be sent yet, else the order as it is sent.\<close>

definition check_order :: "Order \<Rightarrow> int \<Rightarrow> int \<Rightarrow> TraderController \<Rightarrow> Order option result" where
  "check_order order order_id_upper_limits t tc =
     (if o_order_id order \<ge> order_id_upper_limits then Inr None
      else bindE (check_hook order t tc) (\<lambda>r.
        case r of
          None \<Rightarrow> Inr None
        | Some order \<Rightarrow> bindE (check_price order t tc) (\<lambda>order. Inr (Some order))))"

section \<open>What is sent\<close>

text \<open>
  The inner loop of \<open>run_all_in_memory\<close> over the entries from \<open>ss_idx\<close> on: the orders to send and how many
  entries are done.
\<close>

fun collectMemory :: "Config \<Rightarrow> int \<Rightarrow> int \<Rightarrow> TraderController \<Rightarrow> SortStruct list \<Rightarrow> (Order list \<times> nat) result" where
  "collectMemory cfg limit t tc [] = Inr ([], 0)"
| "collectMemory cfg limit t tc (ss # sss) =
     bindE (matrix_order cfg (oim tc) (t + 1) ss (loader_nx_matrix cfg) (loader_ny_matrix cfg) (loader_nz_matrix cfg)) (\<lambda>order.
     bindE (check_order order limit t tc) (\<lambda>r.
       case r of
         None \<Rightarrow> Inr ([], 0)
       | Some order \<Rightarrow>
           bindE (collectMemory cfg limit t tc sss) (\<lambda>(orders, n). Inr (order # orders, n + 1))))"

definition order_id_limit :: "Config \<Rightarrow> int \<Rightarrow> TraderController \<Rightarrow> int result" where
  "order_id_limit cfg t tc =
     bindE (get_sliding_window_start (t + 1) (sharedInfo tc)) (\<lambda>start. Inr (i32 (start + sliding_window_size cfg)))"

fun roundMemory :: "Config \<Rightarrow> int list \<Rightarrow> TraderController \<Rightarrow> (Order list \<times> TraderController) result" where
  "roundMemory cfg [] tc = Inr ([], tc)"
| "roundMemory cfg (t # ts) tc =
     bindE (order_id_limit cfg t tc) (\<lambda>limit.
     bindE (at (next_sorted_struct_idx tc) t) (\<lambda>i.
     bindE (at (sorted_order_structs tc) t) (\<lambda>structs.
     bindE (collectMemory cfg limit t tc (drop (nat i) structs)) (\<lambda>(orders, n).
     bindE (roundMemory cfg ts
             (tc\<lparr>next_sorted_struct_idx := (next_sorted_struct_idx tc)[nat t := i + int n]\<rparr>)) (\<lambda>(orders', tc).
       Inr (orders @ orders', tc))))))"

text \<open>The inner loop of \<open>run\<close>, on the order generator of a stock.\<close>

definition og_left :: "nat \<Rightarrow> OrderGenerator \<Rightarrow> nat" where
  "og_left len g = nat (10 - cur_partition g) * (len + 1) + nat (int len - start_idx g)"

lemma og_generate_left:
  assumes "og_generate_order len code g = Inr (Some x, g')"
  shows "og_left len (og_commit g') < og_left len g"
proof (cases "start_idx g \<ge> int len")
  case True
  then have p: "cur_partition g < 10" and g': "start_idx g' = 0" "cur_partition g' = cur_partition g + 1"
    using assms by (auto simp: og_generate_order_def og_load_data_def Let_def bindE_eq_Inr split: if_splits prod.splits)
  then have "nat (10 - cur_partition g) = Suc (nat (10 - cur_partition g'))" by simp
  then show ?thesis using True g' by (simp add: og_left_def og_commit_def)
next
  case False
  then have "g' = g" using assms by (auto simp: og_generate_order_def bindE_eq_Inr)
  then show ?thesis using False by (simp add: og_left_def og_commit_def)
qed

function collectGenerated :: "nat \<Rightarrow> int \<Rightarrow> int \<Rightarrow> TraderController \<Rightarrow> OrderGenerator \<Rightarrow> (Order list \<times> OrderGenerator) result" where
  "collectGenerated len limit t tc g =
     (case og_generate_order len (t + 1) g of
        Inl e \<Rightarrow> Inl e
      | Inr (None, g) \<Rightarrow> Inr ([], g)
      | Inr (Some order, g) \<Rightarrow>
          if o_type order = -1 then Inr ([], g)
          else bindE (check_order order limit t tc) (\<lambda>r.
            case r of
              None \<Rightarrow> Inr ([], g)
            | Some order \<Rightarrow>
                bindE (collectGenerated len limit t tc (og_commit g)) (\<lambda>(orders, g). Inr (order # orders, g))))"
  by pat_completeness auto
termination
  by (relation "measure (\<lambda>(len, limit, t, tc, g). og_left len g)") (auto dest: og_generate_left)

declare collectGenerated.simps [simp del]

text \<open>The sender that an order goes to, its queue, and the next message of a sender.\<close>

definition sender_idx :: "Config \<Rightarrow> Order \<Rightarrow> int" where
  "sender_idx cfg order = o_stk_code order smod exchange_num cfg"

definition put_order :: "Order \<Rightarrow> Order BlockQueue \<Rightarrow> Order BlockQueue option result" where
  "put_order order q = bq_put order q"

text \<open>The queue of \<open>TraderOrderSender\<close>: a negative capacity is too large for the vector, and the quotient may not exist.\<close>

definition newOrderQueue :: "Config \<Rightarrow> Order \<Rightarrow> Order BlockQueue result" where
  "newOrderQueue cfg init =
     (let n = i32 (sliding_window_size cfg * stock_num cfg) in
      if exchange_num cfg = 0 \<or> n = - 2147483648 \<and> exchange_num cfg = - 1 then Inl Undefined
      else if n sdiv exchange_num cfg < 0 then Inl LengthError
      else Inr (newBlockQueue init (nat (n sdiv exchange_num cfg))))"

text \<open>
  \<open>TraderOrderSender::run\<close> spins on \<open>poll\<close> until it has an order; the loop \<open>while (!cnt)\<close> ends after the
  first one. \<open>None\<close> while the queue is empty.
\<close>

definition order_sender_next :: "(Order \<Rightarrow> byte list) \<Rightarrow> Order BlockQueue \<Rightarrow> (byte list \<times> Order BlockQueue) option result" where
  "order_sender_next pad q =
     bindE (bq_poll q) (\<lambda>(r, q).
       case r of None \<Rightarrow> Inr None | Some order \<Rightarrow> Inr (Some (order_msg pad [order], q)))"

section \<open>The trade receiver\<close>

text \<open>
  The result files are byte strings; the calls of \<open>write\<close> and \<open>fdatasync\<close> succeed or fail as the
  operating system decides, the argument \<open>os\<close>.
\<close>

record TradeReceiver =
  trade_files :: "int \<Rightarrow> byte list"
  trade_buffer :: "int \<Rightarrow> Trade list"
  trade_idxs :: "int \<Rightarrow> int"

definition newTradeReceiver :: "Config \<Rightarrow> TradeReceiver" where
  "newTradeReceiver cfg =
     \<lparr>trade_files = (\<lambda>_. []), trade_buffer = (\<lambda>_. []),
      trade_idxs = (\<lambda>code. if 1 \<le> code \<and> code \<le> stock_num cfg then 1 else 0)\<rparr>"

definition write_buffer :: "(int \<Rightarrow> byte list \<Rightarrow> bool \<times> bool) \<Rightarrow> int \<Rightarrow> TradeReceiver \<Rightarrow> TradeReceiver result" where
  "write_buffer os code r =
     (let bytes = concat (map enc_trade (trade_buffer r code)); (written, synced) = os code bytes
      in if \<not> written then Inl (RuntimeError ''write trade file error.'')
         else if \<not> synced then Inl (RuntimeError ''fdatasync trade file error.'')
         else Inr (r\<lparr>trade_files := (trade_files r)(code := trade_files r code @ bytes),
                     trade_buffer := (trade_buffer r)(code := [])\<rparr>))"

definition TRADE_BUF_THRESHOLD :: nat where
  "TRADE_BUF_THRESHOLD = 100"

definition process_trade :: "(int \<Rightarrow> byte list \<Rightarrow> bool \<times> bool) \<Rightarrow> Trade
    \<Rightarrow> SharedTradeInfo \<times> TradeReceiver \<Rightarrow> (SharedTradeInfo \<times> TradeReceiver) result" where
  "process_trade os trade sr =
     (let (s, r) = sr; code = t_stk_code trade
      in bindE (update_if_hooked code (trade_idxs r code) (t_volume trade) s) (\<lambda>s.
           let r = r\<lparr>trade_idxs := (trade_idxs r)(code := i32 (trade_idxs r code + 1)),
                     trade_buffer := (trade_buffer r)(code := trade_buffer r code @ [trade])\<rparr>
           in if length (trade_buffer r code) \<ge> TRADE_BUF_THRESHOLD
              then bindE (write_buffer os code r) (\<lambda>r. Inr (s, r))
              else Inr (s, r)))"

fun process_trades :: "(int \<Rightarrow> byte list \<Rightarrow> bool \<times> bool) \<Rightarrow> Trade list
    \<Rightarrow> SharedTradeInfo \<times> TradeReceiver \<Rightarrow> (SharedTradeInfo \<times> TradeReceiver) result" where
  "process_trades os [] sr = Inr sr"
| "process_trades os (t # ts) sr = bindE (process_trade os t sr) (process_trades os ts)"

definition process_trade_result :: "(int \<Rightarrow> byte list \<Rightarrow> bool \<times> bool) \<Rightarrow> byte list
    \<Rightarrow> SharedTradeInfo \<times> TradeReceiver \<Rightarrow> (SharedTradeInfo \<times> TradeReceiver) result" where
  "process_trade_result os msg sr = bindE (parse_trades msg) (\<lambda>trades. process_trades os trades sr)"

fun process_acks :: "OrderAck list \<Rightarrow> SharedTradeInfo \<Rightarrow> SharedTradeInfo result" where
  "process_acks [] s = Inr s"
| "process_acks (a # as) s =
     bindE (update_sliding_window_start (a_stk_code a) (i32 (a_order_id a + 1)) s) (process_acks as)"

definition process_order_ack :: "byte list \<Rightarrow> SharedTradeInfo \<Rightarrow> SharedTradeInfo result" where
  "process_order_ack msg s = bindE (parse_acks msg) (\<lambda>acks. process_acks acks s)"

text \<open>One message of \<open>TraderTradeReceiver::run\<close>.\<close>

definition tradeReceiver :: "(int \<Rightarrow> byte list \<Rightarrow> bool \<times> bool) \<Rightarrow> byte list
    \<Rightarrow> SharedTradeInfo \<times> TradeReceiver \<Rightarrow> (SharedTradeInfo \<times> TradeReceiver) result" where
  "tradeReceiver os msg sr =
     bindE (msg_code msg) (\<lambda>(code, offset).
       if code = ORDER_ACK_MSG then bindE (process_order_ack msg (fst sr)) (\<lambda>s. Inr (s, snd sr))
       else if code = TRADE_MSG then process_trade_result os msg sr
       else Inl (UbiquantException 1))"

text \<open>\<open>flush\<close>, over the codes of the buffer map in the order of the map.\<close>

fun flush :: "(int \<Rightarrow> byte list \<Rightarrow> bool \<times> bool) \<Rightarrow> int list \<Rightarrow> TradeReceiver \<Rightarrow> TradeReceiver result" where
  "flush os [] r = Inr r"
| "flush os (code # codes) r = bindE (write_buffer os code r) (flush os codes)"

end
