(* ===== verification/Trader_Properties.thy ===== *)
theory Trader_Properties
  imports Trader
begin

text \<open>
  What the trader promises: which orders it sends and in which form, that it sends the orders of a
  stock in sequence without loss or repetition, and that every trade it receives ends up in the result
  file of its stock, in order.
\<close>

section \<open>The check of an order\<close>

lemma check_hook_Some:
  assumes "check_hook order t tc = Inr (Some x)"
  shows "x = order \<or> x = order\<lparr>o_type := -1\<rparr>"
    and "\<forall>ht. (hook tc ! nat t) (o_order_id order) = Some ht \<longrightarrow>
      (\<exists>v. get_hooked_volume (target_stk_code ht) (target_trade_idx ht) (sharedInfo tc) = Inr v
         \<and> v \<noteq> -1 \<and> (v > arg ht \<longrightarrow> o_type x = -1) \<and> (v \<le> arg ht \<longrightarrow> x = order))"
  using assms by (auto simp: check_hook_def bindE_eq_Inr at_Inr split: option.splits if_splits)

lemma check_price_Inr:
  assumes "check_price order t tc = Inr x"
  shows "x = order \<or> x = order\<lparr>o_type := -1\<rparr>"
    and "o_type x = 0 \<Longrightarrow> \<not> dlt (o_price x) (price_limits tc ! 0 ! nat t) \<and> \<not> dgt (o_price x) (price_limits tc ! 1 ! nat t)"
    and "o_type order = -1 \<Longrightarrow> x = order"
  using assms by (auto simp: check_price_def bindE_eq_Inr at_Inr split: if_splits)

lemma check_order_Some:
  assumes "check_order order limit t tc = Inr (Some x)"
  shows "o_order_id order < limit" "x = order \<or> x = order\<lparr>o_type := -1\<rparr>"
  using assms check_hook_Some(1) check_price_Inr(1)
  by (auto simp: check_order_def bindE_eq_Inr split: if_splits option.splits) (metis (no_types, lifting) Order.surjective Order.update_convs(4))+

text \<open>An order is cancelled only because the trade of its hook is too large, or because it is a limit order beyond the limits.\<close>

lemma check_hook_cancels:
  assumes "check_hook order t tc = Inr (Some x)" and "x \<noteq> order"
  shows "\<exists>ht v. (hook tc ! nat t) (o_order_id order) = Some ht
    \<and> get_hooked_volume (target_stk_code ht) (target_trade_idx ht) (sharedInfo tc) = Inr v \<and> v > arg ht"
  using assms by (auto simp: check_hook_def bindE_eq_Inr at_Inr split: option.splits if_splits)

lemma check_price_cancels:
  assumes "check_price order t tc = Inr x" and "x \<noteq> order"
  shows "o_type order = 0 \<and> (dlt (o_price order) (price_limits tc ! 0 ! nat t) \<or> dgt (o_price order) (price_limits tc ! 1 ! nat t))"
  using assms by (auto simp: check_price_def bindE_eq_Inr at_Inr split: if_splits)

section \<open>Sending in sequence\<close>

lemma matrix_order_Inr:
  assumes "matrix_order cfg om code ss nx ny nz = Inr x"
  shows "o_order_id x = ss_order_id ss" "o_stk_code x = code"
  using assms by (auto simp: matrix_order_def Let_def bindE_eq_Inr split: if_splits)

lemma collectMemory_ConsE [consumes 1, case_names stop send]:
  assumes "collectMemory cfg limit t tc (ss # sss) = Inr (orders, n)"
  obtains order where "matrix_order cfg (oim tc) (t + 1) ss (loader_nx_matrix cfg) (loader_ny_matrix cfg) (loader_nz_matrix cfg) = Inr order"
      "check_order order limit t tc = Inr None" "orders = []" "n = 0"
  | order x orders' n' where "matrix_order cfg (oim tc) (t + 1) ss (loader_nx_matrix cfg) (loader_ny_matrix cfg) (loader_nz_matrix cfg) = Inr order"
      "check_order order limit t tc = Inr (Some x)" "collectMemory cfg limit t tc sss = Inr (orders', n')"
      "orders = x # orders'" "n = Suc n'"
  using assms by (auto simp: bindE_eq_Inr split: option.splits)

lemma collectMemory_prefix:
  assumes "collectMemory cfg limit t tc sss = Inr (orders, n)"
  shows "n = length orders \<and> n \<le> length sss \<and> map o_order_id orders = map ss_order_id (take n sss)
    \<and> (\<forall>x \<in> set orders. o_order_id x < limit \<and> o_stk_code x = t + 1)"
  using assms
proof (induction sss arbitrary: orders n)
  case (Cons ss sss)
  from Cons.prems show ?case
  proof (cases rule: collectMemory_ConsE)
    case (send order x orders' n')
    then have "o_order_id x = ss_order_id ss" "o_stk_code x = t + 1" "o_order_id x < limit"
      using check_order_Some [OF send(2)] matrix_order_Inr [OF send(1)] by auto
    then show ?thesis using Cons.IH [OF send(3)] send(4,5) by auto
  qed simp
qed simp

text \<open>The loop stops at the first entry that may not be sent yet.\<close>

lemma collectMemory_stop:
  assumes "collectMemory cfg limit t tc sss = Inr (orders, n)" and "n < length sss"
  shows "\<exists>order. matrix_order cfg (oim tc) (t + 1) (sss ! n) (loader_nx_matrix cfg) (loader_ny_matrix cfg) (loader_nz_matrix cfg) = Inr order
    \<and> check_order order limit t tc = Inr None"
  using assms
proof (induction sss arbitrary: orders n)
  case (Cons ss sss)
  from Cons.prems(1) show ?case
  proof (cases rule: collectMemory_ConsE)
    case (send order x orders' n')
    then show ?thesis using Cons.IH [OF send(3)] Cons.prems(2) by simp
  qed simp
qed simp

text \<open>
  An entry that is sent: the check passes its order and sends it as \<open>x\<close>. An entry that is held back: the check
  does not let its order pass yet.
\<close>

definition sends :: "Config \<Rightarrow> int \<Rightarrow> int \<Rightarrow> TraderController \<Rightarrow> SortStruct \<Rightarrow> Order \<Rightarrow> bool" where
  "sends cfg limit t tc ss x \<longleftrightarrow>
     (\<exists>order. matrix_order cfg (oim tc) (t + 1) ss (loader_nx_matrix cfg) (loader_ny_matrix cfg) (loader_nz_matrix cfg) = Inr order
        \<and> check_order order limit t tc = Inr (Some x))"

definition held_back :: "Config \<Rightarrow> int \<Rightarrow> int \<Rightarrow> TraderController \<Rightarrow> SortStruct \<Rightarrow> bool" where
  "held_back cfg limit t tc ss \<longleftrightarrow>
     (\<exists>order. matrix_order cfg (oim tc) (t + 1) ss (loader_nx_matrix cfg) (loader_ny_matrix cfg) (loader_nz_matrix cfg) = Inr order
        \<and> check_order order limit t tc = Inr None)"

lemma collectMemory_sends:
  assumes "collectMemory cfg limit t tc sss = Inr (orders, n)"
  shows "list_all2 (sends cfg limit t tc) (take n sss) orders"
  using assms
proof (induction sss arbitrary: orders n)
  case (Cons ss sss)
  from Cons.prems show ?case
  proof (cases rule: collectMemory_ConsE)
    case (send order x orders' n')
    then show ?thesis using Cons.IH [OF send(3)] by (auto simp: sends_def)
  qed simp
qed simp

section \<open>The result files\<close>

definition stored :: "TradeReceiver \<Rightarrow> int \<Rightarrow> byte list" where
  "stored r code = trade_files r code @ concat (map enc_trade (trade_buffer r code))"

lemma write_buffer_stored:
  assumes "write_buffer os code r = Inr r'"
  shows "stored r' = stored r" "trade_buffer r' = (trade_buffer r)(code := [])" "trade_idxs r' = trade_idxs r"
    "trade_files r' code = stored r code"
  using assms by (auto simp: write_buffer_def stored_def Let_def fun_eq_iff split: prod.splits if_splits)

lemma process_trade_stored:
  assumes "process_trade os trade (s, r) = Inr (s', r')" and "\<forall>c. length (trade_buffer r c) < 100"
  shows "stored r' = (stored r)(t_stk_code trade := stored r (t_stk_code trade) @ enc_trade trade)
    \<and> (\<forall>c. length (trade_buffer r' c) < 100)"
proof -
  let ?code = "t_stk_code trade"
  define r1 where "r1 = r\<lparr>trade_idxs := (trade_idxs r)(?code := i32 (trade_idxs r ?code + 1)),
    trade_buffer := (trade_buffer r)(?code := trade_buffer r ?code @ [trade])\<rparr>"
  have s1: "stored r1 = (stored r)(?code := stored r ?code @ enc_trade trade)"
    by (auto simp: stored_def r1_def fun_eq_iff)
  from assms(1) consider "write_buffer os ?code r1 = Inr r'" | "r' = r1" "length (trade_buffer r1 ?code) < 100"
    by (auto simp: process_trade_def Let_def bindE_eq_Inr TRADE_BUF_THRESHOLD_def r1_def split: if_splits)
  then show ?thesis
  proof cases
    case 1
    then show ?thesis using write_buffer_stored [OF 1] s1 assms(2) by (auto simp: r1_def)
  next
    case 2
    then show ?thesis using s1 assms(2) by (auto simp: r1_def)
  qed
qed

definition trades_of :: "int \<Rightarrow> Trade list \<Rightarrow> Trade list" where
  "trades_of code ts = filter (\<lambda>t. t_stk_code t = code) ts"

lemma process_trades_stored:
  assumes "process_trades os ts (s, r) = Inr (s', r')" and "\<forall>c. length (trade_buffer r c) < 100"
  shows "(\<forall>c. stored r' c = stored r c @ concat (map enc_trade (trades_of c ts)))
    \<and> (\<forall>c. length (trade_buffer r' c) < 100)"
  using assms
proof (induction ts arbitrary: s r)
  case (Cons t ts)
  from Cons.prems(1) obtain s1 r1 where p: "process_trade os t (s, r) = Inr (s1, r1)"
    "process_trades os ts (s1, r1) = Inr (s', r')"
    by (auto simp: bindE_eq_Inr)
  note st = process_trade_stored [OF p(1) Cons.prems(2)]
  then show ?case using Cons.IH [OF p(2)] by (auto simp: trades_of_def)
qed (simp add: trades_of_def)

lemma flush_stored:
  assumes "flush os codes r = Inr r'"
  shows "stored r' = stored r \<and> (\<forall>c \<in> set codes. trade_buffer r' c = []) \<and> (\<forall>c. trade_buffer r c = [] \<longrightarrow> trade_buffer r' c = [])"
  using assms
proof (induction codes arbitrary: r)
  case (Cons c codes)
  from Cons.prems obtain r1 where w: "write_buffer os c r = Inr r1" "flush os codes r1 = Inr r'"
    by (auto simp: bindE_eq_Inr)
  note f = Cons.IH [OF w(2)] write_buffer_stored [OF w(1)]
  then show ?case by (auto simp: f(3))
qed simp

section \<open>Properties\<close>

text \<open>
  (C22) An order passes the check only if its id is inside the window; it is sent unchanged, or with its
  type set to -1 (cancelled); a limit order (type 0) that is sent as such has a price within the limits of the
  day, which are not applied to the other types; an order with a hook is sent only when the hooked trade is known, and is
  cancelled if the volume of that trade exceeds the hook's bound; and there is no other reason to cancel an order than
  these two, the hook's bound and, for limit orders, the limits of the day.
\<close>

theorem check_order_correct:
  assumes "check_order order limit t tc = Inr (Some x)"
  shows "o_order_id order < limit \<and> (x = order \<or> x = order\<lparr>o_type := -1\<rparr>)
    \<and> (o_type x = 0 \<longrightarrow> \<not> dlt (o_price x) (price_limits tc ! 0 ! nat t)
         \<and> \<not> dgt (o_price x) (price_limits tc ! 1 ! nat t))
    \<and> (\<forall>ht. (hook tc ! nat t) (o_order_id order) = Some ht \<longrightarrow>
         (\<exists>v. get_hooked_volume (target_stk_code ht) (target_trade_idx ht) (sharedInfo tc) = Inr v
            \<and> v \<noteq> -1 \<and> (v > arg ht \<longrightarrow> o_type x = -1)))
    \<and> (x \<noteq> order \<longrightarrow>
         (\<exists>ht v. (hook tc ! nat t) (o_order_id order) = Some ht
            \<and> get_hooked_volume (target_stk_code ht) (target_trade_idx ht) (sharedInfo tc) = Inr v \<and> v > arg ht)
         \<or> o_type order = 0 \<and> (dlt (o_price order) (price_limits tc ! 0 ! nat t) \<or> dgt (o_price order) (price_limits tc ! 1 ! nat t)))"
proof -
  obtain y where y: "check_hook order t tc = Inr (Some y)" "check_price y t tc = Inr x"
    using assms by (auto simp: check_order_def bindE_eq_Inr split: if_splits option.splits)
  have c: "o_type x = -1" if "o_type y = -1" using check_price_Inr(3) [OF y(2) that] that by simp
  have "x \<noteq> order \<longrightarrow>
         (\<exists>ht v. (hook tc ! nat t) (o_order_id order) = Some ht
            \<and> get_hooked_volume (target_stk_code ht) (target_trade_idx ht) (sharedInfo tc) = Inr v \<and> v > arg ht)
         \<or> o_type order = 0 \<and> (dlt (o_price order) (price_limits tc ! 0 ! nat t) \<or> dgt (o_price order) (price_limits tc ! 1 ! nat t))"
    using check_hook_cancels [OF y(1)] check_price_cancels [OF y(2)] by blast
  moreover have "\<forall>ht. (hook tc ! nat t) (o_order_id order) = Some ht \<longrightarrow>
         (\<exists>v. get_hooked_volume (target_stk_code ht) (target_trade_idx ht) (sharedInfo tc) = Inr v
            \<and> v \<noteq> -1 \<and> (v > arg ht \<longrightarrow> o_type x = -1))"
    using check_hook_Some(2) [OF y(1)] c by metis
  moreover have "o_type x = 0 \<longrightarrow> \<not> dlt (o_price x) (price_limits tc ! 0 ! nat t) \<and> \<not> dgt (o_price x) (price_limits tc ! 1 ! nat t)"
    using check_price_Inr(2) [OF y(2)] by blast
  ultimately show ?thesis using check_order_Some [OF assms] by blast
qed

definition ex_tc :: TraderController where
  "ex_tc = \<lparr>price_limits = [[0x4022000000000000], [0x4026000000000000]],
     hook = [[7 \<mapsto> \<lparr>target_stk_code = 1, target_trade_idx = 2, arg = 10\<rparr>]],
     sorted_order_structs = [], next_sorted_struct_idx = [],
     oim = \<lparr>direction_matrix = [], type_matrix = [], price_matrix = [], volume_matrix = []\<rparr>,
     sharedInfo = \<lparr>sliding_window_start = [1], hooked_trade = [[2 \<mapsto> 11]]\<rparr>\<rparr>"

definition ex_order7 :: Order where
  "ex_order7 = \<lparr>o_stk_code = 1, o_order_id = 7, o_direction = 1, o_type = 0, o_price = 0x4024000000000000, o_volume = 3\<rparr>"

theorem check_order_correct_witness:
  "check_order ex_order7 101 0 ex_tc = Inr (Some (ex_order7\<lparr>o_type := -1\<rparr>))
   \<and> (\<exists>v. get_hooked_volume 1 2 (sharedInfo ex_tc) = Inr v \<and> v \<noteq> -1)"
proof -
  have c: "check_order ex_order7 101 0 ex_tc = Inr (Some (ex_order7\<lparr>o_type := -1\<rparr>))"
    by (simp add: check_order_def check_hook_def check_price_def get_hooked_volume_def ex_order7_def ex_tc_def)
  moreover have "(hook ex_tc ! nat 0) (o_order_id ex_order7) = Some \<lparr>target_stk_code = 1, target_trade_idx = 2, arg = 10\<rparr>"
    by (simp add: ex_tc_def ex_order7_def)
  ultimately show ?thesis using check_order_correct [OF c] by fastforce
qed

text \<open>
  What a pass over a stock sends is a gap-free run of the stock's sorted orders, from the first one
  not yet sent up to the first one that may not be sent yet: as many orders as entries are passed over,
  with their ids in the order of the entries, each below the window's limit and for this stock.
\<close>

lemma collect_is_prefix:
  assumes "collectMemory cfg limit t tc sss = Inr (orders, n)"
  shows "n = length orders \<and> n \<le> length sss \<and> map o_order_id orders = map ss_order_id (take n sss)
    \<and> (\<forall>x \<in> set orders. o_order_id x < limit \<and> o_stk_code x = t + 1)
    \<and> (n < length sss \<longrightarrow> (\<exists>order. matrix_order cfg (oim tc) (t + 1) (sss ! n)
         (loader_nx_matrix cfg) (loader_ny_matrix cfg) (loader_nz_matrix cfg) = Inr order
         \<and> check_order order limit t tc = Inr None))"
  using collectMemory_prefix [OF assms] collectMemory_stop [OF assms] by blast

definition ex_oim :: OrderInfoMatrix where
  "ex_oim = \<lparr>direction_matrix = [1, -1], type_matrix = [4, 4], price_matrix = [0, 0], volume_matrix = [5, 6]\<rparr>"

definition ex_small :: Config where
  "ex_small = initConfig\<lparr>stock_num := 1, loader_nx_matrix := 1, loader_ny_matrix := 1, loader_nz_matrix := 2\<rparr>"

definition ex_structs :: "SortStruct list" where
  "ex_structs = [\<lparr>ss_order_id = 1, ss_coor = 1\<rparr>, \<lparr>ss_order_id = 200, ss_coor = 0\<rparr>]"

lemma collect_is_prefix_example:
  "\<exists>orders. collectMemory ex_small 101 0 (ex_tc\<lparr>oim := ex_oim, hook := [Map.empty]\<rparr>) ex_structs = Inr (orders, 1)
     \<and> map o_order_id orders = [1]"
proof -
  have c: "collectMemory ex_small 101 0 (ex_tc\<lparr>oim := ex_oim, hook := [Map.empty]\<rparr>) ex_structs
      = Inr ([\<lparr>o_stk_code = 1, o_order_id = 1, o_direction = -1, o_type = 4, o_price = 0, o_volume = 6\<rparr>], 1)"
    by code_simp
  with collect_is_prefix [OF c] show ?thesis by (auto simp: ex_structs_def)
qed

text \<open>
  (C24) No trade is lost or reordered on the way to disk: after any sequence of received trades and a
  flush, the result file of a stock is its old content followed by the encodings of the trades of this
  stock, in the order of arrival. In between, fewer than 100 trades of a stock are in memory.
\<close>

theorem result_file_complete:
  assumes "process_trades os ts (s, r) = Inr (s', r1)" and "flush os' codes r1 = Inr r'" and "code \<in> set codes"
    and "\<forall>c. length (trade_buffer r c) < 100" and "trade_buffer r code = []"
  shows "trade_files r' code = trade_files r code @ concat (map enc_trade (trades_of code ts))
    \<and> (\<forall>c. length (trade_buffer r1 c) < 100)"
proof -
  have "trade_buffer r' code = []" "stored r' = stored r1" using flush_stored [OF assms(2)] assms(3) by auto
  then have "trade_files r' code = stored r1 code" by (metis append_Nil2 concat.simps(1) list.simps(8) stored_def)
  then show ?thesis using process_trades_stored [OF assms(1,4)] assms(5) by (simp add: stored_def)
qed

definition ex_trade :: "int \<Rightarrow> Trade" where
  "ex_trade v = \<lparr>t_stk_code = 1, t_bid_id = 2, t_ask_id = 3, t_price = 4, t_volume = v\<rparr>"

theorem result_file_complete_witness:
  "\<exists>s' r1 r'. process_trades (\<lambda>_ _. (True, True)) [ex_trade 8, ex_trade 9]
       (newSharedTradeInfo ex_small [Map.empty], newTradeReceiver ex_small) = Inr (s', r1)
     \<and> flush (\<lambda>_ _. (True, True)) [1] r1 = Inr r'
     \<and> trade_files r' 1 = enc_trade (ex_trade 8) @ enc_trade (ex_trade 9)"
proof -
  let ?os = "\<lambda>_ _. (True, True)" and ?r = "newTradeReceiver ex_small"
  obtain s' r1 where p: "process_trades ?os [ex_trade 8, ex_trade 9] (newSharedTradeInfo ex_small [Map.empty], ?r) = Inr (s', r1)"
    by (simp add: process_trade_def update_if_hooked_def ex_trade_def newSharedTradeInfo_def newTradeReceiver_def ex_small_def
        initConfig_def TRADE_BUF_THRESHOLD_def Let_def)
  moreover obtain r' where f: "flush ?os [1] r1 = Inr r'" by (simp add: write_buffer_def Let_def)
  ultimately show ?thesis
    using result_file_complete [OF p f, of 1] by (auto simp: newTradeReceiver_def trades_of_def ex_trade_def)
qed

end
