(* ===== verification/Floats.thy ===== *)
theory Floats
  imports Config
begin

text \<open>
  The arithmetic on \<open>double\<close> that the sources use: multiplication, addition, subtraction and division of IEEE-754
  bit patterns, rounded to the nearest number and, between two, to the even one. The exact result is
  an integer times a power of two, which \<open>round_double\<close> rounds once.
\<close>

text \<open>A finite double is \<open>(-1)^sign * mant * 2^expo\<close>.\<close>

definition expo_field :: "double \<Rightarrow> int" where
  "expo_field x = dmag x div 4503599627370496"

definition mant :: "double \<Rightarrow> int" where
  "mant x = dmag x mod 4503599627370496 + (if expo_field x = 0 then 0 else 4503599627370496)"

definition expo :: "double \<Rightarrow> int" where
  "expo x = (if expo_field x = 0 then -1074 else expo_field x - 1075)"

definition dinf :: int where
  "dinf = 9218868437227405312"

definition isinf :: "double \<Rightarrow> bool" where
  "isinf x \<longleftrightarrow> dmag x = dinf"

definition dnan :: double where
  "dnan = 0x7ff8000000000000"

definition make_double :: "bool \<Rightarrow> int \<Rightarrow> double" where
  "make_double neg mag = word_of_int (mag + (if neg then 9223372036854775808 else 0))"

text \<open>The number of binary digits.\<close>

function bit_length :: "int \<Rightarrow> int" where
  "bit_length m = (if m \<le> 0 then 0 else 1 + bit_length (m div 2))"
  by pat_completeness auto
termination
  by (relation "measure nat") auto

declare bit_length.simps [simp del]

text \<open>\<open>m * 2^e\<close> with its last \<open>s\<close> digits rounded off.\<close>

definition round_even :: "int \<Rightarrow> nat \<Rightarrow> int" where
  "round_even m s =
     (let q = m div 2 ^ s; r = m mod 2 ^ s
      in if 2 * r < 2 ^ s then q else if 2 ^ s < 2 * r then q + 1 else if even q then q else q + 1)"

text \<open>
  The exponent \<open>q\<close> leaves at most 53 digits; a mantissa that rounding carries to 54 digits moves into
  the next exponent by itself, and so does one that exceeds the largest finite number.
\<close>

definition round_double :: "bool \<Rightarrow> int \<Rightarrow> int \<Rightarrow> double" where
  "round_double neg m e =
     (if m = 0 then make_double neg 0
      else let q = max (e + bit_length m - 53) (- 1074);
               k = (if q \<le> e then m * 2 ^ nat (e - q) else round_even m (nat (q - e)))
           in make_double neg (min dinf ((q + 1074) * 4503599627370496 + k)))"

definition dneg :: "double \<Rightarrow> double" where
  "dneg x = make_double (\<not> dsign x) (dmag x)"

definition dmul :: "double \<Rightarrow> double \<Rightarrow> double" where
  "dmul x y =
     (let neg = (dsign x \<noteq> dsign y)
      in if isnan x \<or> isnan y then dnan
         else if isinf x \<or> isinf y then (if dmag x = 0 \<or> dmag y = 0 then dnan else make_double neg dinf)
         else round_double neg (mant x * mant y) (expo x + expo y))"

definition dadd :: "double \<Rightarrow> double \<Rightarrow> double" where
  "dadd x y =
     (if isnan x \<or> isnan y then dnan
      else if isinf x then (if isinf y \<and> dsign x \<noteq> dsign y then dnan else x)
      else if isinf y then y
      else let e = min (expo x) (expo y);
               vx = (if dsign x then - mant x else mant x) * 2 ^ nat (expo x - e);
               vy = (if dsign y then - mant y else mant y) * 2 ^ nat (expo y - e)
           in if vx + vy = 0 then make_double (dsign x \<and> dsign y) 0
              else round_double (vx + vy < 0) \<bar>vx + vy\<bar> e)"

definition dsub :: "double \<Rightarrow> double \<Rightarrow> double" where
  "dsub x y = dadd x (dneg y)"

text \<open>
  A quotient is computed to at least 67 digits; a last digit 1 stands for a remainder, so that rounding
  sees on which side of a tie the exact quotient lies.
\<close>

definition ddiv :: "double \<Rightarrow> double \<Rightarrow> double" where
  "ddiv x y =
     (let neg = (dsign x \<noteq> dsign y)
      in if isnan x \<or> isnan y \<or> isinf x \<and> isinf y \<or> dmag x = 0 \<and> dmag y = 0 then dnan
         else if isinf x \<or> dmag y = 0 then make_double neg dinf
         else if isinf y then make_double neg 0
         else let m = mant x * 2 ^ 120
              in round_double neg (2 * (m div mant y) + (if m mod mant y = 0 then 0 else 1)) (expo x - expo y - 121))"

text \<open>Conversions from \<open>uint64_t\<close>, \<open>std::floor\<close> of a number that is not negative, and \<open>float\<close>.\<close>

definition double_of_u64 :: "64 word \<Rightarrow> double" where
  "double_of_u64 n = round_double False (uint n) 0"

definition dfloor :: "double \<Rightarrow> int" where
  "dfloor x = (if 0 \<le> expo x then mant x * 2 ^ nat (expo x) else mant x div 2 ^ nat (- expo x))"

text \<open>
  The \<open>float\<close> nearest to a positive double in the range of normal \<open>float\<close>s, as mantissa and exponent, and
  its decimal expansion with six digits (\<open>std::to_string\<close>).
\<close>

definition float_of_double :: "double \<Rightarrow> int \<times> int" where
  "float_of_double x =
     (let s = bit_length (mant x) - 24
      in if s \<le> 0 then (mant x, expo x) else (round_even (mant x) (nat s), expo x + s))"

definition six_digits :: "int \<Rightarrow> string" where
  "six_digits n = map (\<lambda>k. digit_char (nat (n div 10 ^ k mod 10))) [5, 4, 3, 2, 1, 0]"

definition to_string_float :: "int \<times> int \<Rightarrow> string" where
  "to_string_float f =
     (case f of (m, e) \<Rightarrow>
        let n = (if 0 \<le> e then m * 10 ^ 6 * 2 ^ nat e else round_even (m * 10 ^ 6) (nat (- e)))
        in show_int (n div 10 ^ 6) @ ''.'' @ six_digits (n mod 10 ^ 6))"

end
