(* ===== verification/Loader.thy ===== *)
theory Loader
  imports Trader Floats
begin

text \<open>
  \<open>src/src/common/loader.hpp\<close>, and the part of \<open>src/src/trader/trader_controller.cpp\<close> and
  \<open>src/src/query_order.cpp\<close> that uses it: the names of the data files, the matrices, the sorted order ids
  of each stock, the hooks, the price limits, the cache files and the generators that read them.

  The HDF5 library is not part of the sources. It is the argument \<open>h5\<close>: for a file, a data set, and the
  counts and offsets of a block, the rank of the data set and the numbers of the block, row by row.
\<close>

section \<open>Files\<close>

datatype matrix_idx = order_id_idx | direction_idx | type_idx | price_idx | volume_idx

record Loader =
  hook_fname :: string
  INPUT_FILE_NAME :: "string list list"
  CACHE_FILE_NAME :: "string list list"
  loader_inited :: bool

definition fresh_loader :: Loader where
  "fresh_loader = \<lparr>hook_fname = [], INPUT_FILE_NAME = [], CACHE_FILE_NAME = [], loader_inited = False\<rparr>"

definition init_loader :: "Config \<Rightarrow> Loader" where
  "init_loader cfg =
     \<lparr>hook_fname = data_folder cfg @ ''hook.h5'',
      INPUT_FILE_NAME =
        [[data_folder cfg @ ''order_id1.h5'', data_folder cfg @ ''direction1.h5'', data_folder cfg @ ''type1.h5'',
          data_folder cfg @ ''price1.h5'', data_folder cfg @ ''volume1.h5''],
         [data_folder cfg @ ''order_id2.h5'', data_folder cfg @ ''direction2.h5'', data_folder cfg @ ''type2.h5'',
          data_folder cfg @ ''price2.h5'', data_folder cfg @ ''volume2.h5'']],
      CACHE_FILE_NAME =
        [[trade_output_folder cfg @ ''order_id1.mat'', trade_output_folder cfg @ ''direction1.mat'',
          trade_output_folder cfg @ ''type1.mat'', trade_output_folder cfg @ ''price1.mat'',
          trade_output_folder cfg @ ''volume1.mat''],
         [trade_output_folder cfg @ ''order_id2.mat'', trade_output_folder cfg @ ''direction2.mat'',
          trade_output_folder cfg @ ''type2.mat'', trade_output_folder cfg @ ''price2.mat'',
          trade_output_folder cfg @ ''volume2.mat'']],
      loader_inited = True\<rparr>"

definition idx_of :: "matrix_idx \<Rightarrow> int" where
  "idx_of i = (case i of order_id_idx \<Rightarrow> 0 | direction_idx \<Rightarrow> 1 | type_idx \<Rightarrow> 2 | price_idx \<Rightarrow> 3 | volume_idx \<Rightarrow> 4)"

definition get_input_fname :: "Loader \<Rightarrow> int \<Rightarrow> matrix_idx \<Rightarrow> string result" where
  "get_input_fname L part i = bindE (at (INPUT_FILE_NAME L) part) (\<lambda>names. at names (idx_of i))"

definition get_cache_fname :: "Loader \<Rightarrow> int \<Rightarrow> matrix_idx \<Rightarrow> string result" where
  "get_cache_fname L part i = bindE (at (CACHE_FILE_NAME L) part) (\<lambda>names. at names (idx_of i))"

definition DATASET_NAME :: "matrix_idx \<Rightarrow> string" where
  "DATASET_NAME i =
     (case i of order_id_idx \<Rightarrow> ''order_id'' | direction_idx \<Rightarrow> ''direction'' | type_idx \<Rightarrow> ''type''
        | price_idx \<Rightarrow> ''price'' | volume_idx \<Rightarrow> ''volume'')"

section \<open>Matrices\<close>

type_synonym 'a h5 = "string \<Rightarrow> string \<Rightarrow> int list \<Rightarrow> int list \<Rightarrow> (nat \<times> 'a list) result"

text \<open>The array has as many zeros as the counts say; the library then writes the block into it.\<close>

definition load_matrix_from_file :: "Loader \<Rightarrow> 'a h5 \<Rightarrow> 'a \<Rightarrow> string \<Rightarrow> string \<Rightarrow> int list \<Rightarrow> int list \<Rightarrow> 'a list result" where
  "load_matrix_from_file L h5 zero fname dataset_name counts offsets =
     (let num_data = foldl (\<lambda>n c. i32 (n * c)) 1 counts
      in if \<not> loader_inited L then Inl Abort
         else if num_data < 0 then Inl BadAlloc
         else bindE (h5 fname dataset_name counts offsets) (\<lambda>(dataset_rank, block).
           if dataset_rank \<noteq> length counts then Inl Abort
           else if nat num_data < length block then Inl Undefined
           else Inr (block @ replicate (nat num_data - length block) zero)))"

definition load_matrix :: "Config \<Rightarrow> Loader \<Rightarrow> 'a h5 \<Rightarrow> 'a \<Rightarrow> int \<Rightarrow> matrix_idx \<Rightarrow> 'a list result" where
  "load_matrix cfg L h5 zero part i =
     bindE (get_input_fname L part i) (\<lambda>fname.
       load_matrix_from_file L h5 zero fname (DATASET_NAME i)
         [loader_nx_matrix cfg, loader_ny_matrix cfg, loader_nz_matrix cfg] [0, 0, 0])"

definition load_single_data_from_file :: "Loader \<Rightarrow> 'a h5 \<Rightarrow> int \<Rightarrow> matrix_idx \<Rightarrow> Coordinates \<Rightarrow> 'a result" where
  "load_single_data_from_file L h5 part i coor =
     bindE (get_input_fname L part i) (\<lambda>fname.
     bindE (h5 fname (DATASET_NAME i) [1, 1, 1] [get_x coor, get_y coor, get_z coor]) (\<lambda>(_, block). at block 0))"

definition load_oim :: "Config \<Rightarrow> Loader \<Rightarrow> int h5 \<Rightarrow> double h5 \<Rightarrow> int \<Rightarrow> OrderInfoMatrix result" where
  "load_oim cfg L h5i h5d part =
     bindE (load_matrix cfg L h5i 0 part direction_idx) (\<lambda>d.
     bindE (load_matrix cfg L h5i 0 part type_idx) (\<lambda>t.
     bindE (load_matrix cfg L h5d 0 part price_idx) (\<lambda>p.
     bindE (load_matrix cfg L h5i 0 part volume_idx) (\<lambda>v.
       Inr \<lparr>direction_matrix = d, type_matrix = t, price_matrix = p, volume_matrix = v\<rparr>))))"

section \<open>Sorted order ids\<close>

definition cells :: "int \<Rightarrow> int \<Rightarrow> int \<Rightarrow> (int \<times> int \<times> int) list" where
  "cells nx ny nz =
     concat (map (\<lambda>x. concat (map (\<lambda>y. map (\<lambda>z. (x, y, z)) [0..nz - 1]) [0..ny - 1])) [0..nx - 1])"

definition num_order :: "Config \<Rightarrow> int" where
  "num_order cfg =
     i32 (i32 (loader_nx_matrix cfg * loader_ny_matrix cfg) * loader_nz_matrix cfg) sdiv stock_num cfg"

fun fill_structs :: "Config \<Rightarrow> int list \<Rightarrow> (int \<times> int \<times> int) list \<Rightarrow> SortStruct list list \<Rightarrow> SortStruct list list result" where
  "fill_structs cfg data [] rows = Inr rows"
| "fill_structs cfg data ((x, y, z) # cs) rows =
     (let ny = loader_ny_matrix cfg; nz = loader_nz_matrix cfg;
          t = x smod stock_num cfg; i = flat_idx ny nz (x sdiv stock_num cfg) y z
      in bindE (at data (flat_idx ny nz x y z)) (\<lambda>v.
         bindE (at rows t) (\<lambda>row.
         bindE (at row i) (\<lambda>_.
           fill_structs cfg data cs
             (rows[nat t := row[nat i := \<lparr>ss_order_id = v, ss_coor = set_coor x y z\<rparr>]])))))"

text \<open>
  \<open>std::sort\<close> returns the elements in ascending order. \<open>operator<\<close> is total on \<open>SortStruct\<close>, so there is
  only one such list.
\<close>

definition sort_key_of :: "SortStruct \<Rightarrow> int \<times> int" where
  "sort_key_of s = (ss_order_id s, uint (ss_coor s))"

definition sort_structs :: "SortStruct list \<Rightarrow> SortStruct list" where
  "sort_structs row = sort_key sort_key_of row"

definition load_order_id_from_file :: "Config \<Rightarrow> Loader \<Rightarrow> int h5 \<Rightarrow> int \<Rightarrow> SortStruct list list result" where
  "load_order_id_from_file cfg L h5 part =
     bindE (load_matrix cfg L h5 0 part order_id_idx) (\<lambda>data.
       if stock_num cfg = 0 then Inl Undefined
       else if stock_num cfg < 0 \<or> num_order cfg < 0 then Inl BadAlloc
       else bindE (fill_structs cfg data (cells (loader_nx_matrix cfg) (loader_ny_matrix cfg) (loader_nz_matrix cfg))
              (replicate (nat (stock_num cfg)) (replicate (nat (num_order cfg)) \<lparr>ss_order_id = 0, ss_coor = 0\<rparr>))) (\<lambda>rows.
         Inr (map sort_structs rows)))"

section \<open>Hooks\<close>

fun fill_hooks :: "int list \<Rightarrow> (int \<times> int) list \<Rightarrow> (int \<rightharpoonup> HookTarget) list \<times> (int \<rightharpoonup> int) list
    \<Rightarrow> ((int \<rightharpoonup> HookTarget) list \<times> (int \<rightharpoonup> int) list) result" where
  "fill_hooks data [] hs = Inr hs"
| "fill_hooks data ((x, y) # xys) (hooks, hooked) =
     (let stock_id = x smod 10; i = x * 400 + y * 4
      in bindE (at data i) (\<lambda>self_order_id.
         bindE (at data (i + 1)) (\<lambda>code.
         bindE (at data (i + 2)) (\<lambda>idx.
         bindE (at data (i + 3)) (\<lambda>a.
         bindE (at hooks stock_id) (\<lambda>h.
         bindE (at hooked (code - 1)) (\<lambda>h'.
           fill_hooks data xys
             (hooks[nat stock_id := h(self_order_id \<mapsto> \<lparr>target_stk_code = code, target_trade_idx = idx, arg = a\<rparr>)],
              hooked[nat (code - 1) := h'(idx \<mapsto> -1)]))))))))"

definition load_hook :: "Config \<Rightarrow> Loader \<Rightarrow> int h5 \<Rightarrow> ((int \<rightharpoonup> HookTarget) list \<times> (int \<rightharpoonup> int) list) result" where
  "load_hook cfg L h5 =
     bindE (load_matrix_from_file L h5 0 (hook_fname L) ''hook'' [10, 100, 4] [0, 0, 0]) (\<lambda>data.
       if stock_num cfg < 0 then Inl BadAlloc
       else fill_hooks data (concat (map (\<lambda>x. map (\<lambda>y. (x, y)) [0..99]) [0..9]))
              (replicate (nat (stock_num cfg)) Map.empty, replicate (nat (stock_num cfg)) Map.empty))"

section \<open>Price limits\<close>

definition tenth :: double where
  "tenth = 0x3fb999999999999a"

text \<open>Ten entries for each limit, whatever the number of stocks.\<close>

fun fill_limits :: "double list \<Rightarrow> int list \<Rightarrow> double list \<times> double list \<Rightarrow> (double list \<times> double list) result" where
  "fill_limits data [] lims = Inr lims"
| "fill_limits data (t # ts) (low, high) =
     bindE (at data t) (\<lambda>p.
     bindE (at low t) (\<lambda>_.
     bindE (at high t) (\<lambda>_.
       fill_limits data ts
         (low[nat t := dsub p (dmul p tenth)], high[nat t := dadd p (dmul p tenth)]))))"

definition load_prev_close :: "Config \<Rightarrow> Loader \<Rightarrow> double h5 \<Rightarrow> int \<Rightarrow> double list list result" where
  "load_prev_close cfg L h5 part =
     bindE (get_input_fname L part price_idx) (\<lambda>fname.
     bindE (load_matrix_from_file L h5 0 fname ''prev_close'' [stock_num cfg] [0]) (\<lambda>data.
     bindE (fill_limits data [0..stock_num cfg - 1] (replicate 10 0, replicate 10 0)) (\<lambda>(low, high).
       Inr [low, high])))"

section \<open>Cache files\<close>

text \<open>The five cache files of a stock, as the numbers in them.\<close>

record CacheFiles =
  c_order_id :: "int list"
  c_direction :: "int list"
  c_type :: "int list"
  c_price :: "double list"
  c_volume :: "int list"

definition no_cache :: CacheFiles where
  "no_cache = \<lparr>c_order_id = [], c_direction = [], c_type = [], c_price = [], c_volume = []\<rparr>"

text \<open>The body of the loop that writes the cache of stock \<open>t\<close>.\<close>

definition dump_struct :: "Config \<Rightarrow> OrderInfoMatrix \<Rightarrow> int \<Rightarrow> SortStruct \<Rightarrow> CacheFiles \<Rightarrow> CacheFiles result" where
  "dump_struct cfg m t s c =
     (let nx = loader_nx_matrix cfg; ny = loader_ny_matrix cfg; nz = loader_nz_matrix cfg;
          x = get_x (ss_coor s); y = get_y (ss_coor s); z = get_z (ss_coor s); i = flat_idx ny nz x y z
      in if \<not> (0 \<le> x \<and> x < nx \<and> 0 \<le> y \<and> y < ny \<and> 0 \<le> z \<and> z < nz) then Inl Abort
         else if stock_num cfg = 0 then Inl Undefined
         else if t \<noteq> x smod stock_num cfg then Inl Abort
         else bindE (at (direction_matrix m) i) (\<lambda>d.
              bindE (at (type_matrix m) i) (\<lambda>ty.
              bindE (at (price_matrix m) i) (\<lambda>p.
              bindE (at (volume_matrix m) i) (\<lambda>v.
                Inr (c\<lparr>c_order_id := c_order_id c @ [ss_order_id s], c_direction := c_direction c @ [d],
                       c_type := c_type c @ [ty], c_price := c_price c @ [p], c_volume := c_volume c @ [v]\<rparr>))))))"

fun dump_structs :: "Config \<Rightarrow> OrderInfoMatrix \<Rightarrow> int \<Rightarrow> SortStruct list \<Rightarrow> CacheFiles \<Rightarrow> CacheFiles result" where
  "dump_structs cfg m t [] c = Inr c"
| "dump_structs cfg m t (s # ss) c = bindE (dump_struct cfg m t s c) (dump_structs cfg m t ss)"

definition dump_cache :: "Config \<Rightarrow> OrderInfoMatrix \<Rightarrow> SortStruct list list \<Rightarrow> CacheFiles list result" where
  "dump_cache cfg m rows =
     mapE (\<lambda>t. bindE (at rows t) (\<lambda>row.
       if int (length row) < num_order cfg then Inl Undefined
       else dump_structs cfg m t (take (nat (num_order cfg)) row) no_cache)) [0..stock_num cfg - 1]"

text \<open>
  The generator of a stock as the constructor leaves it: the files are opened and the first part is
  read. \<open>junk\<close> is what the arrays hold before.
\<close>

definition newOrderGenerator :: "Config \<Rightarrow> CacheFiles \<Rightarrow> CacheFiles \<Rightarrow> OrderGenerator" where
  "newOrderGenerator cfg c junk =
     snd (og_load_data (nat (og_length cfg))
       \<lparr>f_order_id = c_order_id c, f_direction = c_direction c, f_type = c_type c, f_price = c_price c,
        f_volume = c_volume c, b_order_id = c_order_id junk, b_direction = c_direction junk, b_type = c_type junk,
        b_price = c_price junk, b_volume = c_volume junk, start_idx = 0, cur_partition = 0\<rparr>)"

section \<open>Loading the data of a trader\<close>

text \<open>\<open>load_data\<close>: the limits, the hooks, the hooked trades, and by the mode the cache files or the matrices.\<close>

datatype loaded = Caches "CacheFiles list" | InMemory "SortStruct list list" OrderInfoMatrix | Nothing

definition load_data :: "Config \<Rightarrow> int h5 \<Rightarrow> double h5
    \<Rightarrow> (double list list \<times> (int \<rightharpoonup> HookTarget) list \<times> (int \<rightharpoonup> int) list \<times> loaded) result" where
  "load_data cfg h5i h5d =
     (let L = init_loader cfg; part = partition_idx cfg
      in bindE (load_prev_close cfg L h5d part) (\<lambda>limits.
         bindE (load_hook cfg L h5i) (\<lambda>(hooks, hooked).
           if load_mode cfg = 0 then
             bindE (load_order_id_from_file cfg L h5i part) (\<lambda>rows.
             bindE (load_oim cfg L h5i h5d part) (\<lambda>m.
             bindE (dump_cache cfg m rows) (\<lambda>caches. Inr (limits, hooks, hooked, Caches caches))))
           else if load_mode cfg = 2 then
             bindE (load_order_id_from_file cfg L h5i part) (\<lambda>rows.
             bindE (load_oim cfg L h5i h5d part) (\<lambda>m. Inr (limits, hooks, hooked, InMemory rows m)))
           else Inr (limits, hooks, hooked, Nothing))))"

definition newTraderController :: "Config \<Rightarrow> int h5 \<Rightarrow> double h5 \<Rightarrow> TraderController result" where
  "newTraderController cfg h5i h5d =
     (if stock_num cfg < 0 then Inl BadAlloc
      else bindE (load_data cfg h5i h5d) (\<lambda>(limits, hooks, hooked, ld).
        Inr \<lparr>price_limits = limits, hook = hooks,
             sorted_order_structs = (case ld of InMemory rows _ \<Rightarrow> rows | _ \<Rightarrow> []),
             next_sorted_struct_idx = replicate (nat (stock_num cfg)) 0,
             oim = (case ld of InMemory _ m \<Rightarrow> m
                    | _ \<Rightarrow> \<lparr>direction_matrix = [], type_matrix = [], price_matrix = [], volume_matrix = []\<rparr>),
             sharedInfo = newSharedTradeInfo cfg hooked\<rparr>))"

section \<open>The query tool\<close>

text \<open>The orders of one data file, stock by stock; \<open>query_order\<close> puts stock \<open>t\<close> into list \<open>t + 1\<close> of eleven
  and sorts each list by the order id (\<open>std::sort\<close> leaves open how orders with the same id are arranged).\<close>

definition fetch_part :: "Config \<Rightarrow> Loader \<Rightarrow> int h5 \<Rightarrow> double h5 \<Rightarrow> int \<Rightarrow> Order list list result" where
  "fetch_part cfg L h5i h5d part =
     bindE (load_order_id_from_file cfg L h5i part) (\<lambda>rows.
     bindE (load_oim cfg L h5i h5d part) (\<lambda>m.
       mapE (\<lambda>t. bindE (at rows t) (\<lambda>row.
         if int (length row) < num_order cfg then Inl Undefined
         else mapE (\<lambda>s. matrix_order cfg m (t + 1) s (loader_nx_matrix cfg) (loader_ny_matrix cfg) (loader_nz_matrix cfg))
                (take (nat (num_order cfg)) row))) [0..9]))"

definition fetch_order_by_config :: "Config \<Rightarrow> Loader \<Rightarrow> int h5 \<Rightarrow> double h5 \<Rightarrow> Order list list result" where
  "fetch_order_by_config cfg L h5i h5d =
     bindE (fetch_part cfg L h5i h5d 0) (\<lambda>a.
     bindE (fetch_part cfg L h5i h5d 1) (\<lambda>b.
       Inr ([] # map2 (\<lambda>xs ys. sort_key o_order_id (xs @ ys)) a b)))"

end
