(* ===== verification/Controller_Loop.thy ===== *)
theory Controller_Loop
  imports Trader_Properties Loader
begin

text \<open>
  The main loops of the trader, \<open>run_all_in_memory\<close> and \<open>run\<close> of \<open>src/src/trader/trader_controller.cpp\<close>: a round collects the
  orders of all stocks and hands each to the queue of its sender. A queue that is full makes the controller wait;
  the round then stands before the order that it waits with.
\<close>

section \<open>Rounds\<close>

text \<open>The loop over the stocks of \<open>run\<close>, with one generator for each stock.\<close>

fun roundGenerated :: "Config \<Rightarrow> nat \<Rightarrow> int list \<Rightarrow> TraderController \<Rightarrow> OrderGenerator list
    \<Rightarrow> (Order list \<times> OrderGenerator list) result" where
  "roundGenerated cfg len [] tc gs = Inr ([], gs)"
| "roundGenerated cfg len (t # ts) tc gs =
     bindE (order_id_limit cfg t tc) (\<lambda>limit.
     bindE (at gs t) (\<lambda>g.
     bindE (collectGenerated len limit t tc g) (\<lambda>(orders, g).
     bindE (roundGenerated cfg len ts tc (gs[nat t := g])) (\<lambda>(orders', gs).
       Inr (orders @ orders', gs)))))"

text \<open>The loop that sends: the orders for which there is no room yet, and the queues.\<close>

fun send_orders :: "Config \<Rightarrow> Order list \<Rightarrow> Order BlockQueue list \<Rightarrow> (Order list \<times> Order BlockQueue list) result" where
  "send_orders cfg [] qs = Inr ([], qs)"
| "send_orders cfg (x # xs) qs =
     bindE (at qs (sender_idx cfg x)) (\<lambda>q.
     bindE (put_order x q) (\<lambda>r.
       case r of
         None \<Rightarrow> Inr (x # xs, qs)
       | Some q \<Rightarrow> send_orders cfg xs (qs[nat (sender_idx cfg x) := q])))"

definition run_all_in_memory_turn :: "Config \<Rightarrow> TraderController \<times> Order BlockQueue list
    \<Rightarrow> (Order list \<times> TraderController \<times> Order BlockQueue list) result" where
  "run_all_in_memory_turn cfg s =
     (case s of (tc, qs) \<Rightarrow>
        bindE (roundMemory cfg [0..stock_num cfg - 1] tc) (\<lambda>(orders, tc).
        bindE (send_orders cfg orders qs) (\<lambda>(rest, qs). Inr (rest, tc, qs))))"

definition run_turn :: "Config \<Rightarrow> nat \<Rightarrow> TraderController \<Rightarrow> OrderGenerator list \<times> Order BlockQueue list
    \<Rightarrow> (Order list \<times> OrderGenerator list \<times> Order BlockQueue list) result" where
  "run_turn cfg len tc s =
     (case s of (gs, qs) \<Rightarrow>
        bindE (roundGenerated cfg len [0..stock_num cfg - 1] tc gs) (\<lambda>(orders, gs).
        bindE (send_orders cfg orders qs) (\<lambda>(rest, qs). Inr (rest, gs, qs))))"

text \<open>\<open>run\<close> in the mode of the configuration; \<open>gs\<close> is not used in the mode that has all orders in memory.\<close>

definition controller_turn :: "Config \<Rightarrow> nat \<Rightarrow> TraderController \<times> OrderGenerator list \<times> Order BlockQueue list
    \<Rightarrow> (Order list \<times> TraderController \<times> OrderGenerator list \<times> Order BlockQueue list) result" where
  "controller_turn cfg len s =
     (case s of (tc, gs, qs) \<Rightarrow>
        if load_mode cfg = 2
        then bindE (run_all_in_memory_turn cfg (tc, qs)) (\<lambda>(rest, tc, qs). Inr (rest, tc, gs, qs))
        else bindE (run_turn cfg len tc (gs, qs)) (\<lambda>(rest, gs, qs). Inr (rest, tc, gs, qs)))"

section \<open>Lemmas\<close>

text \<open>The contents of the queues, one list for each sender.\<close>

definition queues_rep :: "Order BlockQueue list \<Rightarrow> Order list list \<Rightarrow> bool" where
  "queues_rep qs xss \<longleftrightarrow> list_all2 bq_rep qs xss"

definition for_sender :: "Config \<Rightarrow> int \<Rightarrow> Order list \<Rightarrow> Order list" where
  "for_sender cfg i xs = filter (\<lambda>x. sender_idx cfg x = i) xs"

lemma for_sender_simps [simp]:
  "for_sender cfg i [] = []"
  "for_sender cfg i (x # xs) = (if sender_idx cfg x = i then x # for_sender cfg i xs else for_sender cfg i xs)"
  "for_sender cfg i (xs @ ys) = for_sender cfg i xs @ for_sender cfg i ys"
  by (simp_all add: for_sender_def)

definition capacities :: "Order BlockQueue list \<Rightarrow> nat list" where
  "capacities qs = map bq_maxCapacity qs"

lemma put_order_rep:
  assumes "bq_rep q xs" and "put_order x q = Inr r"
  shows "r = None \<and> bq_maxCapacity q \<le> length xs
    \<or> (\<exists>q'. r = Some q' \<and> bq_rep q' (xs @ [x]) \<and> bq_maxCapacity q' = bq_maxCapacity q \<and> length xs < bq_maxCapacity q)"
proof (cases "length xs < bq_maxCapacity q")
  case True
  moreover have "bq_sz q = length xs" using assms(1) by (simp add: bq_rep_def)
  ultimately show ?thesis using bq_push_rep [OF assms(1) True, of x] assms(2) by (auto simp: put_order_def bq_put_def)
next
  case False
  then show ?thesis using bq.put_full [OF assms(1)] assms(2) by (auto simp: put_order_def bq_room_def)
qed

lemma for_sender_step:
  assumes "j < length xss" and "i < length xss" and "int i = sender_idx cfg x"
  shows "xss[i := xss ! i @ [x]] ! j @ for_sender cfg (int j) sent = xss ! j @ for_sender cfg (int j) (x # sent)"
  using assms by (cases "j = i") (auto simp: nth_list_update)

lemma send_orders_Cons:
  assumes "queues_rep qs xss" and "0 \<le> sender_idx cfg x" and "sender_idx cfg x < int (length qs)"
  defines "i \<equiv> nat (sender_idx cfg x)"
  obtains (full) "send_orders cfg (x # xs) qs = Inr (x # xs, qs)" "capacities qs ! i \<le> length (xss ! i)"
  | (room) q' where "send_orders cfg (x # xs) qs = send_orders cfg xs (qs[i := q'])"
      "queues_rep (qs[i := q']) (xss[i := xss ! i @ [x]])" "capacities (qs[i := q']) = capacities qs"
proof -
  have i: "i < length qs" using assms(2,3) by (simp add: i_def)
  have rep: "bq_rep (qs ! i) (xss ! i)" using assms(1) i by (simp add: queues_rep_def list_all2_nthD)
  have a: "at qs (sender_idx cfg x) = Inr (qs ! i)" using assms(2,3) by (simp add: at_def i_def)
  obtain r where r: "put_order x (qs ! i) = Inr r"
    using bq.put_room [OF rep, of x] bq.put_full [OF rep, of x] by (cases "bq_room (qs ! i) (length (xss ! i))") (auto simp: put_order_def)
  have st: "send_orders cfg (x # xs) qs = (case r of None \<Rightarrow> Inr (x # xs, qs) | Some q \<Rightarrow> send_orders cfg xs (qs[i := q]))"
    unfolding send_orders.simps a bindE_simps r by (simp only: i_def)
  from put_order_rep [OF rep r] show ?thesis
  proof (elim disjE conjE exE)
    assume "r = None" "bq_maxCapacity (qs ! i) \<le> length (xss ! i)"
    then show ?thesis using st full i by (simp add: capacities_def)
  next
    fix q' assume q': "r = Some q'" "bq_rep q' (xss ! i @ [x])" "bq_maxCapacity q' = bq_maxCapacity (qs ! i)"
    have "queues_rep (qs[i := q']) (xss[i := xss ! i @ [x]])" using assms(1) q'(2) by (simp add: queues_rep_def list_all2_update_cong)
    moreover have "capacities (qs[i := q']) = capacities qs" using q'(3) i by (simp add: capacities_def map_update list_update_same_conv)
    ultimately show ?thesis using st q'(1) room by simp
  qed
qed

text \<open>Every order goes to the end of its sender's queue; the loop stops before the first one whose queue is full.\<close>

lemma send_orders_rep:
  assumes "queues_rep qs xss" and "list_all (\<lambda>x. 0 \<le> sender_idx cfg x \<and> sender_idx cfg x < int (length qs)) xs"
  shows "\<exists>sent rest qs'. send_orders cfg xs qs = Inr (rest, qs') \<and> xs = sent @ rest
    \<and> queues_rep qs' (map (\<lambda>i. xss ! i @ for_sender cfg (int i) sent) [0..<length xss]) \<and> capacities qs' = capacities qs
    \<and> (\<forall>x xs'. rest = x # xs' \<longrightarrow>
         capacities qs ! nat (sender_idx cfg x) \<le> length (xss ! nat (sender_idx cfg x) @ for_sender cfg (sender_idx cfg x) sent))"
  using assms
proof (induction xs arbitrary: qs xss)
  case Nil
  have "map (\<lambda>i. xss ! i @ for_sender cfg (int i) []) [0..<length xss] = xss" by (simp add: map_nth)
  then show ?case using Nil by simp
next
  case (Cons x xs)
  let ?i = "nat (sender_idx cfg x)"
  have i: "0 \<le> sender_idx cfg x" "sender_idx cfg x < int (length qs)" "int ?i = sender_idx cfg x" using Cons.prems(2) by auto
  have len: "length xss = length qs" using Cons.prems(1) by (simp add: queues_rep_def list_all2_lengthD)
  from Cons.prems(1) i(1,2) show ?case
  proof (cases rule: send_orders_Cons [where xs = xs])
    case full
    moreover have "map (\<lambda>i. xss ! i @ for_sender cfg (int i) []) [0..<length xss] = xss" by (simp add: map_nth)
    ultimately show ?thesis using Cons.prems(1)
      by (rule_tac exI [of _ "[]"], rule_tac exI [of _ "x # xs"]) (simp del: send_orders.simps)
  next
    case (room q')
    let ?qs = "qs[?i := q']" and ?xss = "xss[?i := xss ! ?i @ [x]]"
    have "list_all (\<lambda>x. 0 \<le> sender_idx cfg x \<and> sender_idx cfg x < int (length ?qs)) xs" using Cons.prems(2) by simp
    from Cons.IH [OF room(2) this] obtain sent rest qs' where IH: "send_orders cfg xs ?qs = Inr (rest, qs')" "xs = sent @ rest"
      "queues_rep qs' (map (\<lambda>i. ?xss ! i @ for_sender cfg (int i) sent) [0..<length ?xss])" "capacities qs' = capacities ?qs"
      "\<forall>y ys. rest = y # ys \<longrightarrow>
         capacities ?qs ! nat (sender_idx cfg y) \<le> length (?xss ! nat (sender_idx cfg y) @ for_sender cfg (sender_idx cfg y) sent)"
      by blast
    have n: "?xss ! j @ for_sender cfg (int j) sent = xss ! j @ for_sender cfg (int j) (x # sent)" if "j < length xss" for j
      using for_sender_step [OF that _ i(3)] i len by simp
    have y: "nat (sender_idx cfg y) < length xss \<and> int (nat (sender_idx cfg y)) = sender_idx cfg y" if "rest = y # ys" for y ys
      using that len Cons.prems(2) IH(2) by auto
    have "\<forall>y ys. rest = y # ys \<longrightarrow>
         capacities qs ! nat (sender_idx cfg y) \<le> length (xss ! nat (sender_idx cfg y) @ for_sender cfg (sender_idx cfg y) (x # sent))"
      using IH(5) n y by (metis room(3))
    moreover have "map (\<lambda>i. ?xss ! i @ for_sender cfg (int i) sent) [0..<length xss] = map (\<lambda>i. xss ! i @ for_sender cfg (int i) (x # sent)) [0..<length xss]"
      using n by (intro map_cong refl) (simp only: set_upt atLeastLessThan_iff)
    then have "queues_rep qs' (map (\<lambda>i. xss ! i @ for_sender cfg (int i) (x # sent)) [0..<length xss])"
      using IH(3) by (simp only: length_list_update)
    moreover have "send_orders cfg (x # xs) qs = Inr (rest, qs')" using room(1) IH(1) by simp
    moreover have "x # xs = (x # sent) @ rest" "capacities qs' = capacities qs" using IH(2,4) room(3) by simp_all
    ultimately show ?thesis by blast
  qed
qed

section \<open>A round over all stocks\<close>

lemma check_order_next [simp]: "check_order order limit t (tc\<lparr>next_sorted_struct_idx := v\<rparr>) = check_order order limit t tc"
proof -
  let ?tc = "tc\<lparr>next_sorted_struct_idx := v\<rparr>"
  have "check_hook order t ?tc = check_hook order t tc" by (simp add: check_hook_def cong: option.case_cong)
  moreover have "check_price x t ?tc = check_price x t tc" for x by (simp add: check_price_def cong: if_cong)
  ultimately show ?thesis by (simp add: check_order_def)
qed

lemma collectMemory_next [simp]:
  "collectMemory cfg limit t (tc\<lparr>next_sorted_struct_idx := v\<rparr>) sss = collectMemory cfg limit t tc sss"
  by (induction sss) simp_all

lemma order_id_limit_next [simp]: "order_id_limit cfg t (tc\<lparr>next_sorted_struct_idx := v\<rparr>) = order_id_limit cfg t tc"
  by (simp add: order_id_limit_def)

lemma roundMemory_ConsE:
  assumes "roundMemory cfg (t # ts) tc = Inr (orders, tc')"
  obtains limit i structs os n orders' where
    "order_id_limit cfg t tc = Inr limit" "at (next_sorted_struct_idx tc) t = Inr i" "at (sorted_order_structs tc) t = Inr structs"
    "collectMemory cfg limit t tc (drop (nat i) structs) = Inr (os, n)" "orders = os @ orders'"
    "roundMemory cfg ts (tc\<lparr>next_sorted_struct_idx := (next_sorted_struct_idx tc)[nat t := i + int n]\<rparr>) = Inr (orders', tc')"
  using assms by (auto simp: bindE_eq_Inr)

lemma roundMemory_codes: "roundMemory cfg ts tc = Inr (orders, tc') \<Longrightarrow> x \<in> set orders \<Longrightarrow> o_stk_code x - 1 \<in> set ts"
proof (induction ts arbitrary: tc orders)
  case (Cons t ts)
  from Cons.prems(1) show ?case
  proof (cases rule: roundMemory_ConsE)
    case (1 limit i structs os n orders')
    then show ?thesis using Cons.IH [OF 1(6)] Cons.prems(2) collectMemory_prefix [OF 1(4)] by auto
  qed
qed simp

lemma roundMemory_other_index:
  "roundMemory cfg ts tc = Inr (orders, tc') \<Longrightarrow> 0 \<le> t \<Longrightarrow> t \<notin> set ts \<Longrightarrow> \<forall>u \<in> set ts. 0 \<le> u
    \<Longrightarrow> next_sorted_struct_idx tc' ! nat t = next_sorted_struct_idx tc ! nat t"
proof (induction ts arbitrary: tc orders)
  case (Cons u ts)
  from Cons.prems(1) show ?case
  proof (cases rule: roundMemory_ConsE)
    case (1 limit i structs os n orders')
    have "nat u \<noteq> nat t" using Cons.prems(2-4) by auto
    then show ?thesis using Cons.IH [OF 1(6)] Cons.prems(2-4) by (simp add: nth_list_update)
  qed
qed simp

text \<open>Within a round, a stock gets what the loop over its own entries gives, and its index moves by that many.\<close>

lemma roundMemory_stock:
  assumes "roundMemory cfg ts tc = Inr (orders, tc')" and "distinct ts" and "\<forall>u \<in> set ts. 0 \<le> u" and "t \<in> set ts"
  shows "\<exists>limit n. order_id_limit cfg t tc = Inr limit
    \<and> collectMemory cfg limit t tc (drop (nat (next_sorted_struct_idx tc ! nat t)) (sorted_order_structs tc ! nat t))
        = Inr (filter (\<lambda>x. o_stk_code x = t + 1) orders, n)
    \<and> next_sorted_struct_idx tc' ! nat t = next_sorted_struct_idx tc ! nat t + int n"
  using assms
proof (induction ts arbitrary: tc orders)
  case (Cons u ts)
  from Cons.prems(1) show ?case
  proof (cases rule: roundMemory_ConsE)
    case (1 limit i structs os n orders')
    let ?tc = "tc\<lparr>next_sorted_struct_idx := (next_sorted_struct_idx tc)[nat u := i + int n]\<rparr>"
    have i: "i = next_sorted_struct_idx tc ! nat u" "nat u < length (next_sorted_struct_idx tc)" "structs = sorted_order_structs tc ! nat u"
      using 1(2,3) by (auto simp: at_Inr)
    have os: "\<forall>x \<in> set os. o_stk_code x = u + 1" using collectMemory_prefix [OF 1(4)] by blast
    show ?thesis
    proof (cases "t = u")
      case True
      have "filter (\<lambda>x. o_stk_code x = u + 1) orders' = []"
        using roundMemory_codes [OF 1(6)] Cons.prems(2) by (force simp: filter_empty_conv)
      moreover have "next_sorted_struct_idx tc' ! nat u = i + int n"
        using roundMemory_other_index [OF 1(6), of u] Cons.prems(2,3) i(2) by simp
      ultimately show ?thesis using True 1(1,4,5) os i by (simp add: filter_id_conv)
    next
      case False
      then have "nat u \<noteq> nat t" using Cons.prems(3,4) by auto
      moreover have "filter (\<lambda>x. o_stk_code x = t + 1) os = []" using os False by (auto simp: filter_empty_conv)
      ultimately show ?thesis using Cons.IH [OF 1(6)] Cons.prems(2-4) False 1(5) by simp
    qed
  qed
qed simp

lemma send_orders_room:
  assumes "queues_rep qs xss" and "list_all (\<lambda>x. 0 \<le> sender_idx cfg x \<and> sender_idx cfg x < int (length qs)) xs"
    and "\<And>i. i < length qs \<Longrightarrow> length (xss ! i) + length (for_sender cfg (int i) xs) \<le> capacities qs ! i"
  shows "\<exists>qs'. send_orders cfg xs qs = Inr ([], qs')"
proof -
  obtain sent rest qs' where s: "send_orders cfg xs qs = Inr (rest, qs')" "xs = sent @ rest"
    "\<forall>x xs'. rest = x # xs' \<longrightarrow>
         capacities qs ! nat (sender_idx cfg x) \<le> length (xss ! nat (sender_idx cfg x) @ for_sender cfg (sender_idx cfg x) sent)"
    using send_orders_rep [OF assms(1,2)] by blast
  have "rest = []"
  proof (cases rest)
    case (Cons x xs')
    then have i: "nat (sender_idx cfg x) < length qs" "int (nat (sender_idx cfg x)) = sender_idx cfg x" using assms(2) s(2) by auto
    then show ?thesis using assms(3) [OF i(1)] s(2,3) Cons by auto
  qed
  then show ?thesis using s(1) by simp
qed

text \<open>
  What a round does for the stock with index \<open>t\<close>: the entries from the stock's index on are sent, as the check leaves them, up to the
  first one that is held back, to which the index moves.
\<close>

definition stock_round :: "Config \<Rightarrow> int \<Rightarrow> TraderController \<Rightarrow> Order list \<Rightarrow> TraderController \<Rightarrow> bool" where
  "stock_round cfg t tc orders tc' \<longleftrightarrow>
     (\<exists>limit n. let entries = drop (nat (next_sorted_struct_idx tc ! nat t)) (sorted_order_structs tc ! nat t) in
        order_id_limit cfg t tc = Inr limit
        \<and> next_sorted_struct_idx tc' ! nat t = next_sorted_struct_idx tc ! nat t + int n \<and> n \<le> length entries
        \<and> map o_order_id orders = map ss_order_id (take n entries)
        \<and> list_all2 (sends cfg limit t tc) (take n entries) orders
        \<and> (n < length entries \<longrightarrow> held_back cfg limit t tc (entries ! n)))"

lemma roundMemory_stock_round:
  assumes "roundMemory cfg ts tc = Inr (orders, tc')" and "distinct ts" and "\<forall>u \<in> set ts. 0 \<le> u" and "t \<in> set ts"
  shows "stock_round cfg t tc (filter (\<lambda>x. o_stk_code x = t + 1) orders) tc'"
proof -
  let ?entries = "drop (nat (next_sorted_struct_idx tc ! nat t)) (sorted_order_structs tc ! nat t)"
  obtain limit n where limit: "order_id_limit cfg t tc = Inr limit"
    and c: "collectMemory cfg limit t tc ?entries = Inr (filter (\<lambda>x. o_stk_code x = t + 1) orders, n)"
    and n: "next_sorted_struct_idx tc' ! nat t = next_sorted_struct_idx tc ! nat t + int n"
    using roundMemory_stock [OF assms] by blast
  have "n < length ?entries \<longrightarrow> held_back cfg limit t tc (?entries ! n)"
    using collectMemory_stop [OF c] by (auto simp: held_back_def)
  then show ?thesis unfolding stock_round_def Let_def
    using limit n collectMemory_prefix [OF c] collectMemory_sends [OF c] by blast
qed

text \<open>
  (C23) A round of \<open>run_all_in_memory\<close> reaches the queues: for every stock, with the limit that its window has at the time, it
  goes through the stock's entries from the stock's index on; every entry that the check passes is handed on as the check
  leaves it, in the order of the entries, up to the end or to the first entry that the check holds back, and the index moves
  to that entry. The orders of stock \<open>s\<close> are appended to the queue of sender \<open>s mod exchange_num\<close>, each queue in the order of the
  round; and the round waits only if some queue is full: with room for its orders, none is left.
\<close>

theorem round_reaches_queues:
  assumes "roundMemory cfg [0..stock_num cfg - 1] tc = Inr (orders, tc')" and "queues_rep qs xss"
    and "length qs = nat (exchange_num cfg)" and "0 < exchange_num cfg"
  shows "\<exists>sent rest qs'. run_all_in_memory_turn cfg (tc, qs) = Inr (rest, tc', qs') \<and> orders = sent @ rest
    \<and> queues_rep qs' (map (\<lambda>i. xss ! i @ filter (\<lambda>x. o_stk_code x mod exchange_num cfg = int i) sent) [0..<length qs])
    \<and> ((\<forall>i < length qs. length (xss ! i) + length (filter (\<lambda>x. o_stk_code x mod exchange_num cfg = int i) orders)
          \<le> bq_maxCapacity (qs ! i)) \<longrightarrow> rest = [])
    \<and> (\<forall>t. 0 \<le> t \<and> t < stock_num cfg \<longrightarrow> stock_round cfg t tc (filter (\<lambda>x. o_stk_code x = t + 1) orders) tc')"
proof -
  have idx: "sender_idx cfg x = o_stk_code x mod exchange_num cfg" if "x \<in> set orders" for x
    using roundMemory_codes [OF assms(1) that] assms(4) by (simp add: sender_idx_def smod_nonneg)
  have rng: "list_all (\<lambda>x. 0 \<le> sender_idx cfg x \<and> sender_idx cfg x < int (length qs)) orders"
    using idx assms(3,4) by (simp add: list_all_iff)
  have fs: "for_sender cfg i xs = filter (\<lambda>x. o_stk_code x mod exchange_num cfg = i) xs" if "set xs \<subseteq> set orders" for i xs
    unfolding for_sender_def using idx that by (intro filter_cong) auto
  have len: "length xss = length qs" using assms(2) by (simp add: queues_rep_def list_all2_lengthD)
  obtain sent rest qs' where s: "send_orders cfg orders qs = Inr (rest, qs')" "orders = sent @ rest"
    "queues_rep qs' (map (\<lambda>i. xss ! i @ for_sender cfg (int i) sent) [0..<length xss])"
    using send_orders_rep [OF assms(2) rng] by blast
  have turn: "run_all_in_memory_turn cfg (tc, qs) = Inr (rest, tc', qs')"
    using assms(1) s(1) by (simp add: run_all_in_memory_turn_def)
  have "rest = []" if "\<forall>i < length qs. length (xss ! i) + length (filter (\<lambda>x. o_stk_code x mod exchange_num cfg = int i) orders)
      \<le> bq_maxCapacity (qs ! i)"
    using send_orders_room [OF assms(2) rng] that s(1) by (auto simp: fs capacities_def)
  moreover have "stock_round cfg t tc (filter (\<lambda>x. o_stk_code x = t + 1) orders) tc'" if "0 \<le> t \<and> t < stock_num cfg" for t
    using that by (intro roundMemory_stock_round [OF assms(1)]) auto
  moreover have "queues_rep qs' (map (\<lambda>i. xss ! i @ filter (\<lambda>x. o_stk_code x mod exchange_num cfg = int i) sent) [0..<length qs])"
    using s(2,3) len by (simp add: fs)
  ultimately show ?thesis using turn s(2) by blast
qed

text \<open>The same holds for the orders that the generators deliver.\<close>

lemma collectGenerated_codes:
  "collectGenerated len limit t tc g = Inr (orders, g') \<Longrightarrow> x \<in> set orders \<Longrightarrow> o_stk_code x = t + 1 \<and> o_order_id x < limit"
proof (induction len limit t tc g arbitrary: orders rule: collectGenerated.induct)
  case (1 len limit t tc g)
  from "1.prems" obtain order g1 y orders' where *: "og_generate_order len (t + 1) g = Inr (Some order, g1)" "o_type order \<noteq> -1"
    "check_order order limit t tc = Inr (Some y)" "collectGenerated len limit t tc (og_commit g1) = Inr (orders', g')" "orders = y # orders'"
    by (auto simp: collectGenerated.simps [of len limit t tc g] bindE_eq_Inr split: sum.splits prod.splits option.splits if_splits)
  have "o_stk_code order = t + 1" using *(1) by (auto simp: og_generate_order_def bindE_eq_Inr split: prod.splits if_splits)
  then have "o_stk_code y = t + 1 \<and> o_order_id y < limit" using check_order_Some [OF *(3)] by auto
  moreover have "o_stk_code x = t + 1 \<and> o_order_id x < limit" if "x \<in> set orders'"
    using "1.IH" *(1-4) that by blast
  ultimately show ?case using "1.prems"(2) *(5) by auto
qed

lemma roundGenerated_codes: "roundGenerated cfg len ts tc gs = Inr (orders, gs') \<Longrightarrow> x \<in> set orders \<Longrightarrow> o_stk_code x - 1 \<in> set ts"
proof (induction ts arbitrary: gs orders)
  case (Cons t ts)
  from Cons.prems(1) obtain limit g os g' orders' where *: "collectGenerated len limit t tc g = Inr (os, g')"
    "roundGenerated cfg len ts tc (gs[nat t := g']) = Inr (orders', gs')" "orders = os @ orders'"
    by (auto simp: bindE_eq_Inr)
  then show ?case using Cons.IH [OF *(2)] collectGenerated_codes [OF *(1)] Cons.prems(2) by auto
qed simp

lemma generated_round_reaches_queues:
  assumes "roundGenerated cfg len [0..stock_num cfg - 1] tc gs = Inr (orders, gs')" and "queues_rep qs xss"
    and "length qs = nat (exchange_num cfg)" and "0 < exchange_num cfg"
  shows "\<exists>sent rest qs'. run_turn cfg len tc (gs, qs) = Inr (rest, gs', qs') \<and> orders = sent @ rest
    \<and> queues_rep qs' (map (\<lambda>i. xss ! i @ for_sender cfg (int i) sent) [0..<length xss])"
proof -
  have "sender_idx cfg x = o_stk_code x mod exchange_num cfg" if "x \<in> set orders" for x
    using roundGenerated_codes [OF assms(1) that] assms(4) by (simp add: sender_idx_def smod_nonneg)
  then have "list_all (\<lambda>x. 0 \<le> sender_idx cfg x \<and> sender_idx cfg x < int (length qs)) orders"
    using assms(3,4) by (simp add: list_all_iff)
  from send_orders_rep [OF assms(2) this] show ?thesis
    using assms(1) by (auto simp: run_turn_def)
qed

definition ex_round_tc :: TraderController where
  "ex_round_tc = ex_tc\<lparr>oim := ex_oim, hook := [Map.empty], sorted_order_structs := [ex_structs], next_sorted_struct_idx := [0]\<rparr>"

definition ex_queues :: "Order BlockQueue list" where
  "ex_queues = replicate 2 (newBlockQueue ex_order7 5)"

theorem round_reaches_queues_witness:
  "\<exists>orders tc'. roundMemory ex_small [0..stock_num ex_small - 1] ex_round_tc = Inr (orders, tc') \<and> map o_order_id orders = [1]
     \<and> (\<exists>sent rest qs'. run_all_in_memory_turn ex_small (ex_round_tc, ex_queues) = Inr (rest, tc', qs') \<and> orders = sent @ rest)"
proof -
  have "collectMemory ex_small 101 0 ex_round_tc ex_structs
      = Inr ([\<lparr>o_stk_code = 1, o_order_id = 1, o_direction = -1, o_type = 4, o_price = 0, o_volume = 6\<rparr>], 1)"
    by code_simp
  moreover have "[0..stock_num ex_small - 1] = [0]" "order_id_limit ex_small 0 ex_round_tc = Inr 101" by code_simp+
  moreover have "next_sorted_struct_idx ex_round_tc = [0]" "sorted_order_structs ex_round_tc = [ex_structs]"
    by (simp_all add: ex_round_tc_def)
  ultimately obtain orders tc' where r: "roundMemory ex_small [0..stock_num ex_small - 1] ex_round_tc = Inr (orders, tc')" "map o_order_id orders = [1]"
    by simp
  have "queues_rep ex_queues [[], []]" by (simp add: queues_rep_def ex_queues_def bq_rep_new numeral_2_eq_2)
  moreover have "length ex_queues = nat (exchange_num ex_small)" "0 < exchange_num ex_small"
    by (simp_all add: ex_queues_def ex_small_def initConfig_def)
  ultimately obtain sent rest qs' where "run_all_in_memory_turn ex_small (ex_round_tc, ex_queues) = Inr (rest, tc', qs')" "orders = sent @ rest"
    using round_reaches_queues [OF r(1)] by blast
  then show ?thesis by (intro exI [of _ orders] exI [of _ tc'] exI [of _ sent] exI [of _ rest] exI [of _ qs'] conjI r)
qed

end
