(* ===== verification/System.thy ===== *)
theory System
  imports Exchange_Core Trader
begin

text \<open>
  The traders and one exchange process together: the sliding-window protocol. Traders send the orders
  they own as long as the id is inside the window that starts behind the last acknowledged id
  (\<open>TraderController::run\<close>, \<open>check_order\<close>); orders travel over several channels and arrive in any order;
  the exchange stores them in the windows (\<open>Exchange::receiveOrder\<close>), its stock threads commit what is
  ready and broadcast one acknowledgement per round (\<open>comsumeOrder\<close>, \<open>ExchangeTradeSender\<close>); every trader
  processes the replies in order (\<open>TraderTradeReceiver\<close>).

  The transport (ZeroMQ) delivers each message once, and keeps the order on a channel; the replies of
  different stocks may be interleaved in any way, so they have a channel per stock here.
\<close>

section \<open>States and steps\<close>

record System =
  sys_ex :: Exchange
  shared :: "nat \<Rightarrow> SharedTradeInfo"
  receivers :: "nat \<Rightarrow> TradeReceiver"
  flight :: "byte list multiset"
  to_trader :: "nat \<Rightarrow> int \<Rightarrow> byte list list"
  sent :: "(int \<times> nat) set"

text \<open>
  The setting: the order \<open>src code k\<close> with id \<open>k + 1\<close> of stock \<open>code\<close>, as it is sent, for each \<open>k < total\<close>; the
  trader \<open>owner code k\<close> that has it; the padding bytes; the operating system's answers.
\<close>

record Setting =
  p_cfg :: Config
  p_src :: source
  p_owner :: "int \<Rightarrow> nat \<Rightarrow> nat"
  p_total :: nat
  p_pad :: "Order \<Rightarrow> byte list"
  p_os :: "int \<Rightarrow> byte list \<Rightarrow> bool \<times> bool"

inductive sys_step :: "Setting \<Rightarrow> System \<Rightarrow> System \<Rightarrow> bool" for P where
  send: "sys_step P st (st\<lparr>flight := add_mset (order_msg (p_pad P) [p_src P code k]) (flight st),
      sent := insert (code, k) (sent st)\<rparr>)"
    if "code \<in> set (stk_codes (p_cfg P))" "k < p_total P" "(code, k) \<notin> sent st"
      "get_sliding_window_start code (shared st (p_owner P code k)) = Inr start"
      "o_order_id (p_src P code k) < i32 (start + sliding_window_size (p_cfg P))"
| arrive: "sys_step P st (st\<lparr>sys_ex := ex, flight := flight st - {#msg#}\<rparr>)"
    if "msg \<in># flight st" "orderReceiver (p_cfg P) msg (sys_ex st) = Inr ex"
| round: "sys_step P st (st\<lparr>sys_ex := ex,
      to_trader := (\<lambda>i. (to_trader st i)(code := to_trader st i code @ msgs))\<rparr>)"
    if "code \<in> set (stk_codes (p_cfg P))" "runRound code (sys_ex st) = Inr (msgs, ex)"
| reply: "sys_step P st (st\<lparr>shared := (shared st)(i := s), receivers := (receivers st)(i := r),
      to_trader := (to_trader st)(i := (to_trader st i)(code := msgs))\<rparr>)"
    if "to_trader st i code = msg # msgs"
      "tradeReceiver (p_os P) msg (shared st i, receivers st i) = Inr (s, r)"

definition sys_start :: "Setting \<Rightarrow> System \<Rightarrow> bool" where
  "sys_start P st \<longleftrightarrow>
     newExchange (p_cfg P) = Inr (sys_ex st)
     \<and> (\<forall>i. \<exists>h. shared st i = newSharedTradeInfo (p_cfg P) h) \<and> flight st = {#}
     \<and> (\<forall>i code. to_trader st i code = []) \<and> sent st = {}"

inductive reachable :: "Setting \<Rightarrow> System \<Rightarrow> bool" for P where
  init: "sys_start P st \<Longrightarrow> reachable P st"
| step: "reachable P st \<Longrightarrow> sys_step P st st' \<Longrightarrow> reachable P st'"

definition setting_ok :: "Setting \<Rightarrow> bool" where
  "setting_ok P \<longleftrightarrow>
     0 < sliding_window_size (p_cfg P) \<and> stock_num (p_cfg P) \<le> 2147483647
     \<and> int (p_total P) + 1 + sliding_window_size (p_cfg P) \<le> 2147483647
     \<and> (\<forall>x. length (p_pad P x) = 4)
     \<and> source_ok (p_src P) (set (stk_codes (p_cfg P)))
     \<and> (\<forall>code \<in> set (stk_codes (p_cfg P)). \<forall>k < p_total P. order_ok (p_src P code k))"

section \<open>Replies\<close>

text \<open>The acknowledged ids in a channel.\<close>

datatype event = AckE int | TradeE Trade

definition render :: "int \<Rightarrow> event \<Rightarrow> byte list" where
  "render code e = (case e of AckE i \<Rightarrow> ack_msg \<lparr>a_stk_code = code, a_order_id = i\<rparr> | TradeE t \<Rightarrow> trade_msg t)"

fun ack_ids :: "event list \<Rightarrow> int list" where
  "ack_ids [] = []"
| "ack_ids (AckE i # es) = i # ack_ids es"
| "ack_ids (TradeE t # es) = ack_ids es"

lemma ack_ids_append [simp]: "ack_ids (xs @ ys) = ack_ids xs @ ack_ids ys"
  by (induction xs rule: ack_ids.induct) simp_all

lemma ack_ids_trades [simp]: "ack_ids (map TradeE ts) = []"
  by (induction ts) simp_all

lemma update_if_hooked_start:
  "update_if_hooked code i v s = Inr s' \<Longrightarrow> sliding_window_start s' = sliding_window_start s"
  by (auto simp: update_if_hooked_def bindE_eq_Inr split: option.splits if_splits)

lemma process_trades_start:
  "process_trades os ts (s, r) = Inr (s', r') \<Longrightarrow> sliding_window_start s' = sliding_window_start s"
proof (induction ts arbitrary: s r)
  case (Cons t ts)
  then obtain s1 r1 where "process_trade os t (s, r) = Inr (s1, r1)" "process_trades os ts (s1, r1) = Inr (s', r')"
    by (auto simp: bindE_eq_Inr)
  moreover from this(1) have "sliding_window_start s1 = sliding_window_start s"
    by (auto simp: process_trade_def Let_def bindE_eq_Inr split: if_splits dest!: update_if_hooked_start)
  ultimately show ?case using Cons.IH by metis
qed simp

lemma trade_reply_start:
  assumes "tradeReceiver os (trade_msg t) (s, r) = Inr (s', r')"
  shows "sliding_window_start s' = sliding_window_start s"
proof -
  have "msg_code (trade_msg t) = Inr (TRADE_MSG, 4)"
    using header_code [of TRADE_MSG] by (simp add: trade_msg_def TRADE_MSG_def)
  then show ?thesis using assms
    by (auto simp: tradeReceiver_def TRADE_MSG_def ORDER_ACK_MSG_def process_trade_result_def bindE_eq_Inr
        dest: process_trades_start)
qed

lemma ack_msg_code: "msg_code (ack_msg a) = Inr (ORDER_ACK_MSG, 4)"
  using header_code [of ORDER_ACK_MSG] by (simp add: ack_msg_def ORDER_ACK_MSG_def)

lemma ack_reply:
  assumes "in_i32 code" "in_i32 i" "in_i32 (i + 1)" "1 \<le> code" "code \<le> int (length (sliding_window_start s))"
    "sliding_window_start s ! nat (code - 1) \<le> i + 1"
  shows "tradeReceiver os (ack_msg \<lparr>a_stk_code = code, a_order_id = i\<rparr>) (s, r)
    = Inr (s\<lparr>sliding_window_start := (sliding_window_start s)[nat (code - 1) := i + 1]\<rparr>, r)"
  using assms parse_ack_msg [of "\<lparr>a_stk_code = code, a_order_id = i\<rparr>"]
  by (simp add: tradeReceiver_def ack_msg_code process_order_ack_def ack_ok_def update_sliding_window_start_def)

section \<open>The invariant\<close>

text \<open>The orders in flight are \<open>F\<close>; the engine of a stock has taken \<open>n\<close>, its window holds \<open>m\<close>.\<close>

definition flight_ok :: "Setting \<Rightarrow> (int \<Rightarrow> nat) \<Rightarrow> (int \<Rightarrow> nat \<rightharpoonup> Order) \<Rightarrow> (int \<times> nat) set \<Rightarrow> System \<Rightarrow> bool" where
  "flight_ok P n m F st \<longleftrightarrow>
     finite F \<and> flight st = image_mset (\<lambda>(code, k). order_msg (p_pad P) [p_src P code k]) (mset_set F)
     \<and> (\<forall>(code, k) \<in> F. code \<in> set (stk_codes (p_cfg P)) \<and> n code \<le> k
          \<and> k < n code + nat (sliding_window_size (p_cfg P)) \<and> k < p_total P \<and> m code k = None)
     \<and> (\<forall>code \<in> set (stk_codes (p_cfg P)). n code \<le> p_total P \<and> (\<forall>k. m code k \<noteq> None \<longrightarrow> k < p_total P)
          \<and> (\<forall>k. (code, k) \<in> sent st \<longleftrightarrow> k < n code \<or> m code k \<noteq> None \<or> (code, k) \<in> F))"

text \<open>
  A channel of replies for one stock: the trader's window start, then the acknowledged ids in the
  channel, do not decrease, and the last of them is what the engine has taken.
\<close>

definition chan_ok :: "int \<Rightarrow> int \<Rightarrow> int \<Rightarrow> byte list list \<Rightarrow> bool" where
  "chan_ok code start n msgs \<longleftrightarrow>
     (\<exists>es. msgs = map (render code) es \<and> 1 \<le> start \<and> sorted ((start - 1) # ack_ids es)
        \<and> last ((start - 1) # ack_ids es) = n)"

definition acks_ok :: "Setting \<Rightarrow> (int \<Rightarrow> nat) \<Rightarrow> System \<Rightarrow> bool" where
  "acks_ok P n st \<longleftrightarrow>
     (\<forall>i. length (sliding_window_start (shared st i)) = nat (stock_num (p_cfg P)))
     \<and> (\<forall>i. \<forall>code \<in> set (stk_codes (p_cfg P)).
          chan_ok code (sliding_window_start (shared st i) ! nat (code - 1)) (int (n code)) (to_trader st i code))
     \<and> (\<forall>i code. code \<notin> set (stk_codes (p_cfg P)) \<longrightarrow> to_trader st i code = [])"

lemma sorted_le_last: "sorted xs \<Longrightarrow> x \<in> set xs \<Longrightarrow> x \<le> last xs"
  by (induction xs) auto

lemma chan_ok_start: "chan_ok code 1 0 []"
  by (auto simp: chan_ok_def intro: exI [of _ "[]"])

lemma chan_ok_le: "chan_ok code start n msgs \<Longrightarrow> 1 \<le> start \<and> start \<le> n + 1"
  using sorted_le_last [of "(start - 1) # _" "start - 1"] by (fastforce simp: chan_ok_def simp del: last.simps sorted_simps)

lemma chan_ok_nil: "chan_ok code start n [] \<Longrightarrow> start = n + 1"
  by (auto simp: chan_ok_def)

lemma chan_ok_round:
  assumes "chan_ok code start n msgs"
  shows "chan_ok code start (n + int l)
    (msgs @ (if l = 0 then [] else [ack_msg \<lparr>a_stk_code = code, a_order_id = n + int l\<rparr>]) @ map trade_msg ts)"
proof -
  obtain es where es: "msgs = map (render code) es" "1 \<le> start" "sorted ((start - 1) # ack_ids es)"
    "last ((start - 1) # ack_ids es) = n"
    using assms unfolding chan_ok_def by blast
  have le: "x \<le> n + int l" if "x \<in> set ((start - 1) # ack_ids es)" for x
    using sorted_le_last [OF es(3) that] es(4) by simp
  let ?es = "es @ (if l = 0 then [] else [AckE (n + int l)]) @ map TradeE ts"
  have "msgs @ (if l = 0 then [] else [ack_msg \<lparr>a_stk_code = code, a_order_id = n + int l\<rparr>]) @ map trade_msg ts
      = map (render code) ?es"
    by (simp add: es(1) render_def comp_def)
  moreover have "sorted ((start - 1) # ack_ids ?es)" using es(3) le by (auto simp: sorted_append)
  moreover have "last ((start - 1) # ack_ids ?es) = n + int l" using es(4) by auto
  ultimately show ?thesis using es(2) unfolding chan_ok_def by blast
qed

text \<open>A reply moves the window start up, or leaves it.\<close>

lemma chan_ok_reply:
  assumes "chan_ok code start n (msg # msgs)"
  obtains (ack) i where "msg = ack_msg \<lparr>a_stk_code = code, a_order_id = i\<rparr>" "start \<le> i + 1" "i \<le> n"
      "chan_ok code (i + 1) n msgs"
  | (trade) t where "msg = trade_msg t" "chan_ok code start n msgs"
proof -
  obtain e es where es: "msg = render code e" "msgs = map (render code) es" "1 \<le> start"
    "sorted ((start - 1) # ack_ids (e # es))" "last ((start - 1) # ack_ids (e # es)) = n"
    using assms unfolding chan_ok_def by (auto simp: Cons_eq_map_conv)
  show ?thesis
  proof (cases e)
    case (AckE i)
    have "i \<le> n" using sorted_le_last [OF es(4), of i] es(5) AckE by simp
    then show ?thesis using es AckE by (intro ack [of i]) (auto simp: render_def chan_ok_def)
  next
    case (TradeE t)
    then show ?thesis using es by (intro trade [of t]) (auto simp: render_def chan_ok_def)
  qed
qed

definition sys_inv :: "Setting \<Rightarrow> System \<Rightarrow> bool" where
  "sys_inv P st \<longleftrightarrow> (\<exists>n m F. exchange_ok (p_src P) (p_cfg P) n m (sys_ex st) \<and> flight_ok P n m F st \<and> acks_ok P n st)"

lemma stk_codes_range: "code \<in> set (stk_codes c) \<Longrightarrow> 1 \<le> code \<and> code \<le> stock_num c"
  by (auto simp: stk_codes_def)

lemma sys_inv_start:
  assumes "sys_start P st" and "setting_ok P" shows "sys_inv P st"
proof -
  have "exchange_ok (p_src P) (p_cfg P) (\<lambda>_. 0) (\<lambda>_. Map.empty) (sys_ex st)"
    using assms by (intro exchange_ok_new) (simp_all add: sys_start_def setting_ok_def)
  moreover have "flight_ok P (\<lambda>_. 0) (\<lambda>_. Map.empty) {} st"
    using assms by (simp add: flight_ok_def sys_start_def)
  moreover have "acks_ok P (\<lambda>_. 0) st"
  proof -
    have s: "sliding_window_start (shared st i) = replicate (nat (stock_num (p_cfg P))) 1" for i
      using assms(1) by (auto simp: sys_start_def newSharedTradeInfo_def dest!: spec [of _ i])
    have "nat (code - 1) < nat (stock_num (p_cfg P))" if "code \<in> set (stk_codes (p_cfg P))" for code
      using stk_codes_range [OF that] by simp
    then show ?thesis using assms(1) chan_ok_start by (simp add: acks_ok_def sys_start_def s)
  qed
  ultimately show ?thesis unfolding sys_inv_def by blast
qed

text \<open>The start of a trader's window is at most one behind what is taken.\<close>

lemma start_le:
  assumes "acks_ok P n st" and "code \<in> set (stk_codes (p_cfg P))"
  shows "sliding_window_start (shared st i) ! nat (code - 1) \<le> int (n code) + 1"
    and "1 \<le> sliding_window_start (shared st i) ! nat (code - 1)"
    and "get_sliding_window_start code (shared st i) = Inr (sliding_window_start (shared st i) ! nat (code - 1))"
proof -
  have "chan_ok code (sliding_window_start (shared st i) ! nat (code - 1)) (int (n code)) (to_trader st i code)"
    "length (sliding_window_start (shared st i)) = nat (stock_num (p_cfg P))"
    using assms unfolding acks_ok_def by blast+
  then show "sliding_window_start (shared st i) ! nat (code - 1) \<le> int (n code) + 1"
    "1 \<le> sliding_window_start (shared st i) ! nat (code - 1)"
    "get_sliding_window_start code (shared st i) = Inr (sliding_window_start (shared st i) ! nat (code - 1))"
    using chan_ok_le stk_codes_range [OF assms(2)] by (auto simp: get_sliding_window_start_def)
qed

lemma src_id:
  assumes "setting_ok P" "code \<in> set (stk_codes (p_cfg P))" "k < p_total P"
  shows "o_order_id (p_src P code k) = int k + 1" "k < 2147483646" "order_ok (p_src P code k)"
proof -
  show "k < 2147483646" using assms by (simp add: setting_ok_def)
  then show "o_order_id (p_src P code k) = int k + 1" "order_ok (p_src P code k)"
    using assms by (simp_all add: setting_ok_def source_ok_def)
qed

lemma send_inv:
  assumes P: "setting_ok P" and ok: "flight_ok P n m F st" "acks_ok P n st"
    and g: "code \<in> set (stk_codes (p_cfg P))" "k < p_total P" "(code, k) \<notin> sent st"
      "get_sliding_window_start code (shared st j) = Inr start"
      "o_order_id (p_src P code k) < i32 (start + sliding_window_size (p_cfg P))"
  shows "flight_ok P n m (insert (code, k) F)
    (st\<lparr>flight := add_mset (order_msg (p_pad P) [p_src P code k]) (flight st), sent := insert (code, k) (sent st)\<rparr>)"
proof -
  let ?W = "sliding_window_size (p_cfg P)"
  have st: "\<not> k < n code" "m code k = None" "(code, k) \<notin> F" "n code \<le> p_total P"
    using ok(1) g(1,3) by (auto simp: flight_ok_def)
  have W: "0 < ?W" "int (p_total P) + 1 + ?W \<le> 2147483647" using P by (simp_all add: setting_ok_def)
  have s: "start \<le> int (n code) + 1" "1 \<le> start" using start_le [OF ok(2) g(1), of j] g(4) by simp_all
  have "k < n code + nat ?W"
  proof -
    have "i32 (start + ?W) \<le> start + ?W" using s W(1) by (intro i32_le) simp
    then show ?thesis using g(5) src_id(1) [OF P g(1,2)] W(1) s by simp
  qed
  then show ?thesis using ok(1) st g(1,2) by (auto simp: flight_ok_def)
qed

lemma arrive_inv:
  assumes P: "setting_ok P" and ok: "exchange_ok (p_src P) (p_cfg P) n m (sys_ex st)" "flight_ok P n m F st"
    and msg: "msg \<in># flight st"
  shows "\<exists>code k ex. code \<in> set (stk_codes (p_cfg P)) \<and> msg = order_msg (p_pad P) [p_src P code k]
    \<and> exReceiveOrder (p_cfg P) (p_src P code k) (sys_ex st) = Inr (True, ex)
    \<and> orderReceiver (p_cfg P) msg (sys_ex st) = Inr ex
    \<and> exchange_ok (p_src P) (p_cfg P) n (m(code := (m code)(k \<mapsto> p_src P code k))) ex
    \<and> flight_ok P n (m(code := (m code)(k \<mapsto> p_src P code k))) (F - {(code, k)})
        (st\<lparr>sys_ex := ex, flight := flight st - {#msg#}\<rparr>)"
proof -
  let ?f = "\<lambda>(code, k). order_msg (p_pad P) [p_src P code k]"
  have fin: "finite F" and fl: "flight st = image_mset ?f (mset_set F)" using ok(2) by (simp_all add: flight_ok_def)
  obtain code k where ck: "(code, k) \<in> F" "msg = order_msg (p_pad P) [p_src P code k]"
    using msg fin unfolding fl by auto
  have k: "code \<in> set (stk_codes (p_cfg P))" "n code \<le> k" "k < n code + nat (sliding_window_size (p_cfg P))"
    "k < p_total P" "m code k = None"
    using ok(2) ck(1) by (auto simp: flight_ok_def)
  have "source_ok (p_src P) (set (stk_codes (p_cfg P)))" using P by (simp add: setting_ok_def)
  from exchange_ok_arrive [OF ok(1) this k(1-3,5) src_id(2) [OF P k(1,4)]] obtain ex where
    ex: "exReceiveOrder (p_cfg P) (p_src P code k) (sys_ex st) = Inr (True, ex)"
    "exchange_ok (p_src P) (p_cfg P) n (m(code := (m code)(k \<mapsto> p_src P code k))) ex" by blast
  have "parse_orders msg = Inr [p_src P code k]"
    unfolding ck(2) using P src_id(3) [OF P k(1,4)] by (intro parse_order_msg) (simp_all add: setting_ok_def)
  then have rec: "orderReceiver (p_cfg P) msg (sys_ex st) = Inr ex" using ex(1) by (simp add: orderReceiver_eq)
  have rem: "flight st - {#msg#} = image_mset ?f (mset_set (F - {(code, k)}))"
    using ck fin unfolding fl by (simp add: mset_set.remove [OF fin ck(1)])
  have "flight_ok P n (m(code := (m code)(k \<mapsto> p_src P code k))) (F - {(code, k)})
      (st\<lparr>sys_ex := ex, flight := flight st - {#msg#}\<rparr>)"
    unfolding flight_ok_def
  proof (intro conjI)
    show "finite (F - {(code, k)})" using fin by simp
    show "flight (st\<lparr>sys_ex := ex, flight := flight st - {#msg#}\<rparr>) = image_mset ?f (mset_set (F - {(code, k)}))"
      using rem by simp
  qed (use ok(2) k ck(1) in \<open>auto simp: flight_ok_def\<close>)
  then show ?thesis using ex rec k(1) ck(2) by blast
qed

lemma acks_round:
  assumes ok: "acks_ok P n st" and code: "code \<in> set (stk_codes (p_cfg P))"
    and msgs: "msgs = (if l = 0 then [] else [ack_msg \<lparr>a_stk_code = code, a_order_id = int (n code + l)\<rparr>]) @ map trade_msg ts"
  shows "acks_ok P (n(code := n code + l))
    (st\<lparr>sys_ex := ex, to_trader := (\<lambda>i. (to_trader st i)(code := to_trader st i code @ msgs))\<rparr>)"
  using ok code chan_ok_round [of code _ "int (n code)" _ l ts] by (auto simp: acks_ok_def msgs)

lemma round_inv:
  assumes P: "setting_ok P" and ok: "exchange_ok (p_src P) (p_cfg P) n m (sys_ex st)" "flight_ok P n m F st" "acks_ok P n st"
    and r: "code \<in> set (stk_codes (p_cfg P))" "runRound code (sys_ex st) = Inr (msgs, ex)"
  shows "sys_inv P (st\<lparr>sys_ex := ex, to_trader := (\<lambda>i. (to_trader st i)(code := to_trader st i code @ msgs))\<rparr>)"
proof -
  have "source_ok (p_src P) (set (stk_codes (p_cfg P)))" using P by (simp add: setting_ok_def)
  from exchange_ok_round [OF ok(1) this r(1)] r(2) obtain l ts where
    msgs: "msgs = (if l = 0 then [] else [ack_msg \<lparr>a_stk_code = code, a_order_id = int (n code + l)\<rparr>]) @ map trade_msg ts"
    and ex: "exchange_ok (p_src P) (p_cfg P) (n(code := n code + l)) (m(code := m code |` {n code + l..})) ex"
    and l: "\<forall>i < l. m code (n code + i) \<noteq> None" "m code (n code + l) = None" by auto
  let ?n = "n(code := n code + l)" and ?m = "m(code := m code |` {n code + l..})"
  let ?st = "st\<lparr>sys_ex := ex, to_trader := (\<lambda>i. (to_trader st i)(code := to_trader st i code @ msgs))\<rparr>"
  have held: "m code k \<noteq> None" if "n code \<le> k" "k < n code + l" for k
    using l(1) that by (metis add_less_cancel_left le_Suc_ex)
  have "flight_ok P ?n ?m F ?st"
    unfolding flight_ok_def
  proof (intro conjI)
    show "finite F" "flight ?st = image_mset (\<lambda>(code, k). order_msg (p_pad P) [p_src P code k]) (mset_set F)"
      using ok(2) by (simp_all add: flight_ok_def)
    show "\<forall>(c, k) \<in> F. c \<in> set (stk_codes (p_cfg P)) \<and> ?n c \<le> k
        \<and> k < ?n c + nat (sliding_window_size (p_cfg P)) \<and> k < p_total P \<and> ?m c k = None"
    proof (intro ballI, clarify)
      fix c k assume "(c, k) \<in> F"
      then have *: "c \<in> set (stk_codes (p_cfg P))" "n c \<le> k" "k < n c + nat (sliding_window_size (p_cfg P))"
        "k < p_total P" "m c k = None" using ok(2) by (auto simp: flight_ok_def)
      moreover have "n code + l \<le> k" if "c = code" using held [of k] * that by (metis leI)
      ultimately show "c \<in> set (stk_codes (p_cfg P)) \<and> ?n c \<le> k
        \<and> k < ?n c + nat (sliding_window_size (p_cfg P)) \<and> k < p_total P \<and> ?m c k = None"
        by (auto simp: restrict_map_def)
    qed
    have "n code + l \<le> p_total P"
    proof (cases l)
      case 0
      then show ?thesis using ok(2) r(1) by (simp add: flight_ok_def)
    next
      case (Suc j)
      then have "m code (n code + j) \<noteq> None" using l(1) by simp
      then have "n code + j < p_total P" using ok(2) r(1) unfolding flight_ok_def by blast
      then show ?thesis using Suc by simp
    qed
    moreover have "(code, k) \<in> sent st \<longleftrightarrow> k < n code + l \<or> (m code |` {n code + l..}) k \<noteq> None \<or> (code, k) \<in> F" for k
    proof -
      have "(code, k) \<in> sent st \<longleftrightarrow> k < n code \<or> m code k \<noteq> None \<or> (code, k) \<in> F"
        using ok(2) r(1) unfolding flight_ok_def by blast
      then show ?thesis using held [of k] by (auto simp: restrict_map_def)
    qed
    ultimately show "\<forall>c \<in> set (stk_codes (p_cfg P)). ?n c \<le> p_total P \<and> (\<forall>k. ?m c k \<noteq> None \<longrightarrow> k < p_total P)
        \<and> (\<forall>k. (c, k) \<in> sent ?st \<longleftrightarrow> k < ?n c \<or> ?m c k \<noteq> None \<or> (c, k) \<in> F)"
      using ok(2) r(1) by (auto simp: flight_ok_def restrict_map_def)
  qed
  moreover have "acks_ok P ?n ?st" by (rule acks_round [OF ok(3) r(1) msgs])
  ultimately show ?thesis using ex unfolding sys_inv_def by (intro exI [of _ ?n] exI [of _ ?m] exI [of _ F]) simp
qed

lemma reply_inv:
  assumes P: "setting_ok P" and ok: "flight_ok P n m F st" "acks_ok P n st"
    and r: "to_trader st i code = msg # msgs" "tradeReceiver (p_os P) msg (shared st i, receivers st i) = Inr (s, r)"
  shows "acks_ok P n (st\<lparr>shared := (shared st)(i := s), receivers := (receivers st)(i := r),
      to_trader := (to_trader st)(i := (to_trader st i)(code := msgs))\<rparr>)"
proof -
  have code: "code \<in> set (stk_codes (p_cfg P))" using ok(2) r(1) unfolding acks_ok_def by (metis list.distinct(1))
  let ?start = "sliding_window_start (shared st i) ! nat (code - 1)"
  have ch: "chan_ok code ?start (int (n code)) (msg # msgs)"
    and len: "length (sliding_window_start (shared st i)) = nat (stock_num (p_cfg P))"
    using ok(2) code r(1) unfolding acks_ok_def by metis+
  have bounds: "1 \<le> code" "code \<le> stock_num (p_cfg P)" "in_i32 code" "int (n code) + 1 \<le> 2147483647"
    using stk_codes_range [OF code] P ok(1) code by (auto simp: setting_ok_def in_i32_def flight_ok_def)
  from ch have "\<exists>start. sliding_window_start s = (sliding_window_start (shared st i))[nat (code - 1) := start]
      \<and> chan_ok code start (int (n code)) msgs"
  proof (cases rule: chan_ok_reply)
    case (ack a)
    have "1 \<le> ?start" using chan_ok_le [OF ch] by simp
    then have "in_i32 a" "in_i32 (a + 1)" using ack(2,3) bounds(4) by (simp_all add: in_i32_def)
    from ack_reply [OF bounds(3) this bounds(1) _ ack(2), of "p_os P" "receivers st i"]
    show ?thesis using r(2) ack bounds(2) len by auto
  next
    case (trade t)
    then show ?thesis using trade_reply_start r(2) by (intro exI [of _ ?start]) auto
  qed
  then obtain start where st: "sliding_window_start s = (sliding_window_start (shared st i))[nat (code - 1) := start]"
    "chan_ok code start (int (n code)) msgs" by blast
  have other: "nat (c - 1) \<noteq> nat (code - 1)" if "c \<in> set (stk_codes (p_cfg P))" "c \<noteq> code" for c
    using stk_codes_range [OF that(1)] stk_codes_range [OF code] that(2) by linarith
  let ?old = "sliding_window_start (shared st i)"
  have in_range: "nat (code - 1) < length ?old" using bounds len by simp
  have "chan_ok c (sliding_window_start s ! nat (c - 1)) (int (n c)) (((to_trader st i)(code := msgs)) c)"
    if c: "c \<in> set (stk_codes (p_cfg P))" for c
  proof (cases "c = code")
    case True
    then show ?thesis using st in_range by simp
  next
    case False
    then have "sliding_window_start s ! nat (c - 1) = ?old ! nat (c - 1)"
      using other [OF c] st(1) by (metis nth_list_update_neq)
    then show ?thesis using ok(2) c False by (simp add: acks_ok_def)
  qed
  then show ?thesis using ok(2) st(1) code len by (simp add: acks_ok_def)
qed

lemma sys_inv_step:
  assumes "sys_step P st st'" and "setting_ok P" and "sys_inv P st"
  shows "sys_inv P st'"
proof -
  obtain n m F where inv: "exchange_ok (p_src P) (p_cfg P) n m (sys_ex st)" "flight_ok P n m F st" "acks_ok P n st"
    using assms(3) unfolding sys_inv_def by blast
  from assms(1) show ?thesis
  proof cases
    case (send code k start)
    then have "flight_ok P n m (insert (code, k) F) st'" using send_inv [OF assms(2) inv(2,3)] by blast
    moreover have "acks_ok P n st'" using inv(3) send(1) by (simp add: acks_ok_def)
    ultimately show ?thesis using inv(1) send(1) unfolding sys_inv_def by (intro exI conjI) simp_all
  next
    case (arrive msg ex)
    from arrive_inv [OF assms(2) inv(1,2) arrive(2)] arrive(3) obtain code k where
      "exchange_ok (p_src P) (p_cfg P) n (m(code := (m code)(k \<mapsto> p_src P code k))) ex"
      "flight_ok P n (m(code := (m code)(k \<mapsto> p_src P code k))) (F - {(code, k)}) st'"
      using arrive(1) by auto
    moreover have "acks_ok P n st'" using inv(3) arrive(1) by (simp add: acks_ok_def)
    ultimately show ?thesis using arrive(1) unfolding sys_inv_def by (intro exI conjI) simp_all
  next
    case (round code msgs ex)
    then show ?thesis using round_inv [OF assms(2) inv] by blast
  next
    case (reply i code msg msgs s r)
    then have "acks_ok P n st'" using reply_inv [OF assms(2) inv(2,3)] by blast
    moreover have "flight_ok P n m F st'" using inv(2) reply(1) by (simp add: flight_ok_def)
    ultimately show ?thesis using inv(1) reply(1) unfolding sys_inv_def by (intro exI conjI) simp_all
  qed
qed

lemma reachable_inv:
  assumes "reachable P st" and "setting_ok P" shows "sys_inv P st"
  using assms by (induction rule: reachable.induct) (auto intro: sys_inv_start sys_inv_step)

section \<open>Properties\<close>

text \<open>A small system for the witnesses: one order of stock 2 has been sent.\<close>

definition ex_P :: Setting where
  "ex_P = \<lparr>p_cfg = ex_cfg, p_src = ex_src, p_owner = (\<lambda>_ _. 0), p_total = 1000, p_pad = (\<lambda>_. [0, 0, 0, 0]),
     p_os = (\<lambda>_ _. (True, True))\<rparr>"

definition ex_sys :: System where
  "ex_sys = \<lparr>sys_ex = projr (newExchange ex_cfg), shared = (\<lambda>_. newSharedTradeInfo ex_cfg []),
     receivers = (\<lambda>_. newTradeReceiver ex_cfg), flight = {#}, to_trader = (\<lambda>_ _. []), sent = {}\<rparr>"

lemma ex_stk_codes: "stk_codes ex_cfg = [2, 4, 6, 8, 10]"
  by code_simp

lemma ex_P_simps:
  "p_cfg ex_P = ex_cfg" "p_src ex_P = ex_src" "p_total ex_P = 1000" "p_pad ex_P = (\<lambda>_. [0, 0, 0, 0])"
  "p_os ex_P = (\<lambda>_ _. (True, True))"
  by (simp_all add: ex_P_def)

lemma ex_P_ok: "setting_ok ex_P"
  by (simp add: setting_ok_def ex_P_def ex_src_ok order_ok_def ex_src_def in_i32_def ex_stk_codes)
    (simp add: ex_cfg_def initConfig_def)

lemma ex_sys_start: "sys_start ex_P ex_sys"
proof -
  obtain ex where "newExchange ex_cfg = Inr ex" using ex_cfg_new by blast
  then show ?thesis by (auto simp: sys_start_def ex_P_def ex_sys_def)
qed

lemma ex_sent:
  "\<exists>st. reachable ex_P st \<and> flight st = {#order_msg (\<lambda>_. [0, 0, 0, 0]) [ex_src 2 0]#}
    \<and> sys_ex st = sys_ex ex_sys \<and> to_trader st = to_trader ex_sys"
proof -
  have "get_sliding_window_start 2 (shared ex_sys (p_owner ex_P 2 0)) = Inr 1"
    by (simp add: ex_sys_def newSharedTradeInfo_def get_sliding_window_start_def ex_cfg_def initConfig_def)
  then have "sys_step ex_P ex_sys (ex_sys\<lparr>flight := add_mset (order_msg (p_pad ex_P) [p_src ex_P 2 0]) (flight ex_sys),
      sent := insert (2, 0) (sent ex_sys)\<rparr>)"
    by (intro sys_step.send [where start = 1])
      (simp_all add: ex_P_def ex_stk_codes ex_sys_def ex_src_def, simp add: ex_cfg_def initConfig_def in_i32_def)
  then have "reachable ex_P (ex_sys\<lparr>flight := add_mset (order_msg (p_pad ex_P) [p_src ex_P 2 0]) (flight ex_sys),
      sent := insert (2, 0) (sent ex_sys)\<rparr>)"
    by (rule reachable.step [OF reachable.init [OF ex_sys_start]])
  then show ?thesis by (intro exI conjI, assumption) (simp_all add: ex_P_simps ex_sys_def)
qed

text \<open>The same order has arrived and its stock has run a round: the acknowledgement is on its way.\<close>

lemma ex_acked:
  "\<exists>st msgs. reachable ex_P st \<and> to_trader st 0 2 = ack_msg \<lparr>a_stk_code = 2, a_order_id = 1\<rparr> # msgs"
proof -
  let ?msg = "order_msg (\<lambda>_. [0, 0, 0, 0]) [ex_src 2 0]"
  obtain st where st: "reachable ex_P st" "flight st = {#?msg#}" "sys_ex st = sys_ex ex_sys" "to_trader st = to_trader ex_sys"
    using ex_sent by blast
  have code: "2 \<in> set (stk_codes ex_cfg)" by (simp add: ex_stk_codes)
  obtain ex where ex: "sys_ex ex_sys = ex" "exchange_ok ex_src ex_cfg (\<lambda>_. 0) (\<lambda>_. Map.empty) ex"
    using ex_cfg_new by (auto simp: ex_sys_def)
  have W: "nat (sliding_window_size ex_cfg) = 100" by (simp add: ex_cfg_def initConfig_def)
  obtain ex1 where ex1: "exReceiveOrder ex_cfg (ex_src 2 0) ex = Inr (True, ex1)"
    "exchange_ok ex_src ex_cfg (\<lambda>_. 0) ((\<lambda>_. Map.empty)(2 := [0 \<mapsto> ex_src 2 0])) ex1"
    using exchange_ok_arrive [OF ex(2) ex_src_ok code, of 0] W by auto
  have "parse_orders ?msg = Inr [ex_src 2 0]"
    by (rule parse_order_msg) (simp_all add: order_ok_def ex_src_def in_i32_def)
  then have "orderReceiver ex_cfg ?msg (sys_ex st) = Inr ex1" using ex1(1) st(3) ex(1) by (simp add: orderReceiver_eq)
  then have r1: "reachable ex_P (st\<lparr>sys_ex := ex1, flight := flight st - {#?msg#}\<rparr>)" (is "reachable _ ?st1")
    using st(1,2) by (intro reachable.step [OF st(1)] sys_step.arrive) (simp_all add: ex_P_simps)
  from exchange_ok_round [OF ex1(2) ex_src_ok code] obtain l ts ex2 where
    r: "runRound 2 ex1 = Inr ((if l = 0 then [] else [ack_msg \<lparr>a_stk_code = 2, a_order_id = int (0 + l)\<rparr>]) @ map trade_msg ts, ex2)"
    and l: "\<forall>i < l. [0 \<mapsto> ex_src 2 0] i \<noteq> None" "[0 \<mapsto> ex_src 2 0] l = None" by auto
  have "l = 1" using l by (metis One_nat_def fun_upd_apply less_antisym less_one nat_neq_iff not_less_eq option.distinct(1))
  then have "runRound 2 ex1 = Inr (ack_msg \<lparr>a_stk_code = 2, a_order_id = 1\<rparr> # map trade_msg ts, ex2)" using r by simp
  then have "reachable ex_P (?st1\<lparr>sys_ex := ex2, to_trader := (\<lambda>i. (to_trader ?st1 i)(2 := to_trader ?st1 i 2
      @ ack_msg \<lparr>a_stk_code = 2, a_order_id = 1\<rparr> # map trade_msg ts))\<rparr>)" (is "reachable _ ?st2")
    using code by (intro reachable.step [OF r1] sys_step.round) (simp_all add: ex_P_simps)
  moreover have "to_trader ?st2 0 2 = ack_msg \<lparr>a_stk_code = 2, a_order_id = 1\<rparr> # map trade_msg ts"
    using st(4) by (simp add: ex_sys_def)
  ultimately show ?thesis by blast
qed

text \<open>
  (C25) The sliding-window protocol is safe: in every reachable state of the system, each order in flight,
  whenever it arrives, is parsed and finds its slot of the window free; the exchange never drops an
  order and never stores one over another.
\<close>

theorem window_never_collides:
  assumes "reachable P st" and "setting_ok P" and "msg \<in># flight st"
  shows "\<exists>code k ex. msg = order_msg (p_pad P) [p_src P code k]
    \<and> exReceiveOrder (p_cfg P) (p_src P code k) (sys_ex st) = Inr (True, ex)
    \<and> orderReceiver (p_cfg P) msg (sys_ex st) = Inr ex"
proof -
  obtain n m F where "exchange_ok (p_src P) (p_cfg P) n m (sys_ex st)" "flight_ok P n m F st"
    using reachable_inv [OF assms(1,2)] unfolding sys_inv_def by blast
  from arrive_inv [OF assms(2) this assms(3)] show ?thesis by blast
qed

theorem window_never_collides_witness:
  "\<exists>st code k ex. reachable ex_P st \<and> flight st \<noteq> {#}
    \<and> exReceiveOrder ex_cfg (ex_src code k) (sys_ex st) = Inr (True, ex)"
proof -
  obtain st where st: "reachable ex_P st" "flight st = {#order_msg (\<lambda>_. [0, 0, 0, 0]) [ex_src 2 0]#}"
    using ex_sent by blast
  from window_never_collides [OF st(1) ex_P_ok, of "order_msg (\<lambda>_. [0, 0, 0, 0]) [ex_src 2 0]"] st
  obtain code k ex where "exReceiveOrder ex_cfg (ex_src code k) (sys_ex st) = Inr (True, ex)"
    by (auto simp: ex_P_simps)
  with st show ?thesis by (metis empty_not_add_mset)
qed

text \<open>
  (C26) Acknowledgements are handled without a failed assert: in every reachable state, an acknowledgement
  at the head of a trader's channel is processed, and the start of the trader's window does not move
  back.
\<close>

theorem acks_monotone:
  assumes "reachable P st" and "setting_ok P" and "to_trader st i code = msg # msgs"
    and "msg_code msg = Inr (ORDER_ACK_MSG, 4)"
  shows "\<exists>s. tradeReceiver (p_os P) msg (shared st i, receivers st i) = Inr (s, receivers st i)
    \<and> sliding_window_start (shared st i) ! nat (code - 1) \<le> sliding_window_start s ! nat (code - 1)"
proof -
  obtain n m F where ok: "flight_ok P n m F st" "acks_ok P n st"
    using reachable_inv [OF assms(1,2)] unfolding sys_inv_def by blast
  have code: "code \<in> set (stk_codes (p_cfg P))" using ok(2) assms(3) unfolding acks_ok_def by (metis list.distinct(1))
  let ?start = "sliding_window_start (shared st i) ! nat (code - 1)"
  have ch: "chan_ok code ?start (int (n code)) (msg # msgs)"
    and len: "length (sliding_window_start (shared st i)) = nat (stock_num (p_cfg P))"
    using ok(2) code assms(3) unfolding acks_ok_def by metis+
  have bounds: "1 \<le> code" "code \<le> stock_num (p_cfg P)" "in_i32 code" "int (n code) + 1 \<le> 2147483647"
    using stk_codes_range [OF code] assms(2) ok(1) code by (auto simp: setting_ok_def in_i32_def flight_ok_def)
  from ch show ?thesis
  proof (cases rule: chan_ok_reply)
    case (ack a)
    have "1 \<le> ?start" using chan_ok_le [OF ch] by simp
    then have "in_i32 a" "in_i32 (a + 1)" using ack(2,3) bounds(4) by (simp_all add: in_i32_def)
    from ack_reply [OF bounds(3) this bounds(1) _ ack(2), of "p_os P" "receivers st i"]
    show ?thesis using ack bounds(1,2) len by auto
  next
    case (trade t)
    then show ?thesis using assms(4) header_code [of TRADE_MSG] by (simp add: trade_msg_def TRADE_MSG_def ORDER_ACK_MSG_def)
  qed
qed

theorem acks_monotone_witness:
  "\<exists>st msg s. reachable ex_P st \<and> tradeReceiver (\<lambda>_ _. (True, True)) msg (shared st 0, receivers st 0)
    = Inr (s, receivers st 0) \<and> sliding_window_start (shared st 0) ! 1 \<le> sliding_window_start s ! 1"
proof -
  obtain st msgs where st: "reachable ex_P st" "to_trader st 0 2 = ack_msg \<lparr>a_stk_code = 2, a_order_id = 1\<rparr> # msgs"
    using ex_acked by blast
  from acks_monotone [OF st(1) ex_P_ok st(2) ack_msg_code] obtain s where
    "tradeReceiver (\<lambda>_ _. (True, True)) (ack_msg \<lparr>a_stk_code = 2, a_order_id = 1\<rparr>) (shared st 0, receivers st 0)
      = Inr (s, receivers st 0)" "sliding_window_start (shared st 0) ! 1 \<le> sliding_window_start s ! 1"
    by (auto simp: ex_P_simps)
  with st(1) show ?thesis by blast
qed

text \<open>
  (C27) The system computes what one sequential exchange computes: in every reachable state, for every
  stock of the exchange, the engine has committed the orders with ids 1 to n for some n, all of which
  were sent; its trades and its book are those of the abstract exchange on these orders, taken in the
  order of their ids; and the book is well-formed and uncrossed. Nothing depends on how the messages of
  the traders were interleaved.
\<close>

theorem system_refines_sequential:
  assumes "reachable P st" and "setting_ok P" and "code \<in> set (stk_codes (p_cfg P))"
  shows "\<exists>s n. stock_exchange (sys_ex st) code = Some s \<and> last_commit_order_id s = int n
    \<and> (\<forall>k < n. (code, k) \<in> sent st)
    \<and> produced s = fst (spec_run code (map (p_src P code) [0..<n]) ([], []))
    \<and> abs_book (decl_book s) = snd (spec_run code (map (p_src P code) [0..<n]) ([], []))
    \<and> wf_book (decl_book s) \<and> uncrossed (decl_book s)"
proof -
  obtain n m F where ok: "exchange_ok (p_src P) (p_cfg P) n m (sys_ex st)" "flight_ok P n m F st"
    using reachable_inv [OF assms(1,2)] unfolding sys_inv_def by blast
  obtain s w where s: "stock_exchange (sys_ex st) code = Some s"
    "stock_ok (p_src P) (nat (sliding_window_size (p_cfg P))) code (n code) (m code) s w"
    using ok(1) assms(3) by (auto simp: exchange_ok_def)
  have "\<forall>k < n code. (code, k) \<in> sent st" using ok(2) assms(3) by (auto simp: flight_ok_def)
  then show ?thesis using s by (intro exI [of _ s] exI [of _ "n code"]) (auto simp: stock_ok_def taken_def engine_inv_def)
qed

theorem system_refines_sequential_witness:
  "\<exists>st s. reachable ex_P st \<and> stock_exchange (sys_ex st) 2 = Some s \<and> uncrossed (decl_book s)"
  using system_refines_sequential [OF reachable.init [OF ex_sys_start] ex_P_ok, of 2]
    reachable.init [OF ex_sys_start] by (auto simp: ex_P_simps ex_stk_codes)

text \<open>
  (C28) The window never locks the system up: as long as an order of a stock is not taken, the next one is on its way. It is
  in flight and can be stored when it arrives; or it has arrived and a round of the stock takes something; or it has not been
  sent, and then its owner has a reply of the stock still to process, or the owner's window admits the order.
\<close>

theorem window_no_deadlock:
  assumes "reachable P st" and "setting_ok P" and "code \<in> set (stk_codes (p_cfg P))"
    and "stock_exchange (sys_ex st) code = Some s" and "last_commit_order_id s < int (p_total P)"
  shows "\<exists>k. int k = last_commit_order_id s
    \<and> (order_msg (p_pad P) [p_src P code k] \<in># flight st
           \<and> (\<exists>ex. orderReceiver (p_cfg P) (order_msg (p_pad P) [p_src P code k]) (sys_ex st) = Inr ex)
       \<or> (\<exists>msgs ex. runRound code (sys_ex st) = Inr (msgs, ex) \<and> msgs \<noteq> [])
       \<or> (code, k) \<notin> sent st
           \<and> (to_trader st (p_owner P code k) code \<noteq> []
               \<or> (\<exists>start. get_sliding_window_start code (shared st (p_owner P code k)) = Inr start
                      \<and> o_order_id (p_src P code k) < i32 (start + sliding_window_size (p_cfg P)))))"
proof -
  obtain n m F where ok: "exchange_ok (p_src P) (p_cfg P) n m (sys_ex st)" "flight_ok P n m F st" "acks_ok P n st"
    using reachable_inv [OF assms(1,2)] unfolding sys_inv_def by blast
  have n: "last_commit_order_id s = int (n code)"
    using ok(1) assms(3,4) by (auto simp: exchange_ok_def stock_ok_def)
  have src: "source_ok (p_src P) (set (stk_codes (p_cfg P)))" using assms(2) by (simp add: setting_ok_def)
  have k: "n code < p_total P" using assms(5) n by simp
  let ?msg = "order_msg (p_pad P) [p_src P code (n code)]"
  have arrives: "\<exists>ex. orderReceiver (p_cfg P) ?msg (sys_ex st) = Inr ex" if "?msg \<in># flight st"
    using arrive_inv [OF assms(2) ok(1,2) that] by blast
  have flies: "?msg \<in># flight st" if "(code, n code) \<in> F"
    using that ok(2) by (force simp: flight_ok_def)
  have admits: "\<exists>start. get_sliding_window_start code (shared st (p_owner P code (n code))) = Inr start
      \<and> o_order_id (p_src P code (n code)) < i32 (start + sliding_window_size (p_cfg P))"
    if "to_trader st (p_owner P code (n code)) code = []"
  proof -
    have "sliding_window_start (shared st (p_owner P code (n code))) ! nat (code - 1) = int (n code) + 1"
      using ok(3) assms(3) that unfolding acks_ok_def by (metis chan_ok_nil)
    moreover have "i32 (int (n code) + 1 + sliding_window_size (p_cfg P)) = int (n code) + 1 + sliding_window_size (p_cfg P)"
      using assms(2) k by (intro i32_id) (simp add: setting_ok_def in_i32_def)
    ultimately show ?thesis
      using start_le(3) [OF ok(3) assms(3)] src_id(1) [OF assms(2,3) k] assms(2) by (simp add: setting_ok_def)
  qed
  obtain l ts ex' where r: "runRound code (sys_ex st) =
      Inr ((if l = 0 then [] else [ack_msg \<lparr>a_stk_code = code, a_order_id = int (n code + l)\<rparr>]) @ map trade_msg ts, ex')"
    "m code (n code + l) = None" using exchange_ok_round [OF ok(1) src assms(3)] by blast
  show ?thesis
  proof (cases "l = 0 \<and> (code, n code) \<notin> F")
    case True
    then have "(code, n code) \<notin> sent st" using ok(2) assms(3) r(2) by (auto simp: flight_ok_def)
    then show ?thesis using admits n by (intro exI [of _ "n code"]) auto
  next
    case False
    then show ?thesis using r(1) flies arrives n by (intro exI [of _ "n code"]) auto
  qed
qed

theorem window_no_deadlock_witness:
  "\<exists>st k start. reachable ex_P st \<and> (2, k) \<notin> sent st \<and> get_sliding_window_start 2 (shared st 0) = Inr start
    \<and> o_order_id (ex_src 2 k) < i32 (start + sliding_window_size ex_cfg)"
proof -
  have r: "reachable ex_P ex_sys" by (rule reachable.init [OF ex_sys_start])
  have code: "2 \<in> set (stk_codes (p_cfg ex_P))" by (simp add: ex_P_simps ex_stk_codes)
  obtain ex where ex: "sys_ex ex_sys = ex" "exchange_ok ex_src ex_cfg (\<lambda>_. 0) (\<lambda>_. Map.empty) ex"
    using ex_cfg_new by (auto simp: ex_sys_def)
  from exchange_ok_round [OF ex(2) ex_src_ok] code have idle: "\<exists>ex'. runRound 2 (sys_ex ex_sys) = Inr ([], ex')"
    unfolding ex(1) by (fastforce simp: ex_P_simps)
  obtain s where s: "stock_exchange (sys_ex ex_sys) 2 = Some s" "last_commit_order_id s = 0"
    using ex code by (auto simp: exchange_ok_def stock_ok_def ex_P_simps)
  have empty: "flight ex_sys = {#}" "to_trader ex_sys i c = []" for i c by (simp_all add: ex_sys_def)
  have "last_commit_order_id s < int (p_total ex_P)" using s(2) by (simp add: ex_P_simps)
  from window_no_deadlock [OF r ex_P_ok code s(1) this] idle empty obtain k start where "(2, k) \<notin> sent ex_sys"
    "get_sliding_window_start 2 (shared ex_sys (p_owner ex_P 2 k)) = Inr start"
    "o_order_id (p_src ex_P 2 k) < i32 (start + sliding_window_size (p_cfg ex_P))" by auto
  moreover have "p_owner ex_P 2 k = 0" by (simp add: ex_P_def)
  ultimately show ?thesis using r unfolding ex_P_simps by metis
qed

end
