(* ===== verification/Network.thy ===== *)
theory Network
  imports Trader
begin

text \<open>
  The message channels: \<open>src/src/network/msg_receiver.h\<close> and \<open>msg_sender.h\<close>, and the way the two
  processes choose their ports (\<open>exchange/order_receiver.cpp\<close>, \<open>exchange/trade_sender.cpp\<close>,
  \<open>trader/order_sender.cpp\<close>, \<open>trader/trade_receiver.cpp\<close>).

  The C library of ZeroMQ is not part of the sources. Here its pull sockets are an argument \<open>zrecv\<close> with the state of the
  network, its push socket an argument \<open>net\<close> that answers each call, given the calls before it;
  \<open>Zmq_Channels\<close> has both classes on the C++ binding that the code uses.
\<close>

section \<open>Addresses\<close>

text \<open>\<open>snprintf\<close> with a buffer of \<open>n\<close> bytes keeps \<open>n - 1\<close> characters.\<close>

definition snprintf :: "nat \<Rightarrow> string \<Rightarrow> string" where
  "snprintf n str = take (n - 1) str"

definition bind_address :: "string \<Rightarrow> int \<Rightarrow> string" where
  "bind_address addr port = snprintf 32 (''tcp://'' @ addr @ '':'' @ show_int port)"

definition connect_address :: "string \<Rightarrow> string \<Rightarrow> int \<times> int \<Rightarrow> string" where
  "connect_address src dst channel =
     snprintf 64 (''tcp://'' @ src @ '':'' @ show_int (fst channel) @ '';'' @ dst @ '':'' @ show_int (snd channel))"

section \<open>MessageReceiver\<close>

record MessageReceiver =
  mr_addr :: string
  mr_ports :: "int list"
  mr_bound :: "string list"
  mr_offset :: nat

definition newMessageReceiver :: "string \<Rightarrow> int list \<Rightarrow> MessageReceiver" where
  "newMessageReceiver my_addr receiver_ports =
     \<lparr>mr_addr = my_addr, mr_ports = receiver_ports, mr_bound = map (bind_address my_addr) receiver_ports,
      mr_offset = 0\<rparr>"

text \<open>Every socket is unbound from the address of its old port and then bound to that of its new port.\<close>

definition mr_reset_port :: "int list \<Rightarrow> MessageReceiver \<Rightarrow> MessageReceiver result" where
  "mr_reset_port new_ports r =
     (if length new_ports \<noteq> length (mr_ports r) then Inl Abort
      else Inr (r\<lparr>mr_ports := new_ports, mr_bound := map (bind_address (mr_addr r)) new_ports\<rparr>))"

text \<open>The loop of \<open>tryrecv\<close> over the sockets \<open>(idx + offset) % n\<close>, for \<open>idx\<close> from \<open>n - k\<close> on.\<close>

fun poll_ports :: "(nat \<Rightarrow> 'z \<Rightarrow> (byte list option \<times> 'z) result) \<Rightarrow> nat \<Rightarrow> nat \<Rightarrow> nat \<Rightarrow> 'z
    \<Rightarrow> (byte list option \<times> 'z) result" where
  "poll_ports zrecv n off 0 z = Inr (None, z)"
| "poll_ports zrecv n off (Suc k) z =
     bindE (zrecv ((n - Suc k + off) mod n) z) (\<lambda>(m, z).
       case m of Some msg \<Rightarrow> Inr (Some msg, z) | None \<Rightarrow> poll_ports zrecv n off k z)"

definition tryrecv :: "(nat \<Rightarrow> 'z \<Rightarrow> (byte list option \<times> 'z) result) \<Rightarrow> MessageReceiver \<Rightarrow> 'z
    \<Rightarrow> (byte list option \<times> MessageReceiver \<times> 'z) result" where
  "tryrecv zrecv r z =
     (let n = length (mr_ports r)
      in bindE (poll_ports zrecv n (mr_offset r) n z) (\<lambda>(m, z).
           case m of
             Some msg \<Rightarrow> Inr (Some msg, r, z)
           | None \<Rightarrow> if n = 0 then Inl Undefined
                     else Inr (None, r\<lparr>mr_offset := (mr_offset r + 1) mod n\<rparr>, z)))"

text \<open>
  \<open>recv\<close> polls one socket after the other until it has a message. \<open>None\<close>: no message in the first
  \<open>fuel\<close> polls.
\<close>

fun recv :: "nat \<Rightarrow> (nat \<Rightarrow> 'z \<Rightarrow> (byte list option \<times> 'z) result) \<Rightarrow> MessageReceiver \<Rightarrow> 'z
    \<Rightarrow> (byte list \<times> MessageReceiver \<times> 'z) option result" where
  "recv 0 zrecv r z = Inr None"
| "recv (Suc fuel) zrecv r z =
     (if mr_ports r = [] then Inl Undefined
      else bindE (zrecv (mr_offset r) z) (\<lambda>(m, z).
             case m of
               Some msg \<Rightarrow> Inr (Some (msg, r, z))
             | None \<Rightarrow> recv fuel zrecv (r\<lparr>mr_offset := (mr_offset r + 1) mod length (mr_ports r)\<rparr>) z))"

section \<open>MessageSender\<close>

datatype zop = Connect string | Disconnect string | Send "byte list"

text \<open>\<open>Again\<close> is the error number \<open>EAGAIN\<close>.\<close>

definition EAGAIN :: int where
  "EAGAIN = 11"

datatype zret = Done | Again | Fail int

record MessageSender =
  ms_src :: string
  ms_dst :: string
  ms_channel :: "int \<times> int"
  ms_connected :: bool
  ms_ops :: "zop list"

definition newMessageSender :: "string \<Rightarrow> string \<Rightarrow> int \<times> int \<Rightarrow> MessageSender" where
  "newMessageSender my_addr receiver_addr port_pair =
     \<lparr>ms_src = my_addr, ms_dst = receiver_addr, ms_channel = port_pair, ms_connected = False, ms_ops = []\<rparr>"

text \<open>A call on the socket is recorded; one that fails throws.\<close>

definition zcall :: "(zop list \<Rightarrow> zop \<Rightarrow> zret) \<Rightarrow> zop \<Rightarrow> MessageSender \<Rightarrow> (bool \<times> MessageSender) result" where
  "zcall net call s =
     (case net (ms_ops s) call of
        Done \<Rightarrow> Inr (True, s\<lparr>ms_ops := ms_ops s @ [call]\<rparr>)
      | Again \<Rightarrow> (case call of Send _ \<Rightarrow> Inr (False, s) | _ \<Rightarrow> Inl (ZmqError EAGAIN))
      | Fail e \<Rightarrow> Inl (ZmqError e))"

definition ms_address :: "MessageSender \<Rightarrow> string" where
  "ms_address s = connect_address (ms_src s) (ms_dst s) (ms_channel s)"

definition ms_reset_port :: "(zop list \<Rightarrow> zop \<Rightarrow> zret) \<Rightarrow> int \<times> int \<Rightarrow> MessageSender \<Rightarrow> MessageSender result" where
  "ms_reset_port net port_pair s =
     bindE (zcall net (Disconnect (ms_address s)) s) (\<lambda>(_, s).
       Inr (s\<lparr>ms_connected := False, ms_channel := port_pair\<rparr>))"

definition ms_send :: "(zop list \<Rightarrow> zop \<Rightarrow> zret) \<Rightarrow> byte list \<Rightarrow> MessageSender \<Rightarrow> (bool \<times> MessageSender) result" where
  "ms_send net str s =
     bindE (if ms_connected s then Inr s
            else bindE (zcall net (Connect (ms_address s)) s) (\<lambda>(_, s). Inr (s\<lparr>ms_connected := True\<rparr>))) (\<lambda>s.
       zcall net (Send str) s)"

text \<open>
  The loop \<open>while (!res)\<close> around \<open>send\<close> in \<open>TraderOrderSender::run\<close> and \<open>ExchangeTradeSender::run\<close>. \<open>None\<close>:
  the socket has refused the message \<open>fuel\<close> times; what it answers may depend on the number of tries.
\<close>

fun send_until :: "nat \<Rightarrow> (nat \<Rightarrow> zop list \<Rightarrow> zop \<Rightarrow> zret) \<Rightarrow> byte list \<Rightarrow> MessageSender \<Rightarrow> MessageSender option result" where
  "send_until 0 net str s = Inr None"
| "send_until (Suc fuel) net str s =
     bindE (ms_send (net 0) str s) (\<lambda>(res, s).
       if res then Inr (Some s) else send_until fuel (\<lambda>k. net (Suc k)) str s)"

text \<open>The inner loop of \<open>ExchangeTradeSender::run\<close>: the message goes to every trader.\<close>

fun broadcast :: "nat \<Rightarrow> (nat \<Rightarrow> zop list \<Rightarrow> zop \<Rightarrow> zret) \<Rightarrow> byte list \<Rightarrow> MessageSender list \<Rightarrow> MessageSender list option result" where
  "broadcast fuel net msg [] = Inr (Some [])"
| "broadcast fuel net msg (s # ss) =
     bindE (send_until fuel net msg s) (\<lambda>r.
       case r of
         None \<Rightarrow> Inr None
       | Some s \<Rightarrow>
           bindE (broadcast fuel net msg ss) (\<lambda>r. Inr (map_option (\<lambda>ss. s # ss) r)))"

section \<open>Channels\<close>

text \<open>\<open>Config::trader_port2exchange_port[i][j][k]\<close>.\<close>

definition port_pair :: "Config \<Rightarrow> int \<Rightarrow> int \<Rightarrow> int \<Rightarrow> (int \<times> int) result" where
  "port_pair cfg i j k =
     bindE (at (trader_port2exchange_port cfg) i) (\<lambda>xs. bindE (at xs j) (\<lambda>channels. at channels k))"

text \<open>The ports of \<open>ExchangeOrderReceiver\<close>: two for each trader.\<close>

definition exchange_ports :: "Config \<Rightarrow> int list result" where
  "exchange_ports cfg =
     bindE (mapE (\<lambda>i. bindE (port_pair cfg i (partition_idx cfg) 0) (\<lambda>p.
                        bindE (port_pair cfg i (partition_idx cfg) 1) (\<lambda>q. Inr [snd p, snd q])))
              [0..trader_num cfg - 1])
       (\<lambda>pss. Inr (concat pss))"

definition newOrderReceiver :: "Config \<Rightarrow> MessageReceiver result" where
  "newOrderReceiver cfg =
     bindE (exchange_ports cfg) (\<lambda>ports.
     bindE (at (exchanges_addr cfg) (partition_idx cfg)) (\<lambda>addr. Inr (newMessageReceiver addr ports)))"

definition or_reset_network :: "Config \<Rightarrow> MessageReceiver \<Rightarrow> MessageReceiver result" where
  "or_reset_network cfg r = bindE (exchange_ports cfg) (\<lambda>ports. mr_reset_port ports r)"

text \<open>The ports of \<open>TraderTradeReceiver\<close>: one for each exchange.\<close>

definition trader_ports :: "Config \<Rightarrow> int list result" where
  "trader_ports cfg =
     mapE (\<lambda>i. bindE (port_pair cfg (partition_idx cfg) i 2) (\<lambda>p. Inr (fst p))) [0..exchange_num cfg - 1]"

definition newTradeMsgReceiver :: "Config \<Rightarrow> MessageReceiver result" where
  "newTradeMsgReceiver cfg =
     bindE (trader_ports cfg) (\<lambda>ports.
     bindE (at (traders_addr cfg) (partition_idx cfg)) (\<lambda>addr. Inr (newMessageReceiver addr ports)))"

definition tr_reset_network :: "Config \<Rightarrow> MessageReceiver \<Rightarrow> MessageReceiver result" where
  "tr_reset_network cfg r = bindE (trader_ports cfg) (\<lambda>ports. mr_reset_port ports r)"

text \<open>\<open>ExchangeTradeSender\<close>: a sender for each trader, with the pair of ports swapped.\<close>

definition trade_channel :: "Config \<Rightarrow> int \<Rightarrow> (int \<times> int) result" where
  "trade_channel cfg i =
     bindE (port_pair cfg i (partition_idx cfg) 2) (\<lambda>p. Inr (snd p, fst p))"

definition newTradeSenders :: "Config \<Rightarrow> MessageSender list result" where
  "newTradeSenders cfg =
     mapE (\<lambda>i. bindE (trade_channel cfg i) (\<lambda>p.
               bindE (at (exchanges_addr cfg) (partition_idx cfg)) (\<lambda>src.
               bindE (at (traders_addr cfg) i) (\<lambda>dst. Inr (newMessageSender src dst p)))))
       [0..trader_num cfg - 1]"

definition ts_reset_network :: "(zop list \<Rightarrow> zop \<Rightarrow> zret) \<Rightarrow> Config \<Rightarrow> MessageSender list \<Rightarrow> MessageSender list result" where
  "ts_reset_network net cfg ss =
     mapE (\<lambda>i. bindE (trade_channel cfg i) (\<lambda>p. bindE (at ss i) (\<lambda>s. ms_reset_port net p s)))
       [0..trader_num cfg - 1]"

text \<open>\<open>TraderOrderSender\<close> uses the first channel to its exchange.\<close>

definition newOrderSender :: "Config \<Rightarrow> int \<Rightarrow> MessageSender result" where
  "newOrderSender cfg exchange_idx =
     bindE (port_pair cfg (partition_idx cfg) exchange_idx 0) (\<lambda>p.
     bindE (at (traders_addr cfg) (partition_idx cfg)) (\<lambda>src.
     bindE (at (exchanges_addr cfg) exchange_idx) (\<lambda>dst. Inr (newMessageSender src dst p))))"

definition os_reset_network :: "(zop list \<Rightarrow> zop \<Rightarrow> zret) \<Rightarrow> Config \<Rightarrow> int \<Rightarrow> MessageSender \<Rightarrow> MessageSender result" where
  "os_reset_network net cfg exchange_idx s =
     bindE (port_pair cfg (partition_idx cfg) exchange_idx 0) (\<lambda>p. ms_reset_port net p s)"

section \<open>Properties\<close>

lemma exchange_ports_first:
  assumes "exchange_ports cfg = Inr ports" and "0 \<le> i" and "i < trader_num cfg"
  shows "\<exists>p. port_pair cfg i (partition_idx cfg) 0 = Inr p \<and> snd p \<in> set ports"
proof -
  let ?f = "\<lambda>i. bindE (port_pair cfg i (partition_idx cfg) 0) (\<lambda>p.
    bindE (port_pair cfg i (partition_idx cfg) 1) (\<lambda>q. Inr [snd p, snd q]))"
  obtain pss where pss: "mapE ?f [0..trader_num cfg - 1] = Inr pss" "ports = concat pss"
    using assms(1) by (auto simp: exchange_ports_def bindE_eq_Inr)
  have "nat i < length pss" "?f i = Inr (pss ! nat i)" using mapE_upto [OF pss(1) assms(2,3)] by blast+
  then obtain p q where pq: "port_pair cfg i (partition_idx cfg) 0 = Inr p" "[snd p, snd (q :: int \<times> int)] = pss ! nat i"
    by (auto simp: bindE_eq_Inr)
  have "[snd p, snd q] \<in> set pss" using pq(2) nth_mem [OF \<open>nat i < length pss\<close>] by simp
  then have "snd p \<in> set (concat pss)" by (auto intro: bexI [of _ "[snd p, snd q]"])
  then show ?thesis using pq(1) pss(2) by blast
qed

lemma trader_ports_mem:
  assumes "trader_ports cfg = Inr ports" and "0 \<le> j" and "j < exchange_num cfg"
  shows "\<exists>p. port_pair cfg (partition_idx cfg) j 2 = Inr p \<and> fst p \<in> set ports"
proof -
  have "nat j < length ports" "bindE (port_pair cfg (partition_idx cfg) j 2) (\<lambda>p. Inr (fst p)) = Inr (ports ! nat j)"
    using mapE_upto [OF assms(1) [unfolded trader_ports_def] assms(2,3)] by blast+
  then show ?thesis using nth_mem [of "nat j" ports] by (auto simp: bindE_eq_Inr)
qed

text \<open>The two sides have read the same network file.\<close>

definition same_network :: "Config \<Rightarrow> Config \<Rightarrow> bool" where
  "same_network c d \<longleftrightarrow> trader_port2exchange_port c = trader_port2exchange_port d
     \<and> traders_addr c = traders_addr d \<and> exchanges_addr c = exchanges_addr d"

lemma same_network_port_pair: "same_network c d \<Longrightarrow> port_pair c i j k = port_pair d i j k"
  by (simp add: same_network_def port_pair_def)

text \<open>
  (C29) The channels fit together: when a trader and an exchange have read the same network file, the
  trader's order sender for this exchange sends to an address and port on which the exchange's receiver
  listens, and the exchange's trade sender for this trader to one on which the trader's receiver listens.
\<close>

theorem channels_match:
  assumes "same_network cfgt cfge" and "0 \<le> partition_idx cfgt" and "partition_idx cfgt < trader_num cfge"
    and "0 \<le> partition_idx cfge" and "partition_idx cfge < exchange_num cfgt"
    and "newOrderSender cfgt (partition_idx cfge) = Inr s" and "newOrderReceiver cfge = Inr r"
    and "newTradeSenders cfge = Inr ss" and "newTradeMsgReceiver cfgt = Inr q"
  shows "ms_dst s = mr_addr r \<and> snd (ms_channel s) \<in> set (mr_ports r)
    \<and> (\<exists>u. ss ! nat (partition_idx cfgt) = u \<and> ms_dst u = mr_addr q \<and> snd (ms_channel u) \<in> set (mr_ports q))"
proof -
  note pp = same_network_port_pair [OF assms(1)]
  let ?i = "partition_idx cfgt" and ?j = "partition_idx cfge"
  have addrs: "traders_addr cfgt = traders_addr cfge" "exchanges_addr cfgt = exchanges_addr cfge"
    using assms(1) by (simp_all add: same_network_def)
  obtain p src dst where s: "port_pair cfge ?i ?j 0 = Inr p" "at (exchanges_addr cfge) ?j = Inr dst"
    "s = newMessageSender src dst p"
    using assms(6) by (auto simp: newOrderSender_def bindE_eq_Inr pp addrs)
  obtain ports where r: "exchange_ports cfge = Inr ports" "r = newMessageReceiver dst ports"
    using assms(7) s(2) by (auto simp: newOrderReceiver_def bindE_eq_Inr)
  have fst: "snd p \<in> set ports" using exchange_ports_first [OF r(1) assms(2,3)] s(1) by auto
  obtain ports' addr where q: "trader_ports cfgt = Inr ports'" "at (traders_addr cfge) ?i = Inr addr"
    "q = newMessageReceiver addr ports'"
    using assms(9) by (auto simp: newTradeMsgReceiver_def bindE_eq_Inr addrs)
  obtain p' where p': "port_pair cfge ?i ?j 2 = Inr p'" "fst p' \<in> set ports'"
    using trader_ports_mem [OF q(1) assms(4,5)] by (auto simp: pp)
  have "\<exists>src. ss ! nat ?i = newMessageSender src addr (snd p', fst p')"
    using mapE_upto(2) [OF assms(8) [unfolded newTradeSenders_def] assms(2,3)] p'(1) q(2)
    by (auto simp: trade_channel_def bindE_eq_Inr, metis)
  then show ?thesis using s(3) r(2) q(3) fst p'(2) by (auto simp: newMessageSender_def newMessageReceiver_def)
qed

definition ex_ports :: "(int \<times> int) list list list" where
  "ex_ports = [[[(1, 2), (3, 4), (5, 6)], [(7, 8), (9, 10), (11, 12)]],
               [[(13, 14), (15, 16), (17, 18)], [(19, 20), (21, 22), (23, 24)]]]"

definition ex_net :: "int \<Rightarrow> Config" where
  "ex_net part = initConfig\<lparr>partition_idx := part, traders_addr := [''10.0.0.1'', ''10.0.0.2''],
     exchanges_addr := [''10.0.0.3'', ''10.0.0.4''], trader_port2exchange_port := ex_ports\<rparr>"

theorem channels_match_witness:
  "\<exists>s r ss q. newOrderSender (ex_net 1) 0 = Inr s \<and> newOrderReceiver (ex_net 0) = Inr r
    \<and> newTradeSenders (ex_net 0) = Inr ss \<and> newTradeMsgReceiver (ex_net 1) = Inr q
    \<and> ms_dst s = mr_addr r \<and> snd (ms_channel s) \<in> set (mr_ports r)"
proof -
  have "isl (newOrderSender (ex_net 1) 0) = False" "isl (newOrderReceiver (ex_net 0)) = False"
    "isl (newTradeSenders (ex_net 0)) = False" "isl (newTradeMsgReceiver (ex_net 1)) = False" by code_simp+
  then obtain s r ss q where e: "newOrderSender (ex_net 1) 0 = Inr s" "newOrderReceiver (ex_net 0) = Inr r"
    "newTradeSenders (ex_net 0) = Inr ss" "newTradeMsgReceiver (ex_net 1) = Inr q"
    by (metis sum.collapse(2))
  have "ms_dst s = mr_addr r \<and> snd (ms_channel s) \<in> set (mr_ports r)
    \<and> (\<exists>u. ss ! nat (partition_idx (ex_net 1)) = u \<and> ms_dst u = mr_addr q \<and> snd (ms_channel u) \<in> set (mr_ports q))"
    using e by (intro channels_match [of "ex_net 1" "ex_net 0"])
      (simp_all add: same_network_def ex_net_def initConfig_def)
  with e show ?thesis by blast
qed

text \<open>
  What ZeroMQ documents of the pull sockets 0 to n-1: a non-blocking receive takes the first message that waits at
  the socket, if there is one, and touches no other socket.
\<close>

definition zmq_pull :: "nat \<Rightarrow> (nat \<Rightarrow> 'z \<Rightarrow> (byte list option \<times> 'z) result) \<Rightarrow> ('z \<Rightarrow> nat \<Rightarrow> byte list list) \<Rightarrow> bool" where
  "zmq_pull n zrecv pending \<longleftrightarrow>
     (\<forall>i < n. \<forall>z. case pending z i of
        [] \<Rightarrow> \<exists>z'. zrecv i z = Inr (None, z') \<and> pending z' = pending z
      | m # ms \<Rightarrow> \<exists>z'. zrecv i z = Inr (Some m, z') \<and> pending z' = (pending z)(i := ms))"

text \<open>The outcome of asking the sockets \<open>is\<close> one after the other.\<close>

definition polled :: "nat list \<Rightarrow> (nat \<Rightarrow> byte list list) \<Rightarrow> byte list option \<Rightarrow> (nat \<Rightarrow> byte list list) \<Rightarrow> bool" where
  "polled is p m p' \<longleftrightarrow>
     (case m of
        None \<Rightarrow> (\<forall>i \<in> set is. p i = []) \<and> p' = p
      | Some msg \<Rightarrow> \<exists>pre i post ms. is = pre @ i # post \<and> (\<forall>j \<in> set pre. p j = [])
          \<and> p i = msg # ms \<and> p' = p(i := ms))"

lemma polled_Cons: "p i = [] \<Longrightarrow> polled is p m p' \<Longrightarrow> polled (i # is) p m p'"
  unfolding polled_def by (cases m) (auto simp: Cons_eq_append_conv, metis list.set_intros(1) set_ConsD append_Cons)

lemma polled_hit: "p i = msg # ms \<Longrightarrow> polled (i # is) p (Some msg) (p(i := ms))"
  unfolding polled_def by (auto intro: exI [of _ "[]"])

lemma zmq_pull_cases:
  assumes "zmq_pull n zrecv pending" and "i < n"
  obtains (none) z' where "pending z i = []" "zrecv i z = Inr (None, z')" "pending z' = pending z"
  | (some) m ms z' where "pending z i = m # ms" "zrecv i z = Inr (Some m, z')" "pending z' = (pending z)(i := ms)"
proof -
  have "case pending z i of
        [] \<Rightarrow> \<exists>z'. zrecv i z = Inr (None, z') \<and> pending z' = pending z
      | m # ms \<Rightarrow> \<exists>z'. zrecv i z = Inr (Some m, z') \<and> pending z' = (pending z)(i := ms)"
    using assms by (simp add: zmq_pull_def)
  then show ?thesis using none some by (cases "pending z i") auto
qed

lemma poll_ports_pull:
  assumes "zmq_pull n zrecv pending" and "k \<le> n"
  shows "\<exists>m z'. poll_ports zrecv n off k z = Inr (m, z')
    \<and> polled (map (\<lambda>l. (l + off) mod n) [n - k..<n]) (pending z) m (pending z')"
  using assms(2)
proof (induction k arbitrary: z)
  case 0
  show ?case by (simp add: polled_def)
next
  case (Suc k)
  then have idx: "[n - Suc k..<n] = (n - Suc k) # [n - k..<n]"
    by (metis Suc_diff_Suc Suc_le_lessD diff_less_Suc less_or_eq_imp_le upt_conv_Cons diff_less zero_less_Suc order_less_le_trans)
  have "(n - Suc k + off) mod n < n" using Suc.prems by simp
  from assms(1) this show ?case
  proof (cases rule: zmq_pull_cases [of _ _ _ "(n - Suc k + off) mod n" z])
    case (none z1)
    obtain m z' where "poll_ports zrecv n off k z1 = Inr (m, z')"
      "polled (map (\<lambda>l. (l + off) mod n) [n - k..<n]) (pending z1) m (pending z')"
      using Suc.IH [of z1] Suc.prems by auto
    then show ?thesis using none unfolding idx by (auto intro: polled_Cons)
  next
    case (some m ms z1)
    then show ?thesis using polled_hit [of "pending z", OF some(1)] unfolding idx by auto
  qed
qed

text \<open>
  Polling the sockets, with pull sockets as ZeroMQ documents them: \<open>tryrecv\<close> finds a message exactly if
  one waits at some socket; it takes the first message of the first socket, from \<open>offset\<close> on and around,
  that has one, and leaves all others; \<open>offset\<close> moves on only when there was none.
\<close>

lemma tryrecv_polls:
  assumes "zmq_pull (length (mr_ports r)) zrecv pending" and "mr_ports r \<noteq> []"
  shows "\<exists>m r' z'. tryrecv zrecv r z = Inr (m, r', z') \<and>
    (case m of
       None \<Rightarrow> (\<forall>i < length (mr_ports r). pending z i = []) \<and> pending z' = pending z
         \<and> r' = r\<lparr>mr_offset := (mr_offset r + 1) mod length (mr_ports r)\<rparr>
     | Some msg \<Rightarrow> r' = r \<and> (\<exists>pre i post ms.
         map (\<lambda>l. (l + mr_offset r) mod length (mr_ports r)) [0..<length (mr_ports r)] = pre @ i # post
         \<and> (\<forall>j \<in> set pre. pending z j = []) \<and> pending z i = msg # ms \<and> pending z' = (pending z)(i := ms)))"
proof -
  let ?n = "length (mr_ports r)" and ?o = "mr_offset r"
  have n: "0 < ?n" using assms(2) by simp
  from poll_ports_pull [OF assms(1) le_refl, of ?o z] obtain m z' where
    m: "poll_ports zrecv ?n ?o ?n z = Inr (m, z')"
    "polled (map (\<lambda>l. (l + ?o) mod ?n) [0..<?n]) (pending z) m (pending z')"
    by auto
  have onto: "\<exists>l < ?n. (l + ?o) mod ?n = i" if "i < ?n" for i
  proof -
    have "((i + (?n - ?o mod ?n)) mod ?n + ?o) mod ?n = (i + (?n - ?o mod ?n) + ?o mod ?n) mod ?n"
      by (metis mod_add_left_eq mod_add_right_eq)
    also have "i + (?n - ?o mod ?n) + ?o mod ?n = i + ?n"
      using mod_less_divisor [OF n, of ?o] by linarith
    finally show ?thesis using that n by (intro exI [of _ "(i + (?n - ?o mod ?n)) mod ?n"]) simp
  qed
  show ?thesis
  proof (cases m)
    case None
    have "pending z i = []" if "i < ?n" for i using onto [OF that] m(2) None by (auto simp: polled_def)
    then show ?thesis using m None n
      by (intro exI [of _ None] exI [of _ "r\<lparr>mr_offset := (?o + 1) mod ?n\<rparr>"] exI [of _ z'])
        (simp add: tryrecv_def polled_def)
  next
    case (Some msg)
    then show ?thesis using m
      by (intro exI [of _ "Some msg"] exI [of _ r] exI [of _ z']) (simp add: tryrecv_def polled_def)
  qed
qed

text \<open>What a sender has done to its socket after it has got rid of one message.\<close>

definition delivered :: "byte list \<Rightarrow> MessageSender \<Rightarrow> MessageSender" where
  "delivered msg s = s\<lparr>ms_connected := True,
     ms_ops := ms_ops s @ (if ms_connected s then [] else [Connect (ms_address s)]) @ [Send msg]\<rparr>"

text \<open>
  A push socket that can connect and takes the message at one of the first \<open>fuel\<close> tries, whatever
  happened on it before.
\<close>

definition accepts :: "nat \<Rightarrow> (nat \<Rightarrow> zop list \<Rightarrow> zop \<Rightarrow> zret) \<Rightarrow> byte list \<Rightarrow> bool" where
  "accepts fuel net msg \<longleftrightarrow>
     (\<forall>k h a. net k h (Connect a) = Done) \<and> (\<forall>k h e. net k h (Send msg) \<noteq> Fail e)
     \<and> (\<forall>h. \<exists>k < fuel. net k h (Send msg) = Done)"

lemma send_until_connected:
  assumes "ms_connected s" and "\<forall>k h e. net k h (Send msg) \<noteq> Fail e" and "\<exists>k < fuel. net k (ms_ops s) (Send msg) = Done"
  shows "send_until fuel net msg s = Inr (Some (s\<lparr>ms_ops := ms_ops s @ [Send msg]\<rparr>))"
  using assms
proof (induction fuel arbitrary: net)
  case (Suc fuel)
  show ?case
  proof (cases "net 0 (ms_ops s) (Send msg)")
    case Done
    then show ?thesis using Suc.prems(1) by (simp add: ms_send_def zcall_def)
  next
    case Again
    obtain k where k: "k < Suc fuel" "net k (ms_ops s) (Send msg) = Done" using Suc.prems(3) by blast
    have "k \<noteq> 0" using k(2) Again by (metis zret.distinct(1))
    then have "\<exists>j < fuel. net (Suc j) (ms_ops s) (Send msg) = Done"
      using k by (intro exI [of _ "k - 1"]) auto
    then show ?thesis using Suc.IH [of "\<lambda>k. net (Suc k)"] Suc.prems Again by (simp add: ms_send_def zcall_def)
  qed (use Suc.prems(2) in simp)
qed simp

lemma send_until_delivers:
  assumes "accepts fuel net msg"
  shows "send_until fuel net msg s = Inr (Some (delivered msg s))"
proof (cases "ms_connected s")
  case True
  then show ?thesis using assms send_until_connected [OF True, of net msg fuel]
    by (cases s) (simp add: accepts_def delivered_def)
next
  case False
  let ?s = "s\<lparr>ms_ops := ms_ops s @ [Connect (ms_address s)], ms_connected := True\<rparr>"
  have "0 < fuel" using assms by (auto simp: accepts_def dest: spec [of _ "[]"])
  then obtain n where n: "fuel = Suc n" by (cases fuel) auto
  have "zcall (net 0) (Connect (ms_address s)) s = Inr (True, s\<lparr>ms_ops := ms_ops s @ [Connect (ms_address s)]\<rparr>)"
    using assms by (simp add: zcall_def accepts_def)
  then have "send_until fuel net msg s = send_until fuel net msg ?s" using False by (simp add: n ms_send_def)
  also have "\<dots> = Inr (Some (delivered msg s))"
    using assms send_until_connected [of ?s net msg fuel] False by (cases s) (simp add: accepts_def delivered_def ms_address_def)
  finally show ?thesis .
qed

text \<open>
  (C32) A reply goes to every trader exactly once and in order: as long as each socket takes a message
  sooner or later, the loop over the senders ends, and each of them has performed exactly one send of this
  message after what it did before, preceded by one connect to its own address if it was not connected.
\<close>

theorem broadcast_once:
  assumes "accepts fuel net msg"
  shows "broadcast fuel net msg ss = Inr (Some (map (delivered msg) ss))"
  using send_until_delivers [OF assms] by (induction ss) simp_all

definition ex_push :: "nat \<Rightarrow> zop list \<Rightarrow> zop \<Rightarrow> zret" where
  "ex_push k h call = (case call of Send _ \<Rightarrow> if k < 3 then Again else Done | _ \<Rightarrow> Done)"

theorem broadcast_once_witness:
  "broadcast 4 ex_push [7] [newMessageSender ''10.0.0.3'' ''10.0.0.1'' (6, 5), newMessageSender ''10.0.0.3'' ''10.0.0.2'' (18, 17)]
    = Inr (Some (map (delivered [7])
        [newMessageSender ''10.0.0.3'' ''10.0.0.1'' (6, 5), newMessageSender ''10.0.0.3'' ''10.0.0.2'' (18, 17)]))"
  by (rule broadcast_once) (auto simp: accepts_def ex_push_def intro: exI [of _ 3])

end
