(* ===== verification/Zmq.thy ===== *)
theory Zmq
  imports Network
begin

text \<open>
  \<open>src/deps/zmq.hpp\<close>, the C++ classes over the C library of ZeroMQ that the channels use: \<open>error_t\<close>, \<open>message_t\<close>,
  \<open>context_t\<close>, \<open>socket_t\<close>, and the functions \<open>poll\<close>, \<open>proxy\<close> and \<open>version\<close>. The C library itself is not part of
  the sources: its functions are the fields of the record \<open>libzmq\<close>, an argument of all definitions. \<open>'m\<close> is
  \<open>zmq_msg_t\<close>, \<open>'z\<close> the state of the library and the network behind it; a pointer is a natural number, 0 is
  \<open>NULL\<close>. The programs are compiled with assertions, so a failed \<open>ZMQ_ASSERT\<close> aborts.
\<close>

section \<open>The C library\<close>

record ('m, 'z) libzmq =
  zmq_errno :: "'z \<Rightarrow> int"
  zmq_strerror :: "int \<Rightarrow> string"
  zmq_version :: "int \<times> int \<times> int"
  zmq_poll :: "nat list \<Rightarrow> int \<Rightarrow> 'z \<Rightarrow> int \<times> 'z"
  zmq_proxy :: "nat \<Rightarrow> nat \<Rightarrow> nat \<Rightarrow> 'z \<Rightarrow> int \<times> 'z"
  zmq_proxy_steerable :: "nat \<Rightarrow> nat \<Rightarrow> nat \<Rightarrow> nat \<Rightarrow> 'z \<Rightarrow> int \<times> 'z"
  zmq_msg_init :: "'z \<Rightarrow> int \<times> 'm \<times> 'z"
  zmq_msg_init_size :: "nat \<Rightarrow> 'z \<Rightarrow> int \<times> 'm \<times> 'z"
  zmq_msg_init_data :: "byte list \<Rightarrow> 'z \<Rightarrow> int \<times> 'm \<times> 'z"
  zmq_msg_close :: "'m \<Rightarrow> 'z \<Rightarrow> int \<times> 'm \<times> 'z"
  zmq_msg_move :: "'m \<Rightarrow> 'm \<Rightarrow> 'z \<Rightarrow> int \<times> 'm \<times> 'm \<times> 'z"
  zmq_msg_copy :: "'m \<Rightarrow> 'm \<Rightarrow> 'z \<Rightarrow> int \<times> 'm \<times> 'm \<times> 'z"
  zmq_msg_more :: "'m \<Rightarrow> int"
  zmq_msg_data :: "'m \<Rightarrow> byte list"        \<comment> \<open>the bytes behind the pointer\<close>
  zmq_msg_store :: "byte list \<Rightarrow> 'm \<Rightarrow> 'm"  \<comment> \<open>writing through the pointer\<close>
  zmq_msg_size :: "'m \<Rightarrow> nat"
  zmq_ctx_new :: "'z \<Rightarrow> nat \<times> 'z"
  zmq_ctx_set :: "nat \<Rightarrow> int \<Rightarrow> int \<Rightarrow> 'z \<Rightarrow> int \<times> 'z"
  zmq_ctx_destroy :: "nat \<Rightarrow> 'z \<Rightarrow> int \<times> 'z"
  zmq_socket :: "nat \<Rightarrow> int \<Rightarrow> 'z \<Rightarrow> nat \<times> 'z"
  zmq_close :: "nat \<Rightarrow> 'z \<Rightarrow> int \<times> 'z"
  zmq_setsockopt :: "nat \<Rightarrow> int \<Rightarrow> byte list \<Rightarrow> 'z \<Rightarrow> int \<times> 'z"
  zmq_getsockopt :: "nat \<Rightarrow> int \<Rightarrow> nat \<Rightarrow> 'z \<Rightarrow> int \<times> byte list \<times> 'z"
  zmq_bind :: "nat \<Rightarrow> string \<Rightarrow> 'z \<Rightarrow> int \<times> 'z"
  zmq_unbind :: "nat \<Rightarrow> string \<Rightarrow> 'z \<Rightarrow> int \<times> 'z"
  zmq_connect :: "nat \<Rightarrow> string \<Rightarrow> 'z \<Rightarrow> int \<times> 'z"
  zmq_disconnect :: "nat \<Rightarrow> string \<Rightarrow> 'z \<Rightarrow> int \<times> 'z"
  zmq_send :: "nat \<Rightarrow> byte list \<Rightarrow> int \<Rightarrow> 'z \<Rightarrow> int \<times> 'z"
  zmq_recv :: "nat \<Rightarrow> nat \<Rightarrow> int \<Rightarrow> 'z \<Rightarrow> int \<times> byte list \<times> 'z"
  zmq_msg_send :: "'m \<Rightarrow> nat \<Rightarrow> int \<Rightarrow> 'z \<Rightarrow> int \<times> 'm \<times> 'z"
  zmq_msg_recv :: "'m \<Rightarrow> nat \<Rightarrow> int \<Rightarrow> 'z \<Rightarrow> int \<times> 'm \<times> 'z"

text \<open>Constants of its header.\<close>

definition ZMQ_DONTWAIT :: int where
  "ZMQ_DONTWAIT = 1"

definition ZMQ_PULL :: int where
  "ZMQ_PULL = 7"

definition ZMQ_PUSH :: int where
  "ZMQ_PUSH = 8"

definition ZMQ_IO_THREADS :: int where
  "ZMQ_IO_THREADS = 1"

definition ZMQ_MAX_SOCKETS :: int where
  "ZMQ_MAX_SOCKETS = 2"

definition ZMQ_MAX_SOCKETS_DFLT :: int where
  "ZMQ_MAX_SOCKETS_DFLT = 1023"

section \<open>Errors\<close>

record error_t =
  errnum :: int

definition new_error_t :: "('m, 'z) libzmq \<Rightarrow> 'z \<Rightarrow> error_t" where
  "new_error_t api z = \<lparr>errnum = zmq_errno api z\<rparr>"

definition error_what :: "('m, 'z) libzmq \<Rightarrow> error_t \<Rightarrow> string" where
  "error_what api e = zmq_strerror api (errnum e)"

definition error_num :: "error_t \<Rightarrow> int" where
  "error_num e = errnum e"

text \<open>\<open>throw error_t ()\<close>.\<close>

definition throw_error :: "('m, 'z) libzmq \<Rightarrow> 'z \<Rightarrow> 'a result" where
  "throw_error api z = Inl (ZmqError (error_num (new_error_t api z)))"

section \<open>Functions\<close>

definition poll :: "('m, 'z) libzmq \<Rightarrow> nat list \<Rightarrow> int \<Rightarrow> 'z \<Rightarrow> (int \<times> 'z) result" where
  "poll api items timeout z =
     (case zmq_poll api items timeout z of (rc, z) \<Rightarrow> if rc < 0 then throw_error api z else Inr (rc, z))"

definition proxy :: "('m, 'z) libzmq \<Rightarrow> nat \<Rightarrow> nat \<Rightarrow> nat \<Rightarrow> 'z \<Rightarrow> 'z result" where
  "proxy api frontend backend capture z =
     (case zmq_proxy api frontend backend capture z of (rc, z) \<Rightarrow> if rc \<noteq> 0 then throw_error api z else Inr z)"

definition proxy_steerable :: "('m, 'z) libzmq \<Rightarrow> nat \<Rightarrow> nat \<Rightarrow> nat \<Rightarrow> nat \<Rightarrow> 'z \<Rightarrow> 'z result" where
  "proxy_steerable api frontend backend capture control z =
     (case zmq_proxy_steerable api frontend backend capture control z of
        (rc, z) \<Rightarrow> if rc \<noteq> 0 then throw_error api z else Inr z)"

definition version :: "('m, 'z) libzmq \<Rightarrow> int \<times> int \<times> int" where
  "version api = zmq_version api"

section \<open>Messages\<close>

definition new_message :: "('m, 'z) libzmq \<Rightarrow> 'z \<Rightarrow> ('m \<times> 'z) result" where
  "new_message api z =
     (case zmq_msg_init api z of (rc, m, z) \<Rightarrow> if rc \<noteq> 0 then throw_error api z else Inr (m, z))"

definition new_message_size :: "('m, 'z) libzmq \<Rightarrow> nat \<Rightarrow> 'z \<Rightarrow> ('m \<times> 'z) result" where
  "new_message_size api n z =
     (case zmq_msg_init_size api n z of (rc, m, z) \<Rightarrow> if rc \<noteq> 0 then throw_error api z else Inr (m, z))"

definition new_message_data :: "('m, 'z) libzmq \<Rightarrow> byte list \<Rightarrow> 'z \<Rightarrow> ('m \<times> 'z) result" where
  "new_message_data api bs z =
     (case zmq_msg_init_data api bs z of (rc, m, z) \<Rightarrow> if rc \<noteq> 0 then throw_error api z else Inr (m, z))"

text \<open>The move constructor takes the message of \<open>rhs\<close> and initialises \<open>rhs\<close> anew; the move assignment swaps.\<close>

definition move_message :: "('m, 'z) libzmq \<Rightarrow> 'm \<Rightarrow> 'z \<Rightarrow> ('m \<times> 'm \<times> 'z) result" where
  "move_message api rhs z =
     (case zmq_msg_init api z of (rc, rhs', z) \<Rightarrow> if rc \<noteq> 0 then throw_error api z else Inr (rhs, rhs', z))"

definition assign_message :: "'m \<Rightarrow> 'm \<Rightarrow> 'm \<times> 'm" where
  "assign_message m rhs = (rhs, m)"

definition delete_message :: "('m, 'z) libzmq \<Rightarrow> 'm \<Rightarrow> 'z \<Rightarrow> 'z result" where
  "delete_message api m z = (case zmq_msg_close api m z of (rc, m, z) \<Rightarrow> assertE (rc = 0) z)"

definition rebuild :: "('m, 'z) libzmq \<Rightarrow> 'm \<Rightarrow> 'z \<Rightarrow> ('m \<times> 'z) result" where
  "rebuild api m z =
     (case zmq_msg_close api m z of
        (rc, m, z) \<Rightarrow>
          if rc \<noteq> 0 then throw_error api z
          else (case zmq_msg_init api z of (rc, m, z) \<Rightarrow> if rc \<noteq> 0 then throw_error api z else Inr (m, z)))"

definition rebuild_size :: "('m, 'z) libzmq \<Rightarrow> 'm \<Rightarrow> nat \<Rightarrow> 'z \<Rightarrow> ('m \<times> 'z) result" where
  "rebuild_size api m n z =
     (case zmq_msg_close api m z of
        (rc, m, z) \<Rightarrow>
          if rc \<noteq> 0 then throw_error api z
          else (case zmq_msg_init_size api n z of (rc, m, z) \<Rightarrow> if rc \<noteq> 0 then throw_error api z else Inr (m, z)))"

definition rebuild_data :: "('m, 'z) libzmq \<Rightarrow> 'm \<Rightarrow> byte list \<Rightarrow> 'z \<Rightarrow> ('m \<times> 'z) result" where
  "rebuild_data api m bs z =
     (case zmq_msg_close api m z of
        (rc, m, z) \<Rightarrow>
          if rc \<noteq> 0 then throw_error api z
          else (case zmq_msg_init_data api bs z of (rc, m, z) \<Rightarrow> if rc \<noteq> 0 then throw_error api z else Inr (m, z)))"

definition message_move :: "('m, 'z) libzmq \<Rightarrow> 'm \<Rightarrow> 'm \<Rightarrow> 'z \<Rightarrow> ('m \<times> 'm \<times> 'z) result" where
  "message_move api m src z =
     (case zmq_msg_move api m src z of (rc, m, src, z) \<Rightarrow> if rc \<noteq> 0 then throw_error api z else Inr (m, src, z))"

definition message_copy :: "('m, 'z) libzmq \<Rightarrow> 'm \<Rightarrow> 'm \<Rightarrow> 'z \<Rightarrow> ('m \<times> 'm \<times> 'z) result" where
  "message_copy api m src z =
     (case zmq_msg_copy api m src z of (rc, m, src, z) \<Rightarrow> if rc \<noteq> 0 then throw_error api z else Inr (m, src, z))"

definition message_more :: "('m, 'z) libzmq \<Rightarrow> 'm \<Rightarrow> bool" where
  "message_more api m \<longleftrightarrow> zmq_msg_more api m \<noteq> 0"

definition message_data :: "('m, 'z) libzmq \<Rightarrow> 'm \<Rightarrow> byte list" where
  "message_data api m = zmq_msg_data api m"

definition message_size :: "('m, 'z) libzmq \<Rightarrow> 'm \<Rightarrow> nat" where
  "message_size api m = zmq_msg_size api m"

section \<open>Contexts\<close>

record context_t =
  ctx_ptr :: nat

definition new_context :: "('m, 'z) libzmq \<Rightarrow> 'z \<Rightarrow> (context_t \<times> 'z) result" where
  "new_context api z = (case zmq_ctx_new api z of (p, z) \<Rightarrow> if p = 0 then throw_error api z else Inr (\<lparr>ctx_ptr = p\<rparr>, z))"

definition new_context_threads :: "('m, 'z) libzmq \<Rightarrow> int \<Rightarrow> int \<Rightarrow> 'z \<Rightarrow> (context_t \<times> 'z) result" where
  "new_context_threads api io_threads max_sockets z =
     (case zmq_ctx_new api z of
        (p, z) \<Rightarrow>
          if p = 0 then throw_error api z
          else (case zmq_ctx_set api p ZMQ_IO_THREADS io_threads z of
                  (rc, z) \<Rightarrow>
                    if rc \<noteq> 0 then Inl Abort
                    else (case zmq_ctx_set api p ZMQ_MAX_SOCKETS max_sockets z of
                            (rc, z) \<Rightarrow> if rc \<noteq> 0 then Inl Abort else Inr (\<lparr>ctx_ptr = p\<rparr>, z))))"

definition move_context :: "context_t \<Rightarrow> context_t \<times> context_t" where
  "move_context rhs = (\<lparr>ctx_ptr = ctx_ptr rhs\<rparr>, rhs\<lparr>ctx_ptr := 0\<rparr>)"

definition assign_context :: "context_t \<Rightarrow> context_t \<Rightarrow> context_t \<times> context_t" where
  "assign_context c rhs = (c\<lparr>ctx_ptr := ctx_ptr rhs\<rparr>, rhs\<lparr>ctx_ptr := ctx_ptr c\<rparr>)"

definition close_context :: "('m, 'z) libzmq \<Rightarrow> context_t \<Rightarrow> 'z \<Rightarrow> (context_t \<times> 'z) result" where
  "close_context api c z =
     (if ctx_ptr c = 0 then Inr (c, z)
      else (case zmq_ctx_destroy api (ctx_ptr c) z of (rc, z) \<Rightarrow> if rc \<noteq> 0 then Inl Abort else Inr (c\<lparr>ctx_ptr := 0\<rparr>, z)))"

section \<open>Sockets\<close>

record socket_t =
  sock_ptr :: nat
  sock_ctxptr :: nat

definition new_socket :: "('m, 'z) libzmq \<Rightarrow> context_t \<Rightarrow> int \<Rightarrow> 'z \<Rightarrow> (socket_t \<times> 'z) result" where
  "new_socket api ctx type z =
     (case zmq_socket api (ctx_ptr ctx) type z of
        (p, z) \<Rightarrow> if p = 0 then throw_error api z else Inr (\<lparr>sock_ptr = p, sock_ctxptr = ctx_ptr ctx\<rparr>, z))"

text \<open>The move constructor does not initialise \<open>ctxptr\<close>, which keeps the value \<open>junk\<close> of its memory; the assignment swaps only \<open>ptr\<close>.\<close>

definition move_socket :: "nat \<Rightarrow> socket_t \<Rightarrow> socket_t \<times> socket_t" where
  "move_socket junk rhs = (\<lparr>sock_ptr = sock_ptr rhs, sock_ctxptr = junk\<rparr>, rhs\<lparr>sock_ptr := 0\<rparr>)"

definition assign_socket :: "socket_t \<Rightarrow> socket_t \<Rightarrow> socket_t \<times> socket_t" where
  "assign_socket s rhs = (s\<lparr>sock_ptr := sock_ptr rhs\<rparr>, rhs\<lparr>sock_ptr := sock_ptr s\<rparr>)"

definition close_socket :: "('m, 'z) libzmq \<Rightarrow> socket_t \<Rightarrow> 'z \<Rightarrow> (socket_t \<times> 'z) result" where
  "close_socket api s z =
     (if sock_ptr s = 0 then Inr (s, z)
      else (case zmq_close api (sock_ptr s) z of (rc, z) \<Rightarrow> if rc \<noteq> 0 then Inl Abort else Inr (s\<lparr>sock_ptr := 0\<rparr>, z)))"

definition setsockopt :: "('m, 'z) libzmq \<Rightarrow> socket_t \<Rightarrow> int \<Rightarrow> byte list \<Rightarrow> 'z \<Rightarrow> 'z result" where
  "setsockopt api s opt optval z =
     (case zmq_setsockopt api (sock_ptr s) opt optval z of (rc, z) \<Rightarrow> if rc \<noteq> 0 then throw_error api z else Inr z)"

definition getsockopt :: "('m, 'z) libzmq \<Rightarrow> socket_t \<Rightarrow> int \<Rightarrow> nat \<Rightarrow> 'z \<Rightarrow> (byte list \<times> 'z) result" where
  "getsockopt api s opt optlen z =
     (case zmq_getsockopt api (sock_ptr s) opt optlen z of
        (rc, optval, z) \<Rightarrow> if rc \<noteq> 0 then throw_error api z else Inr (optval, z))"

definition socket_bind :: "('m, 'z) libzmq \<Rightarrow> socket_t \<Rightarrow> string \<Rightarrow> 'z \<Rightarrow> 'z result" where
  "socket_bind api s addr z =
     (case zmq_bind api (sock_ptr s) addr z of (rc, z) \<Rightarrow> if rc \<noteq> 0 then throw_error api z else Inr z)"

definition socket_unbind :: "('m, 'z) libzmq \<Rightarrow> socket_t \<Rightarrow> string \<Rightarrow> 'z \<Rightarrow> 'z result" where
  "socket_unbind api s addr z =
     (case zmq_unbind api (sock_ptr s) addr z of (rc, z) \<Rightarrow> if rc \<noteq> 0 then throw_error api z else Inr z)"

definition socket_connect :: "('m, 'z) libzmq \<Rightarrow> socket_t \<Rightarrow> string \<Rightarrow> 'z \<Rightarrow> 'z result" where
  "socket_connect api s addr z =
     (case zmq_connect api (sock_ptr s) addr z of (rc, z) \<Rightarrow> if rc \<noteq> 0 then throw_error api z else Inr z)"

definition socket_disconnect :: "('m, 'z) libzmq \<Rightarrow> socket_t \<Rightarrow> string \<Rightarrow> 'z \<Rightarrow> 'z result" where
  "socket_disconnect api s addr z =
     (case zmq_disconnect api (sock_ptr s) addr z of (rc, z) \<Rightarrow> if rc \<noteq> 0 then throw_error api z else Inr z)"

definition socket_connected :: "socket_t \<Rightarrow> bool" where
  "socket_connected s \<longleftrightarrow> sock_ptr s \<noteq> 0"

text \<open>Sending and receiving: a negative result with \<open>EAGAIN\<close> is reported as \<open>false\<close> or 0, any other one is thrown.\<close>

definition send_buf :: "('m, 'z) libzmq \<Rightarrow> socket_t \<Rightarrow> byte list \<Rightarrow> int \<Rightarrow> 'z \<Rightarrow> (nat \<times> 'z) result" where
  "send_buf api s buf flags z =
     (case zmq_send api (sock_ptr s) buf flags z of
        (nbytes, z) \<Rightarrow>
          if nbytes \<ge> 0 then Inr (nat nbytes, z)
          else if zmq_errno api z = EAGAIN then Inr (0, z) else throw_error api z)"

definition send_msg :: "('m, 'z) libzmq \<Rightarrow> socket_t \<Rightarrow> 'm \<Rightarrow> int \<Rightarrow> 'z \<Rightarrow> (bool \<times> 'm \<times> 'z) result" where
  "send_msg api s m flags z =
     (case zmq_msg_send api m (sock_ptr s) flags z of
        (nbytes, m, z) \<Rightarrow>
          if nbytes \<ge> 0 then Inr (True, m, z)
          else if zmq_errno api z = EAGAIN then Inr (False, m, z) else throw_error api z)"

definition recv_buf :: "('m, 'z) libzmq \<Rightarrow> socket_t \<Rightarrow> nat \<Rightarrow> int \<Rightarrow> 'z \<Rightarrow> (nat \<times> byte list \<times> 'z) result" where
  "recv_buf api s len flags z =
     (case zmq_recv api (sock_ptr s) len flags z of
        (nbytes, buf, z) \<Rightarrow>
          if nbytes \<ge> 0 then Inr (nat nbytes, buf, z)
          else if zmq_errno api z = EAGAIN then Inr (0, buf, z) else throw_error api z)"

definition recv_msg :: "('m, 'z) libzmq \<Rightarrow> socket_t \<Rightarrow> 'm \<Rightarrow> int \<Rightarrow> 'z \<Rightarrow> (bool \<times> 'm \<times> 'z) result" where
  "recv_msg api s m flags z =
     (case zmq_msg_recv api m (sock_ptr s) flags z of
        (nbytes, m, z) \<Rightarrow>
          if nbytes \<ge> 0 then Inr (True, m, z)
          else if zmq_errno api z = EAGAIN then Inr (False, m, z) else throw_error api z)"

section \<open>Lemmas\<close>

lemma new_message_size_InrD:
  "new_message_size api n z = Inr (m, z') \<Longrightarrow> zmq_msg_init_size api n z = (0, m, z')"
  by (auto simp: new_message_size_def throw_error_def split: prod.splits if_splits)

lemma send_msg_InrD:
  "send_msg api s m fl z = Inr (b, m', z') \<Longrightarrow> \<exists>nb. zmq_msg_send api m (sock_ptr s) fl z = (nb, m', z') \<and> (b \<longleftrightarrow> 0 \<le> nb)"
  by (auto simp: send_msg_def throw_error_def split: prod.splits if_splits)

lemma delete_message_InrD:
  "delete_message api m z = Inr z' \<Longrightarrow> \<exists>m'. zmq_msg_close api m z = (0, m', z')"
  by (auto simp: delete_message_def assertE_def split: prod.splits if_splits)

text \<open>A closed object is closed again without effect, and a moved-from one has nothing to close.\<close>

lemma close_socket_twice:
  "close_socket api s z = Inr (s', z') \<Longrightarrow> close_socket api s' z'' = Inr (s', z'')"
  by (auto simp: close_socket_def split: prod.splits if_splits)

lemma close_context_twice:
  "close_context api c z = Inr (c', z') \<Longrightarrow> close_context api c' z'' = Inr (c', z'')"
  by (auto simp: close_context_def split: prod.splits if_splits)

lemma moved_from_closed:
  "move_socket junk s = (s1, s2) \<Longrightarrow> close_socket api s2 z = Inr (s2, z) \<and> \<not> socket_connected s2"
  "move_context c = (c1, c2) \<Longrightarrow> close_context api c2 z = Inr (c2, z)"
  by (auto simp: move_socket_def close_socket_def socket_connected_def move_context_def close_context_def)

text \<open>The context of a moved socket is whatever was in memory, that of a swapped pair is the wrong one.\<close>

lemma moved_socket_context: "sock_ctxptr (fst (move_socket junk s)) = junk"
  by (simp add: move_socket_def)

lemma swapped_socket_context:
  "assign_socket s rhs = (s', rhs') \<Longrightarrow> sock_ptr s' = sock_ptr rhs \<and> sock_ctxptr s' = sock_ctxptr s"
  by (auto simp: assign_socket_def)

text \<open>A buffer sent with length 0 is reported like one that was not sent.\<close>

lemma send_buf_zero_ambiguous:
  assumes "zmq_send api (sock_ptr s) [] flags z = (0, z1)" and "zmq_send api (sock_ptr s) [] flags z' = (-1, z2)"
    and "zmq_errno api z2 = EAGAIN"
  shows "send_buf api s [] flags z = Inr (0, z1) \<and> send_buf api s [] flags z' = Inr (0, z2)"
  using assms by (simp add: send_buf_def)

end
