(* ===== verification/Zmq_Channels.thy ===== *)
theory Zmq_Channels
  imports Zmq
begin

text \<open>
  \<open>MessageReceiver\<close> and \<open>MessageSender\<close> (\<open>src/src/network/msg_receiver.h\<close>, \<open>msg_sender.h\<close>) on the classes of
  \<open>zmq.hpp\<close>: how they create contexts and sockets, bind, connect, build and read messages, and which errors come
  out. \<open>Network\<close> abstracts from this: a receiver polls sockets that answer with a message or none, a sender makes
  calls that are answered. The lemmas show that both abstractions hold, given what the C library documents.
\<close>

section \<open>MessageReceiver\<close>

text \<open>The loop of the constructor: a socket for every port, bound to its address.\<close>

fun bind_sockets :: "('m, 'z) libzmq \<Rightarrow> context_t \<Rightarrow> string \<Rightarrow> int list \<Rightarrow> 'z \<Rightarrow> (socket_t list \<times> 'z) result" where
  "bind_sockets api ctx addr [] z = Inr ([], z)"
| "bind_sockets api ctx addr (port # ports) z =
     bindE (new_socket api ctx ZMQ_PULL z) (\<lambda>(s, z).
     bindE (socket_bind api s (bind_address addr port) z) (\<lambda>z.
     bindE (bind_sockets api ctx addr ports z) (\<lambda>(ss, z). Inr (s # ss, z))))"

definition open_receiver :: "('m, 'z) libzmq \<Rightarrow> string \<Rightarrow> int list \<Rightarrow> 'z
    \<Rightarrow> (MessageReceiver \<times> socket_t list \<times> 'z) result" where
  "open_receiver api my_addr receiver_ports z =
     bindE (new_context_threads api 1 ZMQ_MAX_SOCKETS_DFLT z) (\<lambda>(ctx, z).
     bindE (bind_sockets api ctx my_addr receiver_ports z) (\<lambda>(ss, z).
       Inr (newMessageReceiver my_addr receiver_ports, ss, z)))"

text \<open>The two loops of \<open>reset_port\<close>. The sockets are never null.\<close>

fun unbind_ports :: "('m, 'z) libzmq \<Rightarrow> string \<Rightarrow> (int \<times> socket_t) list \<Rightarrow> 'z \<Rightarrow> 'z result" where
  "unbind_ports api addr [] z = Inr z"
| "unbind_ports api addr ((port, s) # pss) z =
     bindE (socket_unbind api s (bind_address addr port) z) (\<lambda>z. unbind_ports api addr pss z)"

fun bind_ports :: "('m, 'z) libzmq \<Rightarrow> string \<Rightarrow> (int \<times> socket_t) list \<Rightarrow> 'z \<Rightarrow> 'z result" where
  "bind_ports api addr [] z = Inr z"
| "bind_ports api addr ((port, s) # pss) z =
     bindE (socket_bind api s (bind_address addr port) z) (\<lambda>z. bind_ports api addr pss z)"

definition reset_receiver :: "('m, 'z) libzmq \<Rightarrow> int list \<Rightarrow> MessageReceiver \<Rightarrow> socket_t list \<Rightarrow> 'z
    \<Rightarrow> (MessageReceiver \<times> 'z) result" where
  "reset_receiver api new_ports r ss z =
     (if length new_ports \<noteq> length (mr_ports r) then Inl Abort
      else bindE (unbind_ports api (mr_addr r) (zip (mr_ports r) ss) z) (\<lambda>z.
           bindE (bind_ports api (mr_addr r) (zip new_ports ss) z) (\<lambda>z.
             Inr (r\<lparr>mr_ports := new_ports, mr_bound := map (bind_address (mr_addr r)) new_ports\<rparr>, z))))"

text \<open>\<open>tryrecv(int idx, std::string &str)\<close>: the message lives until the function returns.\<close>

definition recv_at :: "('m, 'z) libzmq \<Rightarrow> socket_t list \<Rightarrow> nat \<Rightarrow> 'z \<Rightarrow> (byte list option \<times> 'z) result" where
  "recv_at api ss idx z =
     bindE (new_message api z) (\<lambda>(msg, z).
       if length ss \<le> idx then Inl Undefined
       else bindE (recv_msg api (ss ! idx) msg ZMQ_DONTWAIT z) (\<lambda>(success, msg, z).
            let str = if success then Some (take (message_size api msg) (message_data api msg)) else None
            in bindE (delete_message api msg z) (\<lambda>z. Inr (str, z))))"

section \<open>MessageSender\<close>

definition open_sender :: "('m, 'z) libzmq \<Rightarrow> string \<Rightarrow> string \<Rightarrow> int \<times> int \<Rightarrow> 'z
    \<Rightarrow> (MessageSender \<times> socket_t \<times> 'z) result" where
  "open_sender api my_addr receiver_addr ports z =
     bindE (new_context_threads api 1 ZMQ_MAX_SOCKETS_DFLT z) (\<lambda>(ctx, z).
     bindE (new_socket api ctx ZMQ_PUSH z) (\<lambda>(sock, z).
       Inr (newMessageSender my_addr receiver_addr ports, sock, z)))"

definition reset_sender :: "('m, 'z) libzmq \<Rightarrow> int \<times> int \<Rightarrow> MessageSender \<Rightarrow> socket_t \<Rightarrow> 'z \<Rightarrow> (MessageSender \<times> 'z) result" where
  "reset_sender api ports s sock z =
     bindE (socket_disconnect api sock (ms_address s) z) (\<lambda>z.
       Inr (s\<lparr>ms_ops := ms_ops s @ [Disconnect (ms_address s)], ms_connected := False, ms_channel := ports\<rparr>, z))"

text \<open>\<open>connect\<close> on demand.\<close>

definition connect_sender :: "('m, 'z) libzmq \<Rightarrow> MessageSender \<Rightarrow> socket_t \<Rightarrow> 'z \<Rightarrow> (MessageSender \<times> 'z) result" where
  "connect_sender api s sock z =
     (if ms_connected s then Inr (s, z)
      else bindE (socket_connect api sock (ms_address s) z) (\<lambda>z.
             Inr (s\<lparr>ms_ops := ms_ops s @ [Connect (ms_address s)], ms_connected := True\<rparr>, z)))"

definition send_over :: "('m, 'z) libzmq \<Rightarrow> byte list \<Rightarrow> MessageSender \<Rightarrow> socket_t \<Rightarrow> 'z
    \<Rightarrow> (bool \<times> MessageSender \<times> 'z) result" where
  "send_over api str s sock z =
     bindE (new_message_size api (length str) z) (\<lambda>(msg, z).
       let msg = zmq_msg_store api str msg
       in bindE (connect_sender api s sock z) (\<lambda>(s, z).
          bindE (send_msg api sock msg ZMQ_DONTWAIT z) (\<lambda>(result, msg, z).
          bindE (delete_message api msg z) (\<lambda>z.
            Inr (result, if result then s\<lparr>ms_ops := ms_ops s @ [Send str]\<rparr> else s, z)))))"

section \<open>What the C library documents\<close>

text \<open>
  Closing an initialised message succeeds. \<open>opened z\<close> are the sockets in use: a new one is not among them.
  \<open>pending z p\<close> are the messages that wait at socket \<open>p\<close>: only a receive on \<open>p\<close> takes one, and when there is none it
  fails with \<open>EAGAIN\<close>.
\<close>

definition close_ok :: "('m, 'z) libzmq \<Rightarrow> bool" where
  "close_ok api \<longleftrightarrow> (\<forall>m z. fst (zmq_msg_close api m z) = 0)"

definition fresh_sockets :: "('m, 'z) libzmq \<Rightarrow> ('z \<Rightarrow> nat set) \<Rightarrow> bool" where
  "fresh_sockets api opened \<longleftrightarrow>
     (\<forall>c ty z p z'. zmq_socket api c ty z = (p, z') \<longrightarrow> p \<noteq> 0 \<longrightarrow> p \<notin> opened z \<and> opened z' = insert p (opened z))
     \<and> (\<forall>p a z rc z'. zmq_bind api p a z = (rc, z') \<longrightarrow> opened z' = opened z)"

definition pull_sockets :: "('m, 'z) libzmq \<Rightarrow> ('z \<Rightarrow> nat \<Rightarrow> byte list list) \<Rightarrow> bool" where
  "pull_sockets api pending \<longleftrightarrow>
     (\<forall>z. \<exists>m z'. zmq_msg_init api z = (0, m, z') \<and> pending z' = pending z)
     \<and> (\<forall>m z. \<exists>m' z'. zmq_msg_close api m z = (0, m', z') \<and> pending z' = pending z)
     \<and> (\<forall>m p z. case pending z p of
          [] \<Rightarrow> \<exists>m' z'. zmq_msg_recv api m p ZMQ_DONTWAIT z = (-1, m', z') \<and> zmq_errno api z' = EAGAIN \<and> pending z' = pending z
        | x # xs \<Rightarrow> \<exists>rc m' z'. zmq_msg_recv api m p ZMQ_DONTWAIT z = (rc, m', z') \<and> 0 \<le> rc
            \<and> zmq_msg_data api m' = x \<and> zmq_msg_size api m' = length x \<and> pending z' = (pending z)(p := xs))"

section \<open>Receiving\<close>

text \<open>The messages that wait at the sockets of a receiver, by position.\<close>

definition waiting :: "('z \<Rightarrow> nat \<Rightarrow> byte list list) \<Rightarrow> socket_t list \<Rightarrow> 'z \<Rightarrow> nat \<Rightarrow> byte list list" where
  "waiting pending ss z i = (if i < length ss then pending z (sock_ptr (ss ! i)) else [])"

lemma recv_at_pull:
  assumes "pull_sockets api pending" and "distinct (map sock_ptr ss)"
  shows "zmq_pull (length ss) (recv_at api ss) (waiting pending ss)"
  unfolding zmq_pull_def
proof (intro allI impI)
  fix i z assume i: "i < length ss"
  let ?p = "sock_ptr (ss ! i)"
  obtain m0 z0 where m0: "zmq_msg_init api z = (0, m0, z0)" "pending z0 = pending z"
    using assms(1) unfolding pull_sockets_def by blast
  have upd: "waiting pending ss z' = (waiting pending ss z)(i := xs)" if "pending z' = (pending z)(?p := xs)" for z' xs
  proof
    fix j
    have "sock_ptr (ss ! j) = ?p \<longleftrightarrow> j = i" if "j < length ss"
      using nth_eq_iff_index_eq [OF assms(2), of j i] that i by simp
    then show "waiting pending ss z' j = ((waiting pending ss z)(i := xs)) j"
      using that i by (auto simp: waiting_def)
  qed
  have recv: "case pending z0 ?p of
          [] \<Rightarrow> \<exists>m' z'. zmq_msg_recv api m0 ?p ZMQ_DONTWAIT z0 = (-1, m', z') \<and> zmq_errno api z' = EAGAIN \<and> pending z' = pending z0
        | x # xs \<Rightarrow> \<exists>rc m' z'. zmq_msg_recv api m0 ?p ZMQ_DONTWAIT z0 = (rc, m', z') \<and> 0 \<le> rc
            \<and> zmq_msg_data api m' = x \<and> zmq_msg_size api m' = length x \<and> pending z' = (pending z0)(?p := xs)"
    using assms(1) unfolding pull_sockets_def by blast
  have close: "\<exists>m' z'. zmq_msg_close api m1 z1 = (0, m', z') \<and> pending z' = pending z1" for m1 z1
    using assms(1) unfolding pull_sockets_def by blast
  show "case waiting pending ss z i of
        [] \<Rightarrow> \<exists>z'. recv_at api ss i z = Inr (None, z') \<and> waiting pending ss z' = waiting pending ss z
      | m # ms \<Rightarrow> \<exists>z'. recv_at api ss i z = Inr (Some m, z') \<and> waiting pending ss z' = (waiting pending ss z)(i := ms)"
  proof (cases "pending z0 ?p")
    case Nil
    with recv obtain m1 z1 where r: "zmq_msg_recv api m0 ?p ZMQ_DONTWAIT z0 = (-1, m1, z1)" "zmq_errno api z1 = EAGAIN"
      "pending z1 = pending z0" by auto
    obtain m2 z2 where c: "zmq_msg_close api m1 z1 = (0, m2, z2)" "pending z2 = pending z1" using close by blast
    have "recv_at api ss i z = Inr (None, z2)"
      using i m0 r c by (simp add: recv_at_def new_message_def recv_msg_def delete_message_def Let_def)
    moreover have "waiting pending ss z2 = waiting pending ss z" using m0 r c by (simp add: waiting_def fun_eq_iff)
    ultimately show ?thesis using Nil i m0 by (simp add: waiting_def)
  next
    case (Cons x xs)
    with recv obtain rc m1 z1 where r: "zmq_msg_recv api m0 ?p ZMQ_DONTWAIT z0 = (rc, m1, z1)" "0 \<le> rc"
      "zmq_msg_data api m1 = x" "zmq_msg_size api m1 = length x" "pending z1 = (pending z0)(?p := xs)" by auto
    obtain m2 z2 where c: "zmq_msg_close api m1 z1 = (0, m2, z2)" "pending z2 = pending z1" using close by blast
    have "recv_at api ss i z = Inr (Some x, z2)"
      using i m0 r c by (simp add: recv_at_def new_message_def recv_msg_def delete_message_def message_size_def message_data_def Let_def)
    moreover have "waiting pending ss z2 = (waiting pending ss z)(i := xs)" using m0 r c by (intro upd) simp
    ultimately show ?thesis using Cons i m0 by (simp add: waiting_def)
  qed
qed

lemma bind_sockets_fresh:
  assumes "fresh_sockets api opened" and "bind_sockets api ctx addr ports z = Inr (ss, z')"
  shows "length ss = length ports \<and> distinct (map sock_ptr ss) \<and> sock_ptr ` set ss \<inter> opened z = {}"
  using assms(2)
proof (induction ports arbitrary: z ss)
  case (Cons port ports)
  then obtain s z1 z2 ss' where s: "new_socket api ctx ZMQ_PULL z = Inr (s, z1)"
    "socket_bind api s (bind_address addr port) z1 = Inr z2" "bind_sockets api ctx addr ports z2 = Inr (ss', z')" "ss = s # ss'"
    by (auto simp: bindE_eq_Inr)
  have "zmq_socket api (ctx_ptr ctx) ZMQ_PULL z = (sock_ptr s, z1)" "sock_ptr s \<noteq> 0"
    using s(1) by (auto simp: new_socket_def throw_error_def split: prod.splits if_splits)
  then have new: "sock_ptr s \<notin> opened z" "opened z1 = insert (sock_ptr s) (opened z)"
    using assms(1) unfolding fresh_sockets_def by blast+
  obtain rc where "zmq_bind api (sock_ptr s) (bind_address addr port) z1 = (rc, z2)"
    using s(2) by (auto simp: socket_bind_def throw_error_def split: prod.splits if_splits)
  then have "opened z2 = opened z1" using assms(1) unfolding fresh_sockets_def by blast
  then show ?case using Cons.IH [OF s(3)] new s(4) by auto
qed simp

text \<open>
  (C30) A receiver that has opened its sockets and polls them with \<open>tryrecv\<close>, on the C library as it is documented
  (\<open>EAGAIN\<close> when no message waits, new sockets are new, messages can be closed): it finds a message exactly if
  one waits at some socket; it takes the first message of the first socket, from \<open>offset\<close> on and around, that has one,
  and leaves all others; \<open>offset\<close> moves on only when there was none; it never throws.
\<close>

theorem receiver_over_libzmq:
  assumes "pull_sockets api pending" and "fresh_sockets api opened"
    and "open_receiver api addr ports z0 = Inr (r0, ss, z1)" and "ports \<noteq> []" and "r = r0\<lparr>mr_offset := off\<rparr>"
  shows "\<exists>m r' z'. tryrecv (recv_at api ss) r z = Inr (m, r', z') \<and>
    (case m of
       None \<Rightarrow> (\<forall>s \<in> set ss. pending z (sock_ptr s) = []) \<and> r' = r\<lparr>mr_offset := (off + 1) mod length ports\<rparr>
     | Some msg \<Rightarrow> r' = r \<and> (\<exists>pre i post ms.
         map (\<lambda>l. (l + off) mod length ports) [0..<length ports] = pre @ i # post
         \<and> (\<forall>j \<in> set pre. waiting pending ss z j = []) \<and> waiting pending ss z i = msg # ms
         \<and> waiting pending ss z' = (waiting pending ss z)(i := ms)))"
proof -
  obtain ctx z2 where b: "bind_sockets api ctx addr ports z2 = Inr (ss, z1)" and r0: "r0 = newMessageReceiver addr ports"
    using assms(3) by (auto simp: open_receiver_def bindE_eq_Inr)
  note f = bind_sockets_fresh [OF assms(2) b]
  have r: "mr_ports r = ports" "mr_offset r = off" using assms(5) r0 by (simp_all add: newMessageReceiver_def)
  have pull: "zmq_pull (length (mr_ports r)) (recv_at api ss) (waiting pending ss)"
    using recv_at_pull [OF assms(1), of ss] f r by auto
  from tryrecv_polls [OF pull, of z] assms(4) r obtain m r' z' where
    t: "tryrecv (recv_at api ss) r z = Inr (m, r', z')" and
    c: "case m of None \<Rightarrow> (\<forall>i < length ports. waiting pending ss z i = []) \<and> waiting pending ss z' = waiting pending ss z
         \<and> r' = r\<lparr>mr_offset := (off + 1) mod length ports\<rparr>
     | Some msg \<Rightarrow> r' = r \<and> (\<exists>pre i post ms.
         map (\<lambda>l. (l + off) mod length ports) [0..<length ports] = pre @ i # post
         \<and> (\<forall>j \<in> set pre. waiting pending ss z j = []) \<and> waiting pending ss z i = msg # ms
         \<and> waiting pending ss z' = (waiting pending ss z)(i := ms))" by auto
  show ?thesis
  proof (cases m)
    case None
    then have "pending z (sock_ptr s) = []" if "s \<in> set ss" for s
      using that c f by (auto simp: waiting_def in_set_conv_nth)
    then show ?thesis using t c None by (intro exI [of _ None] exI [of _ r'] exI [of _ z']) simp
  next
    case (Some msg)
    then show ?thesis using t c by (intro exI [of _ "Some msg"] exI [of _ r'] exI [of _ z']) simp
  qed
qed

section \<open>Sending\<close>

text \<open>
  Whatever the library does, a \<open>send\<close> on it behaves like the \<open>send\<close> of \<open>Network\<close> for some answers to its calls.
\<close>

definition outcome :: "(bool \<times> MessageSender \<times> 'z) result \<Rightarrow> (bool \<times> MessageSender) result" where
  "outcome r = (case r of Inl e \<Rightarrow> Inl e | Inr (b, s, z) \<Rightarrow> Inr (b, s))"

definition answers :: "zret \<Rightarrow> zret \<Rightarrow> zop list \<Rightarrow> zop \<Rightarrow> zret" where
  "answers conn sent h call = (case call of Send _ \<Rightarrow> sent | _ \<Rightarrow> conn)"

lemma ms_send_answers:
  "ms_send (answers (Fail e) (Fail e)) str s = Inl (ZmqError e)"
  "\<not> ms_connected s \<Longrightarrow> ms_send (answers (Fail e) a) str s = Inl (ZmqError e)"
  "ms_send (answers Done (Fail e)) str s = Inl (ZmqError e)"
  by (simp_all add: ms_send_def zcall_def answers_def)

lemma connect_sender_cases:
  obtains e where "connect_sender api s sock z = Inl (ZmqError e)" "\<not> ms_connected s"
  | s' z' where "connect_sender api s sock z = Inr (s', z')"
      "\<And>a. ms_send (answers Done a) str s =
        (case a of Done \<Rightarrow> Inr (True, s'\<lparr>ms_ops := ms_ops s' @ [Send str]\<rparr>) | Again \<Rightarrow> Inr (False, s') | Fail e \<Rightarrow> Inl (ZmqError e))"
proof (cases "ms_connected s")
  case True
  then show ?thesis
    by (intro that(2)) (auto simp: connect_sender_def ms_send_def zcall_def answers_def split: zret.splits)
next
  case False
  obtain rc z1 where c: "zmq_connect api (sock_ptr sock) (ms_address s) z = (rc, z1)" by fastforce
  show ?thesis
  proof (cases "rc = 0")
    case True
    then show ?thesis using c False
      by (intro that(2)) (auto simp: connect_sender_def socket_connect_def ms_send_def zcall_def answers_def split: zret.splits)
  next
    case nz: False
    then show ?thesis using c False
      by (intro that(1)) (auto simp: connect_sender_def socket_connect_def throw_error_def error_num_def new_error_t_def)
  qed
qed

lemma send_over_answers:
  assumes "close_ok api"
  shows "\<exists>net. outcome (send_over api str s sock z) = ms_send net str s"
proof -
  obtain rc m z1 where m: "zmq_msg_init_size api (length str) z = (rc, m, z1)" by (metis prod_cases3)
  show ?thesis
  proof (cases "rc = 0")
    case False
    then show ?thesis using m
      by (intro exI [of _ "answers (Fail (zmq_errno api z1)) (Fail (zmq_errno api z1))"])
        (simp add: send_over_def new_message_size_def throw_error_def error_num_def new_error_t_def outcome_def ms_send_answers)
  next
    case True
    then have n: "new_message_size api (length str) z = Inr (m, z1)" using m by (simp add: new_message_size_def)
    show ?thesis
    proof (cases rule: connect_sender_cases [where api = api and s = s and sock = sock and z = z1 and str = str])
      case (1 e)
      then show ?thesis using n
        by (intro exI [of _ "answers (Fail e) Done"]) (simp add: send_over_def outcome_def ms_send_answers)
    next
      case (2 s' z')
      obtain nb m' z'' where r: "zmq_msg_send api (zmq_msg_store api str m) (sock_ptr sock) ZMQ_DONTWAIT z' = (nb, m', z'')"
        by (metis prod_cases3)
      obtain m3 z3 where d: "zmq_msg_close api m' z'' = (0, m3, z3)"
        using assms unfolding close_ok_def by (metis fst_conv prod_cases3)
      let ?a = "if nb \<ge> 0 then Done else if zmq_errno api z'' = EAGAIN then Again else Fail (zmq_errno api z'')"
      have "outcome (send_over api str s sock z) = ms_send (answers Done ?a) str s"
        using n 2 r d by (simp add: send_over_def send_msg_def delete_message_def throw_error_def error_num_def
            new_error_t_def outcome_def Let_def)
      then show ?thesis by blast
    qed
  qed
qed

text \<open>The same for the reset of the two classes.\<close>

lemma reset_receiver_ports:
  "reset_receiver api new_ports r ss z = Inr (r', z') \<Longrightarrow> mr_reset_port new_ports r = Inr r'"
  by (auto simp: reset_receiver_def mr_reset_port_def bindE_eq_Inr split: if_splits)

lemma reset_sender_answers:
  "\<exists>net. (case reset_sender api ports s sock z of Inl e \<Rightarrow> Inl e | Inr (s', z') \<Rightarrow> Inr s') = ms_reset_port net ports s"
proof -
  obtain rc z1 where d: "zmq_disconnect api (sock_ptr sock) (ms_address s) z = (rc, z1)" by fastforce
  then show ?thesis
    by (intro exI [of _ "\<lambda>_ _. if rc = 0 then Done else Fail (zmq_errno api z1)"])
      (simp add: reset_sender_def socket_disconnect_def ms_reset_port_def zcall_def throw_error_def error_num_def new_error_t_def)
qed

text \<open>
  What is documented of push sockets: \<open>sent z p\<close> are the messages that the library has accepted at socket \<open>p\<close>. A send
  that returns a size has added the message, one that fails has not; nothing else adds one.
\<close>

definition push_sockets :: "('m, 'z) libzmq \<Rightarrow> ('z \<Rightarrow> nat \<Rightarrow> byte list list) \<Rightarrow> bool" where
  "push_sockets api sent \<longleftrightarrow>
     (\<forall>n z rc m z'. zmq_msg_init_size api n z = (rc, m, z') \<longrightarrow> sent z' = sent z \<and> (rc = 0 \<longrightarrow> zmq_msg_size api m = n))
     \<and> (\<forall>bs m. zmq_msg_size api m = length bs \<longrightarrow> zmq_msg_data api (zmq_msg_store api bs m) = bs)
     \<and> (\<forall>p a z rc z'. zmq_connect api p a z = (rc, z') \<longrightarrow> sent z' = sent z)
     \<and> (\<forall>m p fl z rc m' z'. zmq_msg_send api m p fl z = (rc, m', z') \<longrightarrow>
          sent z' = (if 0 \<le> rc then (sent z)(p := sent z p @ [zmq_msg_data api m]) else sent z))
     \<and> (\<forall>m z rc m' z'. zmq_msg_close api m z = (rc, m', z') \<longrightarrow> sent z' = sent z)"

lemma push_socketsD:
  assumes "push_sockets api sent"
  shows "zmq_msg_init_size api n z = (0, m, z') \<Longrightarrow> sent z' = sent z \<and> zmq_msg_size api m = n"
    and "zmq_msg_size api m = length bs \<Longrightarrow> zmq_msg_data api (zmq_msg_store api bs m) = bs"
    and "zmq_connect api p a z = (rc, z') \<Longrightarrow> sent z' = sent z"
    and "zmq_msg_send api m p fl z = (rc, m', z') \<Longrightarrow>
      sent z' = (if 0 \<le> rc then (sent z)(p := sent z p @ [zmq_msg_data api m]) else sent z)"
    and "zmq_msg_close api m z = (rc, m', z') \<Longrightarrow> sent z' = sent z"
  using assms unfolding push_sockets_def by metis+

lemma connect_sender_sent:
  assumes "push_sockets api sent" and "connect_sender api s sock z = Inr (s', z')"
  shows "sent z' = sent z" and "s' = (if ms_connected s then s
    else s\<lparr>ms_ops := ms_ops s @ [Connect (ms_address s)], ms_connected := True\<rparr>)"
proof -
  have "ms_connected s \<and> z' = z \<or> (\<exists>rc. zmq_connect api (sock_ptr sock) (ms_address s) z = (rc, z'))"
    using assms(2) by (auto simp: connect_sender_def socket_connect_def throw_error_def split: prod.splits if_splits)
  then show "sent z' = sent z" using push_socketsD(3) [OF assms(1)] by blast
  show "s' = (if ms_connected s then s else s\<lparr>ms_ops := ms_ops s @ [Connect (ms_address s)], ms_connected := True\<rparr>)"
    using assms(2) by (auto simp: connect_sender_def bindE_eq_Inr split: if_splits)
qed

text \<open>
  (C31) \<open>MessageSender::send\<close> on the C library as it is documented: when it returns true, the library has accepted exactly
  this message once at the sender's socket; when it returns false, it has accepted nothing; other sockets are not
  touched, and the sender is connected either way, with at most one \<open>connect\<close>. Whatever the library answers, the outcome, an
  exception included, is that of the sender of \<open>Network\<close> for some answers to its calls.
\<close>

theorem sender_over_libzmq:
  assumes "push_sockets api sent" and "close_ok api"
  shows "(\<forall>b s' z'. send_over api str s sock z = Inr (b, s', z') \<longrightarrow>
      sent z' = (if b then (sent z)(sock_ptr sock := sent z (sock_ptr sock) @ [str]) else sent z)
      \<and> s' = s\<lparr>ms_connected := True, ms_ops := ms_ops s @ (if ms_connected s then [] else [Connect (ms_address s)])
           @ (if b then [Send str] else [])\<rparr>)
    \<and> (\<exists>net. outcome (send_over api str s sock z) = ms_send net str s)"
proof (intro conjI allI impI)
  show "\<exists>net. outcome (send_over api str s sock z) = ms_send net str s" by (rule send_over_answers [OF assms(2)])
  fix b s' z' assume a: "send_over api str s sock z = Inr (b, s', z')"
  then obtain m z1 s2 z2 nb m3 z3 where
    m: "zmq_msg_init_size api (length str) z = (0, m, z1)" and c: "connect_sender api s sock z1 = Inr (s2, z2)" and
    r: "zmq_msg_send api (zmq_msg_store api str m) (sock_ptr sock) ZMQ_DONTWAIT z2 = (nb, m3, z3)" "b \<longleftrightarrow> 0 \<le> nb" and
    d: "\<exists>m4. zmq_msg_close api m3 z3 = (0, m4, z')" and s': "s' = (if b then s2\<lparr>ms_ops := ms_ops s2 @ [Send str]\<rparr> else s2)"
    by (auto simp: send_over_def Let_def bindE_eq_Inr dest!: new_message_size_InrD send_msg_InrD delete_message_InrD)
  note p = push_socketsD [OF assms(1)]
  have "sent z1 = sent z" "zmq_msg_size api m = length str" using p(1) [OF m] by simp_all
  moreover have "zmq_msg_data api (zmq_msg_store api str m) = str" using p(2) [OF calculation(2)] .
  moreover have "sent z2 = sent z1" using connect_sender_sent(1) [OF assms(1) c] .
  moreover note p(4) [OF r(1)]
  moreover have "sent z' = sent z3" using p(5) d by blast
  ultimately show "sent z' = (if b then (sent z)(sock_ptr sock := sent z (sock_ptr sock) @ [str]) else sent z)"
    using r(2) by simp
  show "s' = s\<lparr>ms_connected := True, ms_ops := ms_ops s @ (if ms_connected s then [] else [Connect (ms_address s)])
           @ (if b then [Send str] else [])\<rparr>"
    using s' connect_sender_sent(2) [OF assms(1) c] by (cases s) (simp add: ms_address_def)
qed

section \<open>A library that keeps its promises\<close>

text \<open>
  Messages are their bytes; messages can wait at each socket; a send is accepted at even sockets and refused with
  \<open>EAGAIN\<close> at odd ones.
\<close>

record ex_z =
  x_pending :: "nat \<Rightarrow> byte list list"
  x_sent :: "nat \<Rightarrow> byte list list"
  x_next :: nat
  x_errno :: int

definition ex_lib :: "(byte list, ex_z) libzmq" where
  "ex_lib = \<lparr>
     zmq_errno = x_errno, zmq_strerror = show_int, zmq_version = (4, 3, 4),
     zmq_poll = \<lambda>items timeout z. (0, z), zmq_proxy = \<lambda>f b c z. (0, z), zmq_proxy_steerable = \<lambda>f b c ctl z. (0, z),
     zmq_msg_init = \<lambda>z. (0, [], z), zmq_msg_init_size = \<lambda>n z. (0, replicate n 0, z), zmq_msg_init_data = \<lambda>bs z. (0, bs, z),
     zmq_msg_close = \<lambda>m z. (0, [], z), zmq_msg_move = \<lambda>m src z. (0, src, [], z), zmq_msg_copy = \<lambda>m src z. (0, src, src, z),
     zmq_msg_more = \<lambda>m. 0, zmq_msg_data = \<lambda>m. m, zmq_msg_store = \<lambda>bs m. bs, zmq_msg_size = length,
     zmq_ctx_new = \<lambda>z. (1, z), zmq_ctx_set = \<lambda>c opt v z. (0, z), zmq_ctx_destroy = \<lambda>c z. (0, z),
     zmq_socket = \<lambda>c ty z. (Suc (x_next z), z\<lparr>x_next := Suc (x_next z)\<rparr>), zmq_close = \<lambda>p z. (0, z),
     zmq_setsockopt = \<lambda>p opt v z. (0, z), zmq_getsockopt = \<lambda>p opt n z. (0, replicate n 0, z),
     zmq_bind = \<lambda>p a z. (0, z), zmq_unbind = \<lambda>p a z. (0, z), zmq_connect = \<lambda>p a z. (0, z), zmq_disconnect = \<lambda>p a z. (0, z),
     zmq_send = \<lambda>p bs fl z. (int (length bs), z), zmq_recv = \<lambda>p n fl z. (0, [], z),
     zmq_msg_send = \<lambda>m p fl z.
       if even p then (int (length m), [], z\<lparr>x_sent := (x_sent z)(p := x_sent z p @ [m])\<rparr>) else (-1, m, z\<lparr>x_errno := EAGAIN\<rparr>),
     zmq_msg_recv = \<lambda>m p fl z.
       case x_pending z p of
         [] \<Rightarrow> (-1, m, z\<lparr>x_errno := EAGAIN\<rparr>)
       | x # xs \<Rightarrow> (int (length x), x, z\<lparr>x_pending := (x_pending z)(p := xs)\<rparr>)\<rparr>"

definition ex_z0 :: ex_z where
  "ex_z0 = \<lparr>x_pending = (\<lambda>_. []), x_sent = (\<lambda>_. []), x_next = 0, x_errno = 0\<rparr>"

lemma ex_lib_laws:
  "pull_sockets ex_lib x_pending" "push_sockets ex_lib x_sent" "close_ok ex_lib" "fresh_sockets ex_lib (\<lambda>z. {1..x_next z})"
  by (auto simp: pull_sockets_def push_sockets_def close_ok_def fresh_sockets_def ex_lib_def split: list.splits if_splits)

theorem receiver_over_libzmq_witness:
  "\<exists>r ss z1 m r' z'. open_receiver ex_lib ''10.0.0.3'' [2, 4] ex_z0 = Inr (r, ss, z1)
    \<and> tryrecv (recv_at ex_lib ss) r (z1\<lparr>x_pending := (\<lambda>_. [])(2 := [[7]])\<rparr>) = Inr (m, r', z') \<and> m \<noteq> None \<and> r' = r"
proof -
  obtain r ss z1 where o: "open_receiver ex_lib ''10.0.0.3'' [2, 4] ex_z0 = Inr (r, ss, z1)"
    and ss: "map sock_ptr ss = [1, 2]" and r: "r = newMessageReceiver ''10.0.0.3'' [2, 4]"
    by (simp add: open_receiver_def new_context_threads_def new_socket_def socket_bind_def ex_lib_def ex_z0_def)
  let ?z = "z1\<lparr>x_pending := (\<lambda>_. [])(2 := [[7 :: byte]])\<rparr>"
  have r0: "r = r\<lparr>mr_offset := 0\<rparr>" by (simp add: r newMessageReceiver_def)
  from receiver_over_libzmq [OF ex_lib_laws(1) ex_lib_laws(4) o _ r0, of ?z] obtain m r' z' where
    t: "tryrecv (recv_at ex_lib ss) r ?z = Inr (m, r', z')" and
    m: "m = None \<Longrightarrow> \<forall>s \<in> set ss. x_pending ?z (sock_ptr s) = []" "m \<noteq> None \<Longrightarrow> r' = r"
    by (auto split: option.splits)
  have "2 \<in> sock_ptr ` set ss" using arg_cong [OF ss, of set] by simp
  then obtain s where "s \<in> set ss" "sock_ptr s = 2" by auto
  then have "m \<noteq> None" using m(1) by fastforce
  then show ?thesis using o t m(2) by blast
qed

theorem sender_over_libzmq_witness:
  "\<exists>s' z'. send_over ex_lib [7] (newMessageSender ''10.0.0.3'' ''10.0.0.1'' (6, 5)) \<lparr>sock_ptr = 2, sock_ctxptr = 1\<rparr> ex_z0
      = Inr (True, s', z') \<and> x_sent z' 2 = [[7]] \<and> ms_connected s'"
proof -
  let ?s = "newMessageSender ''10.0.0.3'' ''10.0.0.1'' (6, 5)" and ?sock = "\<lparr>sock_ptr = 2, sock_ctxptr = 1\<rparr>"
  obtain s' z' where e: "send_over ex_lib [7] ?s ?sock ex_z0 = Inr (True, s', z')"
    by (simp add: send_over_def new_message_size_def connect_sender_def socket_connect_def send_msg_def delete_message_def
        ex_lib_def newMessageSender_def)
  from sender_over_libzmq [OF ex_lib_laws(2,3), of "[7]" ?s ?sock ex_z0] e show ?thesis by (auto simp: ex_z0_def)
qed

end
