(* ===== verification/Zmq_Monitor.thy ===== *)
theory Zmq_Monitor
  imports Zmq
begin

text \<open>
  The class \<open>monitor_t\<close> of \<open>src/deps/zmq.hpp\<close>, which reports the events of a socket, for version 4.1 of the C library and
  later (an event is two messages, the first has six bytes). The virtual functions of the class do nothing; what
  the model keeps is the list of their calls. \<open>fuel\<close> bounds the number of events, as the loop waits for the network.
\<close>

section \<open>The C library\<close>

record ('m, 'z) libzmq_monitor = "('m, 'z) libzmq" +
  zmq_socket_monitor :: "nat \<Rightarrow> string option \<Rightarrow> int \<Rightarrow> 'z \<Rightarrow> int \<times> 'z"
  zmq_recvmsg :: "nat \<Rightarrow> 'm \<Rightarrow> int \<Rightarrow> 'z \<Rightarrow> int \<times> 'm \<times> 'z"

definition ETERM :: int where
  "ETERM = 156384765"

definition ZMQ_PAIR :: int where
  "ZMQ_PAIR = 0"

definition ZMQ_EVENT_MONITOR_STOPPED :: int where
  "ZMQ_EVENT_MONITOR_STOPPED = 0x400"

section \<open>The monitor\<close>

datatype event_kind =
    connected_ev | connect_delayed | connect_retried | listening | bind_failed | accepted | accept_failed | closed
  | close_failed | disconnected | unknown

definition kind_of :: "int \<Rightarrow> event_kind" where
  "kind_of ev =
     (if ev = 0x1 then connected_ev else if ev = 0x2 then connect_delayed else if ev = 0x4 then connect_retried
      else if ev = 0x8 then listening else if ev = 0x10 then bind_failed else if ev = 0x20 then accepted
      else if ev = 0x40 then accept_failed else if ev = 0x80 then closed else if ev = 0x100 then close_failed
      else if ev = 0x200 then disconnected else unknown)"

datatype mon_call = Started | Event event_kind int int "byte list"

record monitor_t =
  socketPtr :: nat

definition new_monitor :: monitor_t where
  "new_monitor = \<lparr>socketPtr = 0\<rparr>"

text \<open>\<open>zmq_msg_init\<close> and \<open>zmq_recvmsg\<close>: no message when the context was terminated.\<close>

definition recv_part :: "('m, 'z) libzmq_monitor \<Rightarrow> nat \<Rightarrow> 'z \<Rightarrow> ('m option \<times> 'z) result" where
  "recv_part api s z =
     (case zmq_msg_init api z of
        (_, m, z) \<Rightarrow>
          (case zmq_recvmsg api s m 0 z of
             (rc, m, z) \<Rightarrow>
               if rc = -1 \<and> zmq_errno api z = ETERM then Inr (None, z)
               else if rc = -1 then Inl Abort else Inr (Some m, z)))"

text \<open>A 16-bit number and a 32-bit one, read without a look at the size of the message.\<close>

definition read_event :: "byte list \<Rightarrow> (int \<times> int) result" where
  "read_event data = (if length data < 6 then Inl Undefined else Inr (of_le (take 2 data), i32 (of_le (take 4 (drop 2 data)))))"

fun monitor_loop :: "nat \<Rightarrow> ('m, 'z) libzmq_monitor \<Rightarrow> nat \<Rightarrow> mon_call list \<Rightarrow> 'z \<Rightarrow> (mon_call list \<times> 'z) option result" where
  "monitor_loop 0 api s calls z = Inr None"
| "monitor_loop (Suc fuel) api s calls z =
     bindE (recv_part api s z) (\<lambda>(em, z).
       case em of
         None \<Rightarrow> Inr (Some (calls, z))
       | Some em \<Rightarrow>
           bindE (read_event (zmq_msg_data api em)) (\<lambda>(ev, val).
           bindE (recv_part api s z) (\<lambda>(am, z).
             case am of
               None \<Rightarrow> Inr (Some (calls, z))
             | Some am \<Rightarrow>
                 let addr = take (zmq_msg_size api am) (zmq_msg_data api am); z = snd (snd (zmq_msg_close api am z))
                 in if ev = ZMQ_EVENT_MONITOR_STOPPED then Inr (Some (calls, z))
                    else let z = snd (snd (zmq_msg_close api em z))
                         in monitor_loop fuel api s (calls @ [Event (kind_of ev) ev val addr]) z)))"

text \<open>While the loop runs, \<open>socketPtr\<close> is the socket; afterwards it is \<open>NULL\<close> again.\<close>

definition monitor :: "nat \<Rightarrow> ('m, 'z) libzmq_monitor \<Rightarrow> socket_t \<Rightarrow> string \<Rightarrow> int \<Rightarrow> monitor_t \<Rightarrow> 'z
    \<Rightarrow> (mon_call list \<times> monitor_t \<times> 'z) option result" where
  "monitor fuel api sock addr events mon z =
     (case zmq_socket_monitor api (sock_ptr sock) (Some addr) events z of
        (rc, z) \<Rightarrow>
          if rc \<noteq> 0 then Inl (ZmqError (zmq_errno api z))
          else case zmq_socket api (sock_ctxptr sock) ZMQ_PAIR z of
                 (s, z) \<Rightarrow>
                   if s = 0 then Inl Abort
                   else case zmq_connect api s addr z of
                          (rc, z) \<Rightarrow>
                            if rc \<noteq> 0 then Inl Abort
                            else bindE (monitor_loop fuel api s [Started] z) (\<lambda>r. Inr (case r of
                                   None \<Rightarrow> None
                                 | Some (calls, z) \<Rightarrow> Some (calls, mon\<lparr>socketPtr := 0\<rparr>, snd (zmq_close api s z)))))"

definition monitor_abort :: "('m, 'z) libzmq_monitor \<Rightarrow> monitor_t \<Rightarrow> 'z \<Rightarrow> 'z" where
  "monitor_abort api mon z = (if socketPtr mon \<noteq> 0 then snd (zmq_socket_monitor api (socketPtr mon) None 0 z) else z)"

section \<open>Lemmas\<close>

definition event_bytes :: "int \<Rightarrow> int \<Rightarrow> byte list" where
  "event_bytes ev val = le_bytes 2 ev @ le_bytes 4 (val mod 4294967296)"

lemma read_event_bytes:
  assumes "0 \<le> ev" "ev < 65536" and "in_i32 val"
  shows "read_event (event_bytes ev val) = Inr (ev, val)"
proof -
  have "of_le (le_bytes 4 (val mod 4294967296)) = val mod 4294967296" by (simp add: of_le_bytes)
  moreover have "i32 (val mod 4294967296) = i32 val" by (simp add: i32_def mod_add_left_eq)
  moreover have "of_le (le_bytes 2 ev) = ev" using assms by (simp add: of_le_bytes)
  ultimately show ?thesis using assms(3) by (simp add: read_event_def event_bytes_def)
qed

lemma recv_part_next:
  assumes init: "\<And>z. queue (snd (snd (zmq_msg_init api z))) = queue z"
    and recv: "\<And>m z d ds. queue z = d # ds \<Longrightarrow> \<exists>m' z'. zmq_recvmsg api s m 0 z = (int (length d), m', z')
        \<and> zmq_msg_data api m' = d \<and> zmq_msg_size api m' = length d \<and> queue z' = ds"
    and z: "queue z = d # ds"
  shows "\<exists>m z'. recv_part api s z = Inr (Some m, z') \<and> zmq_msg_data api m = d \<and> zmq_msg_size api m = length d \<and> queue z' = ds"
proof -
  obtain rc m0 z0 where i: "zmq_msg_init api z = (rc, m0, z0)" by (metis prod_cases3)
  then have "queue z0 = d # ds" using init [of z] z by simp
  from recv [OF this, of m0] show ?thesis by (auto simp: recv_part_def i)
qed

text \<open>
  When the library hands out the messages that wait, one after the other, the monitor makes one call for each event, in
  their order, and ends with the event that stops it; one more turn than events is enough.
\<close>

lemma monitor_loop_reports:
  assumes init: "\<And>z. queue (snd (snd (zmq_msg_init api z))) = queue z"
    and close: "\<And>m z. queue (snd (snd (zmq_msg_close api m z))) = queue z"
    and recv: "\<And>m z d ds. queue z = d # ds \<Longrightarrow> \<exists>m' z'. zmq_recvmsg api s m 0 z = (int (length d), m', z')
        \<and> zmq_msg_data api m' = d \<and> zmq_msg_size api m' = length d \<and> queue z' = ds"
    and events: "\<forall>(ev, val, addr) \<in> set evs. 0 \<le> ev \<and> ev < 65536 \<and> ev \<noteq> ZMQ_EVENT_MONITOR_STOPPED \<and> in_i32 val"
    and z: "queue z = concat (map (\<lambda>(ev, val, addr). [event_bytes ev val, addr]) evs) @ [event_bytes ZMQ_EVENT_MONITOR_STOPPED 0, a] @ rest"
  shows "\<exists>z'. monitor_loop (Suc (length evs)) api s calls z
      = Inr (Some (calls @ map (\<lambda>(ev, val, addr). Event (kind_of ev) ev val addr) evs, z')) \<and> queue z' = rest"
proof -
  have part: "\<exists>m z'. recv_part api s z = Inr (Some m, z') \<and> zmq_msg_data api m = d \<and> zmq_msg_size api m = length d \<and> queue z' = ds"
    if "queue z = d # ds" for z d ds
    by (rule recv_part_next [OF init _ that]) (rule recv)
  show ?thesis using events z
  proof (induction evs arbitrary: z calls)
    case Nil
    then obtain em z1 where 1: "recv_part api s z = Inr (Some em, z1)" "zmq_msg_data api em = event_bytes ZMQ_EVENT_MONITOR_STOPPED 0"
      "queue z1 = a # rest" using part [of z] by fastforce
    obtain am z2 where 2: "recv_part api s z1 = Inr (Some am, z2)" "queue z2 = rest" using part [OF 1(3)] by fastforce
    have "read_event (event_bytes ZMQ_EVENT_MONITOR_STOPPED 0) = Inr (ZMQ_EVENT_MONITOR_STOPPED, 0)"
      by (intro read_event_bytes) (simp_all add: ZMQ_EVENT_MONITOR_STOPPED_def)
    then show ?case using 1 2 close [of am z2] by simp
  next
    case (Cons e evs)
    obtain ev val addr where e: "e = (ev, val, addr)" by (metis prod_cases3)
    let ?ds = "concat (map (\<lambda>(ev, val, addr). [event_bytes ev val, addr]) evs) @ [event_bytes ZMQ_EVENT_MONITOR_STOPPED 0, a] @ rest"
    have "queue z = event_bytes ev val # addr # ?ds" using Cons.prems(2) e by simp
    then obtain em z1 where 1: "recv_part api s z = Inr (Some em, z1)" "zmq_msg_data api em = event_bytes ev val"
      "queue z1 = addr # ?ds" using part [of z] by fastforce
    obtain am z2 where 2: "recv_part api s z1 = Inr (Some am, z2)" "zmq_msg_data api am = addr" "zmq_msg_size api am = length addr"
      "queue z2 = ?ds" using part [OF 1(3)] by fastforce
    let ?z = "snd (snd (zmq_msg_close api em (snd (snd (zmq_msg_close api am z2)))))"
    have "queue ?z = ?ds" using close 2(4) by simp
    moreover have "\<forall>(ev, val, addr) \<in> set evs. 0 \<le> ev \<and> ev < 65536 \<and> ev \<noteq> ZMQ_EVENT_MONITOR_STOPPED \<and> in_i32 val"
      using Cons.prems(1) by simp
    ultimately obtain z' where z': "monitor_loop (Suc (length evs)) api s (calls @ [Event (kind_of ev) ev val addr]) ?z
        = Inr (Some ((calls @ [Event (kind_of ev) ev val addr]) @ map (\<lambda>(ev, val, addr). Event (kind_of ev) ev val addr) evs, z'))"
        "queue z' = rest"
      using Cons.IH by blast
    have "read_event (event_bytes ev val) = Inr (ev, val)" "ev \<noteq> ZMQ_EVENT_MONITOR_STOPPED"
      using Cons.prems(1) e by (auto intro: read_event_bytes)
    then have "monitor_loop (Suc (length (e # evs))) api s calls z
        = monitor_loop (Suc (length evs)) api s (calls @ [Event (kind_of ev) ev val addr]) ?z"
      using 1 2 by (simp add: Let_def del: monitor_loop.simps(2) add: monitor_loop.simps(2) [of "Suc (length evs)"])
    then show ?case using z' e by simp
  qed
qed

text \<open>A message that is too short for an event is read beyond its end.\<close>

lemma short_event_undefined:
  assumes "recv_part api s z = Inr (Some em, z')" and "length (zmq_msg_data api em) < 6"
  shows "monitor_loop (Suc fuel) api s calls z = Inl Undefined"
  using assms by (simp add: read_event_def)

text \<open>A terminated context ends the monitor; the call that was under way makes no further report.\<close>

lemma terminated_ends:
  "recv_part api s z = Inr (None, z') \<Longrightarrow> monitor_loop (Suc fuel) api s calls z = Inr (Some (calls, z'))"
  by simp

end
