(* ===== verification/Socket.thy ===== *)
theory Socket
  imports Wire Config
begin

text \<open>
  The control connection: \<open>src/src/network/status.hpp\<close>, \<open>socket_client.cpp\<close>, and \<open>socket_connection.cpp\<close>
  (\<open>Socket_Server\<close> has the server). The operating system is an argument: the answers of \<open>write\<close>, \<open>read\<close>, \<open>socket\<close> and
  \<open>connect\<close>, one per call, in the order of the calls. A call that has no answer yet is still blocked,
  and the result is then \<open>None\<close>.
\<close>

section \<open>Status\<close>

datatype MSG_CODE = INFO_RPC | EXIT_RPC

definition rpc_code :: "MSG_CODE \<Rightarrow> int" where
  "rpc_code c = (case c of INFO_RPC \<Rightarrow> 0 | EXIT_RPC \<Rightarrow> 1)"

datatype StatusCode =
  kOK | kInvalid | kIOError | kAssertionFailed | kConnectionFailed | kConnectionError | kUnknownError

record Status =
  st_code :: StatusCode
  st_msg :: string

definition OK :: Status where "OK = \<lparr>st_code = kOK, st_msg = []\<rparr>"

definition Invalid :: "string \<Rightarrow> Status" where
  "Invalid message = \<lparr>st_code = kInvalid, st_msg = message\<rparr>"

definition IOError :: "string \<Rightarrow> Status" where
  "IOError msg = \<lparr>st_code = kIOError, st_msg = msg\<rparr>"

definition AssertionFailed :: "string \<Rightarrow> Status" where
  "AssertionFailed condition = \<lparr>st_code = kAssertionFailed, st_msg = condition\<rparr>"

definition ConnectionFailed :: "string \<Rightarrow> Status" where
  "ConnectionFailed message =
     \<lparr>st_code = kConnectionFailed, st_msg = ''Failed to connect to exchange: '' @ message\<rparr>"

definition ConnectionError :: "string \<Rightarrow> Status" where
  "ConnectionError message = \<lparr>st_code = kConnectionError, st_msg = message\<rparr>"

definition st_ok :: "Status \<Rightarrow> bool" where
  "st_ok s \<longleftrightarrow> st_code s = kOK"

section \<open>The client\<close>

text \<open>The answer of a call: an \<open>errno\<close>, or what was transferred. \<open>EAGAIN\<close> and \<open>EWOULDBLOCK\<close> are 11, \<open>EINTR\<close> is 4.\<close>

datatype 'a answer = Errno int | Answer 'a

definition retry_errno :: "int \<Rightarrow> bool" where
  "retry_errno e \<longleftrightarrow> e = 11 \<or> e = 4"

text \<open>\<open>send_bytes\<close>: the status, the bytes that were written, and the answers that are left.\<close>

fun send_bytes :: "(int \<Rightarrow> string) \<Rightarrow> nat answer list \<Rightarrow> byte list \<Rightarrow> (Status \<times> byte list \<times> nat answer list) option" where
  "send_bytes strerror as [] = Some (OK, [], as)"
| "send_bytes strerror [] (b # data) = None"
| "send_bytes strerror (Errno e # as) (b # data) =
     (if retry_errno e then send_bytes strerror as (b # data)
      else Some (IOError (''Send message failed: '' @ strerror e), [], as))"
| "send_bytes strerror (Answer n # as) (b # data) =
     (if n = 0 then Some (IOError ''Send message failed: encountered unexpected EOF'', [], as)
      else map_option (\<lambda>(st, out, as). (st, take n (b # data) @ out, as))
             (send_bytes strerror as (drop n (b # data))))"

text \<open>\<open>RETURN_ON_ERROR\<close> between two sends.\<close>

definition then_send :: "(Status \<times> byte list \<times> nat answer list) option
    \<Rightarrow> (nat answer list \<Rightarrow> (Status \<times> byte list \<times> nat answer list) option) \<Rightarrow> (Status \<times> byte list \<times> nat answer list) option" where
  "then_send r f =
     (case r of
        None \<Rightarrow> None
      | Some (st, out, as) \<Rightarrow>
          if st_ok st then map_option (\<lambda>(st, out', as). (st, out @ out', as)) (f as) else Some (st, out, as))"

text \<open>The length of the message is stored in 32 bits, and that many bytes are sent.\<close>

definition send_message :: "(int \<Rightarrow> string) \<Rightarrow> nat answer list \<Rightarrow> int \<Rightarrow> byte list \<Rightarrow> (Status \<times> byte list \<times> nat answer list) option" where
  "send_message strerror as code msg =
     (let len = int (length msg) mod 4294967296
      in then_send (send_bytes strerror as (le_bytes 4 len)) (\<lambda>as.
         then_send (send_bytes strerror as (le_bytes 4 code)) (\<lambda>as.
           send_bytes strerror as (take (nat len) msg))))"

text \<open>\<open>recv_bytes\<close> of \<open>n\<close> bytes. A read delivers at most as many bytes as are left to read.\<close>

fun recv_bytes :: "(int \<Rightarrow> string) \<Rightarrow> byte list answer list \<Rightarrow> nat \<Rightarrow> (Status \<times> byte list \<times> byte list answer list) option" where
  "recv_bytes strerror as 0 = Some (OK, [], as)"
| "recv_bytes strerror [] (Suc n) = None"
| "recv_bytes strerror (Errno e # as) (Suc n) =
     (if retry_errno e then recv_bytes strerror as (Suc n)
      else Some (IOError (''Receive message failed: '' @ strerror e), [], as))"
| "recv_bytes strerror (Answer bs # as) (Suc n) =
     (if bs = [] then Some (IOError ''Receive message failed: encountered unexpected EOF'', [], as)
      else map_option (\<lambda>(st, out, as). (st, bs @ out, as)) (recv_bytes strerror as (Suc n - length bs)))"

definition recv_message :: "(int \<Rightarrow> string) \<Rightarrow> byte list answer list \<Rightarrow> (Status \<times> byte list \<times> byte list answer list) option" where
  "recv_message strerror as =
     (case recv_bytes strerror as 4 of
        None \<Rightarrow> None
      | Some (st, len, as) \<Rightarrow>
          if st_ok st then recv_bytes strerror as (nat (of_le len)) else Some (st, [], as))"

text \<open>
  \<open>connect_rpc_socket\<close>: for each address of the host, the descriptor that \<open>socket\<close> returns (-1: failed) and
  whether \<open>connect\<close> succeeds. A descriptor whose \<open>connect\<close> fails stays in \<open>socket_fd\<close>.
\<close>

fun try_addrs :: "(int \<times> bool) list \<Rightarrow> int \<Rightarrow> int" where
  "try_addrs [] fd = fd"
| "try_addrs ((s, con) # addrs) fd =
     (if s = -1 then try_addrs addrs s
      else if \<not> con then try_addrs addrs s
      else s)"

definition connect_rpc_socket :: "(int \<times> bool) list option \<Rightarrow> string \<Rightarrow> int \<Rightarrow> int \<Rightarrow> Status \<times> int" where
  "connect_rpc_socket resolved host port socket_fd =
     (case resolved of
        None \<Rightarrow> (IOError (''getaddrinfo() failed for endpoint '' @ host @ '':'' @ show_int port), socket_fd)
      | Some addrs \<Rightarrow>
          let fd = try_addrs addrs (-1)
          in if fd = -1
             then (IOError (''socket/connect failed for endpoint '' @ host @ '':'' @ show_int port), fd)
             else (OK, fd))"

text \<open>At most \<open>num_retries\<close> further attempts; \<open>resolved\<close> is what each attempt meets.\<close>

fun connect_retry :: "nat \<Rightarrow> (nat \<Rightarrow> (int \<times> bool) list option) \<Rightarrow> string \<Rightarrow> int \<Rightarrow> Status \<times> int \<Rightarrow> Status \<times> int" where
  "connect_retry 0 resolved host port (st, fd) = (st, fd)"
| "connect_retry (Suc num_retries) resolved host port (st, fd) =
     (if st_ok st then (st, fd)
      else connect_retry num_retries (\<lambda>k. resolved (Suc k)) host port (connect_rpc_socket (resolved 0) host port fd))"

definition connect_rpc_socket_retry :: "(nat \<Rightarrow> (int \<times> bool) list option) \<Rightarrow> string \<Rightarrow> int \<Rightarrow> int \<Rightarrow> Status \<times> int" where
  "connect_rpc_socket_retry resolved host port socket_fd =
     (let (st, fd) = connect_retry 5 (\<lambda>k. resolved (Suc k)) host port (connect_rpc_socket (resolved 0) host port socket_fd)
      in (if st_ok st then st else ConnectionFailed [], fd))"

record SocketClient =
  is_connected :: bool
  rpc_endpoint :: string
  socket_fd :: int

definition newSocketClient :: SocketClient where
  "newSocketClient = \<lparr>is_connected = False, rpc_endpoint = [], socket_fd = 0\<rparr>"

definition connect_to_server :: "(nat \<Rightarrow> (int \<times> bool) list option) \<Rightarrow> string \<Rightarrow> int \<Rightarrow> SocketClient \<Rightarrow> (Status \<times> SocketClient) result" where
  "connect_to_server resolved host port c =
     (let endpoint = host @ '':'' @ show_int port
      in if is_connected c \<and> endpoint \<noteq> rpc_endpoint c then Inl (UbiquantException 1)
         else if is_connected c then Inr (OK, c)
         else let (st, fd) = connect_rpc_socket_retry resolved host port (socket_fd c);
                  c = c\<lparr>rpc_endpoint := endpoint, socket_fd := fd\<rparr>
              in Inr (if st_ok st then (OK, c\<lparr>is_connected := True\<rparr>) else (st, c)))"

text \<open>\<open>connected\<close>: \<open>peek\<close> is the result of the peeking \<open>recv\<close>.\<close>

definition connected :: "int \<Rightarrow> SocketClient \<Rightarrow> bool \<times> SocketClient" where
  "connected peek c =
     (if is_connected c \<and> peek \<noteq> -1 then (False, c\<lparr>is_connected := False\<rparr>) else (is_connected c, c))"

text \<open>\<open>disconnect\<close> ignores the status of the exit message.\<close>

definition disconnect :: "(int \<Rightarrow> string) \<Rightarrow> nat answer list \<Rightarrow> SocketClient \<Rightarrow> (byte list \<times> SocketClient) option" where
  "disconnect strerror as c =
     (if \<not> is_connected c then Some ([], c)
      else map_option (\<lambda>(st, out, as). (out, c\<lparr>is_connected := False\<rparr>)) (send_message strerror as (rpc_code EXIT_RPC) []))"

definition deleteSocketClient :: "(int \<Rightarrow> string) \<Rightarrow> nat answer list \<Rightarrow> SocketClient \<Rightarrow> (byte list \<times> SocketClient) option" where
  "deleteSocketClient strerror as c = disconnect strerror as c"

text \<open>\<open>retrieve_cluster_info\<close> sends the text \<open>test\<close>: the status, the bytes sent, and the reply that it prints.\<close>

definition retrieve_cluster_info :: "(int \<Rightarrow> string) \<Rightarrow> nat answer list \<Rightarrow> byte list answer list
    \<Rightarrow> (Status \<times> byte list \<times> byte list option) option" where
  "retrieve_cluster_info strerror ws rs =
     (case send_message strerror ws (rpc_code INFO_RPC) [116, 101, 115, 116] of
        None \<Rightarrow> None
      | Some (st, out, _) \<Rightarrow>
          if \<not> st_ok st then Some (st, out, None)
          else (case recv_message strerror rs of
                  None \<Rightarrow> None
                | Some (st, reply, _) \<Rightarrow> if \<not> st_ok st then Some (st, out, None) else Some (OK, out, Some reply)))"

section \<open>The server's side of a connection\<close>

text \<open>\<open>process_message\<close> of the server: whether to close the connection, and the reply. Other codes fall through the switch.\<close>

definition srv_process_message :: "int \<Rightarrow> byte list \<Rightarrow> bool \<times> byte list" where
  "srv_process_message code message_in =
     (if code = rpc_code INFO_RPC then (False, []) else if code = rpc_code EXIT_RPC then (True, []) else (False, []))"

text \<open>
  \<open>do_write\<close>: a string of \<open>length + 4\<close> bytes; eight bytes of the length are copied to its start, then the
  text behind the first four. A string of fewer than eight bytes is overrun.
\<close>

definition do_write :: "byte list \<Rightarrow> byte list result" where
  "do_write buf =
     (if length buf + 4 < 8 then Inl Undefined
      else Inr (take 4 (le_bytes 8 (int (length buf))) @ buf))"

definition conn_process_message :: "int \<Rightarrow> byte list \<Rightarrow> (bool \<times> byte list) result" where
  "conn_process_message code message_in =
     (let (exit, reply) = srv_process_message code message_in
      in if exit then Inr (True, []) else bindE (do_write reply) (\<lambda>out. Inr (False, out)))"

text \<open>The header is read as one 64-bit number: \<open>& 0xffffffff\<close> and \<open>>> 32\<close>.\<close>

definition header_size :: "byte list \<Rightarrow> int" where
  "header_size hdr = of_le hdr mod 4294967296"

definition header_code :: "byte list \<Rightarrow> int" where
  "header_code hdr = of_le hdr div 4294967296 mod 4294967296"

datatype read_result = ReadOK | ReadEof | ReadError

text \<open>The read that is pending, if any, and whether the socket is open; \<open>written\<close> is what \<open>do_async_write\<close> was given.\<close>

datatype conn_state = Header | Body int nat | Stopped

record SocketConnection =
  running :: bool
  conn_state :: conn_state
  sock_open :: bool
  written :: "byte list"

definition newSocketConnection :: SocketConnection where
  "newSocketConnection = \<lparr>running = False, conn_state = Stopped, sock_open = True, written = []\<rparr>"

definition conn_start :: "SocketConnection \<Rightarrow> SocketConnection" where
  "conn_start c = c\<lparr>running := True, conn_state := Header\<rparr>"

definition do_stop :: "SocketConnection \<Rightarrow> SocketConnection" where
  "do_stop c = c\<lparr>sock_open := False\<rparr>"

text \<open>A read that is pending when the socket is closed ends later, with an error.\<close>

definition conn_stop :: "SocketConnection \<Rightarrow> SocketConnection" where
  "conn_stop c = (do_stop c)\<lparr>running := False\<rparr>"

text \<open>
  The completion handlers of the two reads, and that of \<open>do_async_write\<close>. When no new read follows, the handler has
  called \<open>do_stop\<close>, and calls \<open>remove_connection\<close> of the server (\<open>Socket_Server\<close>).
\<close>

definition end_reading :: "SocketConnection \<Rightarrow> SocketConnection" where
  "end_reading c = (do_stop c)\<lparr>conn_state := Stopped\<rparr>"

definition on_read :: "read_result \<Rightarrow> byte list \<Rightarrow> SocketConnection \<Rightarrow> SocketConnection result" where
  "on_read ec bytes c =
     (case conn_state c of
        Header \<Rightarrow>
          if ec = ReadOK \<and> running c then
            (if header_size bytes > 64 * 1024 * 1024 then Inr (end_reading c)
             else Inr (c\<lparr>conn_state := Body (header_code bytes) (nat (header_size bytes))\<rparr>))
          else Inr (end_reading c)
      | Body code n \<Rightarrow>
          if (ec = ReadOK \<or> ec = ReadEof) \<and> running c then
            bindE (conn_process_message code bytes) (\<lambda>(exit, out).
              let c = c\<lparr>written := written c @ out\<rparr>
              in Inr (if exit \<or> ec = ReadEof then end_reading c else c\<lparr>conn_state := Header\<rparr>))
          else Inr (end_reading c)
      | Stopped \<Rightarrow> Inr c)"

definition on_written :: "bool \<Rightarrow> SocketConnection \<Rightarrow> SocketConnection" where
  "on_written ec c = (if ec then do_stop c else c)"

section \<open>Properties\<close>

text \<open>Answers that fail only for a moment and otherwise transfer something; how many transfer something.\<close>

definition productive :: "('a \<Rightarrow> bool) \<Rightarrow> 'a answer list \<Rightarrow> bool" where
  "productive some as \<longleftrightarrow> list_all (\<lambda>a. case a of Errno e \<Rightarrow> retry_errno e | Answer x \<Rightarrow> some x) as"

fun transfers :: "'a answer list \<Rightarrow> 'a list" where
  "transfers [] = []"
| "transfers (Errno e # as) = transfers as"
| "transfers (Answer x # as) = x # transfers as"

lemma productive_simps [simp]:
  "productive some []" "productive some (Errno e # as) \<longleftrightarrow> retry_errno e \<and> productive some as"
  "productive some (Answer x # as) \<longleftrightarrow> some x \<and> productive some as"
  by (simp_all add: productive_def)

lemma send_bytes_complete:
  assumes "productive (\<lambda>n. 0 < n) as" and "length data \<le> length (transfers as)"
  shows "\<exists>as'. send_bytes strerror as data = Some (OK, data, as') \<and> productive (\<lambda>n. 0 < n) as'
    \<and> length (transfers as) \<le> length (transfers as') + length data"
  using assms
proof (induction strerror as data rule: send_bytes.induct)
  case (4 strerror n as b data)
  then have n: "n \<noteq> 0" by simp
  then have "length (drop n (b # data)) \<le> length (transfers as)" using 4(3) by simp
  from 4(1) [OF n _ this] 4(2) obtain as' where
    as': "send_bytes strerror as (drop n (b # data)) = Some (OK, drop n (b # data), as')" "productive (\<lambda>n. 0 < n) as'"
    "length (transfers as) \<le> length (transfers as') + length (drop n (b # data))" by auto
  have "length (drop n (b # data)) < length (b # data)" using n by simp
  then have "length (transfers (Answer n # as)) \<le> length (transfers as') + length (b # data)" using as'(3) by simp
  then show ?case using as'(1,2) n by (simp del: length_drop drop_Cons')
qed auto

lemma st_ok_OK [simp]: "st_ok OK"
  by (simp add: st_ok_def OK_def)

lemma of_le_append: "of_le (xs @ ys) = of_le xs + 256 ^ length xs * of_le ys"
  by (induction xs) (simp_all add: algebra_simps)

lemma take_le_bytes: "m \<le> n \<Longrightarrow> take m (le_bytes n x) = le_bytes m x"
proof (induction m arbitrary: n x)
  case (Suc m)
  then show ?case by (cases n) simp_all
qed simp

lemma header_bytes:
  assumes "0 \<le> len" "len < 4294967296" "0 \<le> code" "code < 4294967296"
  shows "header_size (le_bytes 4 len @ le_bytes 4 code) = len"
    and "header_code (le_bytes 4 len @ le_bytes 4 code) = code"
proof -
  have "of_le (le_bytes 4 len @ le_bytes 4 code) = len + 4294967296 * code"
    using assms by (simp add: of_le_append of_le_bytes)
  then show "header_size (le_bytes 4 len @ le_bytes 4 code) = len"
    "header_code (le_bytes 4 len @ le_bytes 4 code) = code"
    using assms by (simp_all add: header_size_def header_code_def)
qed

text \<open>
  (C33) A request reaches the server whole: however the operating system splits the writes of the client
  and interrupts them, \<open>send_message\<close> ends with success and has written the header and the text once, in
  order; the server's connection reads from these eight bytes the code and the size of the text, and the
  bytes behind them are the text.
\<close>

theorem request_reaches_server:
  assumes "productive (\<lambda>n. 0 < n) as" and "length msg + 8 \<le> length (transfers as)"
    and "length msg \<le> 64 * 1024 * 1024" and "0 \<le> code" and "code < 4294967296"
  shows "\<exists>out as'. send_message strerror as code msg = Some (OK, out, as')
    \<and> on_read ReadOK (take 8 out) (conn_start newSocketConnection)
      = Inr ((conn_start newSocketConnection)\<lparr>conn_state := Body code (length msg)\<rparr>)
    \<and> drop 8 out = msg"
proof -
  let ?len = "int (length msg)" and ?hdr = "le_bytes 4 (int (length msg)) @ le_bytes 4 code"
  have len: "?len < 4294967296" "?len mod 4294967296 = ?len" using assms(3) by simp_all
  from send_bytes_complete [OF assms(1), of "le_bytes 4 ?len" strerror] assms(2) obtain as1 where
    1: "send_bytes strerror as (le_bytes 4 ?len) = Some (OK, le_bytes 4 ?len, as1)" "productive (\<lambda>n. 0 < n) as1"
    "length msg + 4 \<le> length (transfers as1)" by auto
  from send_bytes_complete [OF 1(2), of "le_bytes 4 code" strerror] 1(3) obtain as2 where
    2: "send_bytes strerror as1 (le_bytes 4 code) = Some (OK, le_bytes 4 code, as2)" "productive (\<lambda>n. 0 < n) as2"
    "length msg \<le> length (transfers as2)" by auto
  from send_bytes_complete [OF 2(2,3), of strerror] obtain as3 where
    3: "send_bytes strerror as2 msg = Some (OK, msg, as3)" by auto
  have "send_message strerror as code msg = Some (OK, ?hdr @ msg, as3)"
    using 1(1) 2(1) 3 by (simp add: send_message_def then_send_def len(2))
  moreover have "take 8 (?hdr @ msg) = ?hdr" "drop 8 (?hdr @ msg) = msg" by simp_all
  moreover have "on_read ReadOK ?hdr (conn_start newSocketConnection)
      = Inr ((conn_start newSocketConnection)\<lparr>conn_state := Body code (length msg)\<rparr>)"
    using header_bytes [of ?len code] assms(3-5) len(1) by (simp add: on_read_def conn_start_def)
  ultimately show ?thesis by metis
qed

theorem request_reaches_server_witness:
  "\<exists>out as'. send_message (\<lambda>_. []) (Errno 4 # replicate 12 (Answer 2)) 1 [9, 8] = Some (OK, out, as') \<and> drop 8 out = [9, 8]"
proof -
  have "productive (\<lambda>n. 0 < n) (Errno 4 # replicate 12 (Answer (2 :: nat)))"
    "length [9 :: byte, 8] + 8 \<le> length (transfers (Errno 4 # replicate 12 (Answer (2 :: nat))))"
    by code_simp+
  moreover have "length [9 :: byte, 8] \<le> 64 * 1024 * 1024" "(0 :: int) \<le> 1" "(1 :: int) < 4294967296" by simp_all
  ultimately show ?thesis using request_reaches_server by blast
qed

lemma le_bytes_Nil [simp]: "le_bytes n x = [] \<longleftrightarrow> n = 0"
  by (metis length_0_conv length_le_bytes)

lemma recv_bytes_complete:
  assumes "productive (\<lambda>bs. bs \<noteq> []) as" and "concat (transfers as) = data" and "data \<noteq> []"
    and "last as = Answer bs"
  shows "recv_bytes strerror (as @ as') (length data) = Some (OK, data, as')"
  using assms
proof (induction as arbitrary: data)
  case (Cons a as)
  then obtain n where n: "length data = Suc n" by (cases data) auto
  show ?case
  proof (cases a)
    case (Errno e)
    then have "as \<noteq> []" using Cons.prems(4) by auto
    then show ?thesis using Cons Errno n by (metis append_Cons concat.simps last_ConsR productive_simps(2) recv_bytes.simps(3) transfers.simps(2))
  next
    case (Answer xs)
    then have d: "data = xs @ concat (transfers as)" "xs \<noteq> []" using Cons.prems by auto
    show ?thesis
    proof (cases "as = []")
      case True
      then show ?thesis using d Answer n by simp
    next
      case False
      let ?data = "concat (transfers as)"
      have "?data \<noteq> []"
      proof -
        have "transfers as \<noteq> []" "list_all (\<lambda>bs. bs \<noteq> []) (transfers as)"
          using False Cons.prems(1,4) Answer by (induction as rule: transfers.induct) (auto split: if_splits)
        then show ?thesis by (cases "transfers as") auto
      qed
      then have "recv_bytes strerror (as @ as') (length ?data) = Some (OK, ?data, as')"
        using Cons.IH [of ?data] Cons.prems(1,4) False Answer by simp
      moreover have "Suc n - length xs = length ?data" using n d by simp
      ultimately show ?thesis using d Answer n by simp
    qed
  qed
qed simp

text \<open>
  A reply reaches the client whole: a reply of at least four bytes that the connection writes is read
  back by \<open>recv_message\<close>, however the bytes of the header and of the text arrive in pieces and the reads are
  interrupted.
\<close>

lemma reply_reaches_client:
  assumes "do_write buf = Inr out" and "length buf < 4294967296"
    and "productive (\<lambda>bs. bs \<noteq> []) hdr" and "concat (transfers hdr) = take 4 out" and "last hdr = Answer h"
    and "productive (\<lambda>bs. bs \<noteq> []) body" and "concat (transfers body) = drop 4 out" and "last body = Answer b"
  shows "recv_message strerror (hdr @ body @ as) = Some (OK, buf, as)"
proof -
  have long: "4 \<le> length buf" and out: "out = take 4 (le_bytes 8 (int (length buf))) @ buf"
    using assms(1) by (auto simp: do_write_def split: if_splits)
  have "take 4 (le_bytes 8 (int (length buf))) = le_bytes 4 (int (length buf))" by (simp add: take_le_bytes)
  then have out: "take 4 out = le_bytes 4 (int (length buf))" "drop 4 out = buf" using out by simp_all
  have "recv_bytes strerror (hdr @ body @ as) (length (le_bytes 4 (int (length buf)))) = Some (OK, le_bytes 4 (int (length buf)), body @ as)"
    using assms(4) by (intro recv_bytes_complete [OF assms(3) _ _ assms(5)]) (simp_all add: out(1))
  moreover have "recv_bytes strerror (body @ as) (length buf) = Some (OK, buf, as)"
    using assms(7) long by (intro recv_bytes_complete [OF assms(6) _ _ assms(8)]) (auto simp: out(2))
  moreover have "nat (of_le (le_bytes 4 (int (length buf)))) = length buf" using assms(2) by (simp add: of_le_bytes)
  ultimately show ?thesis by (simp add: recv_message_def)
qed

text \<open>A failure while it sends is what \<open>retrieve_cluster_info\<close> reports, and it then does not wait for a reply.\<close>

lemma retrieve_cluster_info_send_fails:
  "send_message strerror ws (rpc_code INFO_RPC) [116, 101, 115, 116] = Some (st, out, ws') \<Longrightarrow> \<not> st_ok st
    \<Longrightarrow> retrieve_cluster_info strerror ws rs = Some (st, out, None)"
  by (simp add: retrieve_cluster_info_def)

text \<open>The only replies that the server has are empty ones, and these overrun the buffer of \<open>do_write\<close>.\<close>

lemma info_reply_overruns: "code \<noteq> rpc_code EXIT_RPC \<Longrightarrow> conn_process_message code msg = Inl Undefined"
  by (simp add: conn_process_message_def srv_process_message_def do_write_def)

lemma try_addrs_last:
  assumes "list_all (\<lambda>(s, con). s = -1 \<or> \<not> con) addrs" and "addrs \<noteq> []"
  shows "try_addrs addrs fd = fst (last addrs)"
  using assms by (induction addrs fd rule: try_addrs.induct) auto

text \<open>
  A refused connection is reported as a success: when every address of the server refuses the
  connection and the last socket could be created, \<open>connect_to_server\<close> returns \<open>OK\<close> and the client counts
  as connected, with the descriptor of the socket whose \<open>connect\<close> failed.
\<close>

lemma refused_reported_connected:
  assumes "list_all (\<lambda>(s, con). s = -1 \<or> \<not> con) addrs" and "addrs \<noteq> []" and "fst (last addrs) \<noteq> -1"
  shows "connect_to_server (\<lambda>_. Some addrs) host port newSocketClient
    = Inr (OK, \<lparr>is_connected = True, rpc_endpoint = host @ '':'' @ show_int port, socket_fd = fst (last addrs)\<rparr>)"
proof -
  have "connect_rpc_socket (Some addrs) host port 0 = (OK, fst (last addrs))"
    using try_addrs_last [OF assms(1,2)] assms(3) by (simp add: connect_rpc_socket_def)
  then have "connect_rpc_socket_retry (\<lambda>_. Some addrs) host port 0 = (OK, fst (last addrs))"
    by (simp add: connect_rpc_socket_retry_def numeral_eq_Suc)
  then show ?thesis by (simp add: connect_to_server_def newSocketClient_def)
qed

end
