(* ===== verification/Socket_Server.thy ===== *)
theory Socket_Server
  imports Socket
begin

text \<open>
  \<open>src/src/network/socket_server.cpp\<close>: the server of the control connection with its pool and the objects of its
  connections, driven by the events that \<open>boost::asio\<close> reports: an accepted client, the end of a read, the end of a write.
  The runtime is an argument, the list of events.
\<close>

section \<open>The server\<close>

text \<open>
  \<open>srv_objects\<close> has all connections ever made, in their order; handlers keep them alive. The pool
  \<open>connections\<close> maps a port to the number of one. \<open>accepting\<close>: an \<open>async_accept\<close> is pending.
\<close>

record SocketServer =
  srv_port :: int
  acceptor_open :: bool
  accepting :: bool
  connections :: "int \<rightharpoonup> nat"
  srv_objects :: "SocketConnection list"
  ctx_stopped :: bool

text \<open>\<open>bind_error\<close>: what the listening socket answers; \<open>bind\<close> throws.\<close>

definition newSocketServer :: "string option \<Rightarrow> SocketServer result" where
  "newSocketServer bind_error =
     (case bind_error of
        Some e \<Rightarrow> Inl (RuntimeError e)
      | None \<Rightarrow> Inr \<lparr>srv_port = 11235, acceptor_open = True, accepting = False, connections = Map.empty, srv_objects = [],
                      ctx_stopped = False\<rparr>)"

definition do_accept :: "SocketServer \<Rightarrow> SocketServer" where
  "do_accept srv = (if acceptor_open srv then srv\<lparr>accepting := True\<rparr> else srv)"

text \<open>The handler of \<open>do_accept\<close>: \<open>emplace\<close> keeps an entry that is there.\<close>

definition on_accept :: "bool \<Rightarrow> SocketServer \<Rightarrow> SocketServer" where
  "on_accept ec srv =
     (let srv = srv\<lparr>accepting := False\<rparr>
      in if ec then do_accept srv
         else let n = length (srv_objects srv);
                  srv = srv\<lparr>srv_objects := srv_objects srv @ [conn_start newSocketConnection]\<rparr>
              in do_accept (if srv_port srv \<in> dom (connections srv) then srv
                            else srv\<lparr>connections := (connections srv)(srv_port srv \<mapsto> n)\<rparr>))"

definition exists_connection :: "int \<Rightarrow> SocketServer \<Rightarrow> bool" where
  "exists_connection port srv \<longleftrightarrow> port \<in> dom (connections srv)"

definition remove_connection :: "int \<Rightarrow> SocketServer \<Rightarrow> SocketServer" where
  "remove_connection port srv = srv\<lparr>connections := (connections srv)(port := None)\<rparr>"

text \<open>\<open>close_connection\<close> calls \<open>remove_connection\<close> with the mutex held, which locks it again.\<close>

definition close_connection :: "int \<Rightarrow> SocketServer \<Rightarrow> SocketServer result" where
  "close_connection port srv =
     (case connections srv port of None \<Rightarrow> Inl OutOfRange | Some _ \<Rightarrow> Inl Deadlock)"

definition update_conn :: "nat \<Rightarrow> (SocketConnection \<Rightarrow> SocketConnection) \<Rightarrow> SocketServer \<Rightarrow> SocketServer" where
  "update_conn k f srv =
     (if k < length (srv_objects srv) then srv\<lparr>srv_objects := (srv_objects srv)[k := f (srv_objects srv ! k)]\<rparr> else srv)"

text \<open>\<open>stop\<close>: all connections of the pool; their only key is the port of the server.\<close>

definition srv_stop :: "SocketServer \<Rightarrow> SocketServer" where
  "srv_stop srv =
     (case connections srv (srv_port srv) of None \<Rightarrow> srv | Some k \<Rightarrow> update_conn k conn_stop srv)\<lparr>connections := Map.empty\<rparr>"

definition deleteSocketServer :: "SocketServer \<Rightarrow> SocketServer" where
  "deleteSocketServer srv = (srv_stop srv)\<lparr>acceptor_open := False, ctx_stopped := True\<rparr>"

section \<open>Events\<close>

datatype srv_event = Accepted bool | ReadDone nat read_result "byte list" | WriteDone nat bool

text \<open>
  The handler of an event. The connections are made with the port of the server as \<open>conn_id\<close>, so this is the key
  that they remove. A read that is not pending has no event.
\<close>

definition handle :: "srv_event \<Rightarrow> SocketServer \<Rightarrow> SocketServer result" where
  "handle ev srv =
     (case ev of
        Accepted ec \<Rightarrow> Inr (if accepting srv then on_accept ec srv else srv)
      | ReadDone k ec bytes \<Rightarrow>
          if k < length (srv_objects srv) \<and> conn_state (srv_objects srv ! k) \<noteq> Stopped then
            bindE (on_read ec bytes (srv_objects srv ! k)) (\<lambda>c.
              let srv = srv\<lparr>srv_objects := (srv_objects srv)[k := c]\<rparr>
              in Inr (if conn_state c = Stopped then remove_connection (srv_port srv) srv else srv))
          else Inr srv
      | WriteDone k ec \<Rightarrow>
          let srv = update_conn k (on_written ec) srv
          in Inr (if ec then remove_connection (srv_port srv) srv else srv))"

text \<open>\<open>context.run\<close> handles events until the context is stopped.\<close>

fun context_run :: "srv_event list \<Rightarrow> SocketServer \<Rightarrow> SocketServer result" where
  "context_run [] srv = Inr srv"
| "context_run (ev # evs) srv = (if ctx_stopped srv then Inr srv else bindE (handle ev srv) (context_run evs))"

definition serve :: "srv_event list \<Rightarrow> SocketServer \<Rightarrow> SocketServer result" where
  "serve evs srv = context_run evs (do_accept srv)"

section \<open>Lemmas\<close>

text \<open>
  The pool has at most one entry, an existing connection; a connection with a pending body has at most 64 MB to
  read; one that reads no more has closed its socket.
\<close>

definition conn_ok :: "SocketConnection \<Rightarrow> bool" where
  "conn_ok c \<longleftrightarrow> (case conn_state c of Header \<Rightarrow> True | Body _ n \<Rightarrow> n \<le> 64 * 1024 * 1024 | Stopped \<Rightarrow> \<not> sock_open c)"

definition srv_ok :: "SocketServer \<Rightarrow> bool" where
  "srv_ok srv \<longleftrightarrow> dom (connections srv) \<subseteq> {srv_port srv} \<and> ran (connections srv) \<subseteq> {..<length (srv_objects srv)}
     \<and> list_all conn_ok (srv_objects srv)"

lemma on_read_ok:
  assumes "conn_ok c" and "on_read ec bytes c = Inr c'"
  shows "conn_ok c'"
proof (cases "conn_state c")
  case (Body code n)
  then show ?thesis using assms
    by (cases "(ec = ReadOK \<or> ec = ReadEof) \<and> running c")
      (auto simp: on_read_def conn_ok_def end_reading_def do_stop_def bindE_eq_Inr Let_def split: if_splits)
qed (use assms in \<open>auto simp: on_read_def conn_ok_def end_reading_def do_stop_def split: if_splits\<close>)

lemma closing_ok [simp]: "conn_ok c \<Longrightarrow> conn_ok (do_stop c)" "conn_ok c \<Longrightarrow> conn_ok (conn_stop c)" "conn_ok c \<Longrightarrow> conn_ok (on_written ec c)"
  by (auto simp: conn_ok_def do_stop_def conn_stop_def on_written_def split: conn_state.splits)

lemma conns_update: "list_all P xs \<Longrightarrow> (i < length xs \<Longrightarrow> P x) \<Longrightarrow> list_all P (xs[i := x])"
  by (cases "i < length xs") (auto simp: list_all_length nth_list_update)

lemma update_conn_ok:
  assumes "srv_ok srv" and "\<And>c. conn_ok c \<Longrightarrow> conn_ok (f c)"
  shows "srv_ok (update_conn k f srv)"
  using assms by (auto simp: srv_ok_def update_conn_def list_all_length nth_list_update)

lemma remove_connection_ok: "srv_ok srv \<Longrightarrow> srv_ok (remove_connection port srv)"
  by (auto simp: srv_ok_def remove_connection_def ran_def)

lemma do_accept_ok [simp]: "srv_ok (do_accept srv) \<longleftrightarrow> srv_ok srv"
  by (simp add: do_accept_def srv_ok_def)

lemma on_accept_ok:
  assumes "srv_ok srv"
  shows "srv_ok (on_accept ec srv)"
proof -
  let ?srv = "srv\<lparr>accepting := False, srv_objects := srv_objects srv @ [conn_start newSocketConnection]\<rparr>"
  have "conn_ok (conn_start newSocketConnection)"
    by (simp add: conn_ok_def conn_start_def newSocketConnection_def)
  then have ok: "srv_ok ?srv" using assms by (auto simp: srv_ok_def less_SucI)
  then have "srv_ok (?srv\<lparr>connections := (connections srv)(srv_port srv \<mapsto> length (srv_objects srv))\<rparr>)"
    by (auto simp: srv_ok_def ran_def)
  moreover have "srv_ok (srv\<lparr>accepting := False\<rparr>)" using assms by (simp add: srv_ok_def)
  ultimately show ?thesis using ok by (simp add: on_accept_def Let_def)
qed

lemma handle_ok:
  assumes "srv_ok srv" and "handle ev srv = Inr srv'"
  shows "srv_ok srv'"
proof (cases ev)
  case (ReadDone k ec bytes)
  show ?thesis
  proof (cases "k < length (srv_objects srv) \<and> conn_state (srv_objects srv ! k) \<noteq> Stopped")
    case True
    then obtain c where c: "on_read ec bytes (srv_objects srv ! k) = Inr c"
      and srv': "srv' = (let srv = srv\<lparr>srv_objects := (srv_objects srv)[k := c]\<rparr>
         in if conn_state c = Stopped then remove_connection (srv_port srv) srv else srv)"
      using ReadDone assms(2) by (auto simp: handle_def bindE_eq_Inr Let_def)
    have "conn_ok c" using on_read_ok [OF _ c] assms(1) True by (simp add: srv_ok_def list_all_length)
    then have "srv_ok (srv\<lparr>srv_objects := (srv_objects srv)[k := c]\<rparr>)"
      using assms(1) by (simp add: srv_ok_def conns_update)
    then show ?thesis using remove_connection_ok srv' by (simp add: Let_def)
  qed (use assms ReadDone in \<open>auto simp: handle_def\<close>)
qed (use assms on_accept_ok update_conn_ok remove_connection_ok in \<open>auto simp: handle_def Let_def split: if_splits\<close>)

lemma context_run_ok: "srv_ok srv \<Longrightarrow> context_run evs srv = Inr srv' \<Longrightarrow> srv_ok srv'"
  by (induction evs srv rule: context_run.induct) (auto simp: bindE_eq_Inr handle_ok split: if_splits)

lemma new_server_ok: "newSocketServer None = Inr srv \<Longrightarrow> srv_ok srv"
  by (auto simp: newSocketServer_def srv_ok_def)

lemma serve_ok:
  assumes "newSocketServer None = Inr srv" and "serve evs srv = Inr srv'"
  shows "srv_ok srv'"
  using context_run_ok [OF _ assms(2) [unfolded serve_def]] new_server_ok [OF assms(1)] by simp

text \<open>The destructor closes the connection that is in the pool.\<close>

lemma delete_closes_pool:
  assumes "srv_ok srv" and "connections srv (srv_port srv) = Some k"
  shows "\<not> sock_open (srv_objects (deleteSocketServer srv) ! k)"
proof -
  have "k < length (srv_objects srv)" using assms by (auto simp: srv_ok_def ran_def)
  then show ?thesis using assms(2)
    by (simp add: deleteSocketServer_def srv_stop_def update_conn_def conn_stop_def do_stop_def)
qed

text \<open>
  All connections share one entry of the pool. Of two clients only the first is in it; when the second one
  leaves, the first one's entry is gone, and the destructor does not close its socket.
\<close>

definition ex_server :: SocketServer where
  "ex_server = \<lparr>srv_port = 11235, acceptor_open = True, accepting = False, connections = Map.empty, srv_objects = [], ctx_stopped = False\<rparr>"

lemma second_client_not_pooled:
  assumes "serve [Accepted False, Accepted False] ex_server = Inr srv"
  shows "connections srv = [11235 \<mapsto> 0]" and "sock_open (srv_objects (deleteSocketServer srv) ! 1)"
proof -
  let ?c = "conn_start newSocketConnection"
  have "srv = \<lparr>srv_port = 11235, acceptor_open = True, accepting = True, connections = [11235 \<mapsto> 0], srv_objects = [?c, ?c], ctx_stopped = False\<rparr>"
    using assms by (simp add: serve_def do_accept_def handle_def on_accept_def Let_def ex_server_def)
  then show "connections srv = [11235 \<mapsto> 0]" "sock_open (srv_objects (deleteSocketServer srv) ! 1)"
    by (simp_all add: deleteSocketServer_def srv_stop_def update_conn_def conn_start_def newSocketConnection_def)
qed

lemma leaving_client_evicts_other:
  assumes "serve [Accepted False, Accepted False, ReadDone 1 ReadEof []] ex_server = Inr srv"
  shows "connections srv = Map.empty" and "running (srv_objects srv ! 0)" and "sock_open (srv_objects (deleteSocketServer srv) ! 0)"
proof -
  let ?c = "conn_start newSocketConnection"
  have "srv = \<lparr>srv_port = 11235, acceptor_open = True, accepting = True, connections = Map.empty, srv_objects = [?c, end_reading ?c], ctx_stopped = False\<rparr>"
    using assms by (simp add: serve_def do_accept_def handle_def on_accept_def Let_def ex_server_def on_read_def conn_start_def
        newSocketConnection_def remove_connection_def end_reading_def do_stop_def)
  then show "connections srv = Map.empty" "running (srv_objects srv ! 0)" "sock_open (srv_objects (deleteSocketServer srv) ! 0)"
    by (simp_all add: deleteSocketServer_def srv_stop_def conn_start_def newSocketConnection_def)
qed

end
