(* ===== verification/Loader_Properties.thy ===== *)
theory Loader_Properties
  imports Loader
begin

text \<open>
  What the loader gives the trader: every order id of the matrix once, in the sorted list of its stock;
  hooks whose targets are always known; price limits around the previous close; and cache files from
  which the generator replays the orders of the matrices.
\<close>

section \<open>Sorted order ids\<close>

definition dims_ok :: "Config \<Rightarrow> bool" where
  "dims_ok cfg \<longleftrightarrow>
     0 < stock_num cfg \<and> stock_num cfg dvd loader_nx_matrix cfg
     \<and> 0 \<le> loader_nx_matrix cfg \<and> loader_nx_matrix cfg \<le> 1024 \<and> 0 \<le> loader_ny_matrix cfg \<and> loader_ny_matrix cfg \<le> 1024
     \<and> 0 \<le> loader_nz_matrix cfg \<and> loader_nz_matrix cfg \<le> 1024
     \<and> loader_nx_matrix cfg * loader_ny_matrix cfg * loader_nz_matrix cfg \<le> 2147483647"

declare smod_nonneg [simp] sdiv_nonneg [simp]

lemma at_int [simp]: "i < length xs \<Longrightarrow> at xs (int i) = Inr (xs ! i)"
  by (simp add: at_def)

lemma div_less_mult:
  fixes x :: int
  assumes "0 < n" and "x < m * n" shows "x div n < m"
proof (rule ccontr)
  assume "\<not> x div n < m"
  then have "m * n \<le> x div n * n" using assms(1) by (intro mult_right_mono) simp_all
  moreover have "x div n * n + x mod n = x" "0 \<le> x mod n" using assms(1) by simp_all
  ultimately show False using assms(2) by linarith
qed

lemma cells_product: "cells nx ny nz = List.product [0..nx - 1] (List.product [0..ny - 1] [0..nz - 1])"
  by (simp add: cells_def product_concat_map map_concat comp_def)

lemma set_cells: "set (cells nx ny nz) = {0..<nx} \<times> {0..<ny} \<times> {0..<nz}"
  by (auto simp: cells_product)

lemma distinct_cells: "distinct (cells nx ny nz)"
  by (simp add: cells_product distinct_product)

text \<open>The index of a cell, when nothing overflows.\<close>

lemma flat_bounds:
  fixes x y z :: int
  assumes "0 \<le> x" "x < nx" "0 \<le> y" "y < ny" "0 \<le> z" "z < nz"
  shows "0 \<le> x * (ny * nz) + y * nz + z" and "x * (ny * nz) + y * nz + z < nx * ny * nz"
proof -
  have yz: "y * nz + z < ny * nz"
  proof -
    have "y * nz + z < (y + 1) * nz" using assms(6) by (simp add: distrib_right)
    also have "\<dots> \<le> ny * nz" using assms(3-6) by (intro mult_right_mono) simp_all
    finally show ?thesis .
  qed
  have "x * (ny * nz) + y * nz + z < (x + 1) * (ny * nz)" using yz by (simp add: distrib_right)
  also have "\<dots> \<le> nx * (ny * nz)" using assms by (intro mult_right_mono) simp_all
  finally show "x * (ny * nz) + y * nz + z < nx * ny * nz" by (simp add: mult.assoc)
  show "0 \<le> x * (ny * nz) + y * nz + z" using assms by (intro add_nonneg_nonneg mult_nonneg_nonneg) simp_all
qed

lemma flat_idx_id:
  assumes "0 \<le> x" "x < nx" "0 \<le> y" "y < ny" "0 \<le> z" "z < nz" and small: "nx * ny * nz \<le> 2147483647"
  shows "flat_idx ny nz x y z = x * (ny * nz) + y * nz + z"
proof -
  note b = flat_bounds [OF assms(1-6)]
  have p: "0 \<le> x * (ny * nz)" "0 \<le> y * nz" "0 \<le> ny * nz" using assms(1-6) by (simp_all add: mult_nonneg_nonneg)
  have "1 * (ny * nz) \<le> nx * (ny * nz)" using assms(1,2) p(3) by (intro mult_right_mono) simp_all
  then have "in_i32 (ny * nz)" using p small by (simp add: in_i32_def mult.assoc)
  moreover have "in_i32 (x * (ny * nz))" "in_i32 (y * nz)" "in_i32 (x * (ny * nz) + y * nz)"
    "in_i32 (x * (ny * nz) + y * nz + z)"
    using p b small assms(5) by (simp_all add: in_i32_def)
  ultimately show ?thesis by (simp add: flat_idx_def)
qed

text \<open>The row and the place in it that a cell is stored in.\<close>

definition slot :: "Config \<Rightarrow> int \<times> int \<times> int \<Rightarrow> nat \<times> nat" where
  "slot cfg c =
     (case c of (x, y, z) \<Rightarrow>
        (nat (x mod stock_num cfg),
         nat (x div stock_num cfg * (loader_ny_matrix cfg * loader_nz_matrix cfg) + y * loader_nz_matrix cfg + z)))"

definition entry :: "Config \<Rightarrow> int list \<Rightarrow> int \<times> int \<times> int \<Rightarrow> SortStruct" where
  "entry cfg data c =
     (case c of (x, y, z) \<Rightarrow>
        \<lparr>ss_order_id = data ! nat (x * (loader_ny_matrix cfg * loader_nz_matrix cfg) + y * loader_nz_matrix cfg + z),
         ss_coor = set_coor x y z\<rparr>)"

definition cell_ok :: "Config \<Rightarrow> int \<times> int \<times> int \<Rightarrow> bool" where
  "cell_ok cfg c \<longleftrightarrow> c \<in> {0..<loader_nx_matrix cfg} \<times> {0..<loader_ny_matrix cfg} \<times> {0..<loader_nz_matrix cfg}"

definition planes :: "Config \<Rightarrow> int" where
  "planes cfg = loader_nx_matrix cfg div stock_num cfg"

lemma num_order_eq:
  assumes "dims_ok cfg"
  shows "num_order cfg = planes cfg * loader_ny_matrix cfg * loader_nz_matrix cfg"
proof -
  let ?x = "loader_nx_matrix cfg" and ?y = "loader_ny_matrix cfg" and ?z = "loader_nz_matrix cfg" and ?S = "stock_num cfg"
  have d: "0 \<le> ?x" "?x \<le> 1024" "0 \<le> ?y" "?y \<le> 1024" "0 \<le> ?z" using assms by (simp_all add: dims_ok_def)
  have "?x * ?y \<le> 1024 * 1024" using d by (intro mult_mono) simp_all
  moreover have nn: "0 \<le> ?x * ?y" "0 \<le> ?x * ?y * ?z" using d by (simp_all add: mult_nonneg_nonneg)
  moreover have "?x * ?y * ?z \<le> 2147483647" using assms by (simp add: dims_ok_def)
  ultimately have "in_i32 (?x * ?y)" "in_i32 (?x * ?y * ?z)" unfolding in_i32_def by linarith+
  then have "i32 (?x * ?y) = ?x * ?y" "i32 (?x * ?y * ?z) = ?x * ?y * ?z" by simp_all
  then have "num_order cfg = (?x * ?y * ?z) div ?S"
    using nn(2) assms by (simp add: num_order_def dims_ok_def)
  moreover have "?x = ?S * planes cfg" using assms by (simp add: dims_ok_def planes_def)
  ultimately show ?thesis using assms by (simp add: dims_ok_def mult.assoc)
qed

lemma cell_div_mod:
  assumes "dims_ok cfg" and "cell_ok cfg (x, y, z)"
  shows "0 \<le> x div stock_num cfg" "x div stock_num cfg < planes cfg" "0 \<le> x mod stock_num cfg" "x mod stock_num cfg < stock_num cfg"
proof -
  have S: "0 < stock_num cfg" "loader_nx_matrix cfg = stock_num cfg * planes cfg" "0 \<le> x" "x < loader_nx_matrix cfg"
    using assms by (auto simp: dims_ok_def cell_ok_def planes_def)
  then show "0 \<le> x div stock_num cfg" "0 \<le> x mod stock_num cfg" "x mod stock_num cfg < stock_num cfg"
    by (simp_all add: pos_imp_zdiv_nonneg_iff)
  show "x div stock_num cfg < planes cfg" using S by (intro div_less_mult) (simp_all add: mult.commute)
qed

lemma slot_bounds:
  assumes "dims_ok cfg" and "cell_ok cfg c"
  shows "fst (slot cfg c) < nat (stock_num cfg)" and "snd (slot cfg c) < nat (num_order cfg)"
proof -
  obtain x y z where c: "c = (x, y, z)" by (cases c)
  have b: "0 \<le> y" "y < loader_ny_matrix cfg" "0 \<le> z" "z < loader_nz_matrix cfg"
    using assms(2) by (simp_all add: c cell_ok_def)
  show "fst (slot cfg c) < nat (stock_num cfg)" using cell_div_mod [OF assms [unfolded c]] by (simp add: slot_def c)
  show "snd (slot cfg c) < nat (num_order cfg)"
    using flat_bounds [OF cell_div_mod(1,2) [OF assms [unfolded c]] b] by (simp add: slot_def c num_order_eq [OF assms(1)] )
qed

text \<open>A cell can be computed back from its slot.\<close>

definition unslot :: "Config \<Rightarrow> nat \<times> nat \<Rightarrow> int \<times> int \<times> int" where
  "unslot cfg s =
     (let p = loader_ny_matrix cfg * loader_nz_matrix cfg; i = int (snd s)
      in (i div p * stock_num cfg + int (fst s), i mod p div loader_nz_matrix cfg, i mod p mod loader_nz_matrix cfg))"

lemma mixed_radix:
  fixes a b c :: int
  assumes "0 \<le> b" "b < p" shows "(a * p + b) div p = a" "(a * p + b) mod p = b"
  using assms by simp_all

lemma unslot_slot:
  assumes "dims_ok cfg" and "cell_ok cfg c" shows "unslot cfg (slot cfg c) = c"
proof -
  obtain x y z where c: "c = (x, y, z)" by (cases c)
  let ?nz = "loader_nz_matrix cfg" and ?p = "loader_ny_matrix cfg * loader_nz_matrix cfg" and ?S = "stock_num cfg"
  have b: "0 \<le> y" "y < loader_ny_matrix cfg" "0 \<le> z" "z < ?nz"
    using assms(2) by (simp_all add: c cell_ok_def)
  have yz: "0 \<le> y * ?nz + z" "y * ?nz + z < ?p"
    using flat_bounds [of 0 1 y "loader_ny_matrix cfg" z ?nz] b by simp_all
  have i: "int (snd (slot cfg c)) = x div ?S * ?p + (y * ?nz + z)"
    using cell_div_mod(1) [OF assms [unfolded c]] yz b by (simp add: slot_def c add.assoc mult_nonneg_nonneg)
  have "int (fst (slot cfg c)) = x mod ?S" using cell_div_mod [OF assms [unfolded c]] by (simp add: slot_def c)
  moreover have "int (snd (slot cfg c)) div ?p = x div ?S" "int (snd (slot cfg c)) mod ?p = y * ?nz + z"
    unfolding i by (rule mixed_radix [OF yz])+
  ultimately show ?thesis using mixed_radix [OF b(3,4), of y] by (simp add: unslot_def Let_def c)
qed

lemma slot_inj:
  "dims_ok cfg \<Longrightarrow> cell_ok cfg c \<Longrightarrow> cell_ok cfg d \<Longrightarrow> slot cfg c = slot cfg d \<Longrightarrow> c = d"
  by (metis unslot_slot)

lemma slot_unslot:
  assumes "dims_ok cfg" and "t < nat (stock_num cfg)" and "i < nat (num_order cfg)"
  shows "cell_ok cfg (unslot cfg (t, i))" and "slot cfg (unslot cfg (t, i)) = (t, i)"
proof -
  let ?ny = "loader_ny_matrix cfg" and ?nz = "loader_nz_matrix cfg" and ?S = "stock_num cfg"
  let ?p = "?ny * ?nz"
  have S: "0 < ?S" "loader_nx_matrix cfg = planes cfg * ?S" using assms(1) by (auto simp: dims_ok_def planes_def)
  have i: "int i < planes cfg * ?p" using assms(3) num_order_eq [OF assms(1)] by (simp add: mult.assoc)
  have nn: "0 \<le> ?ny" "0 \<le> ?nz" using assms(1) by (simp_all add: dims_ok_def)
  have "0 < ?p" using i nn by (metis mult_zero_right mult_nonneg_nonneg order_le_less of_nat_0_le_iff linorder_not_le)
  then have pos: "0 < ?ny" "0 < ?nz" using nn by (auto simp: zero_less_mult_iff)
  have q: "0 \<le> int i div ?p" "int i div ?p < planes cfg"
    using \<open>0 < ?p\<close> div_less_mult [OF _ i] by (simp_all add: pos_imp_zdiv_nonneg_iff)
  have r: "0 \<le> int i mod ?p" "int i mod ?p < ?p" using \<open>0 < ?p\<close> by simp_all
  have "int i div ?p * ?S + int t < (int i div ?p + 1) * ?S" using assms(2) by (simp add: distrib_right)
  also have "\<dots> \<le> planes cfg * ?S" using q(2) S(1) by (intro mult_right_mono) simp_all
  finally have x: "int i div ?p * ?S + int t < loader_nx_matrix cfg" using S(2) by simp
  have "int i mod ?p div ?nz < ?ny" using r pos by (intro div_less_mult) simp_all
  then show "cell_ok cfg (unslot cfg (t, i))"
    using x q(1) r(1) pos S(1) by (simp add: cell_ok_def unslot_def Let_def pos_imp_zdiv_nonneg_iff)
  have "0 \<le> int t" "int t < ?S" using assms(2) by simp_all
  note m = mixed_radix [OF this, of "int i div ?p"]
  have "int i mod ?p div ?nz * ?nz + int i mod ?p mod ?nz = int i mod ?p" by simp
  moreover have "int i div ?p * ?p + int i mod ?p = int i" by (rule div_mult_mod_eq)
  moreover have "int t mod ?S = int t" using assms(2) by simp
  ultimately show "slot cfg (unslot cfg (t, i)) = (t, i)"
    by (simp add: slot_def unslot_def Let_def m add.assoc)
qed

definition rows_ok :: "Config \<Rightarrow> SortStruct list list \<Rightarrow> bool" where
  "rows_ok cfg rows \<longleftrightarrow>
     length rows = nat (stock_num cfg) \<and> (\<forall>t < length rows. length (rows ! t) = nat (num_order cfg))"

abbreviation cell_of :: "SortStruct list list \<Rightarrow> nat \<times> nat \<Rightarrow> SortStruct" where
  "cell_of rows s \<equiv> rows ! fst s ! snd s"

lemma fill_step:
  assumes dims: "dims_ok cfg" and data: "int (length data) = loader_nx_matrix cfg * loader_ny_matrix cfg * loader_nz_matrix cfg"
    and c: "cell_ok cfg (x, y, z)" and rows: "rows_ok cfg rows"
  shows "\<exists>rows'. fill_structs cfg data ((x, y, z) # cs) rows = fill_structs cfg data cs rows' \<and> rows_ok cfg rows'
    \<and> cell_of rows' (slot cfg (x, y, z)) = entry cfg data (x, y, z)
    \<and> (\<forall>s. s \<noteq> slot cfg (x, y, z) \<longrightarrow> cell_of rows' s = cell_of rows s)"
proof -
  let ?ny = "loader_ny_matrix cfg" and ?nz = "loader_nz_matrix cfg" and ?S = "stock_num cfg"
  obtain t i where ti: "slot cfg (x, y, z) = (t, i)" by (cases "slot cfg (x, y, z)")
  have b: "t < nat ?S" "i < nat (num_order cfg)" using slot_bounds [OF dims c] ti by simp_all
  have r: "0 \<le> x" "x < loader_nx_matrix cfg" "0 \<le> y" "y < ?ny" "0 \<le> z" "z < ?nz" "0 < ?S"
    and small: "loader_nx_matrix cfg * ?ny * ?nz \<le> 2147483647"
    using c dims by (simp_all add: cell_ok_def dims_ok_def)
  note dm = cell_div_mod [OF dims c]
  have "planes cfg \<le> loader_nx_matrix cfg" using zdiv_mono2 [of "loader_nx_matrix cfg" 1 ?S] r by (simp add: planes_def)
  then have "planes cfg * ?ny * ?nz \<le> loader_nx_matrix cfg * ?ny * ?nz"
    using r by (intro mult_right_mono) simp_all
  with small have "planes cfg * ?ny * ?nz \<le> 2147483647" by linarith
  note flat = flat_idx_id [OF dm(1,2) r(3-6) this]
  have "flat_idx ?ny ?nz (x div ?S) y z = int i" "x mod ?S = int t"
    using ti dm flat_bounds(1) [OF dm(1,2) r(3-6)] by (auto simp: slot_def flat)
  moreover have "at data (flat_idx ?ny ?nz x y z) = Inr (ss_order_id (entry cfg data (x, y, z)))"
    using flat_idx_id [OF r(1-6) small] flat_bounds [OF r(1-6)] data by (simp add: entry_def)
  moreover have "length rows = nat ?S" "length (rows ! t) = nat (num_order cfg)"
    using rows b by (simp_all add: rows_ok_def)
  ultimately have "fill_structs cfg data ((x, y, z) # cs) rows
      = fill_structs cfg data cs (rows[t := (rows ! t)[i := entry cfg data (x, y, z)]])"
    using b r by (simp add: entry_def Let_def)
  moreover have "rows_ok cfg (rows[t := (rows ! t)[i := entry cfg data (x, y, z)]])"
    using rows b by (auto simp: rows_ok_def nth_list_update)
  moreover have "cell_of (rows[t := (rows ! t)[i := entry cfg data (x, y, z)]]) (t, i) = entry cfg data (x, y, z)"
    using rows b by (simp add: rows_ok_def)
  moreover have "cell_of (rows[t := (rows ! t)[i := entry cfg data (x, y, z)]]) s = cell_of rows s" if "s \<noteq> (t, i)" for s
    using that rows b by (cases s, cases "fst s = t") (auto simp: rows_ok_def nth_list_update)
  ultimately show ?thesis unfolding ti by blast
qed

lemma fill_structs_cells:
  assumes "dims_ok cfg" and "int (length data) = loader_nx_matrix cfg * loader_ny_matrix cfg * loader_nz_matrix cfg"
    and "\<forall>c \<in> set cs. cell_ok cfg c" and "distinct cs" and "rows_ok cfg rows"
  shows "\<exists>rows'. fill_structs cfg data cs rows = Inr rows' \<and> rows_ok cfg rows'
    \<and> (\<forall>c \<in> set cs. cell_of rows' (slot cfg c) = entry cfg data c)
    \<and> (\<forall>s. s \<notin> slot cfg ` set cs \<longrightarrow> cell_of rows' s = cell_of rows s)"
  using assms(3-5)
proof (induction cs arbitrary: rows)
  case (Cons c cs)
  obtain x y z where c: "c = (x, y, z)" by (cases c)
  have cok: "cell_ok cfg (x, y, z)" using Cons.prems(1) c by simp
  obtain rows1 where r1: "fill_structs cfg data (c # cs) rows = fill_structs cfg data cs rows1" "rows_ok cfg rows1"
    "cell_of rows1 (slot cfg c) = entry cfg data c" "\<forall>s. s \<noteq> slot cfg c \<longrightarrow> cell_of rows1 s = cell_of rows s"
    using fill_step [OF assms(1,2) cok Cons.prems(3)] unfolding c by blast
  obtain rows' where r': "fill_structs cfg data cs rows1 = Inr rows'" "rows_ok cfg rows'"
    "\<forall>c \<in> set cs. cell_of rows' (slot cfg c) = entry cfg data c"
    "\<forall>s. s \<notin> slot cfg ` set cs \<longrightarrow> cell_of rows' s = cell_of rows1 s"
    using Cons.IH [OF _ _ r1(2)] Cons.prems(1,2) by auto
  have "slot cfg c \<notin> slot cfg ` set cs"
    using slot_inj [OF assms(1)] Cons.prems(1,2) by (metis distinct.simps(2) imageE list.set_intros(1,2))
  then have "cell_of rows' (slot cfg c) = entry cfg data c" using r'(4) r1(3) by simp
  then show ?case using r1 r' by auto
qed simp

text \<open>The cells that belong to a stock.\<close>

definition stock_cells :: "Config \<Rightarrow> nat \<Rightarrow> (int \<times> int \<times> int) list" where
  "stock_cells cfg t =
     filter (\<lambda>(x, y, z). x mod stock_num cfg = int t) (cells (loader_nx_matrix cfg) (loader_ny_matrix cfg) (loader_nz_matrix cfg))"

lemma stock_cells_ok: "c \<in> set (stock_cells cfg t) \<longleftrightarrow> cell_ok cfg c \<and> fst c mod stock_num cfg = int t"
  by (cases c) (auto simp: stock_cells_def set_cells cell_ok_def)

lemma row_entries:
  assumes dims: "dims_ok cfg" and rows: "rows_ok cfg rows" and t: "t < nat (stock_num cfg)"
    and e: "\<forall>c. cell_ok cfg c \<longrightarrow> cell_of rows (slot cfg c) = entry cfg data c"
  shows "mset (rows ! t) = mset (map (entry cfg data) (stock_cells cfg t))"
proof -
  let ?g = "\<lambda>c. snd (slot cfg c)" and ?A = "set (stock_cells cfg t)" and ?row = "rows ! t"
  have K: "length ?row = nat (num_order cfg)" using rows t by (simp add: rows_ok_def)
  have S: "0 < stock_num cfg" using dims by (simp add: dims_ok_def)
  have fst: "fst (slot cfg c) = t \<longleftrightarrow> fst c mod stock_num cfg = int t" for c
    using S by (cases c) (auto simp: slot_def)
  have inj: "inj_on ?g ?A"
  proof (rule inj_onI)
    fix c d assume cd: "c \<in> ?A" "d \<in> ?A" "?g c = ?g d"
    then have "fst (slot cfg c) = t" "fst (slot cfg d) = t" by (simp_all add: fst stock_cells_ok)
    with cd(3) have "slot cfg c = slot cfg d" by (metis prod_eqI)
    then show "c = d" using slot_inj [OF dims] cd(1,2) by (auto simp: stock_cells_ok)
  qed
  have "?g ` ?A = {0..<length ?row}"
  proof
    show "?g ` ?A \<subseteq> {0..<length ?row}" using slot_bounds [OF dims] by (auto simp: stock_cells_ok K)
    show "{0..<length ?row} \<subseteq> ?g ` ?A"
    proof
      fix i assume "i \<in> {0..<length ?row}"
      then have *: "cell_ok cfg (unslot cfg (t, i))" "slot cfg (unslot cfg (t, i)) = (t, i)"
        using slot_unslot [OF dims t, of i] by (simp_all add: K)
      then have "unslot cfg (t, i) \<in> ?A" using fst [of "unslot cfg (t, i)"] by (simp add: stock_cells_ok)
      then show "i \<in> ?g ` ?A" using *(2) by (intro image_eqI [where x = "unslot cfg (t, i)"]) simp_all
    qed
  qed
  then have "mset_set {0..<length ?row} = image_mset ?g (mset_set ?A)" using image_mset_mset_set [OF inj] by simp
  moreover have "mset ?row = image_mset ((!) ?row) (mset_set {0..<length ?row})"
    by (metis map_nth mset_map mset_upt)
  ultimately have "mset ?row = image_mset (\<lambda>c. ?row ! ?g c) (mset_set ?A)" by (simp add: comp_def multiset.map_comp)
  also have "\<dots> = image_mset (entry cfg data) (mset_set ?A)"
  proof (rule image_mset_cong)
    fix c assume "c \<in># mset_set ?A"
    then have "cell_ok cfg c" "fst (slot cfg c) = t" using fst by (auto simp: stock_cells_ok)
    then show "?row ! ?g c = entry cfg data c" using e by metis
  qed
  also have "mset_set ?A = mset (stock_cells cfg t)"
    by (intro mset_set_set) (simp add: stock_cells_def distinct_cells)
  finally show ?thesis by simp
qed

lemma sort_key_of_inj: "inj sort_key_of"
  by (rule injI) (auto simp: sort_key_of_def intro!: SortStruct.equality word_uint_eqI)

lemma sort_less_key: "sort_less l r \<longleftrightarrow> sort_key_of l < sort_key_of r"
  by (auto simp: sort_less_def sort_key_of_def less_prod_def word_less_def)

text \<open>Any sorting routine that orders by \<open>operator<\<close> returns the list that \<open>sort_structs\<close> returns.\<close>

lemma sort_structs_unique:
  assumes "mset ys = mset xs" and "sorted_wrt (\<lambda>l r. \<not> sort_less r l) ys"
  shows "ys = sort_structs xs"
proof -
  have "sorted (map sort_key_of ys)" using assms(2) by (simp add: sort_less_key sorted_map not_less)
  moreover have "mset (map sort_key_of ys) = mset (map sort_key_of (sort_structs xs))"
    using assms(1) by (simp add: sort_structs_def)
  ultimately have "map sort_key_of ys = map sort_key_of (sort_structs xs)"
    by (metis properties_for_sort sort_structs_def sorted_sort_key)
  then show ?thesis by (rule map_injective [OF _ sort_key_of_inj])
qed

lemma sorted_ids: "sorted (map ss_order_id (sort_structs xs))"
proof -
  have "sorted (map sort_key_of (sort_structs xs))" by (simp add: sort_structs_def)
  then show ?thesis
    unfolding sorted_map by (rule sorted_wrt_mono_rel [rotated]) (auto simp: sort_key_of_def less_eq_prod_def)
qed

lemma load_matrix_length:
  assumes "dims_ok cfg" and "load_matrix cfg L h5 zero part i = Inr data"
  shows "int (length data) = loader_nx_matrix cfg * loader_ny_matrix cfg * loader_nz_matrix cfg"
proof -
  let ?x = "loader_nx_matrix cfg" and ?y = "loader_ny_matrix cfg" and ?z = "loader_nz_matrix cfg"
  have d: "0 \<le> ?x" "?x \<le> 1024" "0 \<le> ?y" "?y \<le> 1024" "0 \<le> ?z" "?x * ?y * ?z \<le> 2147483647"
    using assms(1) by (simp_all add: dims_ok_def)
  have "?x * ?y \<le> 1024 * 1024" using d by (intro mult_mono) simp_all
  moreover have nn: "0 \<le> ?x * ?y" "0 \<le> ?x * ?y * ?z" using d by (simp_all add: mult_nonneg_nonneg)
  ultimately have "in_i32 ?x" "in_i32 (?x * ?y)" "in_i32 (?x * ?y * ?z)" using d unfolding in_i32_def by linarith+
  then have "foldl (\<lambda>n c. i32 (n * c)) 1 [?x, ?y, ?z] = ?x * ?y * ?z" by simp
  then show ?thesis using assms(2) nn(2)
    by (auto simp: load_matrix_def load_matrix_from_file_def Let_def bindE_eq_Inr simp del: foldl.simps split: if_splits)
qed

text \<open>
  (C34) The trader knows every order of its data file: when the number of stocks divides the first
  dimension of the matrix, the loader returns one list for each stock, sorted by order id, that holds
  exactly the ids in the planes of this stock, each with the coordinates where it stands.
\<close>

theorem order_ids_complete:
  assumes "dims_ok cfg" and "load_matrix cfg L h5 0 part order_id_idx = Inr data"
  shows "\<exists>rows. load_order_id_from_file cfg L h5 part = Inr rows \<and> length rows = nat (stock_num cfg)
    \<and> (\<forall>t < nat (stock_num cfg). sorted (map ss_order_id (rows ! t))
        \<and> mset (rows ! t) = mset (map (entry cfg data) (stock_cells cfg t)))"
proof -
  let ?cs = "cells (loader_nx_matrix cfg) (loader_ny_matrix cfg) (loader_nz_matrix cfg)"
  let ?rows = "replicate (nat (stock_num cfg)) (replicate (nat (num_order cfg)) \<lparr>ss_order_id = 0, ss_coor = 0\<rparr>)"
  have ok: "c \<in> set ?cs \<longleftrightarrow> cell_ok cfg c" for c by (simp add: set_cells cell_ok_def)
  have "rows_ok cfg ?rows" by (simp add: rows_ok_def)
  from fill_structs_cells [OF assms(1) load_matrix_length [OF assms] _ distinct_cells this, of "loader_nx_matrix cfg" "loader_ny_matrix cfg" "loader_nz_matrix cfg"]
  obtain rows where rows: "fill_structs cfg data ?cs ?rows = Inr rows" "rows_ok cfg rows"
    "\<forall>c. cell_ok cfg c \<longrightarrow> cell_of rows (slot cfg c) = entry cfg data c"
    unfolding ok Ball_def by blast
  have "0 < stock_num cfg" using assms(1) by (simp add: dims_ok_def)
  moreover have "0 \<le> num_order cfg"
    using assms(1) by (simp add: num_order_eq dims_ok_def planes_def pos_imp_zdiv_nonneg_iff)
  ultimately have "load_order_id_from_file cfg L h5 part = Inr (map sort_structs rows)"
    using assms(2) rows(1) by (simp add: load_order_id_from_file_def)
  moreover have "length rows = nat (stock_num cfg)" using rows(2) by (simp add: rows_ok_def)
  moreover have "mset (map sort_structs rows ! t) = mset (map (entry cfg data) (stock_cells cfg t))"
    if "t < nat (stock_num cfg)" for t
    using row_entries [OF assms(1) rows(2) that rows(3)] that calculation(2) by (simp add: sort_structs_def)
  ultimately show ?thesis using sorted_ids by auto
qed

definition ex_dims :: Config where
  "ex_dims = initConfig\<lparr>loader_nx_matrix := 2, loader_ny_matrix := 1, loader_nz_matrix := 2, stock_num := 2\<rparr>"

definition ex_h5 :: "int h5" where
  "ex_h5 fname dataset counts offsets = Inr (3, [4, 3, 1, 2])"

theorem order_ids_complete_witness:
  "\<exists>rows. load_order_id_from_file ex_dims (init_loader ex_dims) ex_h5 0 = Inr rows \<and> length rows = 2"
proof -
  have "dims_ok ex_dims" by (simp add: dims_ok_def ex_dims_def initConfig_def)
  moreover have "load_matrix ex_dims (init_loader ex_dims) ex_h5 0 0 order_id_idx = Inr [4, 3, 1, 2]" by code_simp
  ultimately have "\<exists>rows. load_order_id_from_file ex_dims (init_loader ex_dims) ex_h5 0 = Inr rows \<and> length rows = nat (stock_num ex_dims)"
    using order_ids_complete by blast
  then show ?thesis by (simp add: ex_dims_def)
qed

section \<open>Hooks\<close>

text \<open>The target of every hook is a trade that is watched.\<close>

definition watched :: "(int \<rightharpoonup> int) list \<Rightarrow> HookTarget \<Rightarrow> bool" where
  "watched hooked ht \<longleftrightarrow>
     1 \<le> target_stk_code ht \<and> target_stk_code ht \<le> int (length hooked)
     \<and> target_trade_idx ht \<in> dom (hooked ! nat (target_stk_code ht - 1))"

definition hooks_watched :: "(int \<rightharpoonup> HookTarget) list \<Rightarrow> (int \<rightharpoonup> int) list \<Rightarrow> bool" where
  "hooks_watched hooks hooked \<longleftrightarrow> (\<forall>h \<in> set hooks. \<forall>ht \<in> ran h. watched hooked ht)"

lemma watched_update:
  assumes "watched hooked ht" shows "watched (hooked[i := (hooked ! i)(k \<mapsto> v)]) ht"
  using assms by (cases "i < length hooked") (auto simp: watched_def nth_list_update)

lemma fill_hooks_watched:
  assumes "fill_hooks data xys (hooks, hooked) = Inr (hooks', hooked')" and "hooks_watched hooks hooked"
  shows "hooks_watched hooks' hooked'"
  using assms
proof (induction xys arbitrary: hooks hooked)
  case (Cons xy xys)
  obtain x y where xy: "xy = (x, y)" by (cases xy)
  from Cons.prems(1) obtain self code idx a where
    rec: "fill_hooks data xys
      (hooks[nat (x smod 10) := (hooks ! nat (x smod 10))(self \<mapsto> \<lparr>target_stk_code = code, target_trade_idx = idx, arg = a\<rparr>)],
       hooked[nat (code - 1) := (hooked ! nat (code - 1))(idx \<mapsto> -1)]) = Inr (hooks', hooked')"
    and r: "0 \<le> x smod 10" "x smod 10 < int (length hooks)" "0 \<le> code - 1" "code - 1 < int (length hooked)"
    unfolding xy by (auto simp: Let_def bindE_eq_Inr at_Inr)
  let ?ht = "\<lparr>target_stk_code = code, target_trade_idx = idx, arg = a\<rparr>"
  let ?hooks = "hooks[nat (x smod 10) := (hooks ! nat (x smod 10))(self \<mapsto> ?ht)]"
  let ?hooked = "hooked[nat (code - 1) := (hooked ! nat (code - 1))(idx \<mapsto> -1)]"
  have "hooks_watched ?hooks ?hooked"
    unfolding hooks_watched_def
  proof (intro ballI)
    fix h ht assume h: "h \<in> set ?hooks" "ht \<in> ran h"
    have "ht = ?ht \<or> (\<exists>h \<in> set hooks. ht \<in> ran h)"
    proof (cases "h \<in> set hooks")
      case False
      then have "h = (hooks ! nat (x smod 10))(self \<mapsto> ?ht)" using h(1) set_update_subset_insert by fastforce
      then show ?thesis using h(2) r nth_mem [of "nat (x smod 10)" hooks] by (auto simp: ran_def split: if_splits)
    qed (use h in blast)
    then show "watched ?hooked ht"
    proof
      assume "ht = ?ht"
      then show ?thesis using r by (auto simp: watched_def)
    qed (use Cons.prems(2) in \<open>auto simp: hooks_watched_def intro: watched_update\<close>)
  qed
  then show ?case using Cons.IH [OF rec] by blast
qed simp

lemma load_hook_watched:
  assumes "load_hook cfg L h5 = Inr (hooks, hooked)" shows "hooks_watched hooks hooked"
proof -
  have "hooks_watched (replicate n Map.empty) (replicate n Map.empty)" for n by (auto simp: hooks_watched_def)
  then show ?thesis using assms by (auto simp: load_hook_def bindE_eq_Inr split: if_splits intro: fill_hooks_watched)
qed

lemma watched_volume:
  "watched (hooked_trade s) ht \<Longrightarrow> \<exists>v. get_hooked_volume (target_stk_code ht) (target_trade_idx ht) s = Inr v"
  by (auto simp: watched_def get_hooked_volume_def dom_def)

text \<open>No reply changes which trades are watched.\<close>

lemma watched_doms:
  "map dom hooked' = map dom hooked \<Longrightarrow> watched hooked' ht = watched hooked ht"
proof -
  assume *: "map dom hooked' = map dom hooked"
  then have "length hooked' = length hooked" by (metis length_map)
  moreover have "dom (hooked' ! i) = dom (hooked ! i)" if "i < length hooked" for i
    using * that by (metis calculation nth_map)
  moreover have "nat (target_stk_code ht - 1) < length hooked"
    if "1 \<le> target_stk_code ht" "target_stk_code ht \<le> int (length hooked)" using that by linarith
  ultimately show ?thesis unfolding watched_def by metis
qed

lemma update_if_hooked_doms:
  assumes "update_if_hooked code i v s = Inr s'"
  shows "map dom (hooked_trade s') = map dom (hooked_trade s)"
proof -
  have "map dom (hs[k := (hs ! k)(i \<mapsto> v)]) = map dom hs" if "(hs ! k) i \<noteq> None" for hs :: "(int \<rightharpoonup> int) list" and k
    using that by (cases "k < length hs") (auto intro!: nth_equalityI simp: nth_list_update split: if_splits)
  then show ?thesis using assms
    by (auto simp: update_if_hooked_def bindE_eq_Inr at_Inr split: option.splits if_splits)
qed

lemma process_trades_doms:
  "process_trades os ts (s, r) = Inr (s', r') \<Longrightarrow> map dom (hooked_trade s') = map dom (hooked_trade s)"
proof (induction ts arbitrary: s r)
  case (Cons t ts)
  then obtain s1 r1 where "process_trade os t (s, r) = Inr (s1, r1)" "process_trades os ts (s1, r1) = Inr (s', r')"
    by (auto simp: bindE_eq_Inr)
  moreover from this(1) have "map dom (hooked_trade s1) = map dom (hooked_trade s)"
    by (auto simp: process_trade_def Let_def bindE_eq_Inr split: if_splits dest!: update_if_hooked_doms)
  ultimately show ?case using Cons.IH by metis
qed simp

lemma process_acks_hooks: "process_acks as s = Inr s' \<Longrightarrow> hooked_trade s' = hooked_trade s"
proof (induction as arbitrary: s)
  case (Cons a as)
  then obtain s1 where "update_sliding_window_start (a_stk_code a) (i32 (a_order_id a + 1)) s = Inr s1" "process_acks as s1 = Inr s'"
    by (auto simp: bindE_eq_Inr)
  moreover from this(1) have "hooked_trade s1 = hooked_trade s"
    by (auto simp: update_sliding_window_start_def bindE_eq_Inr split: if_splits)
  ultimately show ?case using Cons.IH by metis
qed simp

lemma tradeReceiver_doms:
  assumes "tradeReceiver os msg (s, r) = Inr (s', r')"
  shows "map dom (hooked_trade s') = map dom (hooked_trade s)"
  using assms by (auto simp: tradeReceiver_def process_order_ack_def process_trade_result_def bindE_eq_Inr
      split: if_splits dest: process_trades_doms process_acks_hooks)

inductive receives :: "(int \<Rightarrow> byte list \<Rightarrow> bool \<times> bool) \<Rightarrow> SharedTradeInfo \<times> TradeReceiver \<Rightarrow> SharedTradeInfo \<times> TradeReceiver \<Rightarrow> bool"
  for os where
  start: "receives os sr sr"
| message: "receives os sr (s, r) \<Longrightarrow> tradeReceiver os msg (s, r) = Inr (s', r') \<Longrightarrow> receives os sr (s', r')"

lemma receives_doms: "receives os sr sr' \<Longrightarrow> map dom (hooked_trade (fst sr')) = map dom (hooked_trade (fst sr))"
  by (induction rule: receives.induct) (auto dest: tradeReceiver_doms)

text \<open>
  (C35) Hooks can always be looked up: with the hooks that \<open>load_hook\<close> loads, and after any sequence of
  received messages, the check of an order's hook ends with an answer; the assert that the hooked trade is
  known does not fail.
\<close>

theorem hooks_resolvable:
  assumes "load_hook cfg L h5 = Inr (hooks, hooked)"
    and "receives os (newSharedTradeInfo cfg hooked, r0) (s, r)"
    and "hook tc = hooks" and "sharedInfo tc = s" and "0 \<le> t" and "t < int (length hooks)"
  shows "\<exists>x. check_hook order t tc = Inr x"
proof -
  have "map dom (hooked_trade s) = map dom hooked"
    using receives_doms [OF assms(2)] by (simp add: newSharedTradeInfo_def)
  note w = watched_doms [OF this]
  show ?thesis
  proof (cases "(hooks ! nat t) (o_order_id order)")
    case None
    then show ?thesis using assms(3,5,6) by (simp add: check_hook_def)
  next
    case (Some ht)
    then have "watched hooked ht"
      using load_hook_watched [OF assms(1)] assms(5,6) nth_mem [of "nat t" hooks]
      unfolding hooks_watched_def by (metis nat_less_iff ranI)
    then have "\<exists>v. get_hooked_volume (target_stk_code ht) (target_trade_idx ht) s = Inr v"
      using w watched_volume by blast
    then show ?thesis using Some assms(3-6) by (auto simp: check_hook_def)
  qed
qed

lemma fill_hooks_length:
  "fill_hooks data xys (hooks, hooked) = Inr (hooks', hooked') \<Longrightarrow> length hooks' = length hooks"
proof (induction xys arbitrary: hooks hooked)
  case (Cons xy xys)
  then show ?case by (cases xy) (auto simp: Let_def bindE_eq_Inr)
qed simp

text \<open>Loading succeeds when every hook names a stock.\<close>

lemma fill_hooks_total:
  assumes "\<forall>(x, y) \<in> set xys. 0 \<le> x \<and> x < 10 \<and> 0 \<le> y \<and> y < 100"
    and "length data = 4000" and "\<forall>v \<in> set data. 1 \<le> v \<and> v \<le> int (length hooked)" and "10 \<le> length hooks"
  shows "\<exists>r. fill_hooks data xys (hooks, hooked) = Inr r"
  using assms
proof (induction xys arbitrary: hooks hooked)
  case (Cons xy xys)
  obtain x y where xy: "xy = (x, y)" by (cases xy)
  have r: "0 \<le> x" "x < 10" "0 \<le> y" "y < 100" using Cons.prems(1) xy by auto
  have "at data (x * 400 + y * 4 + j) = Inr (data ! nat (x * 400 + y * 4 + j))" if "0 \<le> j" "j < 4" for j
    using r that Cons.prems(2) by simp
  from this [of 0] this [of 1] this [of 2] this [of 3]
  have at: "at data (x * 400 + y * 4) = Inr (data ! nat (x * 400 + y * 4))"
    "at data (x * 400 + y * 4 + 1) = Inr (data ! nat (x * 400 + y * 4 + 1))"
    "at data (x * 400 + y * 4 + 2) = Inr (data ! nat (x * 400 + y * 4 + 2))"
    "at data (x * 400 + y * 4 + 3) = Inr (data ! nat (x * 400 + y * 4 + 3))" by simp_all
  have "data ! nat (x * 400 + y * 4 + 1) \<in> set data" using r Cons.prems(2) by (intro nth_mem) simp
  then have code: "1 \<le> data ! nat (x * 400 + y * 4 + 1)" "data ! nat (x * 400 + y * 4 + 1) \<le> int (length hooked)"
    using Cons.prems(3) by blast+
  have h: "at hooked (data ! nat (x * 400 + y * 4 + 1) - 1) = Inr (hooked ! nat (data ! nat (x * 400 + y * 4 + 1) - 1))"
    using code by simp
  have x: "at hooks (x mod 10) = Inr (hooks ! nat (x mod 10))" using r Cons.prems(4) by simp
  have m: "x smod 10 = x mod 10" using r by simp
  show ?case using Cons.IH Cons.prems r by (simp add: xy Let_def m at h x)
qed simp

theorem hooks_resolvable_witness:
  "\<exists>hooks hooked x. load_hook initConfig (init_loader initConfig) (\<lambda>_ _ _ _. Inr (3, replicate 4000 1)) = Inr (hooks, hooked)
    \<and> check_hook \<lparr>o_stk_code = 1, o_order_id = 1, o_direction = 1, o_type = 0, o_price = 0, o_volume = 1\<rparr> 0 \<lparr>price_limits = [], hook = hooks, sorted_order_structs = [], next_sorted_struct_idx = [],
        oim = \<lparr>direction_matrix = [], type_matrix = [], price_matrix = [], volume_matrix = []\<rparr>,
        sharedInfo = newSharedTradeInfo initConfig hooked\<rparr> = Inr x"
proof -
  let ?h5 = "\<lambda>_ _ _ _. Inr (3, replicate 4000 1)"
  have sn: "stock_num initConfig = 10" by (simp add: initConfig_def)
  have "load_matrix_from_file (init_loader initConfig) ?h5 0 (hook_fname (init_loader initConfig)) ''hook'' [10, 100, 4] [0, 0, 0] = Inr (replicate 4000 (1 :: int))"
    by (simp add: load_matrix_from_file_def init_loader_def in_i32_def)
  moreover have "\<exists>r. fill_hooks (replicate 4000 1) (concat (map (\<lambda>x. map (\<lambda>y. (x, y)) [0..99]) [0..9])) (replicate 10 Map.empty, replicate 10 Map.empty) = Inr r"
    by (rule fill_hooks_total) auto
  ultimately obtain hooks hooked where h: "load_hook initConfig (init_loader initConfig) ?h5 = Inr (hooks, hooked)"
    by (auto simp: load_hook_def sn)
  then have "0 < length hooks" by (auto simp: load_hook_def sn bindE_eq_Inr dest!: fill_hooks_length)
  then show ?thesis
    using hooks_resolvable [OF h receives.start [of "\<lambda>_ _. (True, True)" "(_, newTradeReceiver initConfig)"],
        of "\<lparr>price_limits = [], hook = hooks, sorted_order_structs = [], next_sorted_struct_idx = [],
          oim = \<lparr>direction_matrix = [], type_matrix = [], price_matrix = [], volume_matrix = []\<rparr>,
          sharedInfo = newSharedTradeInfo initConfig hooked\<rparr>" 0] h by auto
qed

section \<open>Cache files\<close>

definition order_at :: "CacheFiles \<Rightarrow> int \<Rightarrow> nat \<Rightarrow> Order" where
  "order_at c code k =
     \<lparr>o_stk_code = code, o_order_id = c_order_id c ! k, o_direction = c_direction c ! k, o_type = c_type c ! k,
      o_price = c_price c ! k, o_volume = c_volume c ! k\<rparr>"

definition cache_length :: "nat \<Rightarrow> CacheFiles \<Rightarrow> bool" where
  "cache_length n c \<longleftrightarrow> length (c_order_id c) = n \<and> length (c_direction c) = n \<and> length (c_type c) = n
     \<and> length (c_price c) = n \<and> length (c_volume c) = n"

text \<open>The cache files that hold a list of orders.\<close>

definition cache_of :: "Order list \<Rightarrow> CacheFiles" where
  "cache_of xs = \<lparr>c_order_id = map o_order_id xs, c_direction = map o_direction xs, c_type = map o_type xs,
     c_price = map o_price xs, c_volume = map o_volume xs\<rparr>"

lemma dump_struct_order:
  assumes "matrix_order cfg m (t + 1) s (loader_nx_matrix cfg) (loader_ny_matrix cfg) (loader_nz_matrix cfg) = Inr x"
  shows "dump_struct cfg m t s (cache_of xs) = Inr (cache_of (xs @ [x]))" and "o_stk_code x = t + 1"
  using assms by (auto simp: matrix_order_def dump_struct_def cache_of_def Let_def bindE_eq_Inr split: if_splits)

lemma dump_structs_orders:
  assumes "mapE (\<lambda>s. matrix_order cfg m (t + 1) s (loader_nx_matrix cfg) (loader_ny_matrix cfg) (loader_nz_matrix cfg)) ss = Inr ys"
  shows "dump_structs cfg m t ss (cache_of xs) = Inr (cache_of (xs @ ys)) \<and> (\<forall>y \<in> set ys. o_stk_code y = t + 1)"
  using assms
proof (induction ss arbitrary: xs ys)
  case (Cons s ss)
  then obtain x zs where x: "matrix_order cfg m (t + 1) s (loader_nx_matrix cfg) (loader_ny_matrix cfg) (loader_nz_matrix cfg) = Inr x"
    "mapE (\<lambda>s. matrix_order cfg m (t + 1) s (loader_nx_matrix cfg) (loader_ny_matrix cfg) (loader_nz_matrix cfg)) ss = Inr zs" "ys = x # zs"
    by (auto simp: bindE_eq_Inr)
  then show ?case using Cons.IH [OF x(2), of "xs @ [x]"] dump_struct_order [OF x(1)] by simp
qed simp

text \<open>The state of a generator that has given out the first \<open>k\<close> orders of the files \<open>c\<close>, having read \<open>p\<close> parts.\<close>

definition part :: "nat \<Rightarrow> nat \<Rightarrow> 'a list \<Rightarrow> 'a list" where
  "part len p xs = take len (drop (len * (p - 1)) xs)"

definition og_at :: "nat \<Rightarrow> CacheFiles \<Rightarrow> nat \<Rightarrow> nat \<Rightarrow> OrderGenerator \<Rightarrow> bool" where
  "og_at len c p k g \<longleftrightarrow>
     1 \<le> p \<and> p \<le> 10 \<and> cur_partition g = int p \<and> start_idx g = int k - int (len * (p - 1)) \<and> len * (p - 1) \<le> k \<and> k \<le> len * p
     \<and> f_order_id g = drop (len * p) (c_order_id c) \<and> f_direction g = drop (len * p) (c_direction c)
     \<and> f_type g = drop (len * p) (c_type c) \<and> f_price g = drop (len * p) (c_price c) \<and> f_volume g = drop (len * p) (c_volume c)
     \<and> b_order_id g = part len p (c_order_id c) \<and> b_direction g = part len p (c_direction c)
     \<and> b_type g = part len p (c_type c) \<and> b_price g = part len p (c_price c) \<and> b_volume g = part len p (c_volume c)"

lemma read_array_part:
  assumes "len * Suc p \<le> length xs" and "length buf = len"
  shows "read_array len (drop (len * p) xs) buf = (part len (Suc p) xs, drop (len * Suc p) xs)"
  using assms by (simp add: read_array_def part_def add.commute)

lemma part_length: "1 \<le> p \<Longrightarrow> len * p \<le> length xs \<Longrightarrow> length (part len p xs) = len"
  by (cases p) (simp_all add: part_def)

lemma part_at:
  assumes "len * p \<le> length xs" "1 \<le> p" "len * (p - 1) \<le> k" "k < len * p"
  shows "at (part len p xs) (int k - int (len * (p - 1))) = Inr (xs ! k)"
proof -
  let ?a = "len * (p - 1)"
  have "len * p = ?a + len" using assms(2) by (cases p) simp_all
  then have "k - ?a < len" using assms(3,4) by linarith
  moreover have "?a \<le> length xs" using \<open>len * p = ?a + len\<close> assms(1) by linarith
  ultimately have "part len p xs ! (k - ?a) = xs ! k" using assms(3) by (simp only: part_def nth_take nth_drop le_add_diff_inverse)
  moreover have "int k - int ?a = int (k - ?a)" using assms(3) by (simp only: of_nat_diff)
  ultimately show ?thesis using part_length [OF assms(2,1)] \<open>k - ?a < len\<close> by (simp only: at_int)
qed

lemma og_at_start:
  assumes "og_at len c p k g" and "k < len * p" shows "start_idx g < int len"
proof -
  have *: "1 \<le> p" "start_idx g = int k - int (len * (p - 1))" using assms(1) unfolding og_at_def by blast+
  then have "len * p = len * (p - 1) + len" by (cases p) simp_all
  then show ?thesis using * assms(2) by linarith
qed

lemma og_at_load:
  assumes g: "og_at len c p k g" and k: "k = len * p" "p < 10"
    and len: "len * Suc p \<le> length (c_order_id c)" "len * Suc p \<le> length (c_direction c)"
      "len * Suc p \<le> length (c_type c)" "len * Suc p \<le> length (c_price c)" "len * Suc p \<le> length (c_volume c)"
  shows "\<exists>g'. og_load_data len g = (True, g') \<and> og_at len c (Suc p) k g'"
proof -
  have p: "1 \<le> p" "cur_partition g = int p"
    and f: "f_order_id g = drop (len * p) (c_order_id c)" "f_direction g = drop (len * p) (c_direction c)"
      "f_type g = drop (len * p) (c_type c)" "f_price g = drop (len * p) (c_price c)" "f_volume g = drop (len * p) (c_volume c)"
    and b: "b_order_id g = part len p (c_order_id c)" "b_direction g = part len p (c_direction c)"
      "b_type g = part len p (c_type c)" "b_price g = part len p (c_price c)" "b_volume g = part len p (c_volume c)"
    using g unfolding og_at_def by blast+
  have le: "len * p \<le> n" if "len * Suc p \<le> n" for n using that by simp
  have r: "read_array len (drop (len * p) xs) (part len p xs) = (part len (Suc p) xs, drop (len * Suc p) xs)"
    if "len * Suc p \<le> length xs" for xs :: "int list"
    using read_array_part [OF that] part_length [OF p(1) le [OF that]] by blast
  have rd: "read_array len (drop (len * p) xs) (part len p xs) = (part len (Suc p) xs, drop (len * Suc p) xs)"
    if "len * Suc p \<le> length xs" for xs :: "double list"
    using read_array_part [OF that] part_length [OF p(1) le [OF that]] by blast
  show ?thesis
    using k p(2) by (simp add: og_load_data_def f b r rd len og_at_def del: mult_Suc_right)
qed

lemma og_at_generate:
  assumes c: "cache_length n c" "10 * len \<le> n" and g: "og_at len c p k g" and k: "k < 10 * len"
  shows "\<exists>g' p'. og_generate_order len code g = Inr (Some (order_at c code k), g') \<and> og_at len c p' (Suc k) (og_commit g')"
proof -
  have step: "og_generate_order len code h = Inr (Some (order_at c code k), h) \<and> og_at len c q (Suc k) (og_commit h)"
    if h: "og_at len c q k h" "k < len * q" for q h
  proof -
    have q: "1 \<le> q" "q \<le> 10" "len * (q - 1) \<le> k" using h(1) by (simp_all add: og_at_def)
    have "len * q \<le> n" using c(2) mult_le_mono2 [OF q(2), of len] by linarith
    then have "len * q \<le> length (c_order_id c)" "len * q \<le> length (c_direction c)" "len * q \<le> length (c_type c)"
      "len * q \<le> length (c_price c)" "len * q \<le> length (c_volume c)" using c(1) by (simp_all add: cache_length_def)
    note at = this [THEN part_at, OF q(1,3) h(2)]
    have "start_idx h < int len" using h by (rule og_at_start)
    then show ?thesis using h at q by (auto simp: og_generate_order_def og_at_def order_at_def og_commit_def)
  qed
  show ?thesis
  proof (cases "k < len * p")
    case True
    then show ?thesis using step [OF g] by blast
  next
    case False
    have p: "1 \<le> p" "p \<le> 10" "k = len * p" using g False by (auto simp: og_at_def)
    have "p < 10" using p(3) k by (metis mult.commute nat_mult_less_cancel_disj)
    have "len * Suc p \<le> n" using c(2) mult_le_mono2 [of "Suc p" 10 len] \<open>p < 10\<close> by linarith
    then have len: "len * Suc p \<le> length (c_order_id c)" "len * Suc p \<le> length (c_direction c)"
      "len * Suc p \<le> length (c_type c)" "len * Suc p \<le> length (c_price c)" "len * Suc p \<le> length (c_volume c)"
      using c(1) by (simp_all add: cache_length_def)
    have "len * p = len * (p - 1) + len" using p(1) by (cases p) simp_all
    then have ge: "start_idx g \<ge> int len" using g p(3) unfolding og_at_def by linarith
    obtain g1 where g1: "og_load_data len g = (True, g1)" "og_at len c (Suc p) k g1"
      using og_at_load [OF g p(3) \<open>p < 10\<close> len] by blast
    have "0 < len" using k by (cases len) simp_all
    then have "k < len * Suc p" using p(3) by simp
    note s = step [OF g1(2) this]
    have "og_generate_order len code g = og_generate_order len code g1"
    proof -
      have "start_idx g1 < int len" using g1(2) \<open>k < len * Suc p\<close> by (rule og_at_start)
      then show ?thesis using ge g1(1) by (simp add: og_generate_order_def)
    qed
    then show ?thesis using s by metis
  qed
qed

text \<open>The first \<open>n\<close> orders of a generator, each committed before the next.\<close>

fun og_run :: "nat \<Rightarrow> nat \<Rightarrow> int \<Rightarrow> OrderGenerator \<Rightarrow> (Order option list \<times> OrderGenerator) result" where
  "og_run 0 len code g = Inr ([], g)"
| "og_run (Suc n) len code g =
     bindE (og_generate_order len code g) (\<lambda>(x, g).
       bindE (og_run n len code (og_commit g)) (\<lambda>(xs, g). Inr (x # xs, g)))"

lemma og_run_orders:
  assumes "cache_length m c" "10 * len \<le> m" and "og_at len c p k g" and "k + n \<le> 10 * len"
  shows "\<exists>p' g'. og_run n len code g = Inr (map (\<lambda>i. Some (order_at c code i)) [k..<k + n], g') \<and> og_at len c p' (k + n) g'"
  using assms(3,4)
proof (induction n arbitrary: p k g)
  case (Suc n)
  obtain g1 p1 where g1: "og_generate_order len code g = Inr (Some (order_at c code k), g1)" "og_at len c p1 (Suc k) (og_commit g1)"
    using og_at_generate [OF assms(1,2) Suc.prems(1)] Suc.prems(2) by fastforce
  obtain p' g' where g': "og_run n len code (og_commit g1) = Inr (map (\<lambda>i. Some (order_at c code i)) [Suc k..<Suc k + n], g')"
    "og_at len c p' (Suc k + n) g'"
    using Suc.IH [OF g1(2)] Suc.prems(2) by auto
  have "[k..<k + Suc n] = k # [Suc k..<Suc k + n]" by (simp add: upt_conv_Cons)
  then show ?case using g1(1) g' by (intro exI [of _ p'] exI [of _ g']) simp
qed auto

lemma og_at_new:
  assumes "cache_length m c" "nat (og_length cfg) \<le> m" "cache_length (nat (og_length cfg)) junk"
  shows "og_at (nat (og_length cfg)) c 1 0 (newOrderGenerator cfg c junk)"
proof -
  let ?len = "nat (og_length cfg)"
  have r: "read_array ?len xs buf = (part ?len 1 xs, drop ?len xs)" if "?len \<le> length xs" "length buf = ?len"
    for xs buf :: "int list" using that by (simp add: read_array_def part_def)
  have rd: "read_array ?len xs buf = (part ?len 1 xs, drop ?len xs)" if "?len \<le> length xs" "length buf = ?len"
    for xs buf :: "double list" using that by (simp add: read_array_def part_def)
  show ?thesis using assms by (simp add: newOrderGenerator_def og_load_data_def og_at_def cache_length_def r rd)
qed

lemma og_at_end:
  assumes "og_at len c p (10 * len) g" and "0 < len"
  shows "\<exists>g'. og_generate_order len code g = Inr (None, g')"
proof -
  have *: "p \<le> 10" "10 * len \<le> len * p" "cur_partition g = int p" "1 \<le> p" "start_idx g = int (10 * len) - int (len * (p - 1))"
    using assms(1) unfolding og_at_def by blast+
  then have "10 * len \<le> p * len" by (simp only: mult.commute)
  then have p: "p = 10" using * assms(2) by simp
  then have "start_idx g = int len" using *(5) by simp
  then show ?thesis using p *(3) by (simp add: og_generate_order_def og_load_data_def)
qed

lemma og_length_remainder:
  assumes "int k = num_order cfg"
  shows "k - 10 * nat (og_length cfg) \<le> 9"
proof -
  have "og_length cfg = num_order cfg sdiv 10" by (simp add: og_length_def num_order_def)
  then have "og_length cfg = int (k div 10)" using assms [symmetric] by (simp add: zdiv_int)
  then show ?thesis by simp
qed

text \<open>
  (C36) The cache files replay the matrices: the files that the dump of a stock writes for its sorted
  entries, read back by the generator in ten parts, give the first ten times \<open>length\<close> of the orders that \<open>OrderInfoMatrix\<close> generates
  for these entries, unchanged and in the same order, whatever the arrays held before; then the generator reports the
  end. When the stock has the number of entries that the loader gives it, \<open>length\<close> is a tenth of this number, rounded down,
  and the orders of the remainder, at most nine, are in the files but are not read.
\<close>

theorem cache_replays:
  assumes "mapE (\<lambda>s. matrix_order cfg m (t + 1) s (loader_nx_matrix cfg) (loader_ny_matrix cfg) (loader_nz_matrix cfg)) ss = Inr orders"
    and "0 < og_length cfg" and "10 * nat (og_length cfg) \<le> length orders" and "cache_length (nat (og_length cfg)) junk"
  shows "\<exists>c g g'. dump_structs cfg m t ss no_cache = Inr c
    \<and> og_run (10 * nat (og_length cfg)) (nat (og_length cfg)) (t + 1) (newOrderGenerator cfg c junk)
        = Inr (map Some (take (10 * nat (og_length cfg)) orders), g)
    \<and> og_generate_order (nat (og_length cfg)) (t + 1) g = Inr (None, g')
    \<and> (int (length orders) = num_order cfg \<longrightarrow> length orders - 10 * nat (og_length cfg) \<le> 9)"
proof -
  let ?len = "nat (og_length cfg)" and ?c = "cache_of orders"
  have nc: "no_cache = cache_of []" by (simp add: no_cache_def cache_of_def)
  have d: "dump_structs cfg m t ss no_cache = Inr ?c" "\<forall>x \<in> set orders. o_stk_code x = t + 1"
    using dump_structs_orders [OF assms(1), of "[]"] by (simp_all add: nc)
  have cl: "cache_length (length orders) ?c" by (simp add: cache_length_def cache_of_def)
  have at: "order_at ?c (t + 1) i = orders ! i" if "i < length orders" for i
    using that d(2) nth_mem [OF that] by (auto simp: order_at_def cache_of_def intro!: Order.equality)
  obtain p g where g: "og_run (10 * ?len) ?len (t + 1) (newOrderGenerator cfg ?c junk)
      = Inr (map (\<lambda>i. Some (order_at ?c (t + 1) i)) [0..<10 * ?len], g)" "og_at ?len ?c p (10 * ?len) g"
    using og_run_orders [OF cl assms(3) og_at_new [OF cl _ assms(4)], of "10 * ?len" "t + 1"] assms(3) by auto
  have "map (\<lambda>i. Some (order_at ?c (t + 1) i)) [0..<10 * ?len] = map Some (take (10 * ?len) orders)"
    using assms(3) at by (intro nth_equalityI) simp_all
  moreover have "length orders - 10 * ?len \<le> 9" if "int (length orders) = num_order cfg"
    using og_length_remainder [OF that] by simp
  ultimately show ?thesis using d(1) g(1) og_at_end [OF g(2), of "t + 1"] assms(2) by auto
qed

definition ex_cache_cfg :: Config where
  "ex_cache_cfg = initConfig\<lparr>loader_nx_matrix := 1, loader_ny_matrix := 1, loader_nz_matrix := 10, stock_num := 1\<rparr>"

definition ex_cache_oim :: OrderInfoMatrix where
  "ex_cache_oim = \<lparr>direction_matrix = replicate 10 1, type_matrix = replicate 10 0, price_matrix = replicate 10 0, volume_matrix = replicate 10 5\<rparr>"

definition ex_cache_structs :: "SortStruct list" where
  "ex_cache_structs = map (\<lambda>z. \<lparr>ss_order_id = z + 1, ss_coor = set_coor 0 0 z\<rparr>) [0..9]"

theorem cache_replays_witness:
  "\<exists>c g xs. dump_structs ex_cache_cfg ex_cache_oim 0 ex_cache_structs no_cache = Inr c
    \<and> og_run 10 1 1 (newOrderGenerator ex_cache_cfg c (cache_of [\<lparr>o_stk_code = 0, o_order_id = 0, o_direction = 0, o_type = 0, o_price = 0, o_volume = 0\<rparr>]))
        = Inr (map Some xs, g)"
proof -
  have len: "nat (og_length ex_cache_cfg) = 1" "0 < og_length ex_cache_cfg" by code_simp+
  have "isl (mapE (\<lambda>s. matrix_order ex_cache_cfg ex_cache_oim (0 + 1) s (loader_nx_matrix ex_cache_cfg)
    (loader_ny_matrix ex_cache_cfg) (loader_nz_matrix ex_cache_cfg)) ex_cache_structs) = False" by code_simp
  then obtain orders where o: "mapE (\<lambda>s. matrix_order ex_cache_cfg ex_cache_oim (0 + 1) s (loader_nx_matrix ex_cache_cfg)
    (loader_ny_matrix ex_cache_cfg) (loader_nz_matrix ex_cache_cfg)) ex_cache_structs = Inr orders"
    by (metis sum.collapse(2))
  have "length orders = 10" using mapE_Inr(1) [OF o] by (simp add: ex_cache_structs_def)
  moreover have "cache_length 1 (cache_of [\<lparr>o_stk_code = 0, o_order_id = 0, o_direction = 0, o_type = 0, o_price = 0, o_volume = 0\<rparr>])"
    by (simp add: cache_length_def cache_of_def)
  ultimately show ?thesis using cache_replays [OF o len(2)] unfolding len(1) by fastforce
qed

end
