(* ===== verification/Float_Properties.thy ===== *)
theory Float_Properties
  imports Floats
begin

text \<open>
  Rounding is monotone: a result that lies below (above) a finite double before it is rounded does so after it. The
  value of a double is compared as an integer, \<open>mant * 2^(expo + 2200)\<close>; the shift makes all exponents that occur
  natural numbers.
\<close>

section \<open>Binary digits\<close>

lemma bit_length_bounds:
  "0 < m \<Longrightarrow> \<exists>n. bit_length m = int n + 1 \<and> 2 ^ n \<le> m \<and> m < 2 ^ Suc n"
proof (induction m rule: bit_length.induct)
  case (1 m)
  show ?case
  proof (cases "m = 1")
    case True
    then show ?thesis by (intro exI [of _ 0]) (simp add: bit_length.simps)
  next
    case False
    then have "0 < m div 2" "\<not> m \<le> 0" using "1.prems" by auto
    then obtain n where n: "bit_length (m div 2) = int n + 1" "2 ^ n \<le> m div 2" "m div 2 < 2 ^ Suc n"
      using "1.IH" by blast
    then show ?thesis using \<open>\<not> m \<le> 0\<close>
      by (intro exI [of _ "Suc n"]) (auto simp: bit_length.simps [of m])
  qed
qed

lemma round_even_ge: "N * 2 ^ s \<le> m \<Longrightarrow> N \<le> round_even m s"
proof -
  assume "N * 2 ^ s \<le> m"
  then have "N \<le> m div 2 ^ s" by (simp add: zdiv_mono1 [of "N * 2 ^ s" m "2 ^ s", simplified])
  then show ?thesis by (auto simp: round_even_def Let_def)
qed

lemma round_even_le:
  assumes "m \<le> N * 2 ^ s"
  shows "round_even m s \<le> N"
proof (cases "m mod 2 ^ s = 0")
  case True
  have "m div 2 ^ s \<le> N" using zdiv_mono1 [OF assms, of "2 ^ s"] by simp
  then show ?thesis by (simp add: round_even_def Let_def True)
next
  case False
  moreover have "0 \<le> m mod 2 ^ s" by simp
  ultimately have "0 < m mod 2 ^ s" by linarith
  moreover define q r where "q = m div 2 ^ s" and "r = m mod 2 ^ s"
  moreover have "m = q * 2 ^ s + r" unfolding q_def r_def by (simp only: div_mult_mod_eq)
  ultimately have "q * 2 ^ s < N * 2 ^ s" using assms by linarith
  then have "m div 2 ^ s < N" by (simp add: mult_less_cancel_right q_def)
  then show ?thesis by (auto simp: round_even_def Let_def)
qed

section \<open>Values\<close>

definition dval :: "int \<Rightarrow> int \<Rightarrow> int" where
  "dval m e = m * 2 ^ nat (e + 2200)"

lemma dmag_bounds: "0 \<le> dmag x" "dmag x < 9223372036854775808"
  by (simp_all add: dmag_def)

lemma expo_ge: "- 1074 \<le> expo x"
proof -
  have "0 \<le> expo_field x" using dmag_bounds [of x] by (simp add: expo_field_def)
  then show ?thesis by (simp add: expo_def)
qed

lemma mant_bounds: "0 \<le> mant x" "mant x < 9007199254740992" "4503599627370496 \<le> mant x \<or> expo x = - 1074"
  by (auto simp: mant_def expo_def)

lemma dmag_split: "dmag x = (expo x + 1074) * 4503599627370496 + mant x"
  by (auto simp: mant_def expo_def expo_field_def algebra_simps)

text \<open>Exponent and mantissa, put together as in a double, are ordered as the values.\<close>

lemma fields_mono:
  assumes "0 \<le> k" "k \<le> 9007199254740992" "4503599627370496 \<le> k \<or> q = - 1074" "- 1074 \<le> q"
    and "0 \<le> m" "m \<le> 9007199254740992" "4503599627370496 \<le> m \<or> e = - 1074" "- 1074 \<le> e"
    and "dval k q \<le> dval m e"
  shows "q * 4503599627370496 + k \<le> e * 4503599627370496 + m"
proof -
  consider "q = e" | "q < e" | "e < q" by linarith
  then show ?thesis
  proof cases
    case 1
    then show ?thesis using assms(9) by (simp add: dval_def)
  next
    case 2
    then have "4503599627370496 \<le> m" "q + 1 \<le> e" using assms(4,7) by auto
    then show ?thesis using assms(2) by linarith
  next
    case 3
    then have k: "4503599627370496 \<le> k" using assms(3,8) by auto
    obtain d where d: "q = e + 1 + int d" using 3 by (metis add_diff_cancel_left' zle_iff_zadd zless_imp_add1_zle diff_add_cancel)
    then have "nat (q + 2200) = nat (e + 2200) + 1 + d" using assms(8) by simp
    then have "k * 2 * 2 ^ d \<le> m" using assms(9) by (simp add: dval_def power_add mult_ac)
    moreover have "k * 2 \<le> k * 2 * 2 ^ d" using k by simp
    moreover have "k * 2 * 2 ^ d \<ge> 9007199254740992 * 2 ^ d" using k by simp
    ultimately have "2 * k \<le> m" and "9007199254740992 * 2 ^ d \<le> m" by linarith+
    then have "k = 4503599627370496" "m = 9007199254740992" "(2::int) ^ d \<le> 1" using k assms(6) by linarith+
    moreover have "d = 0"
    proof (rule ccontr)
      assume "d \<noteq> 0"
      then have "(2::int) ^ 1 \<le> 2 ^ d" by (intro power_increasing) simp_all
      then show False using \<open>(2::int) ^ d \<le> 1\<close> by simp
    qed
    ultimately show ?thesis using d by simp
  qed
qed

lemma dval_mono: "dmag x \<le> dmag y \<Longrightarrow> dval (mant x) (expo x) \<le> dval (mant y) (expo y)"
proof (rule ccontr)
  assume le: "dmag x \<le> dmag y" and n: "\<not> dval (mant x) (expo x) \<le> dval (mant y) (expo y)"
  then have "dmag y \<le> dmag x"
    using fields_mono [of "mant y" "expo y" "mant x" "expo x"] mant_bounds [of x] mant_bounds [of y] expo_ge [of x] expo_ge [of y]
    by (simp add: dmag_split)
  then have "dmag x = dmag y" using le by simp
  then have "mant x = mant y" "expo x = expo y" by (simp_all add: mant_def expo_def expo_field_def)
  then show False using n by simp
qed

section \<open>Rounding\<close>

lemma make_double_dmag: "0 \<le> k \<Longrightarrow> k < 9223372036854775808 \<Longrightarrow> dmag (make_double neg k) = k \<and> dsign (make_double neg k) = neg"
proof -
  assume k: "0 \<le> k" "k < 9223372036854775808"
  have "uint (word_of_int x :: 64 word) = x" if "0 \<le> x" "x < 18446744073709551616" for x
    using that by (simp add: uint_word_of_int)
  from this [of k] this [of "k + 9223372036854775808"]
  have "uint (make_double neg k) = k + (if neg then 9223372036854775808 else 0)" unfolding make_double_def using k by simp
  then show ?thesis using k by (simp add: dmag_def dsign_def)
qed

lemma nat_shift: "q \<le> e \<Longrightarrow> - 2200 \<le> q \<Longrightarrow> nat (e + 2200) = nat (e - q) + nat (q + 2200)"
  by simp

text \<open>The exponent and the mantissa that \<open>round_double\<close> chooses.\<close>

definition rq :: "int \<Rightarrow> int \<Rightarrow> int" where
  "rq m e = max (e + bit_length m - 53) (- 1074)"

definition rk :: "int \<Rightarrow> int \<Rightarrow> int" where
  "rk m e = (if rq m e \<le> e then m * 2 ^ nat (e - rq m e) else round_even m (nat (rq m e - e)))"

lemma round_double_fields:
  "m \<noteq> 0 \<Longrightarrow> round_double neg m e = make_double neg (min dinf ((rq m e + 1074) * 4503599627370496 + rk m e))"
  by (simp add: round_double_def rq_def rk_def Let_def)

text \<open>Below and above a multiple of \<open>2^rq\<close> that is not below \<open>2^52\<close> or above \<open>2^53\<close> of them.\<close>

lemma rk_le:
  assumes "dval m e \<le> dval N (rq m e)" and "- 2200 \<le> e"
  shows "rk m e \<le> N"
proof (cases "rq m e \<le> e")
  case True
  have "- 2200 \<le> rq m e" by (simp add: rq_def)
  note nat_shift [OF True this]
  then show ?thesis using assms(1) True by (simp add: dval_def rk_def power_add mult.assoc [symmetric])
next
  case False
  then have "nat (rq m e + 2200) = nat (rq m e - e) + nat (e + 2200)" using assms(2) by simp
  then have "m \<le> N * 2 ^ nat (rq m e - e)" using assms(1) by (simp add: dval_def power_add mult.assoc [symmetric])
  then show ?thesis using False by (simp add: rk_def round_even_le)
qed

lemma rk_ge:
  assumes "dval N (rq m e) \<le> dval m e" and "- 2200 \<le> e"
  shows "N \<le> rk m e"
proof (cases "rq m e \<le> e")
  case True
  have "- 2200 \<le> rq m e" by (simp add: rq_def)
  note nat_shift [OF True this]
  then show ?thesis using assms(1) True by (simp add: dval_def rk_def power_add mult.assoc [symmetric])
next
  case False
  then have "nat (rq m e + 2200) = nat (rq m e - e) + nat (e + 2200)" using assms(2) by simp
  then have "N * 2 ^ nat (rq m e - e) \<le> m" using assms(1) by (simp add: dval_def power_add mult.assoc [symmetric])
  then show ?thesis using False by (simp add: rk_def round_even_ge)
qed

lemma dval_range:
  assumes "0 < m" and "- 2200 \<le> e"
  shows "dval m e < dval 9007199254740992 (rq m e)" and "rq m e \<noteq> - 1074 \<Longrightarrow> dval 4503599627370496 (rq m e) \<le> dval m e"
proof -
  obtain n where n: "bit_length m = int n + 1" "2 ^ n \<le> m" "m < 2 ^ Suc n" using bit_length_bounds [OF assms(1)] by blast
  have "Suc n + nat (e + 2200) \<le> 53 + nat (rq m e + 2200)" using n(1) assms(2) by (simp add: rq_def)
  then have "(2 :: int) ^ (Suc n + nat (e + 2200)) \<le> 2 ^ (53 + nat (rq m e + 2200))" by (intro power_increasing) simp_all
  moreover have "(2 :: int) ^ (53 + nat (rq m e + 2200)) = 9007199254740992 * 2 ^ nat (rq m e + 2200)" by (simp add: power_add)
  moreover have "m * 2 ^ nat (e + 2200) < 2 ^ (Suc n + nat (e + 2200))" unfolding power_add using n(3) by (intro mult_strict_right_mono) simp_all
  ultimately show "dval m e < dval 9007199254740992 (rq m e)" unfolding dval_def by linarith
  assume "rq m e \<noteq> - 1074"
  then have "52 + nat (rq m e + 2200) = n + nat (e + 2200)" using n(1) assms(2) by (auto simp: rq_def)
  then have "(2 :: int) ^ 52 * 2 ^ nat (rq m e + 2200) = 2 ^ n * 2 ^ nat (e + 2200)" by (simp only: power_add [symmetric])
  moreover have "2 ^ n * 2 ^ nat (e + 2200) \<le> m * 2 ^ nat (e + 2200)" using n(2) by simp
  ultimately show "dval 4503599627370496 (rq m e) \<le> dval m e" by (simp add: dval_def)
qed

lemma rk_range:
  assumes "0 < m" and "- 2200 \<le> e"
  shows "0 \<le> rk m e" and "rk m e \<le> 9007199254740992" and "4503599627370496 \<le> rk m e \<or> rq m e = - 1074" and "- 1074 \<le> rq m e"
  using rk_le [of m e 9007199254740992] rk_ge [of 4503599627370496 m e] rk_ge [of 0 m e] dval_range [OF assms] assms
  by (auto simp: dval_def rq_def)

text \<open>A finite double on the grid of the rounded number is an integer there.\<close>

lemma on_grid:
  assumes "q \<le> expo y" and "- 1074 \<le> q"
  shows "dval (mant y) (expo y) = dval (mant y * 2 ^ nat (expo y - q)) q"
proof -
  have "nat (expo y + 2200) = nat (expo y - q) + nat (q + 2200)" using assms by simp
  then show ?thesis by (simp add: dval_def power_add mult.assoc)
qed

lemma dval_below:
  assumes "expo y < q"
  shows "dval (mant y) (expo y) < dval 4503599627370496 q"
proof -
  have "nat (expo y + 2200) + 1 \<le> nat (q + 2200)" using assms expo_ge [of y] by simp
  then have "(2 :: int) ^ (nat (expo y + 2200) + 1) \<le> 2 ^ nat (q + 2200)" by (intro power_increasing) simp_all
  then have "2 * 2 ^ nat (expo y + 2200) \<le> (2 :: int) ^ nat (q + 2200)" by simp
  moreover have "mant y * 2 ^ nat (expo y + 2200) < 9007199254740992 * 2 ^ nat (expo y + 2200)"
    using mant_bounds [of y] by (intro mult_strict_right_mono) simp_all
  ultimately show ?thesis unfolding dval_def by linarith
qed

lemma rk_below:
  assumes "0 < m" and "- 2200 \<le> e" and "dval m e \<le> dval (mant y) (expo y)"
  shows "(rq m e + 1074) * 4503599627370496 + rk m e \<le> dmag y"
proof -
  have "rq m e \<le> expo y"
  proof (rule ccontr)
    assume "\<not> rq m e \<le> expo y"
    then show False using dval_below [of y "rq m e"] dval_range(2) [OF assms(1,2)] expo_ge [of y] assms(3) by fastforce
  qed
  note g = on_grid [OF this rk_range(4) [OF assms(1,2)]]
  have "rk m e \<le> mant y * 2 ^ nat (expo y - rq m e)" using rk_le [OF _ assms(2)] assms(3) g by simp
  then have "dval (rk m e) (rq m e) \<le> dval (mant y) (expo y)" unfolding g by (simp add: dval_def)
  then show ?thesis
    using fields_mono [OF rk_range [OF assms(1,2)], of "mant y" "expo y"] mant_bounds [of y] expo_ge [of y]
    by (simp add: dmag_split [of y])
qed

lemma rk_above:
  assumes "0 < m" and "- 2200 \<le> e" and "dval (mant y) (expo y) \<le> dval m e"
  shows "dmag y \<le> (rq m e + 1074) * 4503599627370496 + rk m e"
proof -
  have "dval (mant y) (expo y) \<le> dval (rk m e) (rq m e)"
  proof (cases "rq m e \<le> expo y")
    case True
    note g = on_grid [OF True rk_range(4) [OF assms(1,2)]]
    have "mant y * 2 ^ nat (expo y - rq m e) \<le> rk m e" using rk_ge [OF _ assms(2)] assms(3) g by simp
    then show ?thesis unfolding g by (simp add: dval_def)
  next
    case False
    then have "dval 4503599627370496 (rq m e) \<le> dval (rk m e) (rq m e)"
      using rk_range(3) [OF assms(1,2)] expo_ge [of y] by (auto simp: dval_def)
    then show ?thesis using dval_below [of y "rq m e"] False by simp
  qed
  then show ?thesis
    using fields_mono [of "mant y" "expo y" "rk m e" "rq m e"] rk_range [OF assms(1,2)] mant_bounds [of y] expo_ge [of y]
    by (simp add: dmag_split [of y])
qed

text \<open>The two bounds, for a rounded result against a finite double.\<close>

lemma round_double_le:
  assumes "0 \<le> m" and "- 2200 \<le> e" and "dval m e \<le> dval (mant y) (expo y)" and "dmag y < dinf"
  shows "dmag (round_double neg m e) \<le> dmag y \<and> dsign (round_double neg m e) = neg"
proof (cases "m = 0")
  case True
  then show ?thesis using make_double_dmag [of 0 neg] dmag_bounds [of y] by (simp add: round_double_def)
next
  case False
  then have "0 < m" using assms(1) by simp
  note r = rk_below [OF this assms(2,3)] rk_range(1,4) [OF this assms(2)]
  then show ?thesis using make_double_dmag [of "(rq m e + 1074) * 4503599627370496 + rk m e" neg] assms(4) False
    by (simp add: round_double_fields dinf_def)
qed

lemma round_double_ge:
  assumes "0 < m" and "- 2200 \<le> e" and "dval (mant y) (expo y) \<le> dval m e" and "dmag y < dinf"
  shows "dmag y \<le> dmag (round_double neg m e) \<and> dmag (round_double neg m e) \<le> dinf \<and> dsign (round_double neg m e) = neg"
proof -
  note r = rk_above [OF assms(1-3)] rk_range(1,4) [OF assms(1,2)]
  then show ?thesis using make_double_dmag [of "min dinf ((rq m e + 1074) * 4503599627370496 + rk m e)" neg] assms(1,4)
    by (simp add: round_double_fields dinf_def)
qed

end
