(* ===== verification/Price_Limits.thy ===== *)
theory Price_Limits
  imports Loader Float_Properties
begin

text \<open>
  The price limits of \<open>load_prev_close\<close> (\<open>src/src/common/loader.hpp\<close>): ten percent below and above the previous
  closing price, in the arithmetic of doubles.
\<close>

section \<open>Ten percent\<close>

text \<open>A price: zero or positive, and finite.\<close>

definition price_ok :: "double \<Rightarrow> bool" where
  "price_ok p \<longleftrightarrow> \<not> dsign p \<and> dmag p < dinf"

lemma price_not_special: "price_ok p \<Longrightarrow> \<not> isnan p \<and> \<not> isinf p"
  by (simp add: price_ok_def isnan_def isinf_def dinf_def)

lemma tenth_fields: "mant tenth = 7205759403792794" "expo tenth = - 56" "price_ok tenth" "dmag tenth \<noteq> 0"
  by (simp_all add: tenth_def mant_def expo_def expo_field_def dmag_def price_ok_def dsign_def dinf_def)

lemma mul_tenth:
  assumes "price_ok p"
  shows "price_ok (dmul p tenth)" and "dmag (dmul p tenth) \<le> dmag p"
proof -
  have "nat (expo p + 2200) = 56 + nat (expo p - 56 + 2200)" using expo_ge [of p] by simp
  then have "(2 :: int) ^ nat (expo p + 2200) = 72057594037927936 * 2 ^ nat (expo p - 56 + 2200)"
    by (simp add: power_add)
  moreover have "mant p * 7205759403792794 * 2 ^ nat (expo p - 56 + 2200) \<le> mant p * 72057594037927936 * 2 ^ nat (expo p - 56 + 2200)"
    using mant_bounds [of p] by (intro mult_right_mono) simp_all
  ultimately have v: "dval (mant p * 7205759403792794) (expo p - 56) \<le> dval (mant p) (expo p)"
    by (simp add: dval_def mult.assoc)
  have "dmul p tenth = round_double False (mant p * 7205759403792794) (expo p - 56)"
    using price_not_special [OF assms] price_not_special [OF tenth_fields(3)] assms tenth_fields
    by (simp add: dmul_def price_ok_def)
  then have "dmag (dmul p tenth) \<le> dmag p \<and> \<not> dsign (dmul p tenth)"
    using round_double_le [OF _ _ v, of False] mant_bounds [of p] expo_ge [of p] assms by (simp add: price_ok_def)
  then show "price_ok (dmul p tenth)" "dmag (dmul p tenth) \<le> dmag p" using assms by (simp_all add: price_ok_def)
qed

section \<open>Sums and differences of prices\<close>

lemma dval_common:
  assumes "e \<le> x" and "- 1074 \<le> e"
  shows "dval (m * 2 ^ nat (x - e)) e = dval m x"
proof -
  have "nat (x + 2200) = nat (x - e) + nat (e + 2200)" using assms by simp
  then show ?thesis by (simp add: dval_def power_add)
qed

lemma dval_add: "dval (a + b) e = dval a e + dval b e"
  by (simp add: dval_def distrib_right)

lemma dval_nonneg: "0 \<le> m \<Longrightarrow> 0 \<le> dval m e"
  by (simp add: dval_def)

lemma dadd_ge:
  assumes "price_ok p" and "price_ok q"
  shows "\<not> dsign (dadd p q) \<and> dmag p \<le> dmag (dadd p q) \<and> dmag (dadd p q) \<le> dinf"
proof -
  define e where "e = min (expo p) (expo q)"
  define a b where "a = mant p * 2 ^ nat (expo p - e)" and "b = mant q * 2 ^ nat (expo q - e)"
  have e: "- 1074 \<le> e" "e \<le> expo p" "e \<le> expo q" using expo_ge [of p] expo_ge [of q] by (simp_all add: e_def)
  have ab: "0 \<le> a" "0 \<le> b" using mant_bounds(1) by (simp_all add: a_def b_def)
  have v: "dval (mant p) (expo p) \<le> dval (a + b) e"
    using dval_common [OF e(2,1), of "mant p"] dval_nonneg [OF ab(2), of e] by (simp add: dval_add a_def)
  have s: "dadd p q = (if a + b = 0 then make_double False 0 else round_double False (a + b) e)"
    using price_not_special [OF assms(1)] price_not_special [OF assms(2)] assms ab
    by (simp add: dadd_def price_ok_def Let_def e_def [symmetric] a_def [symmetric] b_def [symmetric])
  show ?thesis
  proof (cases "a + b = 0")
    case True
    then have "a = 0" using ab by linarith
    then have "mant p = 0" by (simp add: a_def)
    then have "dmag p = 0" using mant_bounds(3) [of p] by (simp add: dmag_split)
    then show ?thesis using s True make_double_dmag [of 0 False] by (simp add: dinf_def)
  next
    case False
    then show ?thesis using round_double_ge [OF _ _ v, of False] ab e s assms(1) by (simp add: price_ok_def)
  qed
qed

lemma dneg_fields: "price_ok q \<Longrightarrow> dmag (dneg q) = dmag q \<and> dsign (dneg q)"
  using make_double_dmag [of "dmag q" "\<not> dsign q"] dmag_bounds [of q] by (simp add: dneg_def price_ok_def)

lemma dsub_le:
  assumes "price_ok p" and "price_ok q" and "dmag q \<le> dmag p"
  shows "\<not> dsign (dsub p q) \<and> dmag (dsub p q) \<le> dmag p"
proof -
  define e where "e = min (expo p) (expo q)"
  define a b where "a = mant p * 2 ^ nat (expo p - e)" and "b = mant q * 2 ^ nat (expo q - e)"
  have e: "- 1074 \<le> e" "e \<le> expo p" "e \<le> expo q" using expo_ge [of p] expo_ge [of q] by (simp_all add: e_def)
  have va: "dval a e = dval (mant p) (expo p)" and vb: "dval b e = dval (mant q) (expo q)"
    using dval_common e by (simp_all add: a_def b_def)
  have "0 \<le> b" using mant_bounds(1) by (simp add: b_def)
  have "dval b e \<le> dval a e" using dval_mono [OF assms(3)] va vb by simp
  then have ba: "b \<le> a" by (simp add: dval_def)
  have v: "dval (a - b) e \<le> dval (mant p) (expo p)" using dval_add [of "a - b" b e] dval_nonneg [OF \<open>0 \<le> b\<close>, of e] va by simp
  have n: "mant (dneg q) = mant q" "expo (dneg q) = expo q" "dsign (dneg q)" "\<not> isnan (dneg q)" "\<not> isinf (dneg q)"
    using dneg_fields [OF assms(2)] price_not_special [OF assms(2)] by (simp_all add: mant_def expo_def expo_field_def isnan_def isinf_def)
  have s: "dsub p q = (if a - b = 0 then make_double False 0 else round_double False (a - b) e)"
    using price_not_special [OF assms(1)] n assms(1) ba
    by (simp add: dsub_def dadd_def price_ok_def Let_def e_def [symmetric] a_def [symmetric] b_def [symmetric])
  show ?thesis
    using round_double_le [OF _ _ v, of False] ba e s assms(1) make_double_dmag [of 0 False] dmag_bounds [of p]
    by (simp add: price_ok_def)
qed

section \<open>The limits of each stock\<close>

lemma fill_limits_result:
  assumes "\<forall>t \<in> set ts. 0 \<le> t \<and> t < int (length data) \<and> t < 10" and "length low = 10" and "length high = 10"
  shows "\<exists>low' high'. fill_limits data ts (low, high) = Inr (low', high') \<and> length low' = 10 \<and> length high' = 10
    \<and> (\<forall>i < 10. low' ! i = (if int i \<in> set ts then dsub (data ! i) (dmul (data ! i) tenth) else low ! i)
         \<and> high' ! i = (if int i \<in> set ts then dadd (data ! i) (dmul (data ! i) tenth) else high ! i))"
  using assms
proof (induction ts arbitrary: low high)
  case (Cons t ts)
  let ?p = "data ! nat t"
  let ?l = "low[nat t := dsub ?p (dmul ?p tenth)]" and ?h = "high[nat t := dadd ?p (dmul ?p tenth)]"
  have t: "0 \<le> t" "t < int (length data)" "t < 10" using Cons.prems(1) by auto
  have "fill_limits data (t # ts) (low, high) = fill_limits data ts (?l, ?h)"
    using t Cons.prems(2,3) by simp
  moreover have "int i = t \<longleftrightarrow> i = nat t" for i using t(1) by auto
  ultimately show ?case using Cons.IH [of ?l ?h] Cons.prems t by (auto simp: nth_list_update)
qed simp

text \<open>
  (C37) The price limits enclose the previous closing price: for up to ten stocks whose closing prices are finite and
  not negative, the limits are loaded, and despite rounding the lower limit is not negative and not above
  the price and the upper limit is not below it; neither is a NaN.
\<close>

theorem price_limits_enclose:
  assumes "get_input_fname L part price_idx = Inr fname"
    and "load_matrix_from_file L h5 0 fname ''prev_close'' [stock_num cfg] [0] = Inr data"
    and "0 \<le> stock_num cfg" and "stock_num cfg \<le> 10" and "\<forall>p \<in> set data. price_ok p"
  shows "\<exists>low high. load_prev_close cfg L h5 part = Inr [low, high]
    \<and> (\<forall>t < nat (stock_num cfg). low ! t = dsub (data ! t) (dmul (data ! t) tenth) \<and> high ! t = dadd (data ! t) (dmul (data ! t) tenth)
         \<and> \<not> isnan (low ! t) \<and> \<not> isnan (high ! t) \<and> \<not> dlt (low ! t) 0 \<and> \<not> dlt (data ! t) (low ! t) \<and> \<not> dlt (high ! t) (data ! t))"
proof -
  have len: "length data = nat (stock_num cfg)"
    using assms(2-4) by (auto simp: load_matrix_from_file_def in_i32_def bindE_eq_Inr Let_def split: if_splits)
  have "\<forall>t \<in> set [0..stock_num cfg - 1]. 0 \<le> t \<and> t < int (length data) \<and> t < 10" using assms(3,4) len by auto
  from fill_limits_result [OF this, of "replicate 10 0" "replicate 10 0"]
  obtain low high where f: "fill_limits data [0..stock_num cfg - 1] (replicate 10 0, replicate 10 0) = Inr (low, high)"
    and lh: "\<And>i. i < 10 \<Longrightarrow> int i < stock_num cfg \<Longrightarrow> low ! i = dsub (data ! i) (dmul (data ! i) tenth) \<and> high ! i = dadd (data ! i) (dmul (data ! i) tenth)"
    by (auto split: if_splits)
  have "\<not> isnan (low ! t) \<and> \<not> isnan (high ! t) \<and> \<not> dlt (low ! t) 0 \<and> \<not> dlt (data ! t) (low ! t) \<and> \<not> dlt (high ! t) (data ! t)"
    if t: "t < nat (stock_num cfg)" for t
  proof -
    have p: "price_ok (data ! t)" using assms(5) t len by simp
    note m = mul_tenth [OF p]
    have k: "int t < stock_num cfg" "t < 10" using t assms(4) by auto
    note l = dsub_le [OF p m] and h = dadd_ge [OF p m(1)]
    show ?thesis using lh [OF k(2,1)] l h p
      by (auto simp: dlt_def dkey_def isnan_def price_ok_def dinf_def dmag_def)
  qed
  then show ?thesis using f lh assms(1,2,4) by (auto simp: load_prev_close_def)
qed

theorem price_limits_enclose_witness:
  "\<exists>low high. load_prev_close initConfig (init_loader initConfig) (\<lambda>_ _ _ _. Inr (1, replicate 10 0x4024000000000000)) 0 = Inr [low, high]
    \<and> \<not> dlt (low ! 3) 0 \<and> \<not> dlt 0x4024000000000000 (low ! 3) \<and> \<not> dlt (high ! 3) 0x4024000000000000"
proof -
  let ?h5 = "\<lambda>_ _ _ _. Inr (1, replicate 10 0x4024000000000000)"
  have n: "stock_num initConfig = 10" by (simp add: initConfig_def)
  have f: "get_input_fname (init_loader initConfig) 0 price_idx = Inr ''price1.h5''"
    by (simp add: get_input_fname_def init_loader_def idx_of_def initConfig_def)
  have m: "load_matrix_from_file (init_loader initConfig) ?h5 0 ''price1.h5'' ''prev_close'' [stock_num initConfig] [0]
      = Inr (replicate 10 (0x4024000000000000 :: double))"
    by (simp add: load_matrix_from_file_def init_loader_def n in_i32_def)
  have "price_ok 0x4024000000000000" by (simp add: price_ok_def dsign_def dmag_def dinf_def)
  from price_limits_enclose [OF f m] this n show ?thesis by fastforce
qed

end
