(* ===== verification/Util.thy ===== *)
theory Util
  imports Trader Float_Properties
begin

text \<open>
  The utilities: \<open>src/src/utils/util.cpp\<close>, \<open>util.h\<close>, \<open>arch.h\<close> and \<open>timer.hpp\<close>, the thread class of
  \<open>src/src/common/thread.cpp\<close> and the process-wide objects of \<open>src/src/common/global.hpp\<close>. The clocks and the
  answers of the operating system are arguments.
\<close>

section \<open>Cores\<close>

definition PER_SOCKET_CORES :: int where
  "PER_SOCKET_CORES = 12"

definition NUM_SOCKETS :: int where
  "NUM_SOCKETS = 2"

definition CPUS :: "int list list" where
  "CPUS = [[0, 2, 4, 6, 8, 10, 12, 14, 16, 18, 20, 22], [1, 3, 5, 7, 9, 11, 13, 15, 17, 19, 21, 23]]"

definition CorePerSocket :: int where
  "CorePerSocket = PER_SOCKET_CORES"

definition TotalCores :: int where
  "TotalCores = PER_SOCKET_CORES * NUM_SOCKETS"

definition choose_nic :: "int \<Rightarrow> int" where
  "choose_nic thread_id = (if thread_id > PER_SOCKET_CORES then 0 else 1)"

text \<open>The core on which the calling thread runs from now on.\<close>

definition BindToCore :: "int \<Rightarrow> int result" where
  "BindToCore t_id =
     (if \<not> t_id < PER_SOCKET_CORES * NUM_SOCKETS then Inl Abort
      else bindE (at CPUS (t_id sdiv PER_SOCKET_CORES)) (\<lambda>row. at row (t_id smod PER_SOCKET_CORES)))"

definition getCpuListener :: int where "getCpuListener = TotalCores - 1"

definition getCpuGC :: int where "getCpuGC = TotalCores - 1"

definition getCpuLogList :: int where "getCpuLogList = TotalCores - 1"

definition getCpuClientTxn :: int where "getCpuClientTxn = TotalCores - 2"

definition getCpuClientQry :: int where "getCpuClientQry = TotalCores - 2"

definition getCpuTxn :: int where "getCpuTxn = 0"

definition getCpuQry :: int where "getCpuQry = TotalCores - 3"

section \<open>Times\<close>

text \<open>The two halves of the time stamp counter.\<close>

definition rdtsc :: "32 word \<Rightarrow> 32 word \<Rightarrow> 64 word" where
  "rdtsc lo hi = or (ucast lo) (push_bit 32 (ucast hi))"

record timespec =
  tv_sec :: int
  tv_nsec :: int

definition get_usec :: "timespec \<Rightarrow> 64 word" where
  "get_usec tp = word_of_int (tv_sec tp * 1000 * 1000 + tv_nsec tp sdiv 1000)"

definition TimeToMs :: "timespec \<Rightarrow> 64 word" where
  "TimeToMs t = word_of_int (tv_sec t * 1000 + tv_nsec t sdiv 1000000)"

definition DiffTimespec :: "timespec \<Rightarrow> timespec \<Rightarrow> int result" where
  "DiffTimespec end_t start =
     (let diff = (if tv_sec end_t > tv_sec start then i32 ((tv_sec end_t - tv_sec start) * 1000) else 0)
      in if \<not> (diff \<noteq> 0 \<or> tv_sec end_t = tv_sec start) then Inl Abort
         else if tv_nsec end_t > tv_nsec start
              then Inr (i32 (diff + (tv_nsec end_t - tv_nsec start) sdiv 1000000))
              else Inr (i32 (diff - (tv_nsec start - tv_nsec end_t) sdiv 1000000)))"

definition Round :: "int \<Rightarrow> int \<Rightarrow> int result" where
  "Round a b = (if b = 0 then Inl Undefined else Inr (i32 (i32 (a + b) - a smod b)))"

section \<open>Breakdown timer\<close>

text \<open>\<open>temp\<close> is indeterminate until \<open>start\<close>.\<close>

record Breakdown_Timer =
  bt_sum :: "64 word"
  bt_count :: "64 word"
  bt_temp :: "64 word option"
  bt_buffer :: "64 word list"

definition max_elems :: nat where
  "max_elems = 1000000"

definition newBreakdown_Timer :: Breakdown_Timer where
  "newBreakdown_Timer = \<lparr>bt_sum = 0, bt_count = 0, bt_temp = None, bt_buffer = []\<rparr>"

definition bt_start :: "64 word \<Rightarrow> Breakdown_Timer \<Rightarrow> Breakdown_Timer" where
  "bt_start tsc b = b\<lparr>bt_temp := Some tsc\<rparr>"

definition bt_emplace :: "64 word \<Rightarrow> Breakdown_Timer \<Rightarrow> Breakdown_Timer" where
  "bt_emplace res b =
     (let b = b\<lparr>bt_sum := bt_sum b + res, bt_count := bt_count b + 1\<rparr>
      in if length (bt_buffer b) \<ge> max_elems then b else b\<lparr>bt_buffer := bt_buffer b @ [res]\<rparr>)"

definition bt_end :: "64 word \<Rightarrow> Breakdown_Timer \<Rightarrow> Breakdown_Timer result" where
  "bt_end tsc b = (case bt_temp b of None \<Rightarrow> Inl Undefined | Some t \<Rightarrow> Inr (bt_emplace (tsc - t) b))"

definition bt_report :: "Breakdown_Timer \<Rightarrow> double \<times> Breakdown_Timer" where
  "bt_report b =
     (if bt_count b = 0 then (0, b)
      else (ddiv (double_of_u64 (bt_sum b)) (double_of_u64 (bt_count b)), b\<lparr>bt_sum := 0, bt_count := 0\<rparr>))"

text \<open>The doubles \<open>0.1\<close>, \<open>0.01\<close> and \<open>100.0\<close>, and \<open>std::floor (n * x / 100.0)\<close>.\<close>

definition d0_1 :: double where
  "d0_1 = 0x3fb999999999999a"

definition d0_01 :: double where
  "d0_01 = 0x3f847ae147ae147b"

definition d100 :: double where
  "d100 = 0x4059000000000000"

definition share_of :: "nat \<Rightarrow> double \<Rightarrow> nat" where
  "share_of n x = nat (dfloor (ddiv (dmul (double_of_u64 (of_nat n)) x) d100))"

definition calculate_detailed :: "Breakdown_Timer \<Rightarrow> Breakdown_Timer" where
  "calculate_detailed b =
     (if bt_buffer b = [] then b
      else let kept = sort (drop (share_of (length (bt_buffer b)) d0_1 + 1) (bt_buffer b));
               num = share_of (length kept) d0_01
           in b\<lparr>bt_buffer := take (length kept - num) kept\<rparr>)"

text \<open>The reports convert the element to \<open>double\<close>; an empty buffer gives 0.\<close>

definition report_at :: "int \<Rightarrow> Breakdown_Timer \<Rightarrow> double result" where
  "report_at idx b = bindE (at (bt_buffer b) idx) (\<lambda>v. Inr (double_of_u64 v))"

definition report_medium :: "Breakdown_Timer \<Rightarrow> double result" where
  "report_medium b =
     (if bt_buffer b = [] then Inr 0 else report_at (int (length (bt_buffer b) div 2)) b)"

definition percent_idx :: "nat \<Rightarrow> nat \<Rightarrow> int" where
  "percent_idx p n = dfloor (ddiv (double_of_u64 (of_nat (n * p))) d100)"

definition report_90 :: "Breakdown_Timer \<Rightarrow> double result" where
  "report_90 b = (if bt_buffer b = [] then Inr 0 else report_at (percent_idx 90 (length (bt_buffer b))) b)"

definition report_99 :: "Breakdown_Timer \<Rightarrow> double result" where
  "report_99 b = (if bt_buffer b = [] then Inr 0 else report_at (percent_idx 99 (length (bt_buffer b))) b)"

definition bt_size :: "Breakdown_Timer \<Rightarrow> nat" where
  "bt_size b = length (bt_buffer b)"

text \<open>The static variable \<open>one_sec_cycle\<close> is measured once; \<open>t0\<close> and \<open>t1\<close> are the counters around the pause.\<close>

definition get_one_second_cycle :: "64 word \<Rightarrow> 64 word \<Rightarrow> 64 word \<Rightarrow> 64 word" where
  "get_one_second_cycle t0 t1 one_sec_cycle = (if one_sec_cycle = 0 then t1 - t0 else one_sec_cycle)"

text \<open>
  A positive \<open>float\<close> as mantissa and exponent, rounded to 24 digits; conversion, division (computed with 64
  further digits and one that stands for a remainder), and the multiplication by \<open>1000.0\<close>, which is exact as a \<open>double\<close>.
\<close>

definition float_round :: "int \<Rightarrow> int \<Rightarrow> int \<times> int" where
  "float_round m e = (let s = bit_length m - 24 in if s \<le> 0 then (m, e) else (round_even m (nat s), e + s))"

definition float_of_u64 :: "64 word \<Rightarrow> int \<times> int" where
  "float_of_u64 n = float_round (uint n) 0"

definition float_div :: "int \<times> int \<Rightarrow> int \<times> int \<Rightarrow> int \<times> int" where
  "float_div x y =
     (let m = fst x * 2 ^ 64
      in float_round (2 * (m div fst y) + (if m mod fst y = 0 then 0 else 1)) (snd x - snd y - 65))"

text \<open>\<open>None\<close>: infinity or no number, when a second has no cycles. \<open>cycle\<close> is what \<open>get_one_second_cycle\<close> returns.\<close>

definition get_diff_ms :: "64 word \<Rightarrow> 64 word \<Rightarrow> Breakdown_Timer \<Rightarrow> (int \<times> int) option result" where
  "get_diff_ms now cycle b =
     (case bt_temp b of
        None \<Rightarrow> Inl Undefined
      | Some t \<Rightarrow>
          Inr (if cycle = 0 then None
               else let q = float_div (float_of_u64 (now - t)) (float_of_u64 cycle) in Some (float_round (fst q * 1000) (snd q))))"

section \<open>Threads\<close>

text \<open>
  The \<open>pthread\<close> calls of \<open>start\<close> and \<open>join\<close>, in their order, with their return values as an argument; the
  result is the list of calls made.
\<close>

datatype pcall = AttrInit | SetDetached | Create | AttrDestroy | Join

fun pcalls :: "(pcall \<Rightarrow> int) \<Rightarrow> pcall list \<Rightarrow> pcall list result" where
  "pcalls rc [] = Inr []"
| "pcalls rc (p # ps) = (if rc p = 0 then bindE (pcalls rc ps) (\<lambda>qs. Inr (p # qs)) else Inl Abort)"

definition thread_start :: "(pcall \<Rightarrow> int) \<Rightarrow> bool \<Rightarrow> pcall list result" where
  "thread_start rc daemon = pcalls rc ([AttrInit] @ (if daemon then [SetDetached] else []) @ [Create, AttrDestroy])"

definition thread_join :: "(pcall \<Rightarrow> int) \<Rightarrow> bool \<Rightarrow> pcall list result" where
  "thread_join rc daemon = (if daemon then Inl Abort else pcalls rc [Join])"

text \<open>\<open>binding\<close> puts the thread on core \<open>2 * id\<close>.\<close>

definition thread_binding :: "(int \<Rightarrow> int) \<Rightarrow> int \<Rightarrow> int result" where
  "thread_binding set_affinity thread_no =
     (if set_affinity (2 * thread_no) = 0 then Inr (2 * thread_no) else Inl Abort)"

text \<open>A thread's body on the state of the process: what it throws, if anything, and the state it leaves.\<close>

type_synonym 's body = "'s \<Rightarrow> error option \<times> 's"

definition thread_run :: "'s body option \<Rightarrow> 's body" where
  "thread_run body s = (case body of None \<Rightarrow> (Some Abort, s) | Some f \<Rightarrow> f s)"

definition on_complete :: "('s \<Rightarrow> 's) list \<Rightarrow> 's \<Rightarrow> 's" where
  "on_complete callbacks s = fold (\<lambda>cb s. cb s) callbacks s"

definition register_completion_callback :: "('s \<Rightarrow> 's) \<Rightarrow> ('s \<Rightarrow> 's) list \<Rightarrow> bool \<times> ('s \<Rightarrow> 's) list" where
  "register_completion_callback cb callbacks = (True, callbacks @ [cb])"

text \<open>The callbacks run whether or not the body throws; an abort of the body ends the process before them.\<close>

definition pthread_bootstrap :: "'s body \<Rightarrow> ('s \<Rightarrow> 's) list \<Rightarrow> 's body" where
  "pthread_bootstrap run callbacks s =
     (case run s of
        (Some Abort, s') \<Rightarrow> (Some Abort, s')
      | (e, s') \<Rightarrow> (e, on_complete callbacks s'))"

section \<open>Process-wide objects\<close>

text \<open>The pointer of \<open>Global<T>\<close>; \<open>New\<close> and \<open>Delete\<close> also give the objects they destroy.\<close>

definition global_set_allocated :: "'t option \<Rightarrow> 't option \<Rightarrow> 't option" where
  "global_set_allocated val p = val"

definition global_delete :: "'t option \<Rightarrow> 't list \<times> 't option" where
  "global_delete p = (case p of Some x \<Rightarrow> ([x], None) | None \<Rightarrow> ([], None))"

definition global_new :: "'t \<Rightarrow> 't option \<Rightarrow> 't list \<times> 't option" where
  "global_new x p = (fst (global_delete p), Some x)"

section \<open>Lemmas\<close>

declare smod_nonneg [simp] sdiv_nonneg [simp]

text \<open>The 24 threads that may be bound run on 24 different cores.\<close>

lemma BindToCore_cases:
  assumes "0 \<le> t" and "t < 24"
  shows "BindToCore t = Inr (if t < 12 then 2 * t else 2 * (t - 12) + 1)"
proof -
  have c: "CPUS = [map (\<lambda>k. 2 * k) [0..11], map (\<lambda>k. 2 * k + 1) [0..11]]"
    by (simp add: CPUS_def upto_rec1)
  have "t div 12 = (if t < 12 then 0 else 1)" "t mod 12 = (if t < 12 then t else t - 12)"
    using assms by (simp_all, presburger+)
  then show ?thesis using assms
    by (auto simp: BindToCore_def PER_SOCKET_CORES_def NUM_SOCKETS_def c nth_upto)
qed

lemma BindToCore_inj: "inj_on BindToCore {0..<TotalCores}"
  by (rule inj_onI) (auto simp: BindToCore_cases TotalCores_def PER_SOCKET_CORES_def NUM_SOCKETS_def split: if_splits; presburger)

text \<open>The counter is the number with these two halves.\<close>

lemma rdtsc_value: "uint (rdtsc lo hi) = uint lo + 2 ^ 32 * uint hi"
proof -
  have l: "uint (ucast lo :: 64 word) = uint lo" "uint lo < 2 ^ 32" and h: "uint (ucast hi :: 64 word) = uint hi" "uint hi < 2 ^ 32"
    using unsigned_less [of lo, where 'a = int] unsigned_less [of hi, where 'a = int]
    by (simp_all add: unsigned_ucast_eq take_bit_int_eq_self)
  have "and (ucast lo :: 64 word) (push_bit 32 (ucast hi)) = 0"
    by (rule bit_eqI) (auto simp: bit_simps dest: bit_imp_le_length)
  then have "rdtsc lo hi = ucast lo + push_bit 32 (ucast hi)" by (simp add: rdtsc_def disjunctive_add_eq_or)
  moreover have "uint (push_bit 32 (ucast hi) :: 64 word) = 2 ^ 32 * uint hi"
    unfolding unsigned_push_bit_eq h(1) using h(2) by (simp add: push_bit_eq_mult take_bit_int_eq_self mult.commute)
  ultimately show ?thesis using l h by (simp add: uint_plus_simple_iff uint_add_lem [THEN iffD1])
qed

text \<open>A difference of exactly one second is reported as 1000 ms: the mantissa 16384000 times \<open>2 ^ (-14)\<close>.\<close>

lemma float_of_u64_pos: "n \<noteq> 0 \<Longrightarrow> 0 < fst (float_of_u64 n)"
proof -
  assume "n \<noteq> 0"
  then have n: "0 < uint n" by (simp add: less_le unsigned_eq_0_iff)
  show ?thesis
  proof (cases "bit_length (uint n) - 24 \<le> 0")
    case False
    have "2 ^ nat (bit_length (uint n) - 24) \<le> uint n"
    proof -
      obtain k where k: "bit_length (uint n) = int k + 1" "2 ^ k \<le> uint n" using bit_length_bounds [OF n] by blast
      then have "(2 :: int) ^ nat (bit_length (uint n) - 24) \<le> 2 ^ k" by (intro power_increasing) simp_all
      then show ?thesis using k(2) by (rule order_trans)
    qed
    then have "1 \<le> uint n div 2 ^ nat (bit_length (uint n) - 24)" using zdiv_mono1 [of "2 ^ nat (bit_length (uint n) - 24)" "uint n" "2 ^ nat (bit_length (uint n) - 24)"] by simp
    then show ?thesis using False by (auto simp: float_of_u64_def float_round_def round_even_def Let_def)
  qed (simp add: float_of_u64_def float_round_def Let_def n)
qed

lemma get_diff_ms_second:
  assumes "bt_temp b = Some t" and "now - t = cycle" and "cycle \<noteq> 0"
  shows "get_diff_ms now cycle b = Inr (Some (16384000, -14))"
proof -
  have "float_div (float_of_u64 cycle) (float_of_u64 cycle) = float_round (2 ^ 65) (-65)"
    using float_of_u64_pos [OF assms(3)] by (simp add: float_div_def Let_def)
  also have "\<dots> = (8388608, -23)" by code_simp
  finally have "float_div (float_of_u64 cycle) (float_of_u64 cycle) = (8388608, -23)" .
  moreover have "float_round (8388608 * 1000) (-23) = (16384000, -14)" by code_simp
  ultimately show ?thesis using assms by (simp add: get_diff_ms_def Let_def)
qed

text \<open>Up to a difference of 23 days the result is within a millisecond of the exact difference.\<close>

lemma DiffTimespec_correct:
  assumes "0 \<le> tv_nsec s" "tv_nsec s < 1000000000" "0 \<le> tv_nsec e" "tv_nsec e < 1000000000"
    and "tv_sec s \<le> tv_sec e" "tv_sec e - tv_sec s \<le> 2000000"
  shows "\<exists>d. DiffTimespec e s = Inr d
    \<and> \<bar>1000000 * d - ((tv_sec e - tv_sec s) * 1000000000 + tv_nsec e - tv_nsec s)\<bar> < 1000000"
proof -
  let ?a = "(tv_sec e - tv_sec s) * 1000"
  let ?q = "(tv_nsec e - tv_nsec s) div 1000000" and ?p = "(tv_nsec s - tv_nsec e) div 1000000"
  have a: "in_i32 ?a" using assms(5,6) by (simp add: in_i32_def)
  show ?thesis
  proof (cases "tv_nsec e > tv_nsec s")
    case True
    then have q: "0 \<le> ?q" "1000000 * ?q \<le> tv_nsec e - tv_nsec s" "tv_nsec e - tv_nsec s < 1000000 * ?q + 1000000" by auto
    then have "in_i32 (?a + ?q)" using assms by (simp add: in_i32_def)
    then have "DiffTimespec e s = Inr (?a + ?q)"
      using True a assms(5) by (auto simp: DiffTimespec_def Let_def)
    then show ?thesis using q by auto
  next
    case False
    then have q: "0 \<le> ?p" "1000000 * ?p \<le> tv_nsec s - tv_nsec e" "tv_nsec s - tv_nsec e < 1000000 * ?p + 1000000" by auto
    then have "in_i32 (?a - ?p)" using assms by (simp add: in_i32_def)
    then have "DiffTimespec e s = Inr (?a - ?p)"
      using False a assms(5) by (auto simp: DiffTimespec_def Let_def)
    then show ?thesis using q by auto
  qed
qed

end
