(* ===== verification/Monitor.thy ===== *)
theory Monitor
  imports Util
begin

text \<open>
  \<open>src/src/common/monitor.hpp\<close>: the ring buffer of log lines that the console prints, and the throughput
  monitor that fills it. The clock is an argument.
\<close>

section \<open>LogBuffer\<close>

record LogBuffer =
  lb_buf :: "string list"
  lb_start :: int
  lb_size :: int

definition max_length :: int where
  "max_length = 10"

definition newLogBuffer :: LogBuffer where
  "newLogBuffer = \<lparr>lb_buf = replicate (nat max_length) [], lb_start = 0, lb_size = 0\<rparr>"

definition set_at :: "'a list \<Rightarrow> int \<Rightarrow> 'a \<Rightarrow> 'a list result" where
  "set_at xs i x = (if 0 \<le> i \<and> i < int (length xs) then Inr (xs[nat i := x]) else Inl Undefined)"

definition add_log :: "string \<Rightarrow> LogBuffer \<Rightarrow> LogBuffer result" where
  "add_log log b =
     (if lb_size b = max_length then
        bindE (set_at (lb_buf b) (lb_start b) log) (\<lambda>buf.
          Inr (b\<lparr>lb_buf := buf, lb_start := (lb_start b + 1) smod max_length\<rparr>))
      else
        bindE (set_at (lb_buf b) ((lb_start b + lb_size b) smod max_length) log) (\<lambda>buf.
          Inr (b\<lparr>lb_buf := buf, lb_size := lb_size b + 1\<rparr>)))"

fun collect_log :: "string list \<Rightarrow> nat \<Rightarrow> int \<Rightarrow> string \<Rightarrow> string result" where
  "collect_log buf 0 idx log = Inr log"
| "collect_log buf (Suc n) idx log =
     bindE (at buf idx) (\<lambda>s. collect_log buf n ((idx + 1) smod max_length) (log @ s))"

definition print_log :: "LogBuffer \<Rightarrow> string result" where
  "print_log b =
     bindE (collect_log (lb_buf b) (nat max_length) (lb_start b) []) (\<lambda>log. Inr (log @ [CHR 0x0A]))"

fun add_logs :: "string list \<Rightarrow> LogBuffer \<Rightarrow> LogBuffer result" where
  "add_logs [] b = Inr b"
| "add_logs (l # ls) b = bindE (add_log l b) (add_logs ls)"

section \<open>Monitor\<close>

record Monitor =
  isrunning :: bool
  m_cnt :: "64 word"
  start_time :: "64 word"
  end_time :: "64 word"
  last_separator :: "64 word"
  last_time :: "64 word"
  last_cnt :: "64 word"

definition newMonitor :: Monitor where
  "newMonitor = \<lparr>isrunning = False, m_cnt = 0, start_time = 0, end_time = 0, last_separator = 0, last_time = 0, last_cnt = 0\<rparr>"

definition interval :: "64 word" where
  "interval = 1000000"

definition start_thpt :: "64 word \<Rightarrow> Monitor \<Rightarrow> Monitor" where
  "start_thpt now m = m\<lparr>isrunning := True, start_time := now, last_separator := now, last_time := now\<rparr>"

definition end_thpt :: "64 word \<Rightarrow> Monitor \<Rightarrow> Monitor" where
  "end_thpt now m = m\<lparr>isrunning := False, end_time := now\<rparr>"

definition add_cnt :: "Monitor \<Rightarrow> Monitor result" where
  "add_cnt m = (if isrunning m then Inr (m\<lparr>m_cnt := m_cnt m + 1\<rparr>) else Inl Abort)"

definition newline :: string where
  "newline = [CHR 0x0A]"

text \<open>The double \<open>1000000.0\<close>, and the throughput as the code computes it and prints it.\<close>

definition d1000000 :: double where
  "d1000000 = 0x412e848000000000"

definition cur_thpt :: "64 word \<Rightarrow> Monitor \<Rightarrow> string" where
  "cur_thpt now m =
     to_string_float (float_of_double
       (ddiv (dmul d1000000 (double_of_u64 (m_cnt m - last_cnt m))) (double_of_u64 (now - last_time m))))"

text \<open>Logs the seconds since the start and the throughput of the last interval, once an interval has passed.\<close>

definition print_timely_thpt :: "64 word \<Rightarrow> string \<Rightarrow> Monitor \<Rightarrow> LogBuffer \<Rightarrow> (Monitor \<times> LogBuffer) result" where
  "print_timely_thpt now prefix m b =
     bindE (if now - last_separator m > interval
            then bindE (add_log (prefix @ '' ['' @ show_int (uint ((now - start_time m) div 1000000)) @ ''sec]'' @ newline) b) (\<lambda>b.
                   Inr (m\<lparr>last_separator := now\<rparr>, b))
            else Inr (m, b)) (\<lambda>(m, b).
       if now - last_time m > interval
       then bindE (add_log (prefix @ '' Throughput: '' @ cur_thpt now m @ '' requests/sec'' @ newline) b) (\<lambda>b.
              Inr (m\<lparr>last_time := now, last_cnt := m_cnt m\<rparr>, b))
       else Inr (m, b))"

section \<open>The last ten lines\<close>

text \<open>The lines from the oldest on; the lines that are not yet used are empty.\<close>

definition lb_view :: "LogBuffer \<Rightarrow> string list" where
  "lb_view b = map (\<lambda>j. lb_buf b ! ((nat (lb_start b) + j) mod 10)) [0..<10]"

definition last_ten :: "string list \<Rightarrow> string list" where
  "last_ten ls = drop (length ls - 10) ls"

definition lb_holds :: "string list \<Rightarrow> LogBuffer \<Rightarrow> bool" where
  "lb_holds ls b \<longleftrightarrow>
     length (lb_buf b) = 10 \<and> 0 \<le> lb_start b \<and> lb_start b < 10 \<and> lb_size b = int (min 10 (length ls))
     \<and> (length ls < 10 \<longrightarrow> lb_start b = 0) \<and> lb_view b = last_ten ls @ replicate (10 - length ls) []"

lemma new_holds: "lb_holds [] newLogBuffer"
  by (simp add: lb_holds_def newLogBuffer_def max_length_def lb_view_def last_ten_def map_replicate_const)

lemma collect_log_view:
  assumes "length buf = 10" and "i < 10"
  shows "collect_log buf n (int i) log = Inr (log @ concat (map (\<lambda>j. buf ! ((i + j) mod 10)) [0..<n]))"
  using assms(2)
proof (induction n arbitrary: i log)
  case (Suc n)
  have m: "(int i + 1) smod max_length = int ((i + 1) mod 10)"
    by (simp add: max_length_def smod_nonneg zmod_int add.commute)
  have "map (\<lambda>j. buf ! ((i + j) mod 10)) [0..<Suc n]
      = buf ! i # map (\<lambda>j. buf ! (((i + 1) mod 10 + j) mod 10)) [0..<n]"
    using Suc.prems by (simp add: upt_conv_Cons map_Suc_upt [symmetric] mod_add_left_eq del: upt_Suc)
  then show ?case using Suc.IH [of "(i + 1) mod 10"] Suc.prems assms(1) by (simp add: m del: upt_Suc)
qed simp

lemma print_log_view:
  assumes "lb_holds ls b"
  shows "print_log b = Inr (concat (last_ten ls) @ [CHR 0x0A])"
proof -
  have b: "length (lb_buf b) = 10" "nat (lb_start b) < 10" "0 \<le> lb_start b"
    and v: "lb_view b = last_ten ls @ replicate (10 - length ls) []"
    using assms by (auto simp: lb_holds_def)
  have "concat (lb_view b) = concat (last_ten ls)" by (simp add: v)
  then show ?thesis
    using collect_log_view [OF b(1,2), of 10 "[]"] b(3) by (simp add: print_log_def max_length_def lb_view_def)
qed

lemma view_put:
  assumes "length buf = 10" and "j < 10" and "s < 10"
  shows "map (\<lambda>k. (buf[(s + j) mod 10 := x]) ! ((s + k) mod 10)) [0..<10]
    = (map (\<lambda>k. buf ! ((s + k) mod 10)) [0..<10])[j := x]"
proof (rule nth_equalityI)
  fix k assume "k < length (map (\<lambda>k. (buf[(s + j) mod 10 := x]) ! ((s + k) mod 10)) [0..<10])"
  then have k: "k < 10" by simp
  have "(s + i) mod 10 = (if s + i < 10 then s + i else s + i - 10)" if "i < 10" for i
    using assms(3) that by (simp add: mod_if)
  then have "(s + j) mod 10 = (s + k) mod 10 \<longleftrightarrow> j = k" using assms(2,3) k by auto
  then show "map (\<lambda>k. (buf[(s + j) mod 10 := x]) ! ((s + k) mod 10)) [0..<10] ! k
      = (map (\<lambda>k. buf ! ((s + k) mod 10)) [0..<10])[j := x] ! k"
    using k assms(1) by (simp add: nth_list_update del: upt_Suc)
qed simp

text \<open>Moving the start by one puts the oldest line last.\<close>

lemma view_shift:
  assumes "s < 10"
  shows "map (\<lambda>k. buf ! (((s + 1) mod 10 + k) mod 10)) [0..<10] = rotate1 (map (\<lambda>k. buf ! ((s + k) mod 10)) [0..<10])"
proof (rule nth_equalityI)
  fix k assume "k < length (map (\<lambda>k. buf ! (((s + 1) mod 10 + k) mod 10)) [0..<10])"
  then have "k < 10" by simp
  moreover have "((s + 1) mod 10 + k) mod 10 = (s + Suc k mod 10) mod 10" by presburger
  ultimately show "map (\<lambda>k. buf ! (((s + 1) mod 10 + k) mod 10)) [0..<10] ! k
      = rotate1 (map (\<lambda>k. buf ! ((s + k) mod 10)) [0..<10]) ! k"
    by (simp add: nth_rotate1 del: upt_Suc)
qed simp

lemma add_log_holds:
  assumes "lb_holds ls b"
  shows "\<exists>b'. add_log l b = Inr b' \<and> lb_holds (ls @ [l]) b'"
proof -
  let ?s = "nat (lb_start b)" and ?n = "length ls"
  have b: "length (lb_buf b) = 10" "?s < 10" "0 \<le> lb_start b" "lb_start b < 10"
    and sz: "lb_size b = int (min 10 ?n)" and z: "?n < 10 \<Longrightarrow> lb_start b = 0"
    and v: "lb_view b = last_ten ls @ replicate (10 - ?n) []"
    using assms by (auto simp: lb_holds_def)
  show ?thesis
  proof (cases "?n < 10")
    case True
    let ?b = "b\<lparr>lb_buf := (lb_buf b)[?n := l], lb_size := int ?n + 1\<rparr>"
    have "add_log l b = Inr ?b"
      using True b sz z by (simp add: add_log_def max_length_def set_at_def smod_nonneg)
    moreover have "lb_view ?b = (lb_view b)[?n := l]"
      using view_put [OF b(1) True, of 0 l] True by (simp add: lb_view_def z [OF True])
    then have "lb_view ?b = last_ten (ls @ [l]) @ replicate (10 - length (ls @ [l])) []"
      using True by (simp add: v last_ten_def list_update_append Suc_diff_Suc [symmetric])
    then have "lb_holds (ls @ [l]) ?b"
      using True b by (simp add: lb_holds_def z [OF True])
    ultimately show ?thesis by blast
  next
    case False
    let ?b = "b\<lparr>lb_buf := (lb_buf b)[?s := l], lb_start := int ((?s + 1) mod 10)\<rparr>"
    have "(lb_start b + 1) smod max_length = int ((?s + 1) mod 10)"
      using b(3) by (simp add: max_length_def smod_nonneg zmod_int add.commute)
    then have "add_log l b = Inr ?b"
      using False b sz by (simp add: add_log_def max_length_def set_at_def)
    moreover have "lb_view ?b = rotate1 ((lb_view b)[0 := l])"
      using view_shift [OF b(2), of "(lb_buf b)[?s := l]"] view_put [OF b(1) _ b(2), of 0 l] b(2) by (simp add: lb_view_def)
    moreover have "rotate1 (xs[0 := l]) = tl xs @ [l]" if "xs \<noteq> []" for xs :: "string list"
      using that by (cases xs) simp_all
    moreover have "last_ten ls \<noteq> []" using False by (simp add: last_ten_def)
    moreover have "tl (last_ten ls) @ [l] = last_ten (ls @ [l])"
    proof -
      have "Suc (?n - 10) = ?n - 9" using False by arith
      then show ?thesis using False by (simp add: last_ten_def drop_Suc [symmetric] tl_drop)
    qed
    ultimately show ?thesis using False b sz by (simp add: lb_holds_def v)
  qed
qed

lemma add_logs_holds:
  assumes "lb_holds ls b"
  shows "\<exists>b'. add_logs ms b = Inr b' \<and> lb_holds (ls @ ms) b'"
  using assms
proof (induction ms arbitrary: ls b)
  case (Cons m ms)
  from add_log_holds [OF Cons.prems] obtain b' where "add_log m b = Inr b'" "lb_holds (ls @ [m]) b'" by blast
  then show ?case using Cons.IH [of "ls @ [m]" b'] by simp
qed simp

text \<open>
  The console sees the recent reports: whatever lines have been logged, adding them never fails, and
  \<open>print_log\<close> prints the last ten of them (all of them, if there are fewer), from the oldest to the newest.
\<close>

lemma print_log_last_ten:
  "\<exists>b. add_logs ls newLogBuffer = Inr b \<and> print_log b = Inr (concat (drop (length ls - 10) ls) @ [CHR 0x0A])"
  using add_logs_holds [OF new_holds, of ls] print_log_view by (auto simp: last_ten_def)

end
