(* ===== verification/Console.thy ===== *)
theory Console
  imports Config Monitor
begin

text \<open>
  \<open>src/src/common/console.hpp\<close>: the commands of the console that both programs run, with \<open>print_config\<close> of
  \<open>common/config.h\<close>, the levels of \<open>utils/logger2.hpp\<close> and the exceptions of \<open>utils/errors.hpp\<close>.

  The option parser and the printing of option groups belong to Boost and are arguments
  (record \<open>boost\<close>), and so are the functions that each program defines for the console
  (record \<open>program\<close>, on a process state of type \<open>'s\<close>) and the files. A call that fails with an exception
  leaves the state as it was. What is printed or logged is a list of messages.
\<close>

section \<open>Messages, levels and exceptions\<close>

datatype message = Out string | Log int string

definition LOG_EVERYTHING :: int where "LOG_EVERYTHING = 0"

definition LOG_INFO :: int where "LOG_INFO = 2"

definition LOG_ERROR :: int where "LOG_ERROR = 5"

definition LOG_NONE :: int where "LOG_NONE = 7"

definition levelname :: "string list" where
  "levelname = [''EVERYTHING'', ''DEBUG'', ''INFO'', ''EMPH'', ''WARNING'', ''ERROR'', ''FATAL'', ''NONE'']"

definition err_msgs :: "string list" where
  "err_msgs =
     [''Everythong is ok'', ''Something wrong happened'', ''Something wrong in the query syntax, fail to parse!'',
      ''Unsupported triple pattern.'', ''MUST enable attribute support!'', ''NO required variables!'',
      ''Unsupport UNION on attribute results'', ''Object should not be an index'', ''Subject or object is not valid'',
      ''Tripple pattern should not start from unknown subject.'',
      ''You may change SETTING files to avoid this error. (e.g. global.hpp/config/...)'',
      ''Const_X_X or index_X_X must be the first pattern.'', ''Unsupported filter type.'', ''Query file not found.'']"

definition ERR_MSG :: "int \<Rightarrow> string result" where
  "ERR_MSG code = at err_msgs code"

section \<open>Options\<close>

text \<open>An option has no argument, a string, or a number with or without a default. \<open>",v"\<close> declares \<open>-v\<close>.\<close>

datatype opt = NoArg string string | StrArg string string string | IntArg string "int option" string string

record options_description =
  caption :: string
  options :: "opt list"

fun opt_name :: "opt \<Rightarrow> string" where
  "opt_name (NoArg n _) = n"
| "opt_name (StrArg n _ _) = n"
| "opt_name (IntArg n _ _ _) = n"

definition help_desc :: options_description where
  "help_desc = \<lparr>caption = ''help                display help infomation'', options = []\<rparr>"

definition quit_desc :: options_description where
  "quit_desc = \<lparr>caption = ''quit                quit from the console'', options = []\<rparr>"

definition config_desc :: options_description where
  "config_desc = \<lparr>caption = ''config <args>       run commands for configueration'',
     options = [NoArg ''-v'' ''print current config'',
       StrArg ''-l'' ''<fname>'' ''load config items from <fname>'',
       StrArg ''-s'' ''<string>'' ''set config items by <str> (e.g., item1=val1&item2=...)'',
       NoArg ''help'' ''help message about config'']\<rparr>"

definition logger_desc :: options_description where
  "logger_desc = \<lparr>caption = ''logger <args>       run commands for logger'',
     options = [NoArg ''-v'' ''print loglevel'',
       IntArg ''-s'' None ''<level>'' ''set loglevel to <level> (e.g., DEBUG=1, INFO=2, WARNING=4, ERROR=5)'',
       NoArg ''help'' ''help message about logger'']\<rparr>"

definition check_desc :: options_description where
  "check_desc = \<lparr>caption = ''check <args>       print recent report'', options = [NoArg ''help'' ''help message about check'']\<rparr>"

definition stops_desc :: options_description where
  "stops_desc = \<lparr>caption = ''stops <args>       stop all senders'', options = [NoArg ''help'' ''help message about stop'']\<rparr>"

definition stopr_desc :: options_description where
  "stopr_desc = \<lparr>caption = ''stopr <args>       stop all receivers'', options = [NoArg ''help'' ''help message about stop'']\<rparr>"

definition restart_desc :: options_description where
  "restart_desc = \<lparr>caption = ''restart <args>       restart all communication channels'',
     options = [NoArg ''help'' ''help message about restart'']\<rparr>"

definition reset_desc :: options_description where
  "reset_desc = \<lparr>caption = ''reset-network <args>       reset communication channels'',
     options = [NoArg ''help'' ''help message about logger'']\<rparr>"

definition sparql_desc :: options_description where
  "sparql_desc = \<lparr>caption = ''sparql <args>       run SPARQL queries in single or batch mode'',
     options = [StrArg ''-f'' ''<fname>'' ''run a [single] SPARQL query from <fname>'',
       IntArg ''-m'' (Some 1) ''<factor>'' ''set multi-threading <factor> for heavy query processing'',
       StrArg ''-p'' ''<fname>'' ''adopt user-defined query plan from <fname> for running a single query'',
       IntArg ''-N'' (Some 1) ''<num>'' ''do query optimization <num> times'',
       StrArg ''-o'' ''<fname>'' ''output results into <fname>'',
       NoArg ''help'' ''help message about sparql'']\<rparr>"

definition all_desc :: "string \<times> options_description list" where
  "all_desc = (''These are common exchange commands: '',
     [help_desc, quit_desc, config_desc, logger_desc, check_desc, stops_desc, stopr_desc, restart_desc, reset_desc, sparql_desc])"

section \<open>The surroundings of the console\<close>

datatype optval = Present | StrVal string | IntVal int

type_synonym variables_map = "string \<rightharpoonup> optval"

text \<open>\<open>parse_command_line\<close> with \<open>store\<close>: \<open>None\<close> for an exception.\<close>

record boost =
  parse_command_line :: "options_description \<Rightarrow> string list \<Rightarrow> variables_map option"
  show_desc :: "options_description \<Rightarrow> string"
  show_all :: "string \<times> options_description list \<Rightarrow> string"

record 's program =
  p_stop_sender :: "Config \<Rightarrow> 's \<Rightarrow> (message list \<times> 's) result"
  p_stop_receiver :: "Config \<Rightarrow> 's \<Rightarrow> (message list \<times> 's) result"
  p_restart :: "Config \<Rightarrow> 's \<Rightarrow> (message list \<times> 's) result"
  p_reset :: "Config \<Rightarrow> 's \<Rightarrow> (message list \<times> 's) result"
  p_exit :: "Config \<Rightarrow> 's \<Rightarrow> 's result"

record 's console =
  c_config :: Config
  c_level :: int
  c_log :: "LogBuffer option"
  c_proc :: 's
  c_msgs :: "message list"

definition say :: "message list \<Rightarrow> 's console \<Rightarrow> 's console" where
  "say ms c = c\<lparr>c_msgs := c_msgs c @ ms\<rparr>"

definition as_str :: "variables_map \<Rightarrow> string \<Rightarrow> string result" where
  "as_str vm k = (case vm k of Some (StrVal s) \<Rightarrow> Inr s | _ \<Rightarrow> Inl BadAnyCast)"

definition as_int :: "variables_map \<Rightarrow> string \<Rightarrow> int result" where
  "as_int vm k = (case vm k of Some (IntVal i) \<Rightarrow> Inr i | _ \<Rightarrow> Inl BadAnyCast)"

section \<open>Words of a command\<close>

definition is_blank :: "char \<Rightarrow> bool" where
  "is_blank c \<longleftrightarrow> c = CHR '' '' \<or> c = CHR 0x09"

definition trim :: "string \<Rightarrow> string" where
  "trim cmd = rev (dropWhile is_blank (rev (dropWhile is_blank cmd)))"

text \<open>\<open>boost::split\<close> at every blank; two blanks in a row enclose an empty field.\<close>

fun split_at :: "char \<Rightarrow> string \<Rightarrow> string list" where
  "split_at d [] = [[]]"
| "split_at d (c # cs) =
     (if c = d then [] # split_at d cs
      else case split_at d cs of [] \<Rightarrow> [[c]] | w # ws \<Rightarrow> (c # w) # ws)"

text \<open>\<open>strcpy\<close> from \<open>c_str\<close> ends at the first NUL.\<close>

definition CMD2Args :: "string \<Rightarrow> string list" where
  "CMD2Args str = map (takeWhile (\<lambda>c. c \<noteq> CHR 0x00)) (split_at (CHR '' '') str)"

definition args2str :: "string \<Rightarrow> string" where
  "args2str str = map (\<lambda>c. if c = CHR ''='' \<or> c = CHR ''&'' then CHR '' '' else c) str"

definition file2str :: "files \<Rightarrow> string \<Rightarrow> string \<Rightarrow> message list \<times> string" where
  "file2str fs fname str =
     (case fs fname of
        None \<Rightarrow> ([Log LOG_ERROR (fname @ '' does not exist.'' @ newline)], str)
      | Some lines \<Rightarrow> ([], str @ concat (map (\<lambda>line. line @ '' '') lines)))"

section \<open>Commands\<close>

definition fail_to_parse :: "string list \<Rightarrow> 's console \<Rightarrow> 's console" where
  "fail_to_parse argv c =
     say [Log LOG_ERROR ('' Failed to run the command: '' @ concat (map (\<lambda>a. a @ '' '') argv) @ newline),
          Out (newline @ ''Input '' @ [CHR 0x27] @ ''help'' @ [CHR 0x27] @ '' command to get more information.'' @ newline)] c"

definition print_help :: "boost \<Rightarrow> 's console \<Rightarrow> 's console" where
  "print_help B c = say [Out (show_all B all_desc @ newline)] c"

text \<open>
  The part that all commands share: an exception of the parser is reported, \<open>--help\<close> prints the options, and
  otherwise the command continues with the options it was given.
\<close>

definition with_options :: "boost \<Rightarrow> options_description \<Rightarrow> options_description \<Rightarrow> string list \<Rightarrow> 's console
    \<Rightarrow> (variables_map \<Rightarrow> 's console result) \<Rightarrow> 's console result" where
  "with_options B desc shown argv c run =
     (case parse_command_line B desc argv of
        None \<Rightarrow> Inr (fail_to_parse argv c)
      | Some vm \<Rightarrow> if vm ''help'' \<noteq> None then Inr (say [Out (show_desc B shown)] c) else run vm)"

definition show_ports :: "(int \<times> int) list \<Rightarrow> string list" where
  "show_ports ps = map (\<lambda>(t, e). show_int t @ ''->'' @ show_int e) ps"

definition port_map :: "Config \<Rightarrow> int \<Rightarrow> int \<Rightarrow> (int \<times> int) list result" where
  "port_map cfg i j = bindE (at (trader_port2exchange_port cfg) i) (\<lambda>xs. at xs j)"

definition print_config :: "Config \<Rightarrow> string list result" where
  "print_config cfg =
     bindE (at (traders_addr cfg) 0) (\<lambda>t0.
     bindE (at (traders_addr cfg) 1) (\<lambda>t1.
     bindE (at (exchanges_addr cfg) 0) (\<lambda>e0.
     bindE (at (exchanges_addr cfg) 1) (\<lambda>e1.
     bindE (port_map cfg 0 0) (\<lambda>p00.
     bindE (port_map cfg 0 1) (\<lambda>p01.
     bindE (port_map cfg 1 0) (\<lambda>p10.
     bindE (port_map cfg 1 1) (\<lambda>p11.
       Inr ([''--------- CONFIG ---------'',
             ''partition_idx: '' @ show_int (partition_idx cfg), ''data_folder: '' @ data_folder cfg,
             ''network_config_file: '' @ network_config_file cfg,
             ''sliding_window_size: '' @ show_int (sliding_window_size cfg),
             ''stock_num: '' @ show_int (stock_num cfg), ''trader_num: '' @ show_int (trader_num cfg),
             ''exchange_num: '' @ show_int (exchange_num cfg),
             ''loader_nx_matrix: '' @ show_int (loader_nx_matrix cfg), ''loader_ny_matrix: '' @ show_int (loader_ny_matrix cfg),
             ''loader_nz_matrix: '' @ show_int (loader_nz_matrix cfg), ''load_mode: '' @ show_int (load_mode cfg),
             ''trader0_addr: '' @ t0, ''trader1_addr: '' @ t1, ''exchange0_addr: '' @ e0, ''exchange1_addr: '' @ e1]
            @ [''trader0->exchange0 port mapping: ''] @ show_ports p00
            @ [''trader0->exchange1 port mapping: ''] @ show_ports p01
            @ [''trader1->exchange0 port mapping: ''] @ show_ports p10
            @ [''trader1->exchange1 port mapping: ''] @ show_ports p11
            @ [''----------- END ------------'']) ))))))))"

definition out_lines :: "string list \<Rightarrow> message list" where
  "out_lines ls = map (\<lambda>l. Out (l @ newline)) ls"

definition run_config :: "boost \<Rightarrow> files \<Rightarrow> string list \<Rightarrow> 's console \<Rightarrow> 's console result" where
  "run_config B fs argv c =
     with_options B config_desc config_desc argv c (\<lambda>vm.
       if vm ''-v'' \<noteq> None then bindE (print_config (c_config c)) (\<lambda>ls. Inr (say (out_lines ls) c))
       else if (vm ''-l'' \<noteq> None) = (vm ''-s'' \<noteq> None) then Inr (fail_to_parse argv c)
       else
         bindE (if vm ''-l'' \<noteq> None then bindE (as_str vm ''-l'') (\<lambda>fname. Inr (fname, file2str fs fname []))
                else Inr ([], [], [])) (\<lambda>(fname, ms, str).
         bindE (if vm ''-s'' \<noteq> None then bindE (as_str vm ''-s'') (\<lambda>str. Inr (args2str str)) else Inr str) (\<lambda>str.
           if str \<noteq> [] then Inr (say ms (c\<lparr>c_config := reload_config str (c_config c)\<rparr>))
           else Inr (say (ms @ [Log LOG_ERROR (''Failed to load config file: '' @ fname @ newline)]) c))))"

definition show_level :: "int \<Rightarrow> string result" where
  "show_level level = bindE (at levelname level) (\<lambda>n. Inr (show_int level @ '' ('' @ n @ '')'' @ newline))"

definition run_logger :: "boost \<Rightarrow> string list \<Rightarrow> 's console \<Rightarrow> 's console result" where
  "run_logger B argv c =
     with_options B logger_desc logger_desc argv c (\<lambda>vm.
       if vm ''-v'' \<noteq> None then bindE (show_level (c_level c)) (\<lambda>str. Inr (say [Out (''loglevel: '' @ str)] c))
       else if vm ''-s'' \<noteq> None then
         bindE (as_int vm ''-s'') (\<lambda>level.
           if level \<ge> LOG_EVERYTHING \<and> level \<le> LOG_NONE
           then bindE (show_level level) (\<lambda>str. Inr (say [Out (''set loglevel to '' @ str)] (c\<lparr>c_level := level\<rparr>)))
           else bindE (show_level level) (\<lambda>str. Inr (say [Log LOG_ERROR (''failed to set loglevel: '' @ str)] c)))
       else Inr c)"

definition run_check :: "boost \<Rightarrow> string list \<Rightarrow> 's console \<Rightarrow> 's console result" where
  "run_check B argv c =
     with_options B check_desc check_desc argv c (\<lambda>_.
       case c_log c of
         None \<Rightarrow> Inl Undefined
       | Some b \<Rightarrow> bindE (print_log b) (\<lambda>str. Inr (say [Out str] c)))"

definition run_proc :: "(Config \<Rightarrow> 's \<Rightarrow> (message list \<times> 's) result) \<Rightarrow> 's console \<Rightarrow> 's console result" where
  "run_proc f c = bindE (f (c_config c) (c_proc c)) (\<lambda>(ms, s). Inr (say ms (c\<lparr>c_proc := s\<rparr>)))"

definition run_stops :: "boost \<Rightarrow> 's program \<Rightarrow> string list \<Rightarrow> 's console \<Rightarrow> 's console result" where
  "run_stops B P argv c = with_options B stops_desc stops_desc argv c (\<lambda>_. run_proc (p_stop_sender P) c)"

definition run_stopr :: "boost \<Rightarrow> 's program \<Rightarrow> string list \<Rightarrow> 's console \<Rightarrow> 's console result" where
  "run_stopr B P argv c = with_options B stopr_desc stopr_desc argv c (\<lambda>_. run_proc (p_stop_receiver P) c)"

definition run_restart :: "boost \<Rightarrow> 's program \<Rightarrow> string list \<Rightarrow> 's console \<Rightarrow> 's console result" where
  "run_restart B P argv c = with_options B restart_desc restart_desc argv c (\<lambda>_. run_proc (p_restart P) c)"

text \<open>
  Help on \<open>reset-net\<close> prints the options of \<open>restart\<close>. A reset that fails ends the process (none of its failures is a
  \<open>UbiquantException\<close>, which alone is caught), so the configuration it has overwritten is not seen.
\<close>

definition run_reset :: "boost \<Rightarrow> files \<Rightarrow> 's program \<Rightarrow> string list \<Rightarrow> 's console \<Rightarrow> 's console result" where
  "run_reset B fs P argv c =
     with_options B reset_desc restart_desc argv c (\<lambda>_.
       bindE (load_network_config fs (network_config_file (c_config c)) (c_config c)) (\<lambda>cfg.
         run_proc (p_reset P) (c\<lparr>c_config := cfg\<rparr>)))"

text \<open>The single mode reads its options and stops at a \<open>TODO\<close>.\<close>

definition run_sparql :: "boost \<Rightarrow> files \<Rightarrow> string list \<Rightarrow> 's console \<Rightarrow> 's console result" where
  "run_sparql B fs argv c =
     with_options B sparql_desc sparql_desc argv c (\<lambda>vm.
       if (vm ''-f'' \<noteq> None) = (vm ''-b'' \<noteq> None)
       then Inr (fail_to_parse argv
              (say [Log LOG_ERROR (''single mode (-f) and batch mode (-b) are exclusive!'' @ newline)] c))
       else if vm ''-f'' \<noteq> None then
         bindE (as_str vm ''-f'') (\<lambda>fname.
           if fs fname = None
           then Inr (fail_to_parse argv (say [Log LOG_ERROR (''The query file is not found: '' @ fname @ newline)] c))
           else bindE (as_int vm ''-m'') (\<lambda>mt_factor.
                bindE (as_int vm ''-n'') (\<lambda>cnt.
                bindE (as_int vm ''-N'') (\<lambda>nopts.
                bindE (as_int vm ''-v'') (\<lambda>nlines.
                bindE (if vm ''-o'' \<noteq> None then as_str vm ''-o'' else Inr []) (\<lambda>ofname. Inr c))))))
       else Inr c)"

section \<open>The loop\<close>

text \<open>A command whose words are \<open>argv\<close>; \<open>quit\<close> ends the process.\<close>

definition run_command :: "boost \<Rightarrow> files \<Rightarrow> 's program \<Rightarrow> string list \<Rightarrow> 's console \<Rightarrow> 's console result" where
  "run_command B fs P argv c =
     bindE (at argv 0) (\<lambda>cmd_type.
       if cmd_type = ''help'' \<or> cmd_type = ''h'' then Inr (print_help B c)
       else if cmd_type = ''quit'' \<or> cmd_type = ''q'' then bindE (p_exit P (c_config c) (c_proc c)) (\<lambda>_. Inl (ExitProcess 0))
       else if cmd_type = ''config'' then run_config B fs argv c
       else if cmd_type = ''logger'' then run_logger B argv c
       else if cmd_type = ''sparql'' then run_sparql B fs argv c
       else if cmd_type = ''ls'' then run_check B argv c
       else if cmd_type = ''stops'' then run_stops B P argv c
       else if cmd_type = ''stopr'' then run_stopr B P argv c
       else if cmd_type = ''restart'' then run_restart B P argv c
       else if cmd_type = ''reset-net'' then run_reset B fs P argv c
       else Inr (fail_to_parse argv c))"

text \<open>The handler of \<open>UbiquantException\<close>; other exceptions leave \<open>run_console\<close> and end the process.\<close>

definition catch_command :: "string list \<Rightarrow> 's console \<Rightarrow> 's console result \<Rightarrow> 's console result" where
  "catch_command argv c r =
     (case r of
        Inl (UbiquantException code) \<Rightarrow>
          bindE (ERR_MSG code) (\<lambda>msg.
            Inr (fail_to_parse argv (say [Log LOG_ERROR (''ERRNO '' @ show_int code @ '': '' @ msg @ newline)] c)))
      | _ \<Rightarrow> r)"

text \<open>
  One line of input after the other, blank lines skipped. The result is the state in which the console waits
  for more input (at the end of the input it asks again without end).
\<close>

fun run_console :: "boost \<Rightarrow> files \<Rightarrow> 's program \<Rightarrow> string \<Rightarrow> string list \<Rightarrow> 's console \<Rightarrow> 's console result" where
  "run_console B fs P console_name [] c = Inr (say [Out (console_name @ ''> '')] c)"
| "run_console B fs P console_name (cmd # cmds) c =
     (let c = say [Out (console_name @ ''> '')] c
      in if list_all is_blank cmd then run_console B fs P console_name cmds c
         else let argv = CMD2Args (trim cmd)
              in bindE (catch_command argv c (run_command B fs P argv c)) (run_console B fs P console_name cmds))"

end
