(* ===== verification/Programs.thy ===== *)
theory Programs
  imports Console Network Loader Exchange_Core
begin

text \<open>
  The two programs, \<open>src/src/exchange.cpp\<close> and \<open>src/src/trader.cpp\<close>: what they define for the console (stopping,
  restarting and resetting the channels, leaving), with the operations of \<open>exchange/order_receiver.cpp\<close>,
  \<open>exchange/trade_sender.cpp\<close>, \<open>trader/order_sender.cpp\<close>, \<open>trader/trade_receiver.cpp\<close> and
  \<open>trader/trader_controller.cpp\<close> behind them, and their start. (\<open>Shutdown\<close> has the signal handlers.)
\<close>

section \<open>Spin locks\<close>

text \<open>
  A channel object with its spin lock, from the console's side: the lock is taken if the console holds it. (The
  threads hold it for one call at a time.) The console waits forever for a lock that it holds itself, and
  to unlock a lock that is not held is undefined.
\<close>

record 'c channel =
  ch_obj :: 'c
  ch_locked :: bool

definition new_channel :: "'c \<Rightarrow> 'c channel" where
  "new_channel x = \<lparr>ch_obj = x, ch_locked = False\<rparr>"

definition spin_lock :: "'c channel \<Rightarrow> 'c channel result" where
  "spin_lock ch = (if ch_locked ch then Inl Deadlock else Inr (ch\<lparr>ch_locked := True\<rparr>))"

definition spin_unlock :: "'c channel \<Rightarrow> 'c channel result" where
  "spin_unlock ch = (if ch_locked ch then Inr (ch\<lparr>ch_locked := False\<rparr>) else Inl Undefined)"

definition lock_msgs :: "string \<Rightarrow> message list" where
  "lock_msgs what = out_lines [what, what @ '' success'']"

definition ts_stop :: "MessageSender list channel \<Rightarrow> (message list \<times> MessageSender list channel) result" where
  "ts_stop ch = bindE (spin_lock ch) (\<lambda>ch. Inr (lock_msgs ''ExchangeTradeSender Lock send lock'', ch))"

definition ts_restart :: "MessageSender list channel \<Rightarrow> (message list \<times> MessageSender list channel) result" where
  "ts_restart ch = bindE (spin_unlock ch) (\<lambda>ch. Inr (lock_msgs ''ExchangeTradeSender Unlock send lock'', ch))"

definition or_stop :: "MessageReceiver channel \<Rightarrow> (message list \<times> MessageReceiver channel) result" where
  "or_stop ch = bindE (spin_lock ch) (\<lambda>ch. Inr (lock_msgs ''ExchangeOrderReceiver Lock recv lock'', ch))"

definition or_restart :: "MessageReceiver channel \<Rightarrow> (message list \<times> MessageReceiver channel) result" where
  "or_restart ch = bindE (spin_unlock ch) (\<lambda>ch. Inr (lock_msgs ''ExchangeOrderReceiver unlock recv lock'', ch))"

definition os_stop :: "MessageSender channel \<Rightarrow> (message list \<times> MessageSender channel) result" where
  "os_stop ch = bindE (spin_lock ch) (\<lambda>ch. Inr (lock_msgs ''TraderOrderSender Lock send lock'', ch))"

definition os_restart :: "MessageSender channel \<Rightarrow> (message list \<times> MessageSender channel) result" where
  "os_restart ch = bindE (spin_unlock ch) (\<lambda>ch. Inr (lock_msgs ''TraderOrderSender Unlock send lock'', ch))"

definition tr_stop :: "MessageReceiver channel \<Rightarrow> (message list \<times> MessageReceiver channel) result" where
  "tr_stop ch = bindE (spin_lock ch) (\<lambda>ch. Inr (lock_msgs ''TraderTradeReceiver Lock recv lock'', ch))"

definition tr_restart :: "MessageReceiver channel \<Rightarrow> (message list \<times> MessageReceiver channel) result" where
  "tr_restart ch = bindE (spin_unlock ch) (\<lambda>ch. Inr (lock_msgs ''TraderTradeReceiver unlock recv lock'', ch))"

text \<open>What the console relies on in all four classes: \<open>stop\<close> takes the lock once, \<open>restart\<close> gives it back, the object stays.\<close>

locale pausable =
  fixes stop :: "'c channel \<Rightarrow> (message list \<times> 'c channel) result"
    and restart :: "'c channel \<Rightarrow> (message list \<times> 'c channel) result"
  assumes stop_free: "\<not> ch_locked ch \<Longrightarrow> \<exists>ms. stop ch = Inr (ms, ch\<lparr>ch_locked := True\<rparr>)"
    and stop_held: "ch_locked ch \<Longrightarrow> stop ch = Inl Deadlock"
    and restart_held: "ch_locked ch \<Longrightarrow> \<exists>ms. restart ch = Inr (ms, ch\<lparr>ch_locked := False\<rparr>)"
    and restart_free: "\<not> ch_locked ch \<Longrightarrow> restart ch = Inl Undefined"
begin

lemma stop_stop: "stop ch = Inr (ms, ch') \<Longrightarrow> stop ch' = Inl Deadlock"
  using stop_free [of ch] stop_held [of ch] stop_held [of ch'] by (cases "ch_locked ch") auto

lemma stop_then_restart: "\<not> ch_locked ch \<Longrightarrow> \<exists>ms ms' ch'. stop ch = Inr (ms, ch') \<and> restart ch' = Inr (ms', ch)"
  using stop_free [of ch] restart_held [of "ch\<lparr>ch_locked := True\<rparr>"] by auto

lemma stop_keeps: "stop ch = Inr (ms, ch') \<Longrightarrow> ch_obj ch' = ch_obj ch \<and> ch_locked ch'"
  using stop_free [of ch] stop_held [of ch] by (cases "ch_locked ch") auto

end

interpretation ets: pausable ts_stop ts_restart
  by unfold_locales (auto simp: ts_stop_def ts_restart_def spin_lock_def spin_unlock_def)

interpretation eor: pausable or_stop or_restart
  by unfold_locales (auto simp: or_stop_def or_restart_def spin_lock_def spin_unlock_def)

interpretation tos: pausable os_stop os_restart
  by unfold_locales (auto simp: os_stop_def os_restart_def spin_lock_def spin_unlock_def)

interpretation ttr: pausable tr_stop tr_restart
  by unfold_locales (auto simp: tr_stop_def tr_restart_def spin_lock_def spin_unlock_def)

text \<open>Use of an object through \<open>Global<T>::Get()\<close>: a null pointer is undefined.\<close>

definition global_use :: "'t option \<Rightarrow> ('t \<Rightarrow> (message list \<times> 't) result) \<Rightarrow> (message list \<times> 't option) result" where
  "global_use p f = (case p of None \<Rightarrow> Inl Undefined | Some x \<Rightarrow> bindE (f x) (\<lambda>(ms, x). Inr (ms, Some x)))"

section \<open>The exchange\<close>

record ExchangeGlobals =
  g_receiver :: "MessageReceiver channel option"
  g_sender :: "MessageSender list channel option"
  g_exchange :: "Exchange option"
  g_after_reset :: bool

definition ex_stop_network_sender :: "Config \<Rightarrow> ExchangeGlobals \<Rightarrow> (message list \<times> ExchangeGlobals) result" where
  "ex_stop_network_sender cfg g =
     bindE (global_use (g_sender g) ts_stop) (\<lambda>(ms, p).
       Inr (ms @ out_lines [''Stop Exchange-Senders-'' @ show_int (partition_idx cfg)], g\<lparr>g_sender := p\<rparr>))"

definition ex_stop_network_receiver :: "Config \<Rightarrow> ExchangeGlobals \<Rightarrow> (message list \<times> ExchangeGlobals) result" where
  "ex_stop_network_receiver cfg g =
     bindE (global_use (g_receiver g) or_stop) (\<lambda>(ms, p).
       Inr (ms @ out_lines [''Stop Exchange-Receivers-'' @ show_int (partition_idx cfg)], g\<lparr>g_receiver := p\<rparr>))"

definition ex_restart_network :: "Config \<Rightarrow> ExchangeGlobals \<Rightarrow> (message list \<times> ExchangeGlobals) result" where
  "ex_restart_network cfg g =
     bindE (global_use (g_receiver g) or_restart) (\<lambda>(ms, p).
     bindE (global_use (g_sender g) ts_restart) (\<lambda>(ms', q).
       Inr (ms @ ms' @ out_lines [''Restart Exchange-'' @ show_int (partition_idx cfg)],
            g\<lparr>g_receiver := p, g_sender := q\<rparr>)))"

definition ex_reset_network :: "(zop list \<Rightarrow> zop \<Rightarrow> zret) \<Rightarrow> Config \<Rightarrow> ExchangeGlobals \<Rightarrow> (message list \<times> ExchangeGlobals) result" where
  "ex_reset_network net cfg g =
     bindE (global_use (g_receiver g) (\<lambda>ch. bindE (or_reset_network cfg (ch_obj ch)) (\<lambda>r. Inr ([], ch\<lparr>ch_obj := r\<rparr>)))) (\<lambda>(ms, p).
     bindE (global_use (g_sender g) (\<lambda>ch. bindE (ts_reset_network net cfg (ch_obj ch)) (\<lambda>ss. Inr ([], ch\<lparr>ch_obj := ss\<rparr>)))) (\<lambda>(ms', q).
       Inr (out_lines [''Reset Exchange-'' @ show_int (partition_idx cfg)],
            g\<lparr>g_receiver := p, g_sender := q, g_after_reset := True\<rparr>)))"

text \<open>
  \<open>~Exchange\<close> joins the threads of its engines, and these never return. (The deletion of \<open>LogBuffer\<close> comes first.)
\<close>

definition ex_exit_system :: "Config \<Rightarrow> ExchangeGlobals \<Rightarrow> ExchangeGlobals result" where
  "ex_exit_system cfg g =
     (let g = g\<lparr>g_receiver := snd (global_delete (g_receiver g)), g_sender := snd (global_delete (g_sender g))\<rparr>
      in case g_exchange g of
           None \<Rightarrow> Inr g
         | Some ex \<Rightarrow> if list_ex (\<lambda>code. stock_exchange ex code \<noteq> None) (stk_codes cfg) then Inl Deadlock else Inr (g\<lparr>g_exchange := None\<rparr>))"

definition exchange_program :: "(zop list \<Rightarrow> zop \<Rightarrow> zret) \<Rightarrow> ExchangeGlobals program" where
  "exchange_program net =
     \<lparr>p_stop_sender = ex_stop_network_sender, p_stop_receiver = ex_stop_network_receiver, p_restart = ex_restart_network,
      p_reset = ex_reset_network net, p_exit = ex_exit_system\<rparr>"

section \<open>The trader\<close>

record TraderGlobals =
  t_receiver :: "MessageReceiver channel"
  t_senders :: "MessageSender channel list"
  t_controller :: TraderController
  t_after_reset :: bool

type_synonym TraderPtr = "TraderGlobals option"

text \<open>The loops of \<open>TraderController\<close> over its senders.\<close>

definition all_senders :: "(MessageSender channel \<Rightarrow> (message list \<times> MessageSender channel) result) \<Rightarrow> TraderGlobals
    \<Rightarrow> (message list \<times> TraderGlobals) result" where
  "all_senders f g = bindE (mapE f (t_senders g)) (\<lambda>rs. Inr (concat (map fst rs), g\<lparr>t_senders := map snd rs\<rparr>))"

definition tc_stop_sender :: "TraderGlobals \<Rightarrow> (message list \<times> TraderGlobals) result" where
  "tc_stop_sender g = all_senders os_stop g"

definition tc_stop_receiver :: "TraderGlobals \<Rightarrow> (message list \<times> TraderGlobals) result" where
  "tc_stop_receiver g = bindE (tr_stop (t_receiver g)) (\<lambda>(ms, ch). Inr (ms, g\<lparr>t_receiver := ch\<rparr>))"

definition tc_restart :: "TraderGlobals \<Rightarrow> (message list \<times> TraderGlobals) result" where
  "tc_restart g =
     bindE (all_senders os_restart g) (\<lambda>(ms, g).
     bindE (tr_restart (t_receiver g)) (\<lambda>(ms', ch). Inr (ms @ ms', g\<lparr>t_receiver := ch\<rparr>)))"

definition tc_reset_network :: "(zop list \<Rightarrow> zop \<Rightarrow> zret) \<Rightarrow> Config \<Rightarrow> TraderGlobals \<Rightarrow> (message list \<times> TraderGlobals) result" where
  "tc_reset_network net cfg g =
     bindE (tr_reset_network cfg (ch_obj (t_receiver g))) (\<lambda>r.
     bindE (mapE (\<lambda>(i, ch). bindE (os_reset_network net cfg i (ch_obj ch)) (\<lambda>s. Inr (ch\<lparr>ch_obj := s\<rparr>)))
              (zip [0..int (length (t_senders g)) - 1] (t_senders g))) (\<lambda>chs.
       Inr ([], g\<lparr>t_receiver := (t_receiver g)\<lparr>ch_obj := r\<rparr>, t_senders := chs, t_after_reset := True\<rparr>)))"

definition tr_stop_network_sender :: "Config \<Rightarrow> TraderPtr \<Rightarrow> (message list \<times> TraderPtr) result" where
  "tr_stop_network_sender cfg p =
     bindE (global_use p tc_stop_sender) (\<lambda>(ms, p).
       Inr (ms @ out_lines [''Stop Trader-Senders-'' @ show_int (partition_idx cfg)], p))"

definition tr_stop_network_receiver :: "Config \<Rightarrow> TraderPtr \<Rightarrow> (message list \<times> TraderPtr) result" where
  "tr_stop_network_receiver cfg p =
     bindE (global_use p tc_stop_receiver) (\<lambda>(ms, p).
       Inr (ms @ out_lines [''Stop Trader-Receivers-'' @ show_int (partition_idx cfg)], p))"

definition tr_restart_network :: "Config \<Rightarrow> TraderPtr \<Rightarrow> (message list \<times> TraderPtr) result" where
  "tr_restart_network cfg p =
     bindE (global_use p tc_restart) (\<lambda>(ms, p).
       Inr (ms @ out_lines [''Restart Trader-'' @ show_int (partition_idx cfg)], p))"

definition trd_reset_network :: "(zop list \<Rightarrow> zop \<Rightarrow> zret) \<Rightarrow> Config \<Rightarrow> TraderPtr \<Rightarrow> (message list \<times> TraderPtr) result" where
  "trd_reset_network net cfg p =
     bindE (global_use p (tc_reset_network net cfg)) (\<lambda>(ms, p).
       Inr (ms @ out_lines [''Reset Trader-'' @ show_int (partition_idx cfg)], p))"

text \<open>The controller and its channels are destroyed; the trades that the receiver still holds are in \<open>flush\<close>.\<close>

definition tr_exit_system :: "Config \<Rightarrow> TraderPtr \<Rightarrow> TraderPtr result" where
  "tr_exit_system cfg p = Inr (snd (global_delete p))"

definition trader_program :: "(zop list \<Rightarrow> zop \<Rightarrow> zret) \<Rightarrow> TraderPtr program" where
  "trader_program net =
     \<lparr>p_stop_sender = tr_stop_network_sender, p_stop_receiver = tr_stop_network_receiver, p_restart = tr_restart_network,
      p_reset = trd_reset_network net, p_exit = tr_exit_system\<rparr>"

section \<open>Start\<close>

text \<open>\<open>std::stoi\<close>: leading blanks, a sign, digits up to the first other character.\<close>

definition stoi :: "string \<Rightarrow> int result" where
  "stoi str =
     (let t = dropWhile isspace str;
          u = (case t of [] \<Rightarrow> [] | c # cs \<Rightarrow> if c = CHR ''-'' \<or> c = CHR ''+'' then cs else t);
          ds = takeWhile (\<lambda>c. digit c \<noteq> None) u;
          v = (if t \<noteq> [] \<and> hd t = CHR ''-'' then - digits 0 ds else digits 0 ds)
      in if ds = [] then Inl InvalidArgument else if in_i32 v then Inr v else Inl OutOfRange)"

text \<open>The state in which a program enters its console.\<close>

definition at_prompt :: "Config \<Rightarrow> string list \<Rightarrow> string list \<Rightarrow> 's \<Rightarrow> 's console" where
  "at_prompt cfg greet ls s =
     \<lparr>c_config = cfg, c_level = LOG_INFO, c_log = snd (global_new newLogBuffer None), c_proc = s, c_msgs = out_lines (greet @ ls)\<rparr>"

text \<open>
  The arguments are those of \<open>main\<close>; the result is \<open>None\<close> if their number is wrong (the program
  prints its usage and returns). \<open>rc\<close> is what the thread library answers.
\<close>

definition exchange_main :: "(pcall \<Rightarrow> int) \<Rightarrow> files \<Rightarrow> string list \<Rightarrow> ExchangeGlobals console option result" where
  "exchange_main rc fs argv =
     (if length argv \<noteq> 3 then Inr None
      else bindE (stoi (argv ! 1)) (\<lambda>idx.
        if \<not> (idx = 0 \<or> idx = 1) then Inl (UbiquantException 1)
        else bindE (load_config fs (argv ! 2) (initConfig\<lparr>partition_idx := idx\<rparr>)) (\<lambda>cfg.
             bindE (print_config cfg) (\<lambda>ls.
             bindE (newOrderReceiver cfg) (\<lambda>r.
             bindE (newTradeSenders cfg) (\<lambda>ss.
             bindE (newExchange cfg) (\<lambda>ex.
             bindE (thread_start rc False) (\<lambda>_.
             bindE (thread_start rc False) (\<lambda>_.
             bindE (mapE (\<lambda>code. thread_start rc False) (stk_codes cfg)) (\<lambda>_.
               Inr (Some (at_prompt cfg [''Exchange['' @ show_int idx @ ''] is starting...''] ls
                 \<lparr>g_receiver = Some (new_channel r), g_sender = Some (new_channel ss), g_exchange = Some ex,
                  g_after_reset = False\<rparr>))))))))))))"

text \<open>\<open>TraderTradeReceiver\<close> creates a file for each stock first; \<open>creates\<close> says whether \<open>open\<close> succeeds.\<close>

definition trade_file :: "Config \<Rightarrow> int \<Rightarrow> string" where
  "trade_file cfg code = trade_output_folder cfg @ ''/trade_res.'' @ show_int code"

definition newTraderTradeReceiver :: "(string \<Rightarrow> bool) \<Rightarrow> Config \<Rightarrow> MessageReceiver result" where
  "newTraderTradeReceiver creates cfg =
     (if trade_output_folder cfg = [] then Inl (UbiquantException 1)
      else if \<not> list_all (\<lambda>code. creates (trade_file cfg code)) [1..stock_num cfg] then Inl (RuntimeError ''open wal file error.'')
      else newTradeMsgReceiver cfg)"

definition newTrader :: "(pcall \<Rightarrow> int) \<Rightarrow> (string \<Rightarrow> bool) \<Rightarrow> int h5 \<Rightarrow> double h5 \<Rightarrow> Config \<Rightarrow> TraderGlobals result" where
  "newTrader rc creates h5i h5d cfg =
     (if stock_num cfg < 0 then Inl BadAlloc
      else bindE (newTraderTradeReceiver creates cfg) (\<lambda>r.
           bindE (mapE (newOrderSender cfg) [0..exchange_num cfg - 1]) (\<lambda>ss.
           bindE (thread_start rc False) (\<lambda>_.
           bindE (mapE (\<lambda>_. thread_start rc False) ss) (\<lambda>_.
           bindE (newTraderController cfg h5i h5d) (\<lambda>tc.
             Inr \<lparr>t_receiver = new_channel r, t_senders = map new_channel ss, t_controller = tc, t_after_reset = False\<rparr>))))))"

definition trader_main :: "(pcall \<Rightarrow> int) \<Rightarrow> files \<Rightarrow> (string \<Rightarrow> bool) \<Rightarrow> int h5 \<Rightarrow> double h5 \<Rightarrow> string list
    \<Rightarrow> TraderPtr console option result" where
  "trader_main rc fs creates h5i h5d argv =
     (if length argv \<noteq> 4 then Inr None
      else bindE (stoi (argv ! 1)) (\<lambda>idx.
           bindE (stoi (argv ! 3)) (\<lambda>mode.
             if \<not> (idx = 0 \<or> idx = 1) then Inl (UbiquantException 1)
             else bindE (load_config fs (argv ! 2) (initConfig\<lparr>partition_idx := idx, load_mode := mode\<rparr>)) (\<lambda>cfg.
                  bindE (print_config cfg) (\<lambda>ls.
                  bindE (newTrader rc creates h5i h5d cfg) (\<lambda>t.
                  bindE (thread_start rc False) (\<lambda>_.
                    Inr (Some (at_prompt cfg [''Trader['' @ show_int idx @ ''] is starting...''] ls (Some t))))))))))"

definition exchange_prompt :: "'s console \<Rightarrow> string" where
  "exchange_prompt c = ''Exchange['' @ show_int (partition_idx (c_config c)) @ '']''"

definition trader_prompt :: "'s console \<Rightarrow> string" where
  "trader_prompt c = ''Trader['' @ show_int (partition_idx (c_config c)) @ '']''"

end
