(* ===== verification/Program_Properties.thy ===== *)
theory Program_Properties
  imports Programs Config_Properties
begin

text \<open>
  Properties of the console and of the two programs: what a session keeps, that the channels of the process fit its
  network tables, how the commands that stop, reset and restart the channels fit together, and the commands that do not
  come back.
\<close>

section \<open>Results of a sequence of calls\<close>

lemma if_InrE:
  "(if b then r else s) = y \<Longrightarrow> (b \<Longrightarrow> r = y \<Longrightarrow> thesis) \<Longrightarrow> (\<not> b \<Longrightarrow> s = y \<Longrightarrow> thesis) \<Longrightarrow> thesis"
  by (cases b) simp_all

section \<open>Words of a command\<close>

lemma split_at_nonempty: "split_at d str \<noteq> []"
  by (induction str) (auto split: list.splits)

text \<open>The fields, joined by the separator, are the string.\<close>

fun join_with :: "char \<Rightarrow> string list \<Rightarrow> string" where
  "join_with d [] = []"
| "join_with d [w] = w"
| "join_with d (w # ws) = w @ d # join_with d ws"

lemma join_with_Cons: "ws \<noteq> [] \<Longrightarrow> join_with d (w # ws) = w @ d # join_with d ws"
  by (cases ws) simp_all

lemma join_with_hd: "join_with d ((c # w) # ws) = c # join_with d (w # ws)"
  by (cases ws) simp_all

lemma join_split: "join_with d (split_at d str) = str \<and> list_all (\<lambda>w. d \<notin> set w) (split_at d str)"
proof (induction str)
  case (Cons c cs)
  show ?case
  proof (cases "c = d")
    case True
    then show ?thesis using Cons by (simp add: join_with_Cons split_at_nonempty)
  next
    case False
    obtain w ws where "split_at d cs = w # ws" using split_at_nonempty by (meson neq_Nil_conv)
    then show ?thesis using Cons False by (simp add: join_with_hd)
  qed
qed simp

section \<open>What a session keeps\<close>

text \<open>
  Against the settings \<open>d\<close> at the start: only the network tables may differ, and they have their sizes; and the running
  process fits its configuration as \<open>I\<close> says.
\<close>

definition session_ok :: "(Config \<Rightarrow> 's \<Rightarrow> bool) \<Rightarrow> Config \<Rightarrow> 's console \<Rightarrow> bool" where
  "session_ok I d c \<longleftrightarrow>
     settings (c_config c) = settings d \<and> network_typed (c_config c) \<and> LOG_EVERYTHING \<le> c_level c \<and> c_level c \<le> LOG_NONE
     \<and> I (c_config c) (c_proc c)"

lemma session_ok_say [simp]: "session_ok I d (say ms c) = session_ok I d c"
  by (simp add: session_ok_def say_def)

lemma session_ok_fail [simp]: "session_ok I d (fail_to_parse argv c) = session_ok I d c"
  by (simp add: fail_to_parse_def)

lemma session_ok_config [simp]: "session_ok I d (c\<lparr>c_config := c_config c\<rparr>) = session_ok I d c"
  by (simp add: session_ok_def)

lemma reload_config_id [simp]: "reload_config str c = c"
proof -
  have "fold (\<lambda>(k, v) c. snd (set_mutable_config k v c)) items c = c" for items
    by (induction items) (auto simp: set_mutable_config_def)
  then show ?thesis by (simp add: reload_config_def)
qed

lemma with_options_keeps:
  assumes "with_options B desc shown argv c run = Inr c'" and "session_ok I d c"
    and "\<And>vm. run vm = Inr c' \<Longrightarrow> session_ok I d c'"
  shows "session_ok I d c'"
  using assms by (auto simp: with_options_def split: option.splits if_splits)

lemma run_proc_keeps:
  assumes "run_proc f c = Inr c'" and "session_ok I d c"
    and "\<And>ms s. f (c_config c) (c_proc c) = Inr (ms, s) \<Longrightarrow> I (c_config c) s"
  shows "session_ok I d c'"
  using assms by (auto simp: run_proc_def bindE_eq_Inr session_ok_def say_def)

lemma run_config_keeps: "run_config B fs argv c = Inr c' \<Longrightarrow> session_ok I d c \<Longrightarrow> session_ok I d c'"
  unfolding run_config_def
  by (erule with_options_keeps, assumption) (auto simp: bindE_eq_Inr split: if_splits)

lemma run_logger_keeps: "run_logger B argv c = Inr c' \<Longrightarrow> session_ok I d c \<Longrightarrow> session_ok I d c'"
  unfolding run_logger_def
  by (erule with_options_keeps, assumption) (auto simp: bindE_eq_Inr session_ok_def say_def split: if_splits)

lemma run_sparql_keeps: "run_sparql B fs argv c = Inr c' \<Longrightarrow> session_ok I d c \<Longrightarrow> session_ok I d c'"
  unfolding run_sparql_def
  by (erule with_options_keeps, assumption) (auto simp: bindE_eq_Inr split: if_splits)

lemma run_check_keeps: "run_check B argv c = Inr c' \<Longrightarrow> session_ok I d c \<Longrightarrow> session_ok I d c'"
  unfolding run_check_def
  by (erule with_options_keeps, assumption) (auto simp: bindE_eq_Inr split: option.splits)

text \<open>
  What the console relies on in a program: the commands that stop and restart the channels keep \<open>I\<close>, and a reset
  establishes it for the new network tables.
\<close>

locale console_program =
  fixes P :: "'s program" and I :: "Config \<Rightarrow> 's \<Rightarrow> bool"
  assumes stop_sender: "I cfg s \<Longrightarrow> p_stop_sender P cfg s = Inr (ms, s') \<Longrightarrow> I cfg s'"
    and stop_receiver: "I cfg s \<Longrightarrow> p_stop_receiver P cfg s = Inr (ms, s') \<Longrightarrow> I cfg s'"
    and restart: "I cfg s \<Longrightarrow> p_restart P cfg s = Inr (ms, s') \<Longrightarrow> I cfg s'"
    and reset: "I cfg s \<Longrightarrow> settings cfg' = settings cfg \<Longrightarrow> p_reset P cfg' s = Inr (ms, s') \<Longrightarrow> I cfg' s'"
begin

lemma run_reset_keeps:
  assumes "run_reset B fs P argv c = Inr c'" and ok: "session_ok I d c"
  shows "session_ok I d c'"
  using assms(1) unfolding run_reset_def
proof (rule with_options_keeps [OF _ ok])
  assume "bindE (load_network_config fs (network_config_file (c_config c)) (c_config c)) (\<lambda>cfg. run_proc (p_reset P) (c\<lparr>c_config := cfg\<rparr>)) = Inr c'"
  then obtain cfg ms s where cfg: "load_network_config fs (network_config_file (c_config c)) (c_config c) = Inr cfg"
    and r: "p_reset P cfg (c_proc c) = Inr (ms, s)" "c' = say ms (c\<lparr>c_config := cfg, c_proc := s\<rparr>)"
    by (auto simp: bindE_eq_Inr run_proc_def)
  have n: "network_typed cfg" "settings cfg = settings (c_config c)" using load_network_typed [OF cfg] by simp_all
  have "I cfg s" using ok by (intro reset [OF _ n(2) r(1)]) (simp add: session_ok_def)
  then show "session_ok I d c'" using n ok r(2) by (simp add: session_ok_def say_def)
qed

lemma run_channel_keeps:
  assumes "with_options B desc shown argv c (\<lambda>_. run_proc f c) = Inr c'" and ok: "session_ok I d c"
    and "\<And>ms s. f (c_config c) (c_proc c) = Inr (ms, s) \<Longrightarrow> I (c_config c) s"
  shows "session_ok I d c'"
  using assms(1) by (rule with_options_keeps [OF _ ok]) (rule run_proc_keeps [OF _ ok assms(3)])

lemma run_command_keeps:
  assumes "run_command B fs P argv c = Inr c'" and ok: "session_ok I d c"
  shows "session_ok I d c'"
proof -
  have i: "I (c_config c) (c_proc c)" using ok by (simp add: session_ok_def)
  have hlp: "session_ok I d c'" if "Inr (print_help B c) = Inr c'" using that ok by (auto simp: print_help_def)
  have qt: "session_ok I d c'" if "bindE r (\<lambda>_. Inl (ExitProcess 0)) = Inr c'" for r :: "'s result"
    using that by (simp add: bindE_eq_Inr)
  have fail: "session_ok I d c'" if "Inr (fail_to_parse argv c) = Inr c'" using that ok by auto
  note channel = run_channel_keeps [OF _ ok stop_sender [OF i]] run_channel_keeps [OF _ ok stop_receiver [OF i]]
    run_channel_keeps [OF _ ok restart [OF i]]
  note other = run_config_keeps [OF _ ok] run_logger_keeps [OF _ ok] run_sparql_keeps [OF _ ok] run_check_keeps [OF _ ok]
    run_reset_keeps [OF _ ok]
  show ?thesis using assms(1)
    unfolding run_command_def run_stops_def run_stopr_def run_restart_def
    by (elim bindE_InrE [of "at argv 0"] if_InrE hlp qt fail channel other)
qed

lemma catch_command_keeps:
  assumes "catch_command argv c r = Inr c'" and "session_ok I d c" and "\<And>x. r = Inr x \<Longrightarrow> session_ok I d x"
  shows "session_ok I d c'"
  using assms by (auto simp: catch_command_def bindE_eq_Inr split: sum.splits error.splits)

lemma run_console_keeps:
  "run_console B fs P n cmds c = Inr c' \<Longrightarrow> session_ok I d c \<Longrightarrow> session_ok I d c'"
proof (induction cmds arbitrary: c)
  case (Cons cmd cmds)
  let ?c = "say [Out (n @ ''> '')] c"
  have ok: "session_ok I d ?c" using Cons.prems(2) by simp
  show ?case
  proof (cases "list_all is_blank cmd")
    case True
    then show ?thesis using Cons.IH [OF _ ok] Cons.prems(1) by simp
  next
    case False
    then obtain x where "catch_command (CMD2Args (trim cmd)) ?c (run_command B fs P (CMD2Args (trim cmd)) ?c) = Inr x"
      "run_console B fs P n cmds x = Inr c'" using Cons.prems(1) by (auto simp: Let_def bindE_eq_Inr)
    then show ?thesis using Cons.IH catch_command_keeps [OF _ ok] run_command_keeps [OF _ ok] by blast
  qed
qed auto

end

section \<open>The channels fit the configuration\<close>

text \<open>
  The receiver of an exchange is bound to the ports that the network tables have for it, and each of its senders has the
  channel of its trader; the same for a trader.
\<close>

definition exchange_channels :: "Config \<Rightarrow> ExchangeGlobals \<Rightarrow> bool" where
  "exchange_channels cfg g \<longleftrightarrow>
     (\<exists>r ss. g_receiver g = Some r \<and> g_sender g = Some ss \<and> exchange_ports cfg = Inr (mr_ports (ch_obj r))
        \<and> mr_bound (ch_obj r) = map (bind_address (mr_addr (ch_obj r))) (mr_ports (ch_obj r))
        \<and> mapE (trade_channel cfg) [0..trader_num cfg - 1] = Inr (map ms_channel (ch_obj ss)))"

definition trader_channels :: "Config \<Rightarrow> TraderPtr \<Rightarrow> bool" where
  "trader_channels cfg p \<longleftrightarrow>
     (\<exists>g. p = Some g \<and> trader_ports cfg = Inr (mr_ports (ch_obj (t_receiver g)))
        \<and> mr_bound (ch_obj (t_receiver g)) = map (bind_address (mr_addr (ch_obj (t_receiver g)))) (mr_ports (ch_obj (t_receiver g)))
        \<and> mapE (\<lambda>i. port_pair cfg (partition_idx cfg) i 0) [0..exchange_num cfg - 1]
            = Inr (map (ms_channel \<circ> ch_obj) (t_senders g)))"

lemma mapE_bind:
  "mapE (\<lambda>x. bindE (f x) (g x)) xs = Inr ys \<Longrightarrow> (\<And>x p y. f x = Inr p \<Longrightarrow> g x p = Inr y \<Longrightarrow> h y = p) \<Longrightarrow> mapE f xs = Inr (map h ys)"
  by (induction xs arbitrary: ys) (auto simp: bindE_eq_Inr)

lemma ms_reset_port_channel: "ms_reset_port net p s = Inr s' \<Longrightarrow> ms_channel s' = p"
  by (auto simp: ms_reset_port_def bindE_eq_Inr)

lemma mr_reset_port_ports:
  "mr_reset_port ports r = Inr r' \<Longrightarrow> mr_ports r' = ports \<and> mr_bound r' = map (bind_address (mr_addr r')) ports"
  by (auto simp: mr_reset_port_def split: if_splits)

lemma ts_reset_network_channels:
  "ts_reset_network net cfg ss = Inr ss' \<Longrightarrow> mapE (trade_channel cfg) [0..trader_num cfg - 1] = Inr (map ms_channel ss')"
  unfolding ts_reset_network_def by (erule mapE_bind) (auto simp: bindE_eq_Inr dest: ms_reset_port_channel)

lemma newTradeSenders_channels:
  "newTradeSenders cfg = Inr ss \<Longrightarrow> mapE (trade_channel cfg) [0..trader_num cfg - 1] = Inr (map ms_channel ss)"
  unfolding newTradeSenders_def by (erule mapE_bind) (auto simp: bindE_eq_Inr newMessageSender_def)

lemma global_useD: "global_use p f = Inr (ms, q) \<Longrightarrow> \<exists>x y. p = Some x \<and> q = Some y \<and> f x = Inr (ms, y)"
  by (auto simp: global_use_def bindE_eq_Inr split: option.splits)

interpretation exp: console_program "exchange_program net" exchange_channels
proof
  fix cfg s ms s'
  assume i: "exchange_channels cfg s"
  show "exchange_channels cfg s'" if "p_stop_sender (exchange_program net) cfg s = Inr (ms, s')"
    using that i by (auto simp: exchange_program_def ex_stop_network_sender_def bindE_eq_Inr exchange_channels_def ts_stop_def
        spin_lock_def dest!: global_useD split: if_splits)
  show "exchange_channels cfg s'" if "p_stop_receiver (exchange_program net) cfg s = Inr (ms, s')"
    using that i by (auto simp: exchange_program_def ex_stop_network_receiver_def bindE_eq_Inr exchange_channels_def or_stop_def
        spin_lock_def dest!: global_useD split: if_splits)
  show "exchange_channels cfg s'" if "p_restart (exchange_program net) cfg s = Inr (ms, s')"
    using that i by (auto simp: exchange_program_def ex_restart_network_def bindE_eq_Inr exchange_channels_def ts_restart_def or_restart_def
        spin_unlock_def dest!: global_useD split: if_splits)
  show "exchange_channels cfg' s'" if "p_reset (exchange_program net) cfg' s = Inr (ms, s')" for cfg'
    using that by (auto simp: exchange_program_def ex_reset_network_def bindE_eq_Inr exchange_channels_def or_reset_network_def
        dest!: global_useD mr_reset_port_ports ts_reset_network_channels)
qed

lemma mapE_zip_bind:
  assumes "length xs = length ys" and "mapE (\<lambda>(x, y). bindE (f x) (g x y)) (zip xs ys) = Inr zs"
    and "\<And>x y p z. f x = Inr p \<Longrightarrow> g x y p = Inr z \<Longrightarrow> h z = p"
  shows "mapE f xs = Inr (map h zs)"
  using assms by (induction xs ys arbitrary: zs rule: list_induct2) (auto simp: bindE_eq_Inr)

lemma trader_reset_channels:
  assumes "trader_channels cfg (Some g)" and "settings cfg' = settings cfg" and "tc_reset_network net cfg' g = Inr (ms, g')"
  shows "trader_channels cfg' (Some g')"
proof -
  have same: "exchange_num cfg' = exchange_num cfg" using assms(2) by (auto simp: settings_def dest: arg_cong [of _ _ exchange_num])
  let ?f = "\<lambda>i. port_pair cfg' (partition_idx cfg') i 0"
  have len: "length (t_senders g) = nat (exchange_num cfg)"
    using assms(1) mapE_Inr(1) by (fastforce simp: trader_channels_def)
  obtain r chs where r: "tr_reset_network cfg' (ch_obj (t_receiver g)) = Inr r"
    and chs: "mapE (\<lambda>(i, ch). bindE (?f i) (\<lambda>p. bindE (ms_reset_port net p (ch_obj ch)) (\<lambda>s. Inr (ch\<lparr>ch_obj := s\<rparr>))))
        (zip [0..int (length (t_senders g)) - 1] (t_senders g)) = Inr chs"
    and g': "g' = g\<lparr>t_receiver := (t_receiver g)\<lparr>ch_obj := r\<rparr>, t_senders := chs, t_after_reset := True\<rparr>"
    using assms(3) by (auto simp: tc_reset_network_def os_reset_network_def bindE_eq_Inr bindE_assoc)
  have "mapE ?f [0..int (length (t_senders g)) - 1] = Inr (map (ms_channel \<circ> ch_obj) chs)"
    by (rule mapE_zip_bind [OF _ chs]) (auto simp: bindE_eq_Inr dest: ms_reset_port_channel)
  moreover have "[0..int (length (t_senders g)) - 1] = [0..exchange_num cfg' - 1]" using len same by (cases "0 \<le> exchange_num cfg") simp_all
  ultimately show ?thesis
    using r g' by (auto simp: trader_channels_def tr_reset_network_def bindE_eq_Inr dest!: mr_reset_port_ports)
qed

lemma all_senders_channels:
  assumes "\<And>ch ms ch'. f ch = Inr (ms, ch') \<Longrightarrow> ch_obj ch' = ch_obj ch" and "all_senders f g = Inr (ms, g')"
  shows "map (ms_channel \<circ> ch_obj) (t_senders g') = map (ms_channel \<circ> ch_obj) (t_senders g) \<and> t_receiver g' = t_receiver g"
proof -
  have "map (ms_channel \<circ> ch_obj \<circ> snd) rs = map (ms_channel \<circ> ch_obj) chs" if "mapE f chs = Inr rs" for rs chs
    using that by (induction chs arbitrary: rs) (auto simp: bindE_eq_Inr dest: assms(1))
  then show ?thesis using assms(2) by (auto simp: all_senders_def bindE_eq_Inr comp_assoc)
qed

lemma trader_channels_keep:
  assumes "trader_channels cfg (Some g)" and "ch_obj (t_receiver g') = ch_obj (t_receiver g)"
    and "map (ms_channel \<circ> ch_obj) (t_senders g') = map (ms_channel \<circ> ch_obj) (t_senders g)"
  shows "trader_channels cfg (Some g')"
  using assms by (simp add: trader_channels_def)

lemma channel_objects:
  "os_stop ch = Inr (ms, ch') \<Longrightarrow> ch_obj ch' = ch_obj ch" "os_restart ch = Inr (ms, ch') \<Longrightarrow> ch_obj ch' = ch_obj ch"
  "tr_stop r = Inr (ms, r') \<Longrightarrow> ch_obj r' = ch_obj r" "tr_restart r = Inr (ms, r') \<Longrightarrow> ch_obj r' = ch_obj r"
  by (auto simp: os_stop_def os_restart_def tr_stop_def tr_restart_def spin_lock_def spin_unlock_def bindE_eq_Inr split: if_splits)

lemma trader_keeps:
  assumes "global_use s f = Inr (ms, s')" and "trader_channels cfg s"
    and "\<And>g ms g'. f g = Inr (ms, g') \<Longrightarrow> ch_obj (t_receiver g') = ch_obj (t_receiver g)
      \<and> map (ms_channel \<circ> ch_obj) (t_senders g') = map (ms_channel \<circ> ch_obj) (t_senders g)"
  shows "trader_channels cfg s'"
proof -
  obtain g g' where g: "s = Some g" "s' = Some g'" "f g = Inr (ms, g')" using global_useD [OF assms(1)] by blast
  then show ?thesis using trader_channels_keep assms(2) assms(3) [OF g(3)] by blast
qed

lemma tc_commands_keep:
  "tc_stop_sender g = Inr (ms, g') \<Longrightarrow> ch_obj (t_receiver g') = ch_obj (t_receiver g)
     \<and> map (ms_channel \<circ> ch_obj) (t_senders g') = map (ms_channel \<circ> ch_obj) (t_senders g)"
  "tc_stop_receiver g = Inr (ms, g') \<Longrightarrow> ch_obj (t_receiver g') = ch_obj (t_receiver g)
     \<and> map (ms_channel \<circ> ch_obj) (t_senders g') = map (ms_channel \<circ> ch_obj) (t_senders g)"
  "tc_restart g = Inr (ms, g') \<Longrightarrow> ch_obj (t_receiver g') = ch_obj (t_receiver g)
     \<and> map (ms_channel \<circ> ch_obj) (t_senders g') = map (ms_channel \<circ> ch_obj) (t_senders g)"
proof -
  show "ch_obj (t_receiver g') = ch_obj (t_receiver g)
     \<and> map (ms_channel \<circ> ch_obj) (t_senders g') = map (ms_channel \<circ> ch_obj) (t_senders g)" if "tc_stop_sender g = Inr (ms, g')"
    using all_senders_channels [OF channel_objects(1) that [unfolded tc_stop_sender_def]] by simp
  show "tc_stop_receiver g = Inr (ms, g') \<Longrightarrow> ch_obj (t_receiver g') = ch_obj (t_receiver g)
     \<and> map (ms_channel \<circ> ch_obj) (t_senders g') = map (ms_channel \<circ> ch_obj) (t_senders g)"
    by (auto simp: tc_stop_receiver_def bindE_eq_Inr dest: channel_objects(3))
  assume "tc_restart g = Inr (ms, g')"
  then obtain ms1 g1 ms2 ch where 1: "all_senders os_restart g = Inr (ms1, g1)" and 2: "tr_restart (t_receiver g1) = Inr (ms2, ch)"
    and g': "g' = g1\<lparr>t_receiver := ch\<rparr>" by (auto simp: tc_restart_def bindE_eq_Inr)
  show "ch_obj (t_receiver g') = ch_obj (t_receiver g)
     \<and> map (ms_channel \<circ> ch_obj) (t_senders g') = map (ms_channel \<circ> ch_obj) (t_senders g)"
    using all_senders_channels [OF channel_objects(2) 1] channel_objects(4) [OF 2] g' by simp
qed

interpretation trp: console_program "trader_program net" trader_channels
proof
  fix cfg s ms s'
  assume i: "trader_channels cfg s"
  show "trader_channels cfg s'" if "p_stop_sender (trader_program net) cfg s = Inr (ms, s')"
    using that trader_keeps [OF _ i tc_commands_keep(1)] by (auto simp: trader_program_def tr_stop_network_sender_def bindE_eq_Inr)
  show "trader_channels cfg s'" if "p_stop_receiver (trader_program net) cfg s = Inr (ms, s')"
    using that trader_keeps [OF _ i tc_commands_keep(2)] by (auto simp: trader_program_def tr_stop_network_receiver_def bindE_eq_Inr)
  show "trader_channels cfg s'" if "p_restart (trader_program net) cfg s = Inr (ms, s')"
    using that trader_keeps [OF _ i tc_commands_keep(3)] by (auto simp: trader_program_def tr_restart_network_def bindE_eq_Inr)
  show "trader_channels cfg' s'" if "settings cfg' = settings cfg" "p_reset (trader_program net) cfg' s = Inr (ms, s')" for cfg'
    using that i by (auto simp: trader_program_def trd_reset_network_def bindE_eq_Inr dest!: global_useD intro: trader_reset_channels)
qed

section \<open>Sessions\<close>

lemma initConfig_typed: "in_i32 i \<Longrightarrow> in_i32 m \<Longrightarrow> settings_typed (initConfig\<lparr>partition_idx := i, load_mode := m\<rparr>)"
  by (simp add: settings_typed_def initConfig_def folder_ok_def in_i32_def)

lemma exchange_main_typed:
  assumes "exchange_main rc fs argv = Inr (Some c)"
  shows "settings_typed (c_config c) \<and> partition_idx (c_config c) \<in> {0, 1} \<and> session_ok exchange_channels (c_config c) c"
proof -
  have "\<exists>idx r ss. (idx = 0 \<or> idx = 1) \<and> load_config fs (argv ! 2) (initConfig\<lparr>partition_idx := idx\<rparr>) = Inr (c_config c)
      \<and> c_level c = LOG_INFO \<and> newOrderReceiver (c_config c) = Inr r \<and> newTradeSenders (c_config c) = Inr ss
      \<and> g_receiver (c_proc c) = Some (new_channel r) \<and> g_sender (c_proc c) = Some (new_channel ss)"
    using assms unfolding exchange_main_def by (elim if_InrE bindE_InrE) (auto simp: at_prompt_def)
  then obtain idx r ss where idx: "idx = 0 \<or> idx = 1" and c: "c_level c = LOG_INFO"
    and l: "load_config fs (argv ! 2) (initConfig\<lparr>partition_idx := idx\<rparr>) = Inr (c_config c)"
    and r: "newOrderReceiver (c_config c) = Inr r" "newTradeSenders (c_config c) = Inr ss"
      "g_receiver (c_proc c) = Some (new_channel r)" "g_sender (c_proc c) = Some (new_channel ss)" by blast
  have "exchange_channels (c_config c) (c_proc c)"
    using r newTradeSenders_channels [OF r(2)]
    by (auto simp: exchange_channels_def newOrderReceiver_def bindE_eq_Inr newMessageReceiver_def new_channel_def)
  moreover have "settings_typed (initConfig\<lparr>partition_idx := idx\<rparr>)"
    using initConfig_typed [of idx 0] idx by (auto simp: initConfig_def in_i32_def)
  from load_config_typed [OF l this] idx have "settings_typed (c_config c) \<and> partition_idx (c_config c) \<in> {0, 1} \<and> network_typed (c_config c)"
    by auto
  ultimately show ?thesis using c by (simp add: session_ok_def LOG_INFO_def LOG_EVERYTHING_def LOG_NONE_def)
qed

lemma trader_main_typed:
  assumes "trader_main rc fs creates h5i h5d argv = Inr (Some c)"
  shows "settings_typed (c_config c) \<and> partition_idx (c_config c) \<in> {0, 1} \<and> session_ok trader_channels (c_config c) c"
proof -
  have "\<exists>idx mode g. (idx = 0 \<or> idx = 1) \<and> stoi (argv ! 3) = Inr mode
      \<and> load_config fs (argv ! 2) (initConfig\<lparr>partition_idx := idx, load_mode := mode\<rparr>) = Inr (c_config c)
      \<and> c_level c = LOG_INFO \<and> newTrader rc creates h5i h5d (c_config c) = Inr g \<and> c_proc c = Some g"
    using assms unfolding trader_main_def by (elim if_InrE bindE_InrE) (auto simp: at_prompt_def)
  then obtain idx mode g where idx: "idx = 0 \<or> idx = 1" and m: "stoi (argv ! 3) = Inr mode" and c: "c_level c = LOG_INFO"
    and l: "load_config fs (argv ! 2) (initConfig\<lparr>partition_idx := idx, load_mode := mode\<rparr>) = Inr (c_config c)"
    and g: "newTrader rc creates h5i h5d (c_config c) = Inr g" "c_proc c = Some g" by blast
  obtain r ss where r: "newTradeMsgReceiver (c_config c) = Inr r" "mapE (newOrderSender (c_config c)) [0..exchange_num (c_config c) - 1] = Inr ss"
    "t_receiver g = new_channel r" "t_senders g = map new_channel ss"
    using g(1) by (auto simp: newTrader_def newTraderTradeReceiver_def bindE_eq_Inr split: if_splits)
  have "mapE (\<lambda>i. port_pair (c_config c) (partition_idx (c_config c)) i 0) [0..exchange_num (c_config c) - 1] = Inr (map ms_channel ss)"
    using r(2) unfolding newOrderSender_def by (rule mapE_bind) (auto simp: bindE_eq_Inr newMessageSender_def)
  then have "trader_channels (c_config c) (c_proc c)"
    using r g(2) by (auto simp: trader_channels_def newTradeMsgReceiver_def bindE_eq_Inr newMessageReceiver_def new_channel_def comp_def)
  moreover have "in_i32 mode" using m by (auto simp: stoi_def Let_def split: if_splits)
  then have "settings_typed (initConfig\<lparr>partition_idx := idx, load_mode := mode\<rparr>)"
    using initConfig_typed [of idx mode] idx by (auto simp: in_i32_def)
  from load_config_typed [OF l this] idx have "settings_typed (c_config c) \<and> partition_idx (c_config c) \<in> {0, 1} \<and> network_typed (c_config c)"
    by auto
  ultimately show ?thesis using c by (simp add: session_ok_def LOG_INFO_def LOG_EVERYTHING_def LOG_NONE_def)
qed

lemma settings_same: "settings c = settings d \<Longrightarrow> settings_typed c = settings_typed d \<and> partition_idx c = partition_idx d"
  using settings_typed_settings [of c] settings_typed_settings [of d] by (auto simp: settings_def dest: arg_cong [of _ _ partition_idx])

lemma session_typed:
  assumes "session_ok I d c" and "settings_typed d" and "partition_idx d \<in> {0, 1}"
  shows "settings_typed (c_config c) \<and> network_typed (c_config c) \<and> partition_idx (c_config c) \<in> {0, 1} \<and> I (c_config c) (c_proc c)"
  using assms settings_same [of "c_config c" d] by (simp add: session_ok_def)

text \<open>
  (C39) The channels of a running exchange fit its configuration: when the program has started and any commands
  have been entered at its console, whatever the network file then held, the configuration is well typed (numbers are in the range of
  \<open>int\<close>, folders end in a slash, the partition is 0 or 1, the address and port tables have two rows of two), the receiver
  is bound to exactly the ports that the present tables have for it, two for each trader, and each trade sender has the
  channel of its trader, with the ports swapped, as in an exchange that is started with these tables.
\<close>

theorem exchange_session_channels:
  assumes "exchange_main rc fs argv = Inr (Some c)"
    and "run_console B fs' (exchange_program net) (exchange_prompt c) cmds c = Inr c'"
  shows "settings_typed (c_config c') \<and> network_typed (c_config c') \<and> partition_idx (c_config c') \<in> {0, 1}
    \<and> (\<exists>r ss. g_receiver (c_proc c') = Some r \<and> g_sender (c_proc c') = Some ss
         \<and> exchange_ports (c_config c') = Inr (mr_ports (ch_obj r))
         \<and> mr_bound (ch_obj r) = map (bind_address (mr_addr (ch_obj r))) (mr_ports (ch_obj r))
         \<and> mapE (trade_channel (c_config c')) [0..trader_num (c_config c') - 1] = Inr (map ms_channel (ch_obj ss)))"
proof -
  note m = exchange_main_typed [OF assms(1)]
  then have "session_ok exchange_channels (c_config c) c'" using exp.run_console_keeps [OF assms(2)] by blast
  from session_typed [OF this] m show ?thesis by (simp add: exchange_channels_def)
qed

definition ex_files :: files where
  "ex_files = [''config'' \<mapsto> [''stock_num 4'', ''# a comment'', ''network_config_file net''],
     ''net'' \<mapsto> [''exchange0 e0'', ''trader0 t0'', ''trader1 t1'', ''trader0:exchange0 11 21'', ''trader0:exchange0 12 22'', ''trader0:exchange0 13 23'',
       ''trader1:exchange0 14 24'', ''trader1:exchange0 15 25'', ''trader1:exchange0 16 26'']]"

definition ex_config :: Config where
  "ex_config = initConfig\<lparr>partition_idx := 0, stock_num := 4, network_config_file := ''net'', traders_addr := [''t0'', ''t1''],
     exchanges_addr := [''e0'', []],
     trader_port2exchange_port := [[[(11, 21), (12, 22), (13, 23)], []], [[(14, 24), (15, 25), (16, 26)], []]]\<rparr>"

text \<open>A parser that knows the word \<open>-s\<close>.\<close>

definition ex_boost :: boost where
  "ex_boost = \<lparr>parse_command_line = (\<lambda>d argv. case argv of
       [_, w, v] \<Rightarrow> if w = ''-s'' then Some [''-s'' \<mapsto> if d = logger_desc then IntVal (atoi v) else StrVal v] else None
     | _ \<Rightarrow> Some Map.empty), show_desc = caption, show_all = fst\<rparr>"

lemma ex_load: "load_config ex_files ''config'' (initConfig\<lparr>partition_idx := 0\<rparr>) = Inr ex_config"
  by code_simp

lemma ex_start: "\<exists>ls ex. exchange_main (\<lambda>_. 0) ex_files [''exchange'', ''0'', ''config''] = Inr (Some (at_prompt ex_config
    [''Exchange[0] is starting...''] ls
    \<lparr>g_receiver = Some (new_channel (newMessageReceiver ''e0'' [21, 22, 24, 25])),
     g_sender = Some (new_channel [newMessageSender ''e0'' ''t0'' (23, 13), newMessageSender ''e0'' ''t1'' (26, 16)]),
     g_exchange = Some ex, g_after_reset = False\<rparr>))"
proof -
  have "\<exists>ls. print_config ex_config = Inr ls" by (simp add: print_config_def ex_config_def port_map_def)
  then obtain ls where ls: "print_config ex_config = Inr ls" by blast
  have "\<exists>ex. newExchange ex_config = Inr ex" by (simp add: newExchange_def ex_config_def initConfig_def)
  then obtain ex where ex: "newExchange ex_config = Inr ex" by blast
  have a: "stoi ''0'' = Inr 0" "show_int 0 = ''0''" by code_simp+
  have b: "newOrderReceiver ex_config = Inr (newMessageReceiver ''e0'' [21, 22, 24, 25])"
    "newTradeSenders ex_config = Inr [newMessageSender ''e0'' ''t0'' (23, 13), newMessageSender ''e0'' ''t1'' (26, 16)]" by code_simp+
  have d: "thread_start (\<lambda>_. 0) False = Inr [AttrInit, Create, AttrDestroy]" "stk_codes ex_config = [2, 4]" by code_simp+
  show ?thesis by (rule exI [of _ ls], rule exI [of _ ex]) (simp add: exchange_main_def ex_load ls ex a b d)
qed

text \<open>The network file has changed when the session resets the channels.\<close>

definition ex_files2 :: files where
  "ex_files2 = [''net'' \<mapsto> [''exchange0 e0'', ''trader0 t0'', ''trader1 t1'', ''trader0:exchange0 31 41'', ''trader0:exchange0 32 42'', ''trader0:exchange0 33 43'',
       ''trader1:exchange0 34 44'', ''trader1:exchange0 35 45'', ''trader1:exchange0 36 46'']]"

definition ex_config2 :: Config where
  "ex_config2 = ex_config\<lparr>trader_port2exchange_port := [[[(31, 41), (32, 42), (33, 43)], []], [[(34, 44), (35, 45), (36, 46)], []]]\<rparr>"

lemma ex_reload: "load_network_config ex_files2 (network_config_file ex_config) ex_config = Inr ex_config2"
  by code_simp

lemma ex_args:
  "CMD2Args (trim ''logger -s 4 '') = [''logger'', ''-s'', ''4'']" "CMD2Args (trim ''stops'') = [''stops'']"
  "CMD2Args (trim ''reset-net'') = [''reset-net'']"
  by code_simp+

lemma ex_parse:
  "parse_command_line ex_boost logger_desc [''logger'', ''-s'', ''4''] = Some [''-s'' \<mapsto> IntVal 4]"
  "parse_command_line ex_boost stops_desc [''stops''] = Some Map.empty"
  "parse_command_line ex_boost reset_desc [''reset-net''] = Some Map.empty"
proof -
  have "atoi ''4'' = 4" by code_simp
  then show "parse_command_line ex_boost logger_desc [''logger'', ''-s'', ''4''] = Some [''-s'' \<mapsto> IntVal 4]"
    "parse_command_line ex_boost stops_desc [''stops''] = Some Map.empty"
    "parse_command_line ex_boost reset_desc [''reset-net''] = Some Map.empty"
    by (simp_all add: ex_boost_def)
qed

lemma ex_reset:
  "\<exists>r ss. or_reset_network ex_config2 (newMessageReceiver ''e0'' [21, 22, 24, 25]) = Inr r
    \<and> ts_reset_network (\<lambda>_ _. Done) ex_config2 [newMessageSender ''e0'' ''t0'' (23, 13), newMessageSender ''e0'' ''t1'' (26, 16)] = Inr ss"
proof -
  have "isl (or_reset_network ex_config2 (newMessageReceiver ''e0'' [21, 22, 24, 25])) = False"
    "isl (ts_reset_network (\<lambda>_ _. Done) ex_config2 [newMessageSender ''e0'' ''t0'' (23, 13), newMessageSender ''e0'' ''t1'' (26, 16)]) = False"
    by code_simp+
  then show ?thesis by (metis sum.collapse(2))
qed

lemma ex_session:
  assumes "c_config c = ex_config" and "c_proc c = \<lparr>g_receiver = Some (new_channel (newMessageReceiver ''e0'' [21, 22, 24, 25])),
     g_sender = Some (new_channel [newMessageSender ''e0'' ''t0'' (23, 13), newMessageSender ''e0'' ''t1'' (26, 16)]),
     g_exchange = ex, g_after_reset = b\<rparr>"
  shows "\<exists>c'. run_console ex_boost ex_files2 (exchange_program (\<lambda>_ _. Done)) n [''logger -s 4 '', '' '', ''stops'', ''reset-net''] c = Inr c'
    \<and> c_level c' = 4 \<and> c_config c' = ex_config2"
proof -
  obtain r ss where r: "or_reset_network ex_config2 (newMessageReceiver ''e0'' [21, 22, 24, 25]) = Inr r"
    "ts_reset_network (\<lambda>_ _. Done) ex_config2 [newMessageSender ''e0'' ''t0'' (23, 13), newMessageSender ''e0'' ''t1'' (26, 16)] = Inr ss"
    using ex_reset by blast
  have l: "show_level 4 = Inr (show_int 4 @ '' (WARNING)'' @ newline)" by (simp add: show_level_def levelname_def)
  have b: "\<not> list_all is_blank ''logger -s 4 ''" "list_all is_blank '' ''" "\<not> list_all is_blank ''stops''"
    "\<not> list_all is_blank ''reset-net''" by (simp_all add: is_blank_def)
  show ?thesis
    by (simp add: b ex_args run_command_def run_logger_def run_stops_def run_reset_def with_options_def ex_parse as_int_def l
        LOG_EVERYTHING_def LOG_NONE_def catch_command_def run_proc_def exchange_program_def ex_stop_network_sender_def ex_reset_network_def
        global_use_def ts_stop_def spin_lock_def new_channel_def assms say_def Let_def is_blank_def ex_reload r)
qed

theorem exchange_session_channels_witness:
  "\<exists>c c' r. exchange_main (\<lambda>_. 0) ex_files [''exchange'', ''0'', ''config''] = Inr (Some c)
    \<and> run_console ex_boost ex_files2 (exchange_program (\<lambda>_ _. Done)) (exchange_prompt c)
        [''logger -s 4 '', '' '', ''stops'', ''reset-net''] c = Inr c'
    \<and> g_receiver (c_proc c') = Some r \<and> mr_ports (ch_obj r) = [41, 42, 44, 45]"
proof -
  obtain c ex where c: "exchange_main (\<lambda>_. 0) ex_files [''exchange'', ''0'', ''config''] = Inr (Some c)" "c_config c = ex_config"
    "c_proc c = \<lparr>g_receiver = Some (new_channel (newMessageReceiver ''e0'' [21, 22, 24, 25])),
     g_sender = Some (new_channel [newMessageSender ''e0'' ''t0'' (23, 13), newMessageSender ''e0'' ''t1'' (26, 16)]),
     g_exchange = ex, g_after_reset = False\<rparr>"
    using ex_start by (force simp: at_prompt_def)
  obtain c' where c': "run_console ex_boost ex_files2 (exchange_program (\<lambda>_ _. Done)) (exchange_prompt c)
      [''logger -s 4 '', '' '', ''stops'', ''reset-net''] c = Inr c'" "c_config c' = ex_config2"
    using ex_session [OF c(2,3)] by blast
  have "exchange_ports ex_config2 = Inr [41, 42, 44, 45]" by code_simp
  with exchange_session_channels [OF c(1) c'(1)] c'(2) have "\<exists>r. g_receiver (c_proc c') = Some r \<and> mr_ports (ch_obj r) = [41, 42, 44, 45]"
    by auto
  then show ?thesis using c(1) c'(1) by blast
qed

section \<open>Commands that do not come back\<close>

text \<open>\<open>quit\<close> waits for the threads of the engines, which never end.\<close>

lemma exchange_quit_hangs:
  assumes "newExchange (c_config c) = Inr ex" and "g_exchange (c_proc c) = Some ex" and "stk_codes (c_config c) \<noteq> []"
  shows "run_command B fs (exchange_program net) (''quit'' # args) c = Inl Deadlock"
proof -
  have "stock_exchange ex code \<noteq> None" if "code \<in> set (stk_codes (c_config c))" for code
    using assms(1) that by (auto simp: newExchange_def split: if_splits)
  then have "list_ex (\<lambda>code. stock_exchange ex code \<noteq> None) (stk_codes (c_config c))"
    using assms(3) by (auto simp: list_ex_iff neq_Nil_conv)
  then show ?thesis by (simp add: run_command_def exchange_program_def ex_exit_system_def assms(2))
qed

text \<open>To stop the senders twice, or to restart what has not been stopped.\<close>

lemma stop_twice_hangs:
  assumes "ex_stop_network_sender cfg g = Inr (ms, g')"
  shows "ex_stop_network_sender cfg g' = Inl Deadlock"
  using assms
  by (auto simp: ex_stop_network_sender_def global_use_def bindE_eq_Inr dest: ets.stop_stop split: option.splits)

lemma restart_needs_stop:
  assumes "g_receiver g = Some r" and "\<not> ch_locked r"
  shows "ex_restart_network cfg g = Inl Undefined"
  using assms by (simp add: ex_restart_network_def global_use_def eor.restart_free)

text \<open>After \<open>stops\<close> and \<open>stopr\<close>, \<open>restart\<close> gives back the channels as they were.\<close>

lemma stop_restart:
  assumes "g_receiver g = Some r" and "\<not> ch_locked r" and "g_sender g = Some s" and "\<not> ch_locked s"
  shows "\<exists>ms1 g1 ms2 g2 ms3. ex_stop_network_sender cfg g = Inr (ms1, g1) \<and> ex_stop_network_receiver cfg g1 = Inr (ms2, g2)
    \<and> ex_restart_network cfg g2 = Inr (ms3, g)"
  using assms ets.stop_then_restart [OF assms(4)] eor.stop_then_restart [OF assms(2)]
  by (auto simp: ex_stop_network_sender_def ex_stop_network_receiver_def ex_restart_network_def global_use_def)

text \<open>A query file always ends the process: \<open>run_sparql\<close> reads an option \<open>-n\<close> that is not declared.\<close>

lemma sparql_single_mode_fails:
  assumes "parse_command_line B sparql_desc argv = Some vm" and "dom vm \<subseteq> opt_name ` set (options sparql_desc)"
    and "vm ''help'' = None" and "vm ''-f'' = Some (StrVal fname)" and "fs fname \<noteq> None" and "vm ''-m'' = Some (IntVal m)"
  shows "run_sparql B fs argv c = Inl BadAnyCast"
proof -
  have "''-n'' \<notin> dom vm" "''-b'' \<notin> dom vm" using assms(2) by (auto simp: sparql_desc_def)
  then have "vm ''-n'' = None" "vm ''-b'' = None" by auto
  then show ?thesis using assms by (simp add: run_sparql_def with_options_def as_str_def as_int_def)
qed

text \<open>A level out of range is reported with a name from behind the table.\<close>

lemma bad_level_undefined:
  assumes "parse_command_line B logger_desc argv = Some vm" and "vm ''help'' = None" and "vm ''-v'' = None"
    and "vm ''-s'' = Some (IntVal level)" and "\<not> (0 \<le> level \<and> level \<le> 7)"
  shows "run_logger B argv c = Inl Undefined"
proof -
  have "show_level level = Inl Undefined" using assms(5) by (auto simp: show_level_def at_def levelname_def)
  then show ?thesis using assms
    by (simp add: run_logger_def with_options_def as_int_def LOG_EVERYTHING_def LOG_NONE_def)
qed

end
