(* ===== verification/Control.thy ===== *)
theory Control
  imports Network
begin

text \<open>
  The console and the thread of \<open>ExchangeTradeSender\<close> (\<open>src/src/exchange/trade_sender.cpp\<close>) at the same time. The
  thread takes the spin lock around every \<open>send\<close>; \<open>stop\<close> takes it for the console, \<open>restart\<close> frees it, and
  \<open>reset_network\<close> changes the senders without looking at it. Steps of the two interleave. Where \<open>Programs\<close> has the
  console alone and the lock is held or not, here the holder matters: to free a lock that one does not hold is undefined.
\<close>

section \<open>Steps\<close>

datatype holder = Nobody | TheConsole | TheThread

text \<open>Where the thread is: before \<open>pthread_spin_lock\<close>, before \<open>send\<close>, before \<open>pthread_spin_unlock\<close>.\<close>

datatype pc = AtLock | AtSend | AtUnlock

datatype command = Stop | Reset | Restart

record Control =
  ct_lock :: holder
  ct_pc :: pc
  ct_senders :: "MessageSender list"
  ct_todo :: "command list"
  ct_resetting :: bool
  ct_failed :: "error option"

text \<open>
  \<open>reset_network\<close> takes time: it begins, and when it ends the senders have changed. A send or a reset that throws, and a restart
  while the console does not hold the lock, end the process, which makes no step any more. A \<open>stop\<close> waits while the lock is held.
\<close>

inductive ctl_step :: "(zop list \<Rightarrow> zop \<Rightarrow> zret) \<Rightarrow> Config \<Rightarrow> Control \<Rightarrow> Control \<Rightarrow> bool" for net cfg where
  lock: "ct_failed s = None \<Longrightarrow> ct_pc s = AtLock \<Longrightarrow> ct_lock s = Nobody \<Longrightarrow> ctl_step net cfg s (s\<lparr>ct_lock := TheThread, ct_pc := AtSend\<rparr>)"
| send: "ct_failed s = None \<Longrightarrow> ct_pc s = AtSend \<Longrightarrow> idx < length (ct_senders s) \<Longrightarrow> ms_send net msg (ct_senders s ! idx) = Inr (res, m) \<Longrightarrow>
    ctl_step net cfg s (s\<lparr>ct_pc := AtUnlock, ct_senders := (ct_senders s)[idx := m]\<rparr>)"
| send_throws: "ct_failed s = None \<Longrightarrow> ct_pc s = AtSend \<Longrightarrow> idx < length (ct_senders s) \<Longrightarrow> ms_send net msg (ct_senders s ! idx) = Inl e \<Longrightarrow>
    ctl_step net cfg s (s\<lparr>ct_failed := Some e\<rparr>)"
| unlock: "ct_failed s = None \<Longrightarrow> ct_pc s = AtUnlock \<Longrightarrow> ctl_step net cfg s (s\<lparr>ct_lock := Nobody, ct_pc := AtLock\<rparr>)"
| stop: "ct_failed s = None \<Longrightarrow> ct_todo s = Stop # cs \<Longrightarrow> ct_lock s = Nobody \<Longrightarrow>
    ctl_step net cfg s (s\<lparr>ct_lock := TheConsole, ct_todo := cs\<rparr>)"
| begin_reset: "ct_failed s = None \<Longrightarrow> ct_todo s = Reset # cs \<Longrightarrow> \<not> ct_resetting s \<Longrightarrow> ctl_step net cfg s (s\<lparr>ct_resetting := True\<rparr>)"
| end_reset: "ct_failed s = None \<Longrightarrow> ct_todo s = Reset # cs \<Longrightarrow> ct_resetting s \<Longrightarrow> ts_reset_network net cfg (ct_senders s) = Inr ss \<Longrightarrow>
    ctl_step net cfg s (s\<lparr>ct_resetting := False, ct_senders := ss, ct_todo := cs\<rparr>)"
| reset_throws: "ct_failed s = None \<Longrightarrow> ct_todo s = Reset # cs \<Longrightarrow> ct_resetting s \<Longrightarrow> ts_reset_network net cfg (ct_senders s) = Inl e \<Longrightarrow>
    ctl_step net cfg s (s\<lparr>ct_failed := Some e\<rparr>)"
| restart: "ct_failed s = None \<Longrightarrow> ct_todo s = Restart # cs \<Longrightarrow> ct_lock s = TheConsole \<Longrightarrow>
    ctl_step net cfg s (s\<lparr>ct_lock := Nobody, ct_todo := cs\<rparr>)"
| restart_undefined: "ct_failed s = None \<Longrightarrow> ct_todo s = Restart # cs \<Longrightarrow> ct_lock s \<noteq> TheConsole \<Longrightarrow>
    ctl_step net cfg s (s\<lparr>ct_failed := Some Undefined\<rparr>)"

definition ctl_start :: "MessageSender list \<Rightarrow> command list \<Rightarrow> Control" where
  "ctl_start ss cmds = \<lparr>ct_lock = Nobody, ct_pc = AtLock, ct_senders = ss, ct_todo = cmds, ct_resetting = False, ct_failed = None\<rparr>"

section \<open>The order of the commands\<close>












text \<open>Without the stop a reset can run in the middle of a send.\<close>

lemma reset_alone_races:
  "\<exists>s. (ctl_step net cfg)\<^sup>*\<^sup>* (ctl_start ss [Reset]) s \<and> ct_resetting s \<and> ct_pc s = AtSend"
proof -
  let ?s = "ctl_start ss [Reset]" and ?a = "(ctl_start ss [Reset])\<lparr>ct_lock := TheThread, ct_pc := AtSend\<rparr>"
  have "ctl_step net cfg ?s ?a" by (rule ctl_step.lock) (simp_all add: ctl_start_def)
  moreover have "ctl_step net cfg ?a (?a\<lparr>ct_resetting := True\<rparr>)" by (rule ctl_step.begin_reset) (simp_all add: ctl_start_def)
  ultimately have "(ctl_step net cfg)\<^sup>*\<^sup>* ?s (?a\<lparr>ct_resetting := True\<rparr>)" by simp
  then show ?thesis by (intro exI [of _ "?a\<lparr>ct_resetting := True\<rparr>"]) simp
qed

end
