(* ===== verification/Logger.thy ===== *)
theory Logger
  imports Console
begin

text \<open>
  \<open>src/src/utils/logger2.hpp\<close>: the logger that writes to the console and to a file. Every thread collects its
  line in a buffer of its own; the other members are shared. Whether a file can be opened is an argument.
\<close>

section \<open>State\<close>

text \<open>
  The file stream is open on a file or not, and good or not: a new stream is good although it is not open, and
  an operation on a stream that is not open makes it bad. \<open>lg_disk\<close> and \<open>lg_console\<close> are what has been written.
\<close>

record file_logger =
  fout_open :: "string option"
  fout_good :: bool
  lg_disk :: "string \<rightharpoonup> string"
  log_file :: string
  streambufs :: "nat \<rightharpoonup> string \<times> bool"
  streamloglevel :: int
  log_to_console :: bool
  log_level :: int
  lg_console :: string

text \<open>\<open>streamloglevel\<close> is indeterminate until the first \<open>start_stream\<close>: an argument.\<close>

definition new_file_logger :: "int \<Rightarrow> file_logger" where
  "new_file_logger junk =
     \<lparr>fout_open = None, fout_good = True, lg_disk = Map.empty, log_file = [], streambufs = Map.empty,
      streamloglevel = junk, log_to_console = True, log_level = LOG_INFO, lg_console = []\<rparr>"

definition prefixes :: "string list" where
  "prefixes = [''DEBUG:    '', ''DEBUG:    '', ''INFO:     '', ''INFO:     '', ''WARNING:  '', ''ERROR:    '', ''FATAL:    '', '''']"

section \<open>Files and colours\<close>

definition fout_write :: "string \<Rightarrow> file_logger \<Rightarrow> file_logger" where
  "fout_write s L =
     (case fout_open L of
        None \<Rightarrow> L\<lparr>fout_good := False\<rparr>
      | Some f \<Rightarrow> L\<lparr>lg_disk := (lg_disk L)(f \<mapsto> (case lg_disk L f of None \<Rightarrow> [] | Some t \<Rightarrow> t) @ s)\<rparr>)"

definition set_log_file :: "(string \<Rightarrow> bool) \<Rightarrow> string \<Rightarrow> file_logger \<Rightarrow> bool \<times> file_logger" where
  "set_log_file can_open file L =
     (let L = (if fout_good L then L\<lparr>fout_open := None, fout_good := (fout_open L \<noteq> None), log_file := []\<rparr> else L)
      in if file \<noteq> [] then
           if can_open file \<and> fout_open L = None
           then (True, L\<lparr>fout_open := Some file, fout_good := True, lg_disk := (lg_disk L)(file \<mapsto> []), log_file := file\<rparr>)
           else (False, L\<lparr>fout_good := False\<rparr>)
         else (True, L))"

definition set_log_to_console :: "bool \<Rightarrow> file_logger \<Rightarrow> file_logger" where
  "set_log_to_console b L = L\<lparr>log_to_console := b\<rparr>"

definition set_log_level :: "int \<Rightarrow> file_logger \<Rightarrow> file_logger" where
  "set_log_level n L = L\<lparr>log_level := n\<rparr>"

text \<open>\<open>textcolor\<close> and \<open>reset_color\<close>: control sequences of the terminal.\<close>

definition textcolor :: "int \<Rightarrow> int \<Rightarrow> string" where
  "textcolor attr fg = [CHR 0x1B] @ ''['' @ show_int attr @ '';'' @ show_int (fg + 30) @ ''m''"

definition reset_color :: string where
  "reset_color = [CHR 0x1B] @ ''[0m''"

definition level_color :: "int \<Rightarrow> string" where
  "level_color lvl =
     (if lvl = 6 then textcolor 1 1 else if lvl = 5 then textcolor 1 1 else if lvl = 4 then textcolor 1 5
      else if lvl = 1 then textcolor 1 3 else if lvl = 3 then textcolor 1 2 else [])"

definition print2FC :: "int \<Rightarrow> string \<Rightarrow> file_logger \<Rightarrow> file_logger" where
  "print2FC lvl buf L =
     (let L = (if fout_good L then fout_write buf L else L)
      in if log_to_console L then L\<lparr>lg_console := lg_console L @ level_color lvl @ buf @ reset_color\<rparr> else L)"

section \<open>Streams\<close>

definition stream_flush :: "nat \<Rightarrow> file_logger \<Rightarrow> file_logger" where
  "stream_flush tid L =
     (case streambufs L tid of
        None \<Rightarrow> L
      | Some (buf, act) \<Rightarrow>
          (let L = print2FC (streamloglevel L) buf L in L\<lparr>streambufs := (streambufs L)(tid \<mapsto> ([], act))\<rparr>))"

text \<open>The operator \<open><<\<close> for a value that prints as \<open>a\<close>.\<close>

definition put_value :: "nat \<Rightarrow> string \<Rightarrow> file_logger \<Rightarrow> file_logger" where
  "put_value tid a L =
     (case streambufs L tid of
        Some (buf, True) \<Rightarrow> L\<lparr>streambufs := (streambufs L)(tid \<mapsto> (buf @ a, True))\<rparr>
      | _ \<Rightarrow> L)"

definition put_endl :: "nat \<Rightarrow> file_logger \<Rightarrow> file_logger" where
  "put_endl tid L =
     (case streambufs L tid of
        Some (buf, True) \<Rightarrow> stream_flush tid (put_value tid newline L)
      | _ \<Rightarrow> L)"

text \<open>For a string literal the last character decides about the flush; the empty one has none.\<close>

definition put_cstr :: "nat \<Rightarrow> string \<Rightarrow> file_logger \<Rightarrow> file_logger result" where
  "put_cstr tid a L =
     (case streambufs L tid of
        Some (buf, True) \<Rightarrow>
          if a = [] then Inl Undefined
          else if last a = CHR 0x0A then Inr (stream_flush tid (put_value tid a L)) else Inr (put_value tid a L)
      | _ \<Rightarrow> Inr L)"

definition after_last_slash :: "string \<Rightarrow> string" where
  "after_last_slash file = rev (takeWhile (\<lambda>c. c \<noteq> CHR ''/'') (rev file))"

definition after_first_slash :: "string \<Rightarrow> string" where
  "after_first_slash file = (if CHR ''/'' \<in> set file then tl (dropWhile (\<lambda>c. c \<noteq> CHR ''/'') file) else file)"

definition start_stream :: "nat \<Rightarrow> int \<Rightarrow> string \<Rightarrow> string \<Rightarrow> int \<Rightarrow> bool \<Rightarrow> file_logger \<Rightarrow> file_logger result" where
  "start_stream tid lvl file func line do_start L =
     (let buf = (case streambufs L tid of None \<Rightarrow> [] | Some (b, _) \<Rightarrow> b)
      in if lvl \<ge> log_level L then
           if \<not> do_start then Inr (L\<lparr>streambufs := (streambufs L)(tid \<mapsto> (buf, False))\<rparr>)
           else bindE (if buf = [] then bindE (at prefixes lvl) (\<lambda>p.
                         Inr (p @ (if lvl = 1 then after_last_slash file @ ''('' @ func @ '':'' @ show_int line @ ''):'' else [])))
                       else Inr buf) (\<lambda>buf.
                  Inr (L\<lparr>streambufs := (streambufs L)(tid \<mapsto> (buf, True)), streamloglevel := lvl\<rparr>))
         else Inr (L\<lparr>streambufs := (streambufs L)(tid \<mapsto> (buf, False))\<rparr>))"

section \<open>Formatted lines\<close>

text \<open>
  \<open>_log\<close> with the message that \<open>fmt\<close> and its arguments give. Header, message, newline and the final zero have to fit
  into 1024 bytes; the code does not check that.
\<close>

definition log_header :: "int \<Rightarrow> string \<Rightarrow> string \<Rightarrow> int \<Rightarrow> string result" where
  "log_header lvl file func line =
     bindE (at prefixes lvl) (\<lambda>p.
       Inr (if lvl = 1 then p @ after_first_slash file @ ''('' @ func @ '':'' @ show_int line @ ''): '' else p))"

definition log_fmt :: "int \<Rightarrow> string \<Rightarrow> string \<Rightarrow> int \<Rightarrow> string \<Rightarrow> file_logger \<Rightarrow> file_logger result" where
  "log_fmt lvl file func line msg L =
     (if lvl \<ge> log_level L then
        bindE (log_header lvl file func line) (\<lambda>h.
          if length h + length msg + 2 > 1024 then Inl Undefined else Inr (print2FC lvl (h @ msg @ newline) L))
      else Inr L)"

section \<open>The end of threads and of the logger\<close>

text \<open>\<open>streambuffdestructor\<close>, called when a thread ends: what it has not flushed is lost.\<close>

definition streambuffdestructor :: "nat \<Rightarrow> file_logger \<Rightarrow> file_logger" where
  "streambuffdestructor tid L = L\<lparr>streambufs := (streambufs L)(tid := None)\<rparr>"

definition delete_file_logger :: "file_logger \<Rightarrow> file_logger" where
  "delete_file_logger L = (if fout_good L then L\<lparr>fout_open := None, fout_good := (fout_open L \<noteq> None)\<rparr> else L)"

section \<open>Dispatch\<close>

text \<open>
  The macros \<open>logger\<close> and \<open>logstream\<close> choose at compile time between the logger and code that does nothing; the
  operators \<open><<\<close> of \<open>null_stream\<close> ignore their argument.
\<close>

definition OUTPUTLEVEL :: int where "OUTPUTLEVEL = 1"

definition log_dispatch :: "bool \<Rightarrow> int \<Rightarrow> string \<Rightarrow> string \<Rightarrow> int \<Rightarrow> string \<Rightarrow> file_logger \<Rightarrow> file_logger result" where
  "log_dispatch dostuff lvl file func line msg L = (if dostuff then log_fmt lvl file func line msg L else Inr L)"

definition logger_macro :: "int \<Rightarrow> string \<Rightarrow> string \<Rightarrow> int \<Rightarrow> string \<Rightarrow> file_logger \<Rightarrow> file_logger result" where
  "logger_macro lvl file func line msg L = log_dispatch (lvl \<ge> OUTPUTLEVEL) lvl file func line msg L"

datatype log_target = GlobalLogger | NullStream

definition log_stream_dispatch :: "bool \<Rightarrow> nat \<Rightarrow> int \<Rightarrow> string \<Rightarrow> string \<Rightarrow> int \<Rightarrow> bool \<Rightarrow> file_logger
    \<Rightarrow> (log_target \<times> file_logger) result" where
  "log_stream_dispatch dostuff tid lvl file func line do_start L =
     (if dostuff then bindE (start_stream tid lvl file func line do_start L) (\<lambda>L. Inr (GlobalLogger, L))
      else Inr (NullStream, L))"

text \<open>An item that is printed: a value, or a C string, whose last character may flush the line.\<close>

datatype item = Val string | CStr string

fun put_item :: "nat \<Rightarrow> log_target \<Rightarrow> item \<Rightarrow> file_logger \<Rightarrow> file_logger result" where
  "put_item tid NullStream x L = Inr L"
| "put_item tid GlobalLogger (Val a) L = Inr (put_value tid a L)"
| "put_item tid GlobalLogger (CStr a) L = put_cstr tid a L"

fun put_items :: "nat \<Rightarrow> log_target \<Rightarrow> item list \<Rightarrow> file_logger \<Rightarrow> file_logger result" where
  "put_items tid t [] L = Inr L"
| "put_items tid t (x # xs) L = bindE (put_item tid t x L) (put_items tid t xs)"

text \<open>The statement \<open>logstream(lvl) << x1 << ... << xn\<close>.\<close>

definition logstream_macro :: "nat \<Rightarrow> int \<Rightarrow> string \<Rightarrow> string \<Rightarrow> int \<Rightarrow> item list \<Rightarrow> file_logger \<Rightarrow> file_logger result" where
  "logstream_macro tid lvl file func line xs L =
     bindE (log_stream_dispatch (lvl \<ge> OUTPUTLEVEL) tid lvl file func line True L) (\<lambda>(t, L). put_items tid t xs L)"

section \<open>Lemmas\<close>

lemma print2FC_console: "log_to_console L \<Longrightarrow> lg_console (print2FC lvl buf L) = lg_console L @ level_color lvl @ buf @ reset_color"
  by (simp add: print2FC_def Let_def fout_write_def split: option.splits)

lemma print2FC_bufs [simp]: "streambufs (print2FC lvl buf L) = streambufs L"
  by (simp add: print2FC_def Let_def fout_write_def split: option.splits)

lemma print2FC_settings [simp]:
  "log_level (print2FC lvl buf L) = log_level L" "log_to_console (print2FC lvl buf L) = log_to_console L"
  by (simp_all add: print2FC_def Let_def fout_write_def split: option.splits)

text \<open>What a statement has put into the buffer of its thread, as long as no item ends the line.\<close>

fun item_text :: "item \<Rightarrow> string" where
  "item_text (Val a) = a"
| "item_text (CStr a) = a"

fun inline :: "item \<Rightarrow> bool" where
  "inline (Val a) \<longleftrightarrow> True"
| "inline (CStr a) \<longleftrightarrow> a \<noteq> [] \<and> last a \<noteq> CHR 0x0A"

abbreviation with_buf :: "nat \<Rightarrow> string \<Rightarrow> file_logger \<Rightarrow> file_logger" where
  "with_buf tid buf L \<equiv> L\<lparr>streambufs := (streambufs L)(tid \<mapsto> (buf, True))\<rparr>"

lemma put_items_inline:
  assumes "streambufs L tid = Some (buf, True)" and "list_all inline xs"
  shows "put_items tid GlobalLogger xs L = Inr (with_buf tid (buf @ concat (map item_text xs)) L)"
  using assms
proof (induction xs arbitrary: L buf)
  case Nil
  then have "(streambufs L)(tid \<mapsto> (buf, True)) = streambufs L" by (simp add: fun_upd_idem)
  then show ?case by simp
next
  case (Cons x xs)
  then have "put_item tid GlobalLogger x L = Inr (with_buf tid (buf @ item_text x) L)"
    by (cases x) (auto simp: put_value_def put_cstr_def)
  moreover have "put_items tid GlobalLogger xs (with_buf tid (buf @ item_text x) L)
      = Inr (with_buf tid ((buf @ item_text x) @ concat (map item_text xs)) (with_buf tid (buf @ item_text x) L))"
    using Cons.prems(2) by (intro Cons.IH) simp_all
  moreover have "with_buf tid c (with_buf tid b L) = with_buf tid c L" for b c by (simp add: fun_upd_def cong: if_cong)
  ultimately show ?case by (simp only: put_items.simps bindE_simps list.map concat.simps append_assoc)
qed

lemma put_items_append:
  "put_items tid t (xs @ ys) L = bindE (put_items tid t xs L) (put_items tid t ys)"
  by (induction xs arbitrary: L) (simp, simp add: bindE_assoc cong: bindE_cong)

lemma put_items_inactive:
  assumes "streambufs L tid = Some (buf, False)"
  shows "put_items tid GlobalLogger xs L = Inr L"
proof (induction xs)
  case (Cons x xs)
  then show ?case using assms by (cases x) (simp_all add: put_value_def put_cstr_def)
qed simp

text \<open>
  A line at or above the level is printed as one piece, with its prefix; one below leaves no trace; the buffers of
  other threads are not touched.
\<close>

definition line_start :: "int \<Rightarrow> string \<Rightarrow> string \<Rightarrow> int \<Rightarrow> string" where
  "line_start lvl file func line = prefixes ! nat lvl @
     (if lvl = 1 then after_last_slash file @ ''('' @ func @ '':'' @ show_int line @ ''):'' else [])"

lemma logstream_macro_prints:
  assumes "log_level L \<le> lvl" and "1 \<le> lvl" and "lvl \<le> 7" and "log_to_console L" and "list_all inline xs"
    and "\<And>buf act. streambufs L tid = Some (buf, act) \<Longrightarrow> buf = []"
  shows "\<exists>L'. logstream_macro tid lvl file func line (xs @ [CStr newline]) L = Inr L'
    \<and> lg_console L' = lg_console L @ level_color lvl @ line_start lvl file func line @ concat (map item_text xs) @ newline @ reset_color
    \<and> streambufs L' = (streambufs L)(tid \<mapsto> ([], True)) \<and> log_level L' = log_level L \<and> log_to_console L'"
proof -
  let ?h = "line_start lvl file func line" and ?t = "concat (map item_text xs)"
  let ?L1 = "(with_buf tid ?h L)\<lparr>streamloglevel := lvl\<rparr>"
  let ?L2 = "with_buf tid (?h @ ?t @ newline) ?L1"
  have "at prefixes lvl = Inr (prefixes ! nat lvl)" using assms(2,3) by (simp add: prefixes_def)
  then have s: "start_stream tid lvl file func line True L = Inr ?L1"
    using assms by (auto simp: start_stream_def line_start_def Let_def split: option.splits)
  have p: "put_items tid GlobalLogger xs ?L1 = Inr (with_buf tid (?h @ ?t) ?L1)"
    using assms(5) by (intro put_items_inline) simp_all
  have e: "logstream_macro tid lvl file func line (xs @ [CStr newline]) L = Inr (stream_flush tid ?L2)"
    using assms(2) unfolding logstream_macro_def
    by (simp add: s log_stream_dispatch_def OUTPUTLEVEL_def put_items_append p put_cstr_def newline_def put_value_def)
  have "lg_console (stream_flush tid ?L2) = lg_console L @ level_color lvl @ ?h @ ?t @ newline @ reset_color"
    using assms(4) print2FC_console [of ?L2 lvl] by (simp add: stream_flush_def Let_def)
  then show ?thesis using e assms(4) by (simp add: stream_flush_def Let_def)
qed

lemma logstream_macro_filtered:
  assumes "lvl < log_level L"
  shows "\<exists>L'. logstream_macro tid lvl file func line xs L = Inr L' \<and> lg_console L' = lg_console L \<and> lg_disk L' = lg_disk L
    \<and> log_level L' = log_level L"
proof (cases "lvl \<ge> OUTPUTLEVEL")
  case True
  let ?L = "L\<lparr>streambufs := (streambufs L)(tid \<mapsto> (case streambufs L tid of None \<Rightarrow> [] | Some (b, _) \<Rightarrow> b, False))\<rparr>"
  have "start_stream tid lvl file func line True L = Inr ?L" using assms by (simp add: start_stream_def Let_def)
  moreover have "put_items tid GlobalLogger xs ?L = Inr ?L" by (intro put_items_inactive) simp
  ultimately show ?thesis using True by (simp add: logstream_macro_def log_stream_dispatch_def)
next
  case False
  have "put_items tid NullStream xs L = Inr L" by (induction xs) simp_all
  then show ?thesis using False by (simp add: logstream_macro_def log_stream_dispatch_def)
qed

text \<open>
  \<open>streamloglevel\<close> is shared: when another thread starts a line before the first one ends its own, the
  first line is printed in the colour of the second.
\<close>

lemma colour_of_other_thread:
  assumes "streambufs L t = Some (buf, True)" "log_to_console L" "log_level L \<le> lvl" "0 \<le> lvl" "lvl \<le> 7" "u \<noteq> t"
    and "start_stream u lvl file func line True L = Inr L'"
  shows "lg_console (stream_flush t L') = lg_console L @ level_color lvl @ buf @ reset_color"
proof -
  have "log_to_console L' \<and> lg_console L' = lg_console L \<and> streambufs L' t = Some (buf, True) \<and> streamloglevel L' = lvl"
    using assms by (auto simp: start_stream_def Let_def bindE_eq_Inr)
  then show ?thesis using print2FC_console [of L' lvl] by (simp add: stream_flush_def Let_def)
qed

text \<open>A formatted message of 1024 characters always leaves the array.\<close>

lemma long_message_overflows:
  assumes "log_level L \<le> lvl" and "0 \<le> lvl" and "lvl \<le> 7" and "1024 \<le> length msg"
  shows "log_fmt lvl file func line msg L = Inl Undefined"
proof -
  have "at prefixes lvl = Inr (prefixes ! nat lvl)" using assms(2,3) by (simp add: prefixes_def)
  then show ?thesis using assms by (simp add: log_fmt_def log_header_def)
qed

end
