(* ===== verification/Diagnostics.thy ===== *)
theory Diagnostics
  imports Logger Util
begin

text \<open>
  What the programs do when something goes wrong: the status codes and the exception of
  \<open>src/src/utils/errors.hpp\<close> (its table of messages is in \<open>Console\<close>), the checking macros of \<open>src/src/utils/assertion.hpp\<close>, and \<open>print_stacktrace\<close> and the memory
  figures of \<open>src/src/utils/util.cpp\<close>. The frames of the stack and the demangler are arguments.
\<close>

section \<open>Status codes\<close>

datatype status_code =
    SUCCESS | UNKNOWN_ERROR | SYNTAX_ERROR | UNKNOWN_PATTERN | ATTR_DISABLE | NO_REQUIRED_VAR | UNSUPPORT_UNION | OBJ_ERROR
  | VERTEX_INVALID | UNKNOWN_SUB | SETTING_ERROR | FIRST_PATTERN_ERROR | UNKNOWN_FILTER | FILE_NOT_FOUND | ERROR_LAST

fun code_of :: "status_code \<Rightarrow> int" where
  "code_of SUCCESS = 0" | "code_of UNKNOWN_ERROR = 1" | "code_of SYNTAX_ERROR = 2" | "code_of UNKNOWN_PATTERN = 3"
| "code_of ATTR_DISABLE = 4" | "code_of NO_REQUIRED_VAR = 5" | "code_of UNSUPPORT_UNION = 6" | "code_of OBJ_ERROR = 7"
| "code_of VERTEX_INVALID = 8" | "code_of UNKNOWN_SUB = 9" | "code_of SETTING_ERROR = 10" | "code_of FIRST_PATTERN_ERROR = 11"
| "code_of UNKNOWN_FILTER = 12" | "code_of FILE_NOT_FOUND = 13" | "code_of ERROR_LAST = 14"

record ubiquant_exception =
  ue_status_code :: int
  ue_message :: "string option"

definition exception_of_code :: "int \<Rightarrow> ubiquant_exception" where
  "exception_of_code c = \<lparr>ue_status_code = c, ue_message = None\<rparr>"

definition exception_of_message :: "string \<Rightarrow> ubiquant_exception" where
  "exception_of_message m = \<lparr>ue_status_code = code_of UNKNOWN_ERROR, ue_message = Some m\<rparr>"

definition exception_what :: "ubiquant_exception \<Rightarrow> string result" where
  "exception_what e = ERR_MSG (ue_status_code e)"

section \<open>Checks\<close>

text \<open>
  A macro gives the exception that it throws, if any, and the logger. \<open>text\<close> is the source text of the
  condition, \<open>at_line\<close> the file, function and line of the check.
\<close>

type_synonym at_line = "string \<times> string \<times> int"

abbreviation quote :: string where
  "quote \<equiv> [CHR 0x27]"

definition assertion_items :: "at_line \<Rightarrow> item list \<Rightarrow> item list" where
  "assertion_items pos what = (case pos of (file, func, line) \<Rightarrow>
     [CStr ''Assertion: '', CStr file, CStr ''('', CStr func, CStr '':'', Val (show_int line), CStr '')'', CStr ('': '' @ quote)]
     @ what @ [CStr newline])"

definition assertion_line :: "nat \<Rightarrow> int \<Rightarrow> at_line \<Rightarrow> item list \<Rightarrow> file_logger \<Rightarrow> file_logger result" where
  "assertion_line tid lvl pos what L =
     (case pos of (file, func, line) \<Rightarrow> logstream_macro tid lvl file func line (assertion_items pos what) L)"

definition CHECK :: "nat \<Rightarrow> at_line \<Rightarrow> string \<Rightarrow> bool \<Rightarrow> file_logger \<Rightarrow> (ubiquant_exception option \<times> file_logger) result" where
  "CHECK tid pos txt condition L =
     (if \<not> condition then
        bindE (assertion_line tid 5 pos [CStr txt, CStr (quote @ '' failed'')] L) (\<lambda>L.
          Inr (Some (exception_of_code (code_of UNKNOWN_ERROR)), L))
      else Inr (None, L))"

datatype check_op = Eq | Ne | Le | Lt | Ge | Gt

fun op_text :: "check_op \<Rightarrow> string" where
  "op_text Eq = ''==''" | "op_text Ne = ''!=''" | "op_text Le = ''<=''" | "op_text Lt = ''<''" | "op_text Ge = ''>=''" | "op_text Gt = ''>''"

fun op_holds :: "check_op \<Rightarrow> int \<Rightarrow> int \<Rightarrow> bool" where
  "op_holds Eq a b \<longleftrightarrow> a = b" | "op_holds Ne a b \<longleftrightarrow> a \<noteq> b" | "op_holds Le a b \<longleftrightarrow> a \<le> b"
| "op_holds Lt a b \<longleftrightarrow> a < b" | "op_holds Ge a b \<longleftrightarrow> a \<ge> b" | "op_holds Gt a b \<longleftrightarrow> a > b"

text \<open>For integers: the second value is converted to the type of the first before it is compared.\<close>

definition CHECK_OP :: "nat \<Rightarrow> at_line \<Rightarrow> (int \<Rightarrow> int) \<Rightarrow> check_op \<Rightarrow> string \<Rightarrow> string \<Rightarrow> int \<Rightarrow> int \<Rightarrow> file_logger
    \<Rightarrow> (ubiquant_exception option \<times> file_logger) result" where
  "CHECK_OP tid pos conv oper txt1 txt2 v1 v2 L =
     (if \<not> op_holds oper v1 (conv v2) then
        bindE (assertion_line tid 5 pos
          [CStr txt1, CStr '' '', CStr (op_text oper), CStr '' '', CStr txt2, CStr '' [ '', Val (show_int v1), CStr '' '',
           CStr (op_text oper), CStr '' '', Val (show_int v2), CStr ('' ]'' @ quote), CStr '' failed''] L) (\<lambda>L.
          Inr (Some (exception_of_code (code_of UNKNOWN_ERROR)), L))
      else Inr (None, L))"

text \<open>\<open>msg\<close> is the message that \<open>fmt\<close> and the further arguments give.\<close>

definition ASSERT_MSG :: "nat \<Rightarrow> at_line \<Rightarrow> string \<Rightarrow> bool \<Rightarrow> string \<Rightarrow> string \<Rightarrow> file_logger
    \<Rightarrow> (ubiquant_exception option \<times> file_logger) result" where
  "ASSERT_MSG tid pos txt condition fmt msg L =
     (if \<not> condition then
        bindE (assertion_line tid 5 pos [CStr txt, CStr (quote @ '' failed'')] L) (\<lambda>L.
        bindE (case pos of (file, func, line) \<Rightarrow> logger_macro 5 file func line msg L) (\<lambda>L.
          Inr (Some (exception_of_message fmt), L)))
      else Inr (None, L))"

definition ASSERT_ERROR_CODE :: "nat \<Rightarrow> at_line \<Rightarrow> string \<Rightarrow> bool \<Rightarrow> int \<Rightarrow> file_logger
    \<Rightarrow> (ubiquant_exception option \<times> file_logger) result" where
  "ASSERT_ERROR_CODE tid pos txt condition error_code L =
     (if \<not> condition then
        bindE (assertion_line tid 1 pos [CStr txt, CStr (quote @ '' failed'')] L) (\<lambda>L.
          Inr (Some (exception_of_code error_code), L))
      else Inr (None, L))"

section \<open>Stack traces\<close>

text \<open>
  The three pointers into a line: the last \<open>(\<close> and the last \<open>+\<close> before the first \<open>)\<close> that comes after a \<open>+\<close>, and that
  \<open>)\<close> itself.
\<close>

fun scan_symbol :: "nat \<Rightarrow> string \<Rightarrow> nat option \<Rightarrow> nat option \<Rightarrow> nat option \<times> nat option \<times> nat option" where
  "scan_symbol i [] b off = (b, off, None)"
| "scan_symbol i (c # cs) b off =
     (if c = CHR ''('' then scan_symbol (i + 1) cs (Some i) off
      else if c = CHR ''+'' then scan_symbol (i + 1) cs b (Some i)
      else if c = CHR '')'' \<and> off \<noteq> None then (b, off, Some i)
      else scan_symbol (i + 1) cs b off)"

definition slice :: "nat \<Rightarrow> nat \<Rightarrow> string \<Rightarrow> string" where
  "slice i j s = take (j - i) (drop i s)"

definition print_frame :: "(string \<Rightarrow> string option) \<Rightarrow> string \<Rightarrow> string" where
  "print_frame demangle s =
     (case scan_symbol 0 s None None of
        (Some b, Some off, Some e) \<Rightarrow>
          if b < off then
            let name = slice (b + 1) off s; offset = slice (off + 1) e s
            in (case demangle name of
                  Some f \<Rightarrow> ''  '' @ take b s @ '' : '' @ f @ ''+'' @ offset @ newline
                | None \<Rightarrow> ''  '' @ take b s @ '' : '' @ name @ ''()+'' @ offset @ newline)
          else ''  '' @ s @ newline
      | _ \<Rightarrow> ''  '' @ s @ newline)"

text \<open>\<open>frames\<close>: the symbol lines of the whole stack; \<open>backtrace\<close> stores at most \<open>max_frames + 1\<close> of them.\<close>

definition print_stacktrace :: "(string \<Rightarrow> string option) \<Rightarrow> nat \<Rightarrow> string list \<Rightarrow> string" where
  "print_stacktrace demangle max_frames frames =
     ''stack trace:'' @ newline @
     (let symbollist = take (max_frames + 1) frames
      in if symbollist = [] then ''  <empty, possibly corrupt>'' @ newline
         else concat (map (print_frame demangle) (tl symbollist)))"

section \<open>Memory\<close>

record sysinfo =
  mem_unit :: "32 word"
  freeram :: "64 word"
  totalram :: "64 word"

definition get_system_memory_info :: "sysinfo \<Rightarrow> 64 word \<times> 64 word" where
  "get_system_memory_info info = (ucast (mem_unit info) * freeram info, ucast (mem_unit info) * totalram info)"

text \<open>\<open>G\<close> is the double \<open>1024.0 * 1024 * 1024\<close>.\<close>

definition dG :: double where
  "dG = 0x41d0000000000000"

definition get_memory_size_g :: "64 word \<Rightarrow> double" where
  "get_memory_size_g bytes = ddiv (double_of_u64 bytes) dG"

section \<open>Lemmas\<close>

lemma what_defined: "c \<noteq> ERROR_LAST \<Longrightarrow> \<exists>m. exception_what (exception_of_code (code_of c)) = Inr m"
  by (cases c) (simp_all add: exception_what_def exception_of_code_def ERR_MSG_def err_msgs_def at_def)

text \<open>The message of an exception is never shown.\<close>

lemma what_ignores_message: "exception_what (exception_of_message m) = Inr ''Something wrong happened''"
  by (simp add: exception_what_def exception_of_message_def ERR_MSG_def err_msgs_def at_def)

lemma what_of_error_last: "exception_what (exception_of_code (code_of ERROR_LAST)) = Inl Undefined"
  by (simp add: exception_what_def exception_of_code_def ERR_MSG_def err_msgs_def at_def)

text \<open>A failed check prints its line before it throws, unless errors are filtered; a check that holds does nothing.\<close>

abbreviation plain_text :: "string \<Rightarrow> bool" where
  "plain_text s \<equiv> s \<noteq> [] \<and> last s \<noteq> CHR 0x0A"

lemma CHECK_holds: "CHECK tid pos txt True L = Inr (None, L)"
  by (simp add: CHECK_def)

lemma CHECK_fails:
  assumes "plain_text file" and "plain_text func" and "plain_text txt"
    and "log_to_console L" and "log_level L \<le> 5"
    and "\<And>buf act. streambufs L tid = Some (buf, act) \<Longrightarrow> buf = []"
  shows "\<exists>L'. CHECK tid (file, func, line) txt False L = Inr (Some (exception_of_code 1), L')
    \<and> lg_console L' = lg_console L @ level_color 5 @ ''ERROR:    Assertion: '' @ file @ ''('' @ func @ '':'' @ show_int line
        @ ''): '' @ quote @ txt @ quote @ '' failed'' @ newline @ reset_color"
proof -
  let ?xs = "[CStr ''Assertion: '', CStr file, CStr ''('', CStr func, CStr '':'', Val (show_int line), CStr '')'', CStr ('': '' @ quote),
    CStr txt, CStr (quote @ '' failed'')]"
  have p: "list_all inline ?xs" using assms(1-3) by simp
  have "\<exists>L'. logstream_macro tid 5 file func line (?xs @ [CStr newline]) L = Inr L'
      \<and> lg_console L' = lg_console L @ level_color 5 @ line_start 5 file func line @ concat (map item_text ?xs) @ newline @ reset_color
      \<and> streambufs L' = (streambufs L)(tid \<mapsto> ([], True)) \<and> log_level L' = log_level L \<and> log_to_console L'"
    using assms(6) by (intro logstream_macro_prints assms(4,5) p) simp_all
  then show ?thesis unfolding CHECK_def assertion_line_def
    by (auto simp: assertion_items_def line_start_def prefixes_def)
qed

text \<open>
  With the default level of the logger, \<open>ASSERT_ERROR_CODE\<close> throws without a trace on the console.
\<close>

lemma ASSERT_ERROR_CODE_silent:
  assumes "log_level L = LOG_INFO"
  shows "\<exists>L'. ASSERT_ERROR_CODE tid pos txt False c L = Inr (Some (exception_of_code c), L') \<and> lg_console L' = lg_console L"
  using logstream_macro_filtered [of 1 L tid "fst pos" "fst (snd pos)" "snd (snd pos)"
      "assertion_items pos [CStr txt, CStr (quote @ '' failed'')]"] assms
  by (cases pos) (auto simp: ASSERT_ERROR_CODE_def assertion_line_def LOG_INFO_def)

section \<open>Stack traces: lemmas\<close>

lemma scan_symbol_skip:
  assumes "set cs \<inter> {CHR ''('', CHR ''+'', CHR '')''} = {}"
  shows "scan_symbol i (cs @ rest) b off = scan_symbol (i + length cs) rest b off"
  using assms by (induction cs arbitrary: i) auto

lemma scan_symbol_module:
  assumes "CHR '')'' \<notin> set m"
  shows "\<exists>b' off'. scan_symbol i (m @ rest) b off = scan_symbol (i + length m) rest b' off'"
  using assms
proof (induction m arbitrary: i b off)
  case Nil
  then show ?case by auto
next
  case (Cons c m)
  then have "\<exists>b' off'. scan_symbol i (c # m @ rest) b off = scan_symbol (i + 1) (m @ rest) b' off'" by auto
  then show ?case using Cons by (metis add.assoc append_Cons length_Cons list.set_intros(2) plus_1_eq_Suc)
qed

text \<open>
  A frame in the usual form \<open>module(function+offset) [address]\<close> is taken apart into its parts, also when the
  name of the module has a \<open>+\<close> or a \<open>(\<close>, as \<open>libstdc++\<close> has.
\<close>

lemma print_frame_parses:
  assumes "CHR '')'' \<notin> set m" and "set f \<inter> {CHR ''('', CHR ''+'', CHR '')''} = {}" and "set o' \<inter> {CHR ''('', CHR ''+'', CHR '')''} = {}"
  shows "print_frame demangle (m @ ''('' @ f @ ''+'' @ o' @ '')'' @ rest)
    = ''  '' @ m @ '' : '' @ (case demangle f of Some g \<Rightarrow> g | None \<Rightarrow> f @ ''()'') @ ''+'' @ o' @ newline"
proof -
  let ?s = "m @ ''('' @ f @ ''+'' @ o' @ '')'' @ rest"
  let ?b = "length m" and ?p = "length m + length f + 1" and ?e = "length m + length f + length o' + 2"
  obtain b off where "scan_symbol 0 ?s None None = scan_symbol ?b (''('' @ f @ ''+'' @ o' @ '')'' @ rest) b off"
    using scan_symbol_module [OF assms(1), of 0 "''('' @ f @ ''+'' @ o' @ '')'' @ rest" None None] by auto
  also have "\<dots> = scan_symbol (?b + 1) (f @ ''+'' @ o' @ '')'' @ rest) (Some ?b) off" by simp
  also have "\<dots> = scan_symbol ?p (''+'' @ o' @ '')'' @ rest) (Some ?b) off"
    using scan_symbol_skip [OF assms(2)] by simp
  also have "\<dots> = scan_symbol (?p + 1) (o' @ '')'' @ rest) (Some ?b) (Some ?p)" by simp
  also have "\<dots> = scan_symbol ?e ('')'' @ rest) (Some ?b) (Some ?p)"
    using scan_symbol_skip [OF assms(3)] by simp
  finally have "scan_symbol 0 ?s None None = (Some ?b, Some ?p, Some ?e)" by simp
  moreover have "slice (?b + 1) ?p ?s = f" "slice (?p + 1) ?e ?s = o'" "take ?b ?s = m"
    by (simp_all add: slice_def)
  ultimately show ?thesis by (simp add: print_frame_def Let_def split: option.splits)
qed

text \<open>The first frame, \<open>print_stacktrace\<close> itself, is left out; at most \<open>max_frames\<close> others are printed.\<close>

lemma print_stacktrace_frames:
  "print_stacktrace demangle n (f # fs) = ''stack trace:'' @ newline @ concat (map (print_frame demangle) (take n fs))"
  by (simp add: print_stacktrace_def)

text \<open>The figures are exact as long as the memory has less than \<open>2 ^ 64\<close> bytes.\<close>

lemma memory_info_exact:
  assumes "unat (mem_unit info) * unat (totalram info) < 2 ^ 64" and "freeram info \<le> totalram info"
  shows "map_prod unat unat (get_system_memory_info info)
    = (unat (mem_unit info) * unat (freeram info), unat (mem_unit info) * unat (totalram info))"
proof -
  have u: "unat (ucast (mem_unit info) :: 64 word) = unat (mem_unit info)"
    using unsigned_less [of "mem_unit info", where 'a = nat] by (simp add: unsigned_ucast_eq take_bit_nat_eq_self)
  have le: "unat (mem_unit info) * unat (freeram info) \<le> unat (mem_unit info) * unat (totalram info)"
    using assms(2) by (simp add: word_le_nat_alt)
  have "unat (ucast (mem_unit info) * x) = unat (mem_unit info) * unat x"
    if "unat (mem_unit info) * unat x < 2 ^ 64" for x :: "64 word"
    using that u unat_mult_lem [of "ucast (mem_unit info)" x] by simp
  from this [OF assms(1)] this [OF le_less_trans [OF le assms(1)]] show ?thesis
    by (simp add: get_system_memory_info_def)
qed

end
