(* ===== verification/Shutdown.thy ===== *)
theory Shutdown
  imports Programs Diagnostics Trader_Properties
begin

text \<open>
  How the programs end: the signal handlers of \<open>src/src/exchange.cpp\<close> and \<open>src/src/trader.cpp\<close>, and the destructor of
  \<open>src/src/trader/trade_receiver.cpp\<close>, which writes the trades that are still in memory.
\<close>

section \<open>Signals\<close>

datatype signal = SIGSEGV | SIGABRT | SIGINT

text \<open>\<open>exit_lock\<close> belongs to the thread that handles the signal; it waits for itself when it holds the lock already.\<close>

record sig_state =
  work_flag :: bool
  exit_lock :: bool
  sig_stderr :: string

fun sig_text :: "signal \<Rightarrow> string" where
  "sig_text SIGSEGV = ''Meet a segmentation fault!''"
| "sig_text SIGINT = ''Meet an interrupt!''"
| "sig_text SIGABRT = ''Meet an assertion failure!''"

text \<open>The handlers up to \<open>exit\<close>; \<open>trace\<close> is the output of \<open>print_stacktrace\<close>.\<close>

definition sig_enter :: "string \<Rightarrow> string \<Rightarrow> signal \<Rightarrow> sig_state \<Rightarrow> sig_state result" where
  "sig_enter who trace sig s =
     (if exit_lock s then Inl Deadlock
      else let s = s\<lparr>exit_lock := True, sig_stderr := sig_stderr s @ ''['' @ who @ ''] '' @ sig_text sig @ newline\<rparr>
           in Inr (if sig = SIGABRT then s\<lparr>sig_stderr := sig_stderr s @ trace\<rparr> else s\<lparr>work_flag := False\<rparr>))"

definition sig_handler :: "string \<Rightarrow> string \<Rightarrow> signal \<Rightarrow> sig_state \<Rightarrow> error \<times> sig_state" where
  "sig_handler who trace sig s =
     (case sig_enter who trace sig s of Inl e \<Rightarrow> (e, s) | Inr s \<Rightarrow> (ExitProcess (-1), s))"

definition exchange_handler :: "string \<Rightarrow> signal \<Rightarrow> sig_state \<Rightarrow> error \<times> sig_state" where
  "exchange_handler trace = sig_handler ''Exchange'' trace"

definition trader_handler :: "string \<Rightarrow> signal \<Rightarrow> sig_state \<Rightarrow> error \<times> sig_state" where
  "trader_handler trace = sig_handler ''Trader'' trace"

section \<open>The destructor of the trade receiver\<close>

definition EMPTY_FD :: int where
  "EMPTY_FD = -1"

text \<open>
  \<open>fds\<close>: the entries of \<open>trade_fds_\<close>; the result has the descriptors that were closed. A destructor must not throw: an
  exception of \<open>flush\<close> ends the program.
\<close>

definition delete_trade_receiver :: "(int \<Rightarrow> byte list \<Rightarrow> bool \<times> bool) \<Rightarrow> int list \<Rightarrow> (int \<times> int) list \<Rightarrow> TradeReceiver
    \<Rightarrow> (int list \<times> TradeReceiver) result" where
  "delete_trade_receiver os codes fds r =
     (case flush os codes r of
        Inl e \<Rightarrow> Inl Abort
      | Inr r \<Rightarrow> Inr (filter (\<lambda>fd. fd \<noteq> EMPTY_FD) (map snd fds), r))"

section \<open>Lemmas\<close>

text \<open>Every signal ends the program with the same status; a second one in the same thread waits forever.\<close>

lemma signal_exits: "\<not> exit_lock s \<Longrightarrow> fst (sig_handler who trace sig s) = ExitProcess (-1)"
  by (simp add: sig_handler_def sig_enter_def Let_def)

lemma nested_signal_deadlocks:
  "sig_enter who trace sig s = Inr s' \<Longrightarrow> fst (sig_handler who trace' sig' s') = Deadlock"
  by (auto simp: sig_handler_def sig_enter_def Let_def split: if_splits)

text \<open>Only a failed assertion keeps \<open>work_flag\<close>.\<close>

lemma signal_work_flag: "sig_enter who trace sig s = Inr s' \<Longrightarrow> work_flag s' \<longleftrightarrow> work_flag s \<and> sig = SIGABRT"
  by (auto simp: sig_enter_def Let_def split: if_splits)

text \<open>An orderly end leaves all trades in the files and closes each descriptor.\<close>

lemma delete_keeps_trades:
  assumes "process_trades os ts (s, r) = Inr (s', r1)" and "\<forall>c. length (trade_buffer r c) < 100"
    and "trade_buffer r code = []" and "code \<in> set codes"
    and "delete_trade_receiver os' codes fds r1 = Inr (closed, r')"
  shows "trade_files r' code = trade_files r code @ concat (map enc_trade (trades_of code ts))"
    and "closed = filter (\<lambda>fd. fd \<noteq> EMPTY_FD) (map snd fds)"
proof -
  have f: "flush os' codes r1 = Inr r'" and c: "closed = filter (\<lambda>fd. fd \<noteq> EMPTY_FD) (map snd fds)"
    using assms(5) by (auto simp: delete_trade_receiver_def split: sum.splits)
  have "trade_buffer r' code = []" "stored r' = stored r1" using flush_stored [OF f] assms(4) by auto
  then have "trade_files r' code = stored r1 code" by (metis append_Nil2 concat.simps(1) list.simps(8) stored_def)
  then show "trade_files r' code = trade_files r code @ concat (map enc_trade (trades_of code ts))"
    using process_trades_stored [OF assms(1,2)] assms(3) by (simp add: stored_def)
  show "closed = filter (\<lambda>fd. fd \<noteq> EMPTY_FD) (map snd fds)" by (rule c)
qed

lemma flush_accepted: "(\<And>c bs. os c bs = (True, True)) \<Longrightarrow> \<exists>r'. flush os codes r = Inr r'"
  by (induction codes arbitrary: r) (simp_all add: write_buffer_def Let_def)

lemma delete_total:
  assumes "\<And>c bs. os c bs = (True, True)"
  shows "\<exists>closed r'. delete_trade_receiver os codes fds r = Inr (closed, r')"
proof -
  obtain r' where "flush os codes r = Inr r'" using flush_accepted [of os codes r] assms by blast
  then show ?thesis by (simp add: delete_trade_receiver_def)
qed

text \<open>A file that cannot be written when the program ends turns the end into an abort.\<close>

lemma delete_write_error:
  assumes "\<And>c bs. fst (os c bs) = False" and "codes \<noteq> []"
  shows "delete_trade_receiver os codes fds r = Inl Abort"
proof -
  obtain c cs where "codes = c # cs" using assms(2) by (cases codes) auto
  moreover obtain y where "os c (concat (map enc_trade (trade_buffer r c))) = (False, y)"
    using assms(1) by (metis prod.collapse)
  ultimately show ?thesis by (simp add: delete_trade_receiver_def write_buffer_def)
qed

text \<open>
  An interrupt does not run the destructor: a file then has the trades of the full batches only, and the rest of
  the received trades, fewer than 100 for each stock, is lost.
\<close>

lemma interrupted_file:
  assumes "process_trades os ts (s, r) = Inr (s', r1)" and "\<forall>c. length (trade_buffer r c) < 100" and "trade_buffer r code = []"
  shows "trade_files r1 code @ concat (map enc_trade (trade_buffer r1 code))
      = trade_files r code @ concat (map enc_trade (trades_of code ts))"
    and "length (trade_buffer r1 code) < 100"
  using process_trades_stored [OF assms(1,2)] assms(3) by (simp_all add: stored_def)

end
