(* ===== verification/Output_Diff.thy ===== *)
theory Output_Diff
  imports Wire Trader
begin

text \<open>
  \<open>src/src/output_diff.cpp\<close>: the tool that compares two files of trades. A file is its bytes, a missing file is
  \<open>None\<close>; the result is the lengths and the first difference with the trades printed around it.
\<close>

section \<open>The tool\<close>

text \<open>Records of 24 bytes up to the first read that is short.\<close>

function read_trades :: "byte list \<Rightarrow> Trade list" where
  "read_trades bs = (if length bs < 24 then [] else dec_trade (take 24 bs) # read_trades (drop 24 bs))"
  by pat_completeness auto
termination
  by (relation "measure length") auto

declare read_trades.simps [simp del]

definition read_trade_from_file :: "(string \<rightharpoonup> byte list) \<Rightarrow> string \<Rightarrow> Trade list" where
  "read_trade_from_file fs filename = (case fs filename of None \<Rightarrow> [] | Some bs \<Rightarrow> read_trades bs)"

definition trade_ne :: "Trade \<Rightarrow> Trade \<Rightarrow> bool" where
  "trade_ne t1 t2 \<longleftrightarrow>
     (if t_stk_code t1 \<noteq> t_stk_code t2 then True
      else if t_ask_id t1 \<noteq> t_ask_id t2 then True
      else if t_bid_id t1 \<noteq> t_bid_id t2 then True
      else if \<not> deq (t_price t1) (t_price t2) then True
      else if t_volume t1 \<noteq> t_volume t2 then True else False)"

fun first_diff :: "nat \<Rightarrow> Trade list \<Rightarrow> Trade list \<Rightarrow> nat option" where
  "first_diff i (x # xs) (y # ys) = (if trade_ne x y then Some i else first_diff (Suc i) xs ys)"
| "first_diff i _ _ = None"

text \<open>The trades that are printed around a difference, from both lists in turn.\<close>

definition around :: "int \<Rightarrow> Trade list \<Rightarrow> Trade list \<Rightarrow> Trade list result" where
  "around i answer output =
     bindE (mapE (\<lambda>k. bindE (at answer k) (\<lambda>a. bindE (at output k) (\<lambda>b. Inr [a, b]))) [i - 10..i + 10 - 1]) (\<lambda>ps. Inr (concat ps))"

definition output_diff :: "(string \<rightharpoonup> byte list) \<Rightarrow> string list \<Rightarrow> (nat \<times> nat \<times> (nat \<times> Trade list) option) option result" where
  "output_diff fs argv =
     (if length argv \<noteq> 3 then Inr None
      else let answer = read_trade_from_file fs (argv ! 1); output = read_trade_from_file fs (argv ! 2)
           in case first_diff 0 answer output of
                None \<Rightarrow> Inr (Some (length answer, length output, None))
              | Some i \<Rightarrow> bindE (around (int i) answer output) (\<lambda>ts. Inr (Some (length answer, length output, Some (i, ts)))))"

section \<open>Lemmas\<close>

text \<open>The first position at which the two lists differ.\<close>

lemma first_diff_correct:
  "(case first_diff i xs ys of
      None \<Rightarrow> \<forall>k < min (length xs) (length ys). \<not> trade_ne (xs ! k) (ys ! k)
    | Some j \<Rightarrow> i \<le> j \<and> j - i < min (length xs) (length ys) \<and> trade_ne (xs ! (j - i)) (ys ! (j - i))
        \<and> (\<forall>k < j - i. \<not> trade_ne (xs ! k) (ys ! k)))"
proof (induction i xs ys rule: first_diff.induct)
  case (1 i x xs y ys)
  show ?case
  proof (cases "trade_ne x y")
    case False
    show ?thesis
    proof (cases "first_diff (Suc i) xs ys")
      case None
      then show ?thesis using 1 [OF False] False by (auto simp: less_Suc_eq_0_disj)
    next
      case (Some j)
      then have j: "Suc i \<le> j" "j - Suc i < min (length xs) (length ys)" "trade_ne (xs ! (j - Suc i)) (ys ! (j - Suc i))"
        "\<forall>k < j - Suc i. \<not> trade_ne (xs ! k) (ys ! k)" using 1 [OF False] by auto
      have "j - i = Suc (j - Suc i)" using j(1) by simp
      then show ?thesis using j Some False by (auto simp: less_Suc_eq_0_disj)
    qed
  qed simp
qed auto

text \<open>A difference among the first ten trades is reported with trades from before the lists.\<close>

lemma early_diff_undefined:
  assumes "first_diff 0 (read_trade_from_file fs (argv ! 1)) (read_trade_from_file fs (argv ! 2)) = Some i"
    and "length argv = 3" and "i < 10"
  shows "output_diff fs argv = Inl Undefined"
proof -
  have "[int i - 10..int i + 10 - 1] = (int i - 10) # [int i - 10 + 1..int i + 10 - 1]" by (simp add: upto_rec1)
  moreover have "at (read_trade_from_file fs (argv ! 1)) (int i - 10) = Inl Undefined" using assms(3) by (simp add: at_def)
  ultimately show ?thesis using assms(1,2) by (simp add: output_diff_def around_def)
qed

text \<open>Files of the encoded trades are read back.\<close>

lemma read_trades_encoded:
  assumes "\<And>x. x \<in> set ts \<Longrightarrow> length (enc_trade x) = 24 \<and> dec_trade (enc_trade x) = x"
  shows "read_trades (concat (map enc_trade ts)) = ts"
  using assms
proof (induction ts)
  case (Cons x ts)
  then show ?case by (subst read_trades.simps) auto
qed (simp add: read_trades.simps)

end
