(* ===== verification/Threads.thy ===== *)
theory Threads
  imports Network Monitor Exchange_Core Loader
begin

text \<open>
  One turn of each thread's endless loop: \<open>ExchangeOrderReceiver::run\<close>, \<open>ExchangeTradeSender::run\<close>,
  \<open>TraderOrderSender::run\<close> and \<open>TraderTradeReceiver::run\<close>, composed of the channels (\<open>Network\<close>), the queues, the
  handling of a message and the throughput monitor. \<open>None\<close>: the turn still waits after \<open>fuel\<close> tries. \<open>now\<close> is the clock
  at the end of the turn. And the query of \<open>query_order.cpp\<close>.
\<close>

section \<open>Turns\<close>

fun recv_until :: "nat \<Rightarrow> (nat \<Rightarrow> 'z \<Rightarrow> (byte list option \<times> 'z) result) \<Rightarrow> MessageReceiver \<Rightarrow> 'z
    \<Rightarrow> (byte list \<times> MessageReceiver \<times> 'z) option result" where
  "recv_until 0 zrecv r z = Inr None"
| "recv_until (Suc fuel) zrecv r z =
     bindE (tryrecv zrecv r z) (\<lambda>(res, r, z).
       case res of Some msg \<Rightarrow> Inr (Some (msg, r, z)) | None \<Rightarrow> recv_until fuel zrecv r z)"

fun count_elems :: "nat \<Rightarrow> Monitor \<Rightarrow> Monitor result" where
  "count_elems 0 m = Inr m"
| "count_elems (Suc n) m = bindE (add_cnt m) (count_elems n)"

definition order_receiver_turn :: "nat \<Rightarrow> (nat \<Rightarrow> 'z \<Rightarrow> (byte list option \<times> 'z) result) \<Rightarrow> 64 word \<Rightarrow> Config
    \<Rightarrow> MessageReceiver \<times> 'z \<Rightarrow> Exchange \<Rightarrow> Monitor \<Rightarrow> LogBuffer
    \<Rightarrow> ((MessageReceiver \<times> 'z) \<times> Exchange \<times> Monitor \<times> LogBuffer) option result" where
  "order_receiver_turn fuel zrecv now cfg rz ex mon lb =
     bindE (recv_until fuel zrecv (fst rz) (snd rz)) (\<lambda>res.
       case res of
         None \<Rightarrow> Inr None
       | Some (msg, rz) \<Rightarrow>
           bindE (orderReceiver cfg msg ex) (\<lambda>ex.
           bindE (parse_orders msg) (\<lambda>orders.
           bindE (count_elems (length orders) mon) (\<lambda>mon.
           bindE (print_timely_thpt now ''Order Receiver Throughput'' mon lb) (\<lambda>(mon, lb).
             Inr (Some (rz, ex, mon, lb)))))))"

definition trade_sender_turn :: "nat \<Rightarrow> (nat \<Rightarrow> zop list \<Rightarrow> zop \<Rightarrow> zret) \<Rightarrow> byte list BlockQueue \<Rightarrow> MessageSender list
    \<Rightarrow> (byte list BlockQueue \<times> MessageSender list) option result" where
  "trade_sender_turn fuel net q ss =
     bindE (bq_take q) (\<lambda>r.
       case r of
         None \<Rightarrow> Inr None
       | Some (msg, q) \<Rightarrow> bindE (broadcast fuel net msg ss) (\<lambda>r. Inr (map_option (\<lambda>ss. (q, ss)) r)))"

definition order_sender_turn :: "nat \<Rightarrow> (nat \<Rightarrow> zop list \<Rightarrow> zop \<Rightarrow> zret) \<Rightarrow> (Order \<Rightarrow> byte list) \<Rightarrow> Order BlockQueue \<Rightarrow> MessageSender
    \<Rightarrow> (Order BlockQueue \<times> MessageSender) option result" where
  "order_sender_turn fuel net pad q s =
     bindE (order_sender_next pad q) (\<lambda>r.
       case r of
         None \<Rightarrow> Inr None
       | Some (msg, q) \<Rightarrow> bindE (send_until fuel net msg s) (\<lambda>r. Inr (map_option (\<lambda>s. (q, s)) r)))"

text \<open>The trades of a message are counted, acknowledgements are not.\<close>

definition trades_in :: "byte list \<Rightarrow> nat result" where
  "trades_in msg =
     bindE (msg_code msg) (\<lambda>(code, _).
       if code = TRADE_MSG then bindE (parse_trades msg) (\<lambda>ts. Inr (length ts)) else Inr 0)"

definition trade_receiver_turn :: "nat \<Rightarrow> (nat \<Rightarrow> 'z \<Rightarrow> (byte list option \<times> 'z) result) \<Rightarrow> (int \<Rightarrow> byte list \<Rightarrow> bool \<times> bool) \<Rightarrow> 64 word
    \<Rightarrow> MessageReceiver \<times> 'z \<Rightarrow> SharedTradeInfo \<times> TradeReceiver \<Rightarrow> Monitor \<Rightarrow> LogBuffer
    \<Rightarrow> ((MessageReceiver \<times> 'z) \<times> (SharedTradeInfo \<times> TradeReceiver) \<times> Monitor \<times> LogBuffer) option result" where
  "trade_receiver_turn fuel zrecv os now rz sr mon lb =
     bindE (recv_until fuel zrecv (fst rz) (snd rz)) (\<lambda>res.
       case res of
         None \<Rightarrow> Inr None
       | Some (msg, rz) \<Rightarrow>
           bindE (trades_in msg) (\<lambda>n.
           bindE (count_elems n mon) (\<lambda>mon.
           bindE (tradeReceiver os msg sr) (\<lambda>sr.
           bindE (print_timely_thpt now ''Trade Receiver Throughput'' mon lb) (\<lambda>(mon, lb).
             Inr (Some (rz, sr, mon, lb)))))))"

section \<open>The query tool\<close>

text \<open>The orders printed for one query.\<close>

definition run_query :: "Order list list \<Rightarrow> int \<Rightarrow> int \<Rightarrow> int \<Rightarrow> Order list result" where
  "run_query order_list code start stop =
     (if start < stop then bindE (at order_list code) (\<lambda>orders. mapE (at orders) [start..stop - 1]) else Inr [])"

section \<open>Lemmas\<close>

lemma count_elems_running:
  "isrunning m \<Longrightarrow> count_elems n m = Inr (m\<lparr>m_cnt := m_cnt m + of_nat n\<rparr>)"
  by (induction n arbitrary: m) (simp_all add: add_cnt_def add.assoc)

text \<open>A turn of a sender takes one message from its queue and sends it exactly once to each receiver.\<close>

lemma broadcast_delivers:
  "accepts fuel net msg \<Longrightarrow> broadcast fuel net msg ss = Inr (Some (map (delivered msg) ss))"
  using send_until_delivers by (induction ss) fastforce+

lemma order_sender_turn_delivers:
  assumes "order_sender_next pad q = Inr (Some (msg, q'))" and "accepts fuel net msg"
  shows "order_sender_turn fuel net pad q s = Inr (Some (q', delivered msg s))"
  using assms send_until_delivers [OF assms(2)] by (simp add: order_sender_turn_def)

lemma trade_sender_turn_delivers:
  assumes "bq_take q = Inr (Some (msg, q'))" and "accepts fuel net msg"
  shows "trade_sender_turn fuel net q ss = Inr (Some (q', map (delivered msg) ss))"
  using assms broadcast_delivers [OF assms(2)] by (simp add: trade_sender_turn_def)

text \<open>What a turn of the order receiver does to the exchange is \<open>orderReceiver\<close> on the message; the count grows by its orders.\<close>

lemma order_receiver_turn_spec:
  assumes "recv_until fuel zrecv (fst rz) (snd rz) = Inr (Some (msg, rz'))" and "isrunning mon"
    and "order_receiver_turn fuel zrecv now cfg rz ex mon lb = Inr (Some (rz'', ex', mon', lb'))"
  shows "rz'' = rz' \<and> orderReceiver cfg msg ex = Inr ex'
    \<and> (\<exists>orders. parse_orders msg = Inr orders \<and> m_cnt mon' = m_cnt mon + of_nat (length orders))"
proof -
  obtain orders where o: "parse_orders msg = Inr orders" "orderReceiver cfg msg ex = Inr ex'" "rz'' = rz'"
    "print_timely_thpt now ''Order Receiver Throughput'' (mon\<lparr>m_cnt := m_cnt mon + of_nat (length orders)\<rparr>) lb = Inr (mon', lb')"
    using assms by (auto simp: order_receiver_turn_def bindE_eq_Inr count_elems_running)
  have "m_cnt mon' = m_cnt mon + of_nat (length orders)"
    using o(4) by (auto simp: print_timely_thpt_def bindE_eq_Inr split: if_splits)
  then show ?thesis using o by simp
qed

end
