(* ===== verification/Printing.thy ===== *)
theory Printing
  imports Threads Decl_Book Config_Properties
begin

text \<open>
  What the programs print of orders, trades and books: \<open>print\<close> of \<open>src/src/common/type.hpp\<close>, the functions of
  \<open>src/src/exchange/debug.hpp\<close>, \<open>record.hpp\<close> and \<open>stock_decl_book.hpp\<close>, and the query tool \<open>src/src/query_order.cpp\<close>.
  \<open>printf\<close> prints the exact value of a \<open>double\<close>, rounded once.
\<close>

section \<open>Numbers\<close>

text \<open>The number in units of the last digit, and \<open>k\<close> digits of it.\<close>

definition scaled :: "nat \<Rightarrow> double \<Rightarrow> int" where
  "scaled k x =
     (if 0 \<le> expo x then mant x * 10 ^ k * 2 ^ nat (expo x) else round_even (mant x * 10 ^ k) (nat (- expo x)))"

definition frac_digits :: "nat \<Rightarrow> int \<Rightarrow> string" where
  "frac_digits k n = map (\<lambda>j. digit_char (nat (n div 10 ^ j mod 10))) (rev [0..<k])"

text \<open>The conversion \<open>%.kf\<close>.\<close>

definition fmt_fixed :: "nat \<Rightarrow> double \<Rightarrow> string" where
  "fmt_fixed k x =
     (if dsign x then ''-'' else []) @
     (if isnan x then ''nan'' else if isinf x then ''inf''
      else show_int (scaled k x div 10 ^ k) @ ''.'' @ frac_digits k (scaled k x))"

abbreviation tab :: string where
  "tab \<equiv> [CHR 0x09]"

section \<open>Orders, trades and books\<close>

definition order_print :: "Order \<Rightarrow> string" where
  "order_print r =
     ''['' @ show_int (o_stk_code r) @ ''] order_id: '' @ show_int (o_order_id r) @ tab @ ''direction: '' @ show_int (o_direction r)
     @ tab @ ''type: '' @ show_int (o_type r) @ tab @ ''price: '' @ fmt_fixed 2 (o_price r) @ tab @ '', volume: ''
     @ show_int (o_volume r) @ newline"

definition trade_print :: "Trade \<Rightarrow> string" where
  "trade_print t =
     ''['' @ show_int (t_stk_code t) @ ''] bid_id: '' @ show_int (t_bid_id t) @ tab @ ''ask_id: '' @ show_int (t_ask_id t)
     @ tab @ ''price: '' @ fmt_fixed 2 (t_price t) @ tab @ '', volume: '' @ show_int (t_volume t) @ newline"

definition printTrade :: "Trade \<Rightarrow> string" where
  "printTrade t =
     ''['' @ show_int (t_stk_code t) @ ''] '' @ show_int (t_bid_id t) @ '' <- '' @ show_int (t_ask_id t) @ tab
     @ fmt_fixed 2 (t_price t) @ tab @ ''* '' @ show_int (t_volume t) @ newline"

definition printTradeList :: "Trade list \<Rightarrow> string" where
  "printTradeList tv = concat (map (\<lambda>(i, t). show_int (int i) @ '':'' @ tab @ printTrade t) (enumerate 0 tv))"

definition printRecord :: "Record \<Rightarrow> string" where
  "printRecord r =
     ''order_id:'' @ show_int (r_order_id r) @ tab @ ''price:'' @ fmt_fixed 2 (r_price r) @ tab @ ''volume:'' @ show_int (r_volume r) @ newline"

definition printRecordList :: "Record list \<Rightarrow> string" where
  "printRecordList rv = concat (map (\<lambda>(i, r). ''<'' @ show_int (int i) @ ''>'' @ tab @ printRecord r) (enumerate 0 rv))"

definition book_print :: "StockDeclarationBook \<Rightarrow> string" where
  "book_print b =
     ''BuyDecls:'' @ newline @ printRecordList (buy_decls b) @ ''SellDecls:'' @ newline @ printRecordList (sell_decls b)"

section \<open>The query tool\<close>

text \<open>
  The loop reads three numbers, prints the orders, and begins again. It does not look at the state of \<open>std::cin\<close>: at
  the end of the input the numbers are indeterminate.
\<close>

fun query_loop :: "Order list list \<Rightarrow> (int \<times> int \<times> int) list \<Rightarrow> string \<Rightarrow> string result" where
  "query_loop order_list [] out = Inl Undefined"
| "query_loop order_list ((code, start, end_idx) # inputs) out =
     bindE (run_query order_list code start end_idx) (\<lambda>orders.
       query_loop order_list inputs (out @ ''query> '' @ concat (map order_print orders)))"

definition query_main :: "files \<Rightarrow> int h5 \<Rightarrow> double h5 \<Rightarrow> (int \<times> int \<times> int) list \<Rightarrow> string result" where
  "query_main fs h5i h5d inputs =
     bindE (load_config fs ''../config'' initConfig) (\<lambda>cfg.
     bindE (fetch_order_by_config cfg (init_loader cfg) h5i h5d) (\<lambda>order_list.
       query_loop order_list inputs (''usage: query> <stk_code> <start> <end>'' @ newline)))"

section \<open>Lemmas\<close>

text \<open>The last digit is off by at most a half.\<close>

lemma round_even_error: "2 * \<bar>round_even m s * 2 ^ s - m\<bar> \<le> 2 ^ s"
proof -
  let ?q = "m div 2 ^ s" and ?r = "m mod 2 ^ s"
  have m: "m = ?q * 2 ^ s + ?r" by (metis div_mult_mod_eq)
  have r: "0 \<le> ?r" "?r < 2 ^ s" by simp_all
  have "round_even m s = ?q \<and> 2 * ?r \<le> 2 ^ s \<or> round_even m s = ?q + 1 \<and> 2 ^ s \<le> 2 * ?r"
    by (auto simp: round_even_def Let_def)
  then show ?thesis
  proof (elim disjE conjE)
    assume "round_even m s = ?q" "2 * ?r \<le> 2 ^ s"
    moreover from this(1) have "round_even m s * 2 ^ s - m = - ?r" using m by simp
    ultimately show ?thesis using r by simp
  next
    assume "round_even m s = ?q + 1" "2 ^ s \<le> 2 * ?r"
    moreover from this(1) have "round_even m s * 2 ^ s - m = 2 ^ s - ?r" using m by (simp add: distrib_right)
    ultimately show ?thesis using r(2) by (simp only: abs_of_pos) simp
  qed
qed

lemma near_both: "2 * \<bar>a - m\<bar> \<le> p \<Longrightarrow> 2 * \<bar>m - b\<bar> < p \<Longrightarrow> \<bar>a - b\<bar> < p" for a b m p :: int
  by arith

lemma round_even_nearest:
  assumes "2 * \<bar>m - n * 2 ^ s\<bar> < 2 ^ s"
  shows "round_even m s = n"
proof -
  have "\<bar>(round_even m s - n) * 2 ^ s\<bar> < 2 ^ s"
    unfolding left_diff_distrib by (rule near_both [OF round_even_error assms])
  then have "\<bar>round_even m s - n\<bar> * 2 ^ s < 1 * 2 ^ s" by (simp add: abs_mult)
  then have "\<bar>round_even m s - n\<bar> < 1" by (simp only: mult_less_cancel_right) simp
  then show ?thesis by simp
qed

text \<open>Read without its point, the printed number is the scaled one.\<close>

lemma digits_frac:
  "0 \<le> n \<Longrightarrow> 0 \<le> acc \<Longrightarrow> list_all (\<lambda>c. digit c \<noteq> None) (frac_digits k n) \<and> digits acc (frac_digits k n) = acc * 10 ^ k + n mod 10 ^ k"
proof (induction k arbitrary: acc)
  case (Suc k)
  let ?d = "n div 10 ^ k mod 10"
  have d: "0 \<le> ?d" "?d < 10" by simp_all
  then have dc: "digit (digit_char (nat ?d)) = Some ?d" using digit_char_digit [of "nat ?d"] by simp
  have "n mod 10 ^ Suc k = ?d * 10 ^ k + n mod 10 ^ k"
    using mod_mult2_eq' [of n "10 ^ k" 10] by (simp add: mult.commute)
  moreover have "frac_digits (Suc k) n = digit_char (nat ?d) # frac_digits k n" by (simp add: frac_digits_def)
  ultimately show ?case using Suc.IH [of "10 * acc + ?d"] Suc.prems d dc by (simp add: algebra_simps)
qed (simp add: frac_digits_def)

lemma mant_nonneg [simp]: "0 \<le> mant x"
  by (simp add: mant_def dmag_def)

lemma scaled_nonneg: "0 \<le> scaled k x"
proof (cases "0 \<le> expo x")
  case False
  have "0 \<le> mant x * 10 ^ k div 2 ^ nat (- expo x)" by (simp add: pos_imp_zdiv_nonneg_iff)
  then show ?thesis using False by (auto simp: scaled_def round_even_def Let_def)
qed (simp add: scaled_def)

lemma fmt_fixed_digits:
  assumes "\<not> isnan x" and "\<not> isinf x" and "\<not> dsign x"
  shows "\<exists>w f. fmt_fixed k x = w @ ''.'' @ f \<and> length f = k \<and> digits 0 (w @ f) = scaled k x"
proof -
  let ?n = "scaled k x"
  let ?w = "show_nat (nat (?n div 10 ^ k))"
  have n: "0 \<le> ?n" by (rule scaled_nonneg)
  then have q: "0 \<le> ?n div 10 ^ k" by (simp add: pos_imp_zdiv_nonneg_iff)
  then have "fmt_fixed k x = ?w @ ''.'' @ frac_digits k ?n" using assms by (simp add: fmt_fixed_def show_int_def)
  moreover have "digits 0 (?w @ frac_digits k ?n) = ?n"
    using show_nat_digits [of "nat (?n div 10 ^ k)"] digits_frac [OF n q, of k] q
    by (simp add: digits_append div_mult_mod_eq)
  moreover have "length (frac_digits k ?n) = k" by (simp add: frac_digits_def)
  ultimately show ?thesis by blast
qed

text \<open>
  A price that is closer to \<open>c\<close> cents than half a cent is printed as exactly \<open>c\<close> cents; so the prices of the data
  files, which have two decimals, are printed as they were meant.
\<close>

lemma scaled_cents:
  assumes "expo x < 0" and "2 * \<bar>mant x * 100 - c * 2 ^ nat (- expo x)\<bar> < 2 ^ nat (- expo x)"
  shows "scaled 2 x = c"
  using round_even_nearest [OF assms(2)] assms(1) by (simp add: scaled_def)

lemma price_printed_exactly:
  assumes "\<not> isnan x" "\<not> isinf x" "\<not> dsign x"
    and "expo x < 0" and "2 * \<bar>mant x * 100 - c * 2 ^ nat (- expo x)\<bar> < 2 ^ nat (- expo x)"
  shows "\<exists>w f. fmt_fixed 2 x = w @ ''.'' @ f \<and> length f = 2 \<and> digits 0 (w @ f) = c"
  using fmt_fixed_digits [OF assms(1-3), of 2] scaled_cents [OF assms(4,5)] by simp

text \<open>The double nearest to 10.05 is printed as \<open>10.05\<close>.\<close>

lemma print_10_05: "fmt_fixed 2 0x402419999999999a = ''10.05''"
  by code_simp

text \<open>The query tool prints the orders of each query, but does not survive the end of its input.\<close>

lemma query_loop_ends_undefined:
  "\<exists>e. query_loop order_list inputs out = Inl e"
  by (induction order_list inputs out rule: query_loop.induct) (auto simp: bindE_def split: sum.splits)

end
