(* ===== verification/Io_Examples.thy ===== *)
theory Io_Examples
  imports Wire Printing Util
begin

text \<open>
  The example and test programs for the data files: \<open>src/io_example/cpp/struct-write.cpp\<close> and \<open>struct-read.cpp\<close>
  (\<open>src/test/struct-read.cpp\<close> is the same program), \<open>src/io_example/cpp/hdf5-read.cpp\<close> and \<open>src/test/hdf5-read.cpp\<close>.
  What the operating system and the HDF5 library answer are arguments.
\<close>

section \<open>Trades in a file\<close>

text \<open>The two trades; \<open>4\<close> and \<open>2\<close> as doubles.\<close>

definition written_trades :: "Trade list" where
  "written_trades =
     [\<lparr>t_stk_code = 1, t_bid_id = 2, t_ask_id = 3, t_price = 0x4010000000000000, t_volume = 5\<rparr>,
      \<lparr>t_stk_code = 5, t_bid_id = 4, t_ask_id = 3, t_price = 0x4000000000000000, t_volume = 1\<rparr>]"

text \<open>\<open>opened\<close>: \<open>None\<close> when the file cannot be opened, else the number of bytes that reach it. Nothing is checked.\<close>

definition struct_write :: "nat option \<Rightarrow> (string \<rightharpoonup> byte list) \<Rightarrow> (string \<rightharpoonup> byte list)" where
  "struct_write opened fs =
     (case opened of None \<Rightarrow> fs | Some n \<Rightarrow> fs(''Trade'' \<mapsto> take n (concat (map enc_trade written_trades))))"

text \<open>
  \<open>memory\<close> is what the 2400 bytes of the array hold before; the file overwrites as much of them as it has. The trades
  are printed whether they were read or not.
\<close>

definition trade_line :: "Trade \<Rightarrow> string" where
  "trade_line t =
     show_int (t_stk_code t) @ '' '' @ show_int (t_bid_id t) @ '' '' @ show_int (t_ask_id t) @ '' ''
     @ fmt_fixed 6 (t_price t) @ '' '' @ show_int (t_volume t) @ newline"

definition struct_memory :: "(string \<rightharpoonup> byte list) \<Rightarrow> byte list \<Rightarrow> byte list" where
  "struct_memory fs memory =
     (case fs ''/data/100x1000x1000/trade1'' of
        None \<Rightarrow> memory
      | Some file \<Rightarrow> take (24 * 100) file @ drop (length file) memory)"

definition struct_read :: "(string \<rightharpoonup> byte list) \<Rightarrow> byte list \<Rightarrow> string" where
  "struct_read fs memory =
     concat (map (\<lambda>i. trade_line (dec_trade (sub_bytes (24 * i) 24 (struct_memory fs memory)))) [0..<100])"

section \<open>Blocks of a data set\<close>

record hyperslab =
  hs_count :: "nat list"
  hs_offset :: "nat list"
  hs_stride :: "nat list"

text \<open>
  The HDF5 library: opening a data set gives its rank and its dimensions; \<open>h5_read\<close> copies the elements that are selected
  in the file to the ones selected in an array of the given dimensions.
\<close>

record 'a h5lib =
  h5_open :: "string \<Rightarrow> string \<Rightarrow> (nat \<times> nat list) result"
  h5_read :: "string \<Rightarrow> string \<Rightarrow> hyperslab \<Rightarrow> nat list \<Rightarrow> hyperslab \<Rightarrow> (nat \<Rightarrow> 'a) \<Rightarrow> (nat \<Rightarrow> 'a) result"

datatype 'a streamed = Text string | Num 'a

text \<open>
  The dimensions go into an array of three numbers: more of them are written past its end, of fewer the rest is
  indeterminate (\<open>junk\<close>).
\<close>

definition shape_line :: "nat \<times> nat list \<Rightarrow> nat list \<Rightarrow> string result" where
  "shape_line ds junk =
     (if 3 < fst ds then Inl Undefined
      else let d = take 3 (snd ds @ drop (length (snd ds)) junk)
           in Inr (''rank '' @ show_nat (fst ds) @ '', shape ('' @ show_nat (d ! 0) @ '', '' @ show_nat (d ! 1) @ '', ''
                   @ show_nat (d ! 2) @ '')'' @ newline))"

text \<open>\<open>io_example/cpp/hdf5-read.cpp\<close>: the first five by five numbers of three planes.\<close>

definition print_plane :: "nat \<Rightarrow> (nat \<Rightarrow> 'a) \<Rightarrow> 'a streamed list" where
  "print_plane k data_read =
     concat (map (\<lambda>i. concat (map (\<lambda>j. [Num (data_read (i * (1000 * 1000) + j * 1000 + k)), Text '' '']) [0..<5]) @ [Text newline]) [0..<5])"

definition price_slab :: hyperslab where
  "price_slab = \<lparr>hs_count = [3, 4, 2], hs_offset = [0, 0, 0], hs_stride = [1, 1, 1]\<rparr>"

definition hdf5_read_price :: "bool \<Rightarrow> double h5lib \<Rightarrow> nat list \<Rightarrow> double streamed list result" where
  "hdf5_read_price allocated h5 junk =
     (let file = ''/data/100x1000x1000/price1.h5''; dataset = ''price''
      in if \<not> allocated then Inl BadAlloc
         else bindE (h5_open h5 file dataset) (\<lambda>ds.
              bindE (shape_line ds junk) (\<lambda>shape.
              bindE (h5_read h5 file dataset price_slab [500, 1000, 1000] price_slab (\<lambda>_. 0)) (\<lambda>data_read.
                Inr (Text shape # print_plane 0 data_read @ [Text newline] @ print_plane 1 data_read @ [Text newline]
                     @ print_plane 2 data_read)))))"

text \<open>\<open>test/hdf5-read.cpp\<close>: every tenth plane, the first hundred numbers, and the seconds that reading took.\<close>

definition id_file_slab :: hyperslab where
  "id_file_slab = \<lparr>hs_count = [50, 1000, 1000], hs_offset = [0, 0, 0], hs_stride = [10, 1, 1]\<rparr>"

definition id_memory_slab :: hyperslab where
  "id_memory_slab = \<lparr>hs_count = [50, 1000, 1000], hs_offset = [0, 0, 0], hs_stride = [1, 1, 1]\<rparr>"

definition hdf5_read_ids :: "bool \<Rightarrow> int h5lib \<Rightarrow> nat list \<Rightarrow> timespec \<Rightarrow> timespec \<Rightarrow> int streamed list result" where
  "hdf5_read_ids allocated h5 junk t0 t1 =
     (let file = ''/data/100x1000x1000/order_id1.h5''; dataset = ''order_id''
      in if \<not> allocated then Inl BadAlloc
         else bindE (h5_open h5 file dataset) (\<lambda>ds.
              bindE (shape_line ds junk) (\<lambda>shape.
              bindE (h5_read h5 file dataset id_file_slab [50, 1000, 1000] id_memory_slab (\<lambda>_. 0)) (\<lambda>data_read.
                Inr (Text shape # concat (map (\<lambda>i. [Num (data_read i), Text '' '']) [0..<100]) @ [Text newline]
                     @ [Text (''Finish in '' @ show_nat (unat ((get_usec t1 - get_usec t0) div 1000 div 1000)) @ '' sec'' @ newline)])))))"

section \<open>Lemmas\<close>

text \<open>Element \<open>i\<close> of an array of records, wherever a record has a fixed size.\<close>

context codec
begin

lemma array_length: "\<forall>x \<in> set xs. ok x \<Longrightarrow> length (concat (map enc xs)) = sz * length xs"
  by (induction xs) (simp_all add: enc_size)

lemma array_element:
  assumes "\<forall>x \<in> set xs. ok x" and "i < length xs"
  shows "dec (sub_bytes (sz * i) sz (concat (map enc xs) @ tl_bytes)) = xs ! i"
proof -
  have "concat (map enc xs) = concat (map enc (take i xs @ xs ! i # drop (Suc i) xs))"
    using id_take_nth_drop [OF assms(2)] by (rule arg_cong)
  then have "concat (map enc xs) = concat (map enc (take i xs)) @ enc (xs ! i) @ concat (map enc (drop (Suc i) xs))"
    by (simp only: map_append list.map concat_append concat.simps)
  moreover have "\<forall>x \<in> set (take i xs). ok x" using assms(1) by (meson in_set_takeD)
  then have "length (concat (map enc (take i xs))) = sz * i" using array_length assms(2) by simp
  moreover have "ok (xs ! i)" using assms by simp
  ultimately show ?thesis by (simp add: sub_bytes_def enc_size dec_enc)
qed

end

lemma sub_bytes_take:
  assumes "i + n \<le> length bs" and "i + n \<le> k"
  shows "sub_bytes i n (take k bs @ xs) = sub_bytes i n bs"
proof -
  have "n \<le> k - i" "n \<le> length bs - i" using assms by simp_all
  then show ?thesis by (simp add: sub_bytes_def drop_take min_def)
qed

text \<open>
  A file of trades is printed as far as 100 of them; when it has fewer, what is printed after them is what the memory
  happened to hold.
\<close>

lemma struct_read_lines:
  assumes "fs ''/data/100x1000x1000/trade1'' = Some (concat (map enc_trade ts))"
    and "\<forall>t \<in> set ts. trade_ok t" and "length memory = 2400"
  shows "struct_read fs memory =
           concat (map (\<lambda>i. trade_line (if i < length ts then ts ! i else dec_trade (sub_bytes (24 * i) 24 memory))) [0..<100])"
proof -
  let ?file = "concat (map enc_trade ts)"
  have len: "length ?file = 24 * length ts" by (rule tr.array_length [OF assms(2)])
  have "dec_trade (sub_bytes (24 * i) 24 (struct_memory fs memory)) =
      (if i < length ts then ts ! i else dec_trade (sub_bytes (24 * i) 24 memory))" if "i < 100" for i
  proof (cases "i < length ts")
    case True
    have "sub_bytes (24 * i) 24 (take 2400 ?file @ xs) = sub_bytes (24 * i) 24 ?file" for xs
      using True that len by (intro sub_bytes_take) simp_all
    then show ?thesis using True tr.array_element [OF assms(2) True, of "[]"] assms(1) by (simp add: struct_memory_def)
  next
    case False
    then have "take 2400 ?file = ?file" using that len by simp
    then have "sub_bytes (24 * i) 24 (struct_memory fs memory) = sub_bytes (24 * i) 24 memory"
      using False assms(1) len by (simp add: struct_memory_def sub_bytes_def)
    then show ?thesis using False by simp
  qed
  then show ?thesis by (auto simp: struct_read_def intro!: arg_cong [where f = concat])
qed

corollary struct_read_full:
  assumes "fs ''/data/100x1000x1000/trade1'' = Some (concat (map enc_trade ts))"
    and "\<forall>t \<in> set ts. trade_ok t" and "length memory = 2400" and "100 \<le> length ts"
  shows "struct_read fs memory = concat (map trade_line (take 100 ts))"
proof -
  have "map (\<lambda>i. trade_line (if i < length ts then ts ! i else x i)) [0..<100] = map trade_line (take 100 ts)" for x
    using assms(4) by (auto intro!: nth_equalityI)
  then show ?thesis using struct_read_lines [of fs ts, OF assms(1-3)] by simp
qed

text \<open>What the one program writes the other prints, followed by 98 lines of memory.\<close>

lemma struct_write_read:
  assumes "struct_write (Some n) fs ''Trade'' = Some bs" and "48 \<le> n"
    and "fs' ''/data/100x1000x1000/trade1'' = Some bs" and "length memory = 2400"
  shows "\<exists>junk. struct_read fs' memory = ''1 2 3 4.000000 5'' @ newline @ ''5 4 3 2.000000 1'' @ newline @ junk"
proof -
  have ok: "\<forall>t \<in> set written_trades. trade_ok t" by (simp add: written_trades_def trade_ok_def in_i32_def)
  then have "length (concat (map enc_trade written_trades)) = 48"
    using tr.array_length by (fastforce simp: written_trades_def)
  then have "bs = concat (map enc_trade written_trades)" using assms(1,2) by (simp add: struct_write_def)
  from struct_read_lines [of fs' written_trades, OF assms(3) [unfolded this] ok assms(4)]
  obtain f where f: "struct_read fs' memory = concat (map f [0..<100])" "\<And>i. i < 2 \<Longrightarrow> f i = trade_line (written_trades ! i)"
    by (auto simp: written_trades_def)
  have "[0..<100] = 0 # 1 # [2..<100]" by code_simp
  then have "struct_read fs' memory = trade_line (written_trades ! 0) @ trade_line (written_trades ! 1) @ concat (map f [2..<100])"
    unfolding f(1) by (simp only: list.map concat.simps) (simp add: f(2))
  moreover have "trade_line (written_trades ! 0) = ''1 2 3 4.000000 5'' @ newline"
    and "trade_line (written_trades ! 1) = ''5 4 3 2.000000 1'' @ newline" by code_simp+
  ultimately show ?thesis by simp
qed

text \<open>
  What the HDF5 library documents for a block that starts at the origin: the selected elements come to their place in
  the array, and no other one changes.
\<close>

definition h5_reads :: "'a h5lib \<Rightarrow> string \<Rightarrow> string \<Rightarrow> (nat \<Rightarrow> nat \<Rightarrow> nat \<Rightarrow> 'a) \<Rightarrow> bool" where
  "h5_reads h5 file dataset elem \<longleftrightarrow>
     (\<forall>a b c s X Y Z memory. \<exists>m.
        h5_read h5 file dataset \<lparr>hs_count = [a, b, c], hs_offset = [0, 0, 0], hs_stride = [s, 1, 1]\<rparr> [X, Y, Z]
          \<lparr>hs_count = [a, b, c], hs_offset = [0, 0, 0], hs_stride = [1, 1, 1]\<rparr> memory = Inr m
        \<and> (\<forall>i < X. \<forall>j < Y. \<forall>k < Z. m (i * (Y * Z) + j * Z + k)
             = (if i < a \<and> j < b \<and> k < c then elem (i * s) j k else memory (i * (Y * Z) + j * Z + k))))"

text \<open>The numbers of a plane as they should be printed. The third plane was not read: it is all zeros.\<close>

definition plane :: "(nat \<Rightarrow> nat \<Rightarrow> 'a) \<Rightarrow> 'a streamed list" where
  "plane f = concat (map (\<lambda>i. concat (map (\<lambda>j. [Num (f i j), Text '' '']) [0..<5]) @ [Text newline]) [0..<5])"

lemma print_plane_eq:
  assumes "\<And>i j. i < 5 \<Longrightarrow> j < 5 \<Longrightarrow> data_read (i * (1000 * 1000) + j * 1000 + k) = f i j"
  shows "print_plane k data_read = plane f"
proof -
  have "map (\<lambda>j. [Num (data_read (i * (1000 * 1000) + j * 1000 + k)), Text '' '']) [0..<5] = map (\<lambda>j. [Num (f i j), Text '' '']) [0..<5]"
    if "i < 5" for i using assms [OF that] by (intro map_cong) simp_all
  then have "map (\<lambda>i. concat (map (\<lambda>j. [Num (data_read (i * (1000 * 1000) + j * 1000 + k)), Text '' '']) [0..<5]) @ [Text newline]) [0..<5]
      = map (\<lambda>i. concat (map (\<lambda>j. [Num (f i j), Text '' '']) [0..<5]) @ [Text newline]) [0..<5]" by (intro map_cong) (simp_all only: set_upt atLeastLessThan_iff)
  then show ?thesis by (simp only: print_plane_def plane_def)
qed

lemma hdf5_read_price_prints:
  assumes "h5_open h5 ''/data/100x1000x1000/price1.h5'' ''price'' = Inr (3, [x, y, z])"
    and "h5_reads h5 ''/data/100x1000x1000/price1.h5'' ''price'' elem"
  shows "\<exists>shape. hdf5_read_price True h5 junk =
      Inr (Text shape # plane (\<lambda>i j. if i < 3 \<and> j < 4 then elem i j 0 else 0) @ [Text newline]
        @ plane (\<lambda>i j. if i < 3 \<and> j < 4 then elem i j 1 else 0) @ [Text newline] @ plane (\<lambda>i j. 0))"
proof -
  let ?file = "''/data/100x1000x1000/price1.h5''"
  obtain m where m: "h5_read h5 ?file ''price'' price_slab [500, 1000, 1000] price_slab (\<lambda>_. 0) = Inr m"
    "\<And>i j k. i < 500 \<Longrightarrow> j < 1000 \<Longrightarrow> k < 1000 \<Longrightarrow> m (i * (1000 * 1000) + j * 1000 + k) = (if i < 3 \<and> j < 4 \<and> k < 2 then elem (i * 1) j k else 0)"
    using assms(2) [unfolded h5_reads_def, rule_format, of 3 4 2 1 500 1000 1000 "\<lambda>_. 0"] by (auto simp: price_slab_def)
  have p: "print_plane k m = plane (\<lambda>i j. if i < 3 \<and> j < 4 \<and> k < 2 then elem i j k else 0)" if "k < 1000" for k
    using m(2) [of _ _ k] that by (intro print_plane_eq) simp
  note planes = p [of 0, simplified] p [of 1, simplified] p [of 2, simplified]
  show ?thesis using assms(1) m(1) by (simp add: hdf5_read_price_def Let_def shape_line_def planes)
qed

end
