(* ===== verification/Thread_Class.thy ===== *)
theory Thread_Class
  imports Util
begin

text \<open>
  The class \<open>ubi_thread\<close> of \<open>src/src/common/thread.h\<close> with its object state, over the calls that \<open>Util\<close> has of
  \<open>thread.cpp\<close>; and what the macros of \<open>src/src/common/macros.h\<close>, which it includes, expand to. Attributes of the
  compiler (alignment, inlining, packing) change no value and are left out.
\<close>

section \<open>Macros\<close>

text \<open>\<open>__builtin_ctz\<close>, the number of zeros below the lowest one; undefined for zero.\<close>

function builtin_ctz :: "nat \<Rightarrow> nat result" where
  "builtin_ctz n = (if n = 0 then Inl Undefined else if odd n then Inr 0 else bindE (builtin_ctz (n div 2)) (\<lambda>k. Inr (Suc k)))"
  by pat_completeness auto
termination
  by (relation "measure id") auto

declare builtin_ctz.simps [simp del]

definition CACHELINE_SIZE :: nat where
  "CACHELINE_SIZE = 64"

definition LG_CACHELINE_SIZE :: "nat result" where
  "LG_CACHELINE_SIZE = builtin_ctz CACHELINE_SIZE"

definition NMAXCOREBITS :: nat where
  "NMAXCOREBITS = 9"

definition NMAXCORES :: nat where
  "NMAXCORES = push_bit NMAXCOREBITS 1"

text \<open>\<open>!!(x)\<close>, with a hint for the compiler.\<close>

definition likely :: "int \<Rightarrow> int" where
  "likely x = (if x \<noteq> 0 then 1 else 0)"

definition unlikely :: "int \<Rightarrow> int" where
  "unlikely x = (if x \<noteq> 0 then 1 else 0)"

text \<open>The assertion is kept when assertions are compiled out (\<open>ndebug\<close>): the process aborts in both cases.\<close>

definition ALWAYS_ASSERT :: "bool \<Rightarrow> int \<Rightarrow> unit result" where
  "ALWAYS_ASSERT ndebug expr = (if ndebug then (if likely expr \<noteq> 0 then Inr () else Inl Abort) else assertE (expr \<noteq> 0) ())"

text \<open>\<open>CHECK_INVARIANTS\<close> is not defined: neither macro evaluates its argument.\<close>

definition INVARIANT :: "int \<Rightarrow> unit result" where
  "INVARIANT expr = Inr ()"

definition SINGLE_THREADED_INVARIANT :: "int \<Rightarrow> unit result" where
  "SINGLE_THREADED_INVARIANT expr = Inr ()"

text \<open>The number of elements, from the sizes of the array and of its first element.\<close>

definition ARRAY_NELEMS :: "nat \<Rightarrow> nat \<Rightarrow> nat" where
  "ARRAY_NELEMS size_a size_elem = size_a div size_elem"

definition NDB_UNIMPLEMENTED :: "bool \<Rightarrow> string \<Rightarrow> unit result" where
  "NDB_UNIMPLEMENTED ndebug what = bindE (ALWAYS_ASSERT ndebug 0) (\<lambda>_. Inl (RuntimeError what))"

definition GCC_AT_LEAST_47 :: "int \<Rightarrow> int \<Rightarrow> int" where
  "GCC_AT_LEAST_47 GNUC GNUC_MINOR = (if GNUC > 4 \<or> GNUC = 4 \<and> GNUC_MINOR \<ge> 7 then 1 else 0)"

definition SMALL_SIZE_VEC :: nat where
  "SMALL_SIZE_VEC = 128"

definition SMALL_SIZE_MAP :: nat where
  "SMALL_SIZE_MAP = 64"

definition EXTRA_SMALL_SIZE_MAP :: nat where
  "EXTRA_SMALL_SIZE_MAP = 8"

definition BACKOFF_SPINS_FACTOR :: nat where
  "BACKOFF_SPINS_FACTOR = 10"

definition ONE_SECOND_NS :: int where
  "ONE_SECOND_NS = 1000000000"

section \<open>The class\<close>

text \<open>\<open>p\<close> is indeterminate (\<open>None\<close>) until \<open>start\<close> has created the thread.\<close>

record 's ubi_thread =
  th_p :: "nat option"
  th_body :: "'s body option"
  th_daemon :: bool
  th_name :: string

definition new_ubi_thread :: "bool \<Rightarrow> string \<Rightarrow> 's ubi_thread" where
  "new_ubi_thread daemon name = \<lparr>th_p = None, th_body = None, th_daemon = daemon, th_name = name\<rparr>"

definition new_ubi_thread_body :: "'s body \<Rightarrow> bool \<Rightarrow> string \<Rightarrow> 's ubi_thread" where
  "new_ubi_thread_body body daemon name = \<lparr>th_p = None, th_body = Some body, th_daemon = daemon, th_name = name\<rparr>"

definition pthread_id :: "'s ubi_thread \<Rightarrow> nat result" where
  "pthread_id t = (case th_p t of None \<Rightarrow> Inl Undefined | Some p \<Rightarrow> Inr p)"

definition get_name :: "'s ubi_thread \<Rightarrow> string" where
  "get_name t = th_name t"

text \<open>\<open>pid\<close> is the identifier that \<open>pthread_create\<close> stores.\<close>

definition ubi_start :: "(pcall \<Rightarrow> int) \<Rightarrow> nat \<Rightarrow> 's ubi_thread \<Rightarrow> (pcall list \<times> 's ubi_thread) result" where
  "ubi_start rc pid t = bindE (thread_start rc (th_daemon t)) (\<lambda>calls. Inr (calls, t\<lparr>th_p := Some pid\<rparr>))"

text \<open>\<open>pthread_join\<close> and \<open>pthread_setaffinity_np\<close> use \<open>p\<close>.\<close>

definition ubi_join :: "(pcall \<Rightarrow> int) \<Rightarrow> 's ubi_thread \<Rightarrow> pcall list result" where
  "ubi_join rc t = (if th_daemon t then Inl Abort else bindE (pthread_id t) (\<lambda>p. thread_join rc (th_daemon t)))"

definition ubi_binding :: "(int \<Rightarrow> int) \<Rightarrow> int \<Rightarrow> 's ubi_thread \<Rightarrow> int result" where
  "ubi_binding set_affinity i t = bindE (pthread_id t) (\<lambda>p. thread_binding set_affinity i)"

text \<open>The callbacks live in a vector that is created on first use.\<close>

definition completion_callbacks :: "('s \<Rightarrow> 's) list option \<Rightarrow> ('s \<Rightarrow> 's) list" where
  "completion_callbacks callbacks = (case callbacks of None \<Rightarrow> [] | Some cbs \<Rightarrow> cbs)"

definition ubi_main :: "('s \<Rightarrow> 's) list option \<Rightarrow> 's ubi_thread \<Rightarrow> 's body" where
  "ubi_main callbacks t = pthread_bootstrap (thread_run (th_body t)) (completion_callbacks callbacks)"

section \<open>Lemmas\<close>

lemma macro_values: "LG_CACHELINE_SIZE = Inr 6" "NMAXCORES = 512" "2 ^ 6 = CACHELINE_SIZE"
  by (simp_all add: LG_CACHELINE_SIZE_def CACHELINE_SIZE_def NMAXCORES_def NMAXCOREBITS_def builtin_ctz.simps push_bit_eq_mult)

text \<open>\<open>__builtin_ctz\<close> is the logarithm of a power of two.\<close>

lemma builtin_ctz_power: "builtin_ctz (2 ^ k) = Inr k"
  by (induction k) (simp_all add: builtin_ctz.simps)

lemma ALWAYS_ASSERT_always: "ALWAYS_ASSERT ndebug expr = assertE (expr \<noteq> 0) ()"
  by (simp add: ALWAYS_ASSERT_def likely_def assertE_def)

text \<open>The exception after the assertion is never thrown.\<close>

lemma NDB_UNIMPLEMENTED_aborts: "NDB_UNIMPLEMENTED ndebug what = Inl Abort"
  by (simp add: NDB_UNIMPLEMENTED_def ALWAYS_ASSERT_always)

text \<open>
  A thread is joined exactly when it was started and is not a daemon, provided the calls succeed; its body and its
  callbacks run once in order. One without a body aborts the process when it runs.
\<close>

lemma start_join:
  assumes "\<And>c. rc c = 0" and "ubi_start rc pid t = Inr (calls, t')"
  shows "(th_daemon t \<longrightarrow> ubi_join rc t' = Inl Abort \<and> calls = [AttrInit, SetDetached, Create, AttrDestroy])
     \<and> (\<not> th_daemon t \<longrightarrow> ubi_join rc t' = Inr [Join] \<and> calls = [AttrInit, Create, AttrDestroy])
     \<and> pthread_id t' = Inr pid"
  using assms by (auto simp: ubi_start_def ubi_join_def thread_start_def thread_join_def pthread_id_def bindE_eq_Inr)

lemma not_started:
  "ubi_binding aff i (new_ubi_thread d n) = Inl Undefined" "ubi_join rc (new_ubi_thread False n) = Inl Undefined"
  by (simp_all add: ubi_binding_def ubi_join_def pthread_id_def new_ubi_thread_def)

lemma ubi_main_without_body: "fst (ubi_main callbacks (new_ubi_thread d n) s) = Some Abort"
  by (simp add: ubi_main_def pthread_bootstrap_def thread_run_def new_ubi_thread_def)

lemma ubi_main_body:
  assumes "body s = (e, s')" and "e \<noteq> Some Abort"
  shows "ubi_main (Some cbs) (new_ubi_thread_body body d n) s = (e, fold (\<lambda>cb s. cb s) cbs s')"
  using assms by (auto simp: ubi_main_def pthread_bootstrap_def thread_run_def new_ubi_thread_body_def completion_callbacks_def on_complete_def
      split: option.splits error.splits)

end
