(* ===== verification/Zmq48_Buffers.thy ===== *)
theory Zmq48_Buffers
  imports Zmq
begin

text \<open>
  The value types of \<open>src/deps/zmq.4.8.1.latest.hpp\<close>, a later version of the C++ binding that no program includes yet:
  flags, optional results, and the buffers, which are a pointer and a size. A pointer is a natural number, 0 is
  \<open>NULL\<close>; sizes do not wrap, since the objects they describe fit into memory.
\<close>

unbundle bit_operations_syntax

section \<open>Optional results\<close>

record recv_buffer_size =
  rb_size :: nat
  rb_untruncated_size :: nat

definition truncated :: "recv_buffer_size \<Rightarrow> bool" where
  "truncated r \<longleftrightarrow> rb_size r \<noteq> rb_untruncated_size r"

text \<open>\<open>trivial_optional\<close>, which stands for \<open>std::optional\<close> before C++17; \<open>init\<close> is the value of \<open>T{}\<close>.\<close>

record 't trivial_optional =
  opt_value :: 't
  opt_has_value :: bool

definition new_optional :: "'t \<Rightarrow> 't trivial_optional" where
  "new_optional init = \<lparr>opt_value = init, opt_has_value = False\<rparr>"

definition new_optional_value :: "'t \<Rightarrow> 't trivial_optional" where
  "new_optional_value v = \<lparr>opt_value = v, opt_has_value = True\<rparr>"

definition optional_deref :: "'t trivial_optional \<Rightarrow> 't result" where
  "optional_deref p = (if opt_has_value p then Inr (opt_value p) else Inl Abort)"

definition optional_value :: "'t trivial_optional \<Rightarrow> 't result" where
  "optional_value p = (if \<not> opt_has_value p then Inl (RuntimeError ''std::exception'') else Inr (opt_value p))"

definition optional_has_value :: "'t trivial_optional \<Rightarrow> bool" where
  "optional_has_value p = opt_has_value p"

section \<open>Flags\<close>

text \<open>The enumerations have the underlying type \<open>int\<close>; the operators work on its 32 bits.\<close>

type_synonym flags = "32 word"

definition send_flags_none :: flags where
  "send_flags_none = 0"

definition send_flags_dontwait :: flags where
  "send_flags_dontwait = 1"

definition send_flags_sndmore :: flags where
  "send_flags_sndmore = 2"

definition recv_flags_none :: flags where
  "recv_flags_none = 0"

definition recv_flags_dontwait :: flags where
  "recv_flags_dontwait = 1"

definition enum_bit_or :: "flags \<Rightarrow> flags \<Rightarrow> flags" where
  "enum_bit_or a b = a OR b"

definition enum_bit_and :: "flags \<Rightarrow> flags \<Rightarrow> flags" where
  "enum_bit_and a b = a AND b"

definition enum_bit_xor :: "flags \<Rightarrow> flags \<Rightarrow> flags" where
  "enum_bit_xor a b = a XOR b"

definition enum_bit_not :: "flags \<Rightarrow> flags" where
  "enum_bit_not a = NOT a"

definition send_flags_or :: "flags \<Rightarrow> flags \<Rightarrow> flags" where
  "send_flags_or a b = enum_bit_or a b"

definition send_flags_and :: "flags \<Rightarrow> flags \<Rightarrow> flags" where
  "send_flags_and a b = enum_bit_and a b"

definition send_flags_xor :: "flags \<Rightarrow> flags \<Rightarrow> flags" where
  "send_flags_xor a b = enum_bit_xor a b"

definition send_flags_not :: "flags \<Rightarrow> flags" where
  "send_flags_not a = enum_bit_not a"

definition recv_flags_or :: "flags \<Rightarrow> flags \<Rightarrow> flags" where
  "recv_flags_or a b = enum_bit_or a b"

definition recv_flags_and :: "flags \<Rightarrow> flags \<Rightarrow> flags" where
  "recv_flags_and a b = enum_bit_and a b"

definition recv_flags_xor :: "flags \<Rightarrow> flags \<Rightarrow> flags" where
  "recv_flags_xor a b = enum_bit_xor a b"

definition recv_flags_not :: "flags \<Rightarrow> flags" where
  "recv_flags_not a = enum_bit_not a"

section \<open>Buffers\<close>

record mutable_buffer =
  mb_data :: nat
  mb_size :: nat

record const_buffer =
  cb_data :: nat
  cb_size :: nat

definition empty_mutable_buffer :: mutable_buffer where
  "empty_mutable_buffer = \<lparr>mb_data = 0, mb_size = 0\<rparr>"

definition new_mutable_buffer :: "nat \<Rightarrow> nat \<Rightarrow> mutable_buffer result" where
  "new_mutable_buffer p n = (if p \<noteq> 0 \<or> n = 0 then Inr \<lparr>mb_data = p, mb_size = n\<rparr> else Inl Abort)"

definition mutable_buffer_advance :: "mutable_buffer \<Rightarrow> nat \<Rightarrow> mutable_buffer" where
  "mutable_buffer_advance mb n =
     (let shift = min n (mb_size mb) in mb\<lparr>mb_data := mb_data mb + shift, mb_size := mb_size mb - shift\<rparr>)"

definition mutable_buffer_plus :: "mutable_buffer \<Rightarrow> nat \<Rightarrow> mutable_buffer result" where
  "mutable_buffer_plus mb n = new_mutable_buffer (mb_data mb + min n (mb_size mb)) (mb_size mb - min n (mb_size mb))"

definition empty_const_buffer :: const_buffer where
  "empty_const_buffer = \<lparr>cb_data = 0, cb_size = 0\<rparr>"

definition new_const_buffer :: "nat \<Rightarrow> nat \<Rightarrow> const_buffer result" where
  "new_const_buffer p n = (if p \<noteq> 0 \<or> n = 0 then Inr \<lparr>cb_data = p, cb_size = n\<rparr> else Inl Abort)"

definition const_of_mutable :: "mutable_buffer \<Rightarrow> const_buffer" where
  "const_of_mutable mb = \<lparr>cb_data = mb_data mb, cb_size = mb_size mb\<rparr>"

definition const_buffer_advance :: "const_buffer \<Rightarrow> nat \<Rightarrow> const_buffer" where
  "const_buffer_advance cb n =
     (let shift = min n (cb_size cb) in cb\<lparr>cb_data := cb_data cb + shift, cb_size := cb_size cb - shift\<rparr>)"

definition const_buffer_plus :: "const_buffer \<Rightarrow> nat \<Rightarrow> const_buffer result" where
  "const_buffer_plus cb n = new_const_buffer (cb_data cb + min n (cb_size cb)) (cb_size cb - min n (cb_size cb))"

definition buffer_of_mutable :: "mutable_buffer \<Rightarrow> nat \<Rightarrow> mutable_buffer result" where
  "buffer_of_mutable mb n = new_mutable_buffer (mb_data mb) (min (mb_size mb) n)"

definition buffer_of_const :: "const_buffer \<Rightarrow> nat \<Rightarrow> const_buffer result" where
  "buffer_of_const cb n = new_const_buffer (cb_data cb) (min (cb_size cb) n)"

text \<open>
  An array, vector or string: its address \<open>p\<close>, the number \<open>n\<close> of its elements, and \<open>sizeof(T)\<close>. The constant and
  the mutable sequences differ only in the type of the buffer.
\<close>

definition buffer_contiguous_sequence :: "nat \<Rightarrow> nat \<Rightarrow> nat \<Rightarrow> mutable_buffer result" where
  "buffer_contiguous_sequence p n sizeof_T = new_mutable_buffer (if n \<noteq> 0 then p else 0) (n * sizeof_T)"

definition buffer_contiguous_sequence_n :: "nat \<Rightarrow> nat \<Rightarrow> nat \<Rightarrow> nat \<Rightarrow> mutable_buffer result" where
  "buffer_contiguous_sequence_n p n sizeof_T n_bytes =
     new_mutable_buffer (if n \<noteq> 0 then p else 0) (min (n * sizeof_T) n_bytes)"

text \<open>
  The overloads of \<open>buffer\<close>, with an optional limit \<open>n_bytes\<close>: C arrays, \<open>std::array\<close>, \<open>std::vector\<close>, strings and string views.
\<close>

definition buffer_ptr :: "nat \<Rightarrow> nat \<Rightarrow> mutable_buffer result" where
  "buffer_ptr p n = new_mutable_buffer p n"

definition buffer_limited :: "nat \<Rightarrow> nat \<Rightarrow> nat \<Rightarrow> nat option \<Rightarrow> mutable_buffer result" where
  "buffer_limited p n sizeof_T limit =
     (case limit of
        None \<Rightarrow> buffer_contiguous_sequence p n sizeof_T
      | Some n_bytes \<Rightarrow> buffer_contiguous_sequence_n p n sizeof_T n_bytes)"

definition buffer_c_array :: "nat \<Rightarrow> nat \<Rightarrow> nat \<Rightarrow> nat option \<Rightarrow> mutable_buffer result" where
  "buffer_c_array data N sizeof_T limit = buffer_limited data N sizeof_T limit"

definition buffer_std_array :: "nat \<Rightarrow> nat \<Rightarrow> nat \<Rightarrow> nat option \<Rightarrow> mutable_buffer result" where
  "buffer_std_array data N sizeof_T limit = buffer_limited data N sizeof_T limit"

definition buffer_vector :: "nat \<Rightarrow> nat \<Rightarrow> nat \<Rightarrow> nat option \<Rightarrow> mutable_buffer result" where
  "buffer_vector data n sizeof_T limit = buffer_limited data n sizeof_T limit"

definition buffer_string :: "nat \<Rightarrow> nat \<Rightarrow> nat \<Rightarrow> nat option \<Rightarrow> mutable_buffer result" where
  "buffer_string data n sizeof_T limit = buffer_limited data n sizeof_T limit"

definition buffer_string_view :: "nat \<Rightarrow> nat \<Rightarrow> nat \<Rightarrow> nat option \<Rightarrow> const_buffer result" where
  "buffer_string_view data n sizeof_T limit = bindE (buffer_limited data n sizeof_T limit) (\<lambda>mb. Inr (const_of_mutable mb))"

text \<open>A string literal of \<open>N\<close> characters, the last of which has to be zero, and the literal operator.\<close>

definition str_buffer :: "nat \<Rightarrow> nat list \<Rightarrow> nat \<Rightarrow> const_buffer result" where
  "str_buffer p data sizeof_Char =
     (if data = [] then Inl Undefined
      else if last data \<noteq> 0 then Inl Abort else new_const_buffer p ((length data - 1) * sizeof_Char))"

definition zbuf :: "nat \<Rightarrow> nat \<Rightarrow> nat \<Rightarrow> const_buffer result" where
  "zbuf str len sizeof_Char = new_const_buffer str (len * sizeof_Char)"

section \<open>Lemmas\<close>

subsection \<open>Optional results\<close>

text \<open>\<open>trivial_optional\<close> implements \<open>option\<close>: the abstraction commutes with every operation.\<close>

definition optional_abs :: "'t trivial_optional \<Rightarrow> 't option" where
  "optional_abs p = (if opt_has_value p then Some (opt_value p) else None)"

lemma optional_refines:
  "optional_abs (new_optional init) = None" "optional_abs (new_optional_value v) = Some v"
  "optional_has_value p \<longleftrightarrow> optional_abs p \<noteq> None"
  "optional_value p = (case optional_abs p of None \<Rightarrow> Inl (RuntimeError ''std::exception'') | Some v \<Rightarrow> Inr v)"
  "optional_deref p = (case optional_abs p of None \<Rightarrow> Inl Abort | Some v \<Rightarrow> Inr v)"
  by (simp_all add: optional_abs_def new_optional_def new_optional_value_def optional_has_value_def optional_value_def optional_deref_def)

subsection \<open>Flags\<close>

text \<open>Testing a flag that was set finds it, and clearing it leaves the others.\<close>

lemma send_flags_set: "send_flags_and (send_flags_or a b) b = b"
  by (rule bit_eqI) (auto simp: send_flags_and_def send_flags_or_def enum_bit_and_def enum_bit_or_def bit_simps)

lemma send_flags_clear: "send_flags_and (send_flags_and a (send_flags_not b)) b = 0"
  by (rule bit_eqI) (auto simp: send_flags_and_def send_flags_not_def enum_bit_and_def enum_bit_not_def bit_simps)

lemma send_flags_distinct: "send_flags_and send_flags_dontwait send_flags_sndmore = send_flags_none"
  by (simp add: send_flags_and_def send_flags_dontwait_def send_flags_sndmore_def send_flags_none_def enum_bit_and_def)

subsection \<open>Buffers\<close>

text \<open>A buffer that is not empty does not start at \<open>NULL\<close>. Its bytes in memory are what it stands for.\<close>

definition mb_ok :: "mutable_buffer \<Rightarrow> bool" where
  "mb_ok mb \<longleftrightarrow> mb_data mb \<noteq> 0 \<or> mb_size mb = 0"

definition mb_bytes :: "(nat \<Rightarrow> byte) \<Rightarrow> mutable_buffer \<Rightarrow> byte list" where
  "mb_bytes memory mb = map memory [mb_data mb..<mb_data mb + mb_size mb]"

lemma new_mutable_buffer_ok: "new_mutable_buffer p n = Inr mb \<Longrightarrow> mb_ok mb \<and> mb_data mb = p \<and> mb_size mb = n"
  by (auto simp: new_mutable_buffer_def mb_ok_def split: if_splits)

lemma mutable_buffer_advance_bytes:
  "mb_bytes memory (mutable_buffer_advance mb n) = drop n (mb_bytes memory mb)"
proof -
  have "drop n [p..<p + k] = [p + min n k..<p + k]" for p k by (simp add: drop_upt min_def)
  then show ?thesis by (simp add: mb_bytes_def mutable_buffer_advance_def Let_def drop_map)
qed

text \<open>Both ways to move a buffer on agree; they never leave it, and never abort on a buffer of the program.\<close>

lemma mutable_buffer_plus_advance:
  assumes "mb_ok mb"
  shows "mutable_buffer_plus mb n = Inr (mutable_buffer_advance mb n) \<and> mb_ok (mutable_buffer_advance mb n)"
  using assms by (auto simp: mutable_buffer_plus_def new_mutable_buffer_def mutable_buffer_advance_def mb_ok_def Let_def)

lemma mutable_buffer_plus_plus:
  assumes "mb_ok mb"
  shows "bindE (mutable_buffer_plus mb m) (\<lambda>b. mutable_buffer_plus b n) = mutable_buffer_plus mb (m + n)"
proof -
  have "mutable_buffer_advance (mutable_buffer_advance mb m) n = mutable_buffer_advance mb (m + n)"
    by (cases mb) (auto simp: mutable_buffer_advance_def Let_def min_def)
  then show ?thesis using mutable_buffer_plus_advance [OF assms] mutable_buffer_plus_advance [of "mutable_buffer_advance mb m" n] assms
    by simp
qed

lemma const_buffer_like_mutable:
  "const_buffer_advance (const_of_mutable mb) n = const_of_mutable (mutable_buffer_advance mb n)"
  by (simp add: const_buffer_advance_def const_of_mutable_def mutable_buffer_advance_def Let_def)

text \<open>A limited buffer is a prefix.\<close>

lemma buffer_of_mutable_bytes:
  assumes "mb_ok mb"
  shows "\<exists>mb'. buffer_of_mutable mb n = Inr mb' \<and> mb_ok mb' \<and> mb_bytes memory mb' = take n (mb_bytes memory mb)"
proof -
  have "buffer_of_mutable mb n = Inr \<lparr>mb_data = mb_data mb, mb_size = min (mb_size mb) n\<rparr>"
    using assms by (auto simp: buffer_of_mutable_def new_mutable_buffer_def mb_ok_def)
  moreover have "take n [p..<p + k] = [p..<p + min k n]" for p k by (simp add: min_def)
  ultimately show ?thesis using assms by (auto simp: mb_bytes_def take_map mb_ok_def)
qed

text \<open>The buffer of a sequence covers exactly its elements, and never aborts: an empty one may lie anywhere.\<close>

lemma buffer_contiguous_sequence_ok:
  assumes "n \<noteq> 0 \<Longrightarrow> p \<noteq> 0"
  shows "\<exists>mb. buffer_contiguous_sequence p n sizeof_T = Inr mb \<and> mb_size mb = n * sizeof_T \<and> (n \<noteq> 0 \<longrightarrow> mb_data mb = p)"
    and "\<exists>mb. buffer_contiguous_sequence_n p n sizeof_T k = Inr mb \<and> mb_size mb = min (n * sizeof_T) k"
  using assms by (auto simp: buffer_contiguous_sequence_def buffer_contiguous_sequence_n_def new_mutable_buffer_def)

text \<open>The buffer of a string literal leaves out its final zero, the literal operator has no such character.\<close>

lemma str_buffer_zbuf:
  assumes "p \<noteq> 0"
  shows "str_buffer p (cs @ [0]) k = zbuf p (length cs) k"
  using assms by (simp add: str_buffer_def zbuf_def)

end
