(* ===== verification/Zhelpers.thy ===== *)
theory Zhelpers
  imports Zmq_Channels Util Monitor "HOL-Library.Signed_Division"
begin

text \<open>
  \<open>src/deps/zhelpers.hpp\<close>, the helper functions over \<open>zmq.hpp\<close>: strings as messages, the dump of a message of
  several parts, random identities, version checks, the clock, and the signal flag. What the system answers (random
  numbers, the clock, the calendar time) is an argument. Only the branches for systems other than Windows are compiled.
\<close>

section \<open>Constants of the C library\<close>

definition ZMQ_SNDMORE :: int where
  "ZMQ_SNDMORE = 2"

definition ZMQ_IDENTITY :: int where
  "ZMQ_IDENTITY = 5"

definition ZMQ_RCVMORE :: int where
  "ZMQ_RCVMORE = 13"

section \<open>Output streams\<close>

text \<open>\<open>std::hex\<close>, with or without \<open>std::uppercase\<close>; \<open>std::setw (w)\<close> with \<open>std::setfill ('0')\<close>.\<close>

definition hex_char :: "bool \<Rightarrow> int \<Rightarrow> char" where
  "hex_char upper d = (if d < 10 then char_of (48 + d) else if upper then char_of (55 + d) else char_of (87 + d))"

function show_hex :: "bool \<Rightarrow> int \<Rightarrow> string" where
  "show_hex upper n = (if n < 16 then [hex_char upper n] else show_hex upper (n div 16) @ [hex_char upper (n mod 16)])"
  by pat_completeness auto
termination
  by (relation "measure (\<lambda>(_, n). nat n)") auto

declare show_hex.simps [simp del]

definition pad0 :: "nat \<Rightarrow> string \<Rightarrow> string" where
  "pad0 w s = replicate (w - length s) CHR ''0'' @ s"

section \<open>Strings as messages\<close>

text \<open>\<open>recv\<close> is called without flags, and what it returns is not looked at.\<close>

definition s_recv :: "('m, 'z) libzmq \<Rightarrow> socket_t \<Rightarrow> 'z \<Rightarrow> (byte list \<times> 'z) result" where
  "s_recv api socket z =
     bindE (new_message api z) (\<lambda>(message, z).
     bindE (recv_msg api socket message 0 z) (\<lambda>(_, message, z).
       let str = take (message_size api message) (message_data api message)
       in bindE (delete_message api message z) (\<lambda>z. Inr (str, z))))"

definition s_send :: "('m, 'z) libzmq \<Rightarrow> socket_t \<Rightarrow> byte list \<Rightarrow> 'z \<Rightarrow> (bool \<times> 'z) result" where
  "s_send api socket str z =
     bindE (new_message_size api (length str) z) (\<lambda>(message, z).
       let message = zmq_msg_store api str message
       in bindE (send_msg api socket message 0 z) (\<lambda>(rc, message, z).
          bindE (delete_message api message z) (\<lambda>z. Inr (rc, z))))"

definition s_sendmore :: "('m, 'z) libzmq \<Rightarrow> socket_t \<Rightarrow> byte list \<Rightarrow> 'z \<Rightarrow> (bool \<times> 'z) result" where
  "s_sendmore api socket str z =
     bindE (new_message_size api (length str) z) (\<lambda>(message, z).
       let message = zmq_msg_store api str message
       in bindE (send_msg api socket message ZMQ_SNDMORE z) (\<lambda>(rc, message, z).
          bindE (delete_message api message z) (\<lambda>z. Inr (rc, z))))"

section \<open>Dump\<close>

text \<open>
  The base of \<open>std::cout\<close> is part of its state: \<open>hex\<close> stays set after the first part that is not text. A \<open>char\<close> is
  signed, so that \<open>(unsigned int) data[i]\<close> extends the sign.
\<close>

definition is_text :: "byte list \<Rightarrow> bool" where
  "is_text data \<longleftrightarrow> list_all (\<lambda>b. \<not> (uint b < 32 \<or> uint b > 127)) data"

definition unsigned_of_char :: "byte \<Rightarrow> int" where
  "unsigned_of_char b = sint b mod 4294967296"

definition dump_part :: "bool \<Rightarrow> byte list \<Rightarrow> string \<times> bool" where
  "dump_part hex data =
     (''['' @ pad0 3 ((if hex then show_hex False else show_int) (int (length data))) @ '']''
      @ (if is_text data then map (\<lambda>b. char_of (unat b)) data
         else concat (map (\<lambda>b. pad0 2 (show_hex False (unsigned_of_char b))) data))
      @ newline,
      hex \<or> \<not> is_text data)"

text \<open>\<open>None\<close>: there are more than \<open>fuel\<close> parts. The size is an \<open>int\<close>; a negative one is no length of a string.\<close>

fun s_dump_loop :: "nat \<Rightarrow> ('m, 'z) libzmq \<Rightarrow> socket_t \<Rightarrow> bool \<Rightarrow> string \<Rightarrow> 'z \<Rightarrow> (string \<times> bool \<times> 'z) option result" where
  "s_dump_loop 0 api socket hex out z = Inr None"
| "s_dump_loop (Suc fuel) api socket hex out z =
     bindE (new_message api z) (\<lambda>(message, z).
     bindE (recv_msg api socket message 0 z) (\<lambda>(_, message, z).
       let size = i32 (int (message_size api message))
       in if size < 0 then Inl LengthError
          else let (line, hex) = dump_part hex (take (nat size) (message_data api message))
               in bindE (getsockopt api socket ZMQ_RCVMORE 4 z) (\<lambda>(more, z).
                  bindE (delete_message api message z) (\<lambda>z.
                    if dec_int more = 0 then Inr (Some (out @ line, hex, z))
                    else s_dump_loop fuel api socket hex (out @ line) z))))"

definition s_dump :: "nat \<Rightarrow> ('m, 'z) libzmq \<Rightarrow> socket_t \<Rightarrow> bool \<Rightarrow> 'z \<Rightarrow> (string \<times> bool \<times> 'z) option result" where
  "s_dump fuel api socket hex z = s_dump_loop fuel api socket hex (replicate 40 CHR ''-'' @ newline) z"

section \<open>Identities\<close>

text \<open>
  \<open>within (num)\<close> for a positive \<open>num\<close> and the value \<open>r\<close> of \<open>random ()\<close>: \<open>r\<close> is converted to \<open>float\<close>, the product is
  rounded to a \<open>float\<close>, and the division by 2^31 is exact as a \<open>double\<close>.
\<close>

definition within :: "int \<Rightarrow> int \<Rightarrow> int" where
  "within num r =
     (let (n, i) = float_round num 0; (x, j) = float_round r 0; (m, e) = float_round (n * x) (i + j)
      in if 31 \<le> e then m * 2 ^ nat (e - 31) else m div 2 ^ nat (31 - e))"

definition identity :: "int \<Rightarrow> int \<Rightarrow> string" where
  "identity r1 r2 =
     pad0 4 (show_hex True (within 0x10000 r1)) @ ''-'' @ pad0 4 (show_hex True (within 0x10000 r2))"

definition s_set_id :: "('m, 'z) libzmq \<Rightarrow> socket_t \<Rightarrow> int \<Rightarrow> int \<Rightarrow> 'z \<Rightarrow> (string \<times> 'z) result" where
  "s_set_id api socket r1 r2 z =
     bindE (setsockopt api socket ZMQ_IDENTITY (map of_char (identity r1 r2)) z) (\<lambda>z. Inr (identity r1 r2, z))"

section \<open>Version, clock and console\<close>

definition s_version :: "('m, 'z) libzmq \<Rightarrow> string" where
  "s_version api =
     (case zmq_version api of (major, minor, patch) \<Rightarrow>
        ''Current 0MQ version is '' @ show_int major @ ''.'' @ show_int minor @ ''.'' @ show_int patch @ newline)"

text \<open>What is printed, and whether the process goes on.\<close>

definition s_version_assert :: "('m, 'z) libzmq \<Rightarrow> int \<Rightarrow> int \<Rightarrow> string \<times> unit result" where
  "s_version_assert api want_major want_minor =
     (case zmq_version api of (major, minor, patch) \<Rightarrow>
        if major < want_major \<or> major = want_major \<and> minor < want_minor
        then (''Current 0MQ version is '' @ show_int major @ ''.'' @ show_int minor @ newline
              @ ''Application needs at least '' @ show_int want_major @ ''.'' @ show_int want_minor
              @ '' - cannot continue'' @ newline,
              Inl (ExitProcess 1))
        else ([], Inr ()))"

definition s_clock :: "64 word \<Rightarrow> 64 word \<Rightarrow> 64 word" where
  "s_clock sec usec = sec * 1000 + word_of_int (sint usec sdiv 1000)"

text \<open>The seconds and nanoseconds that \<open>nanosleep\<close> gets; it refuses a negative number and nanoseconds of a second or more.\<close>

definition s_sleep :: "int \<Rightarrow> timespec" where
  "s_sleep msecs = \<lparr>tv_sec = msecs sdiv 1000, tv_nsec = i32 (msecs smod 1000 * 1000000)\<rparr>"

definition nanosleep_accepts :: "timespec \<Rightarrow> bool" where
  "nanosleep_accepts t \<longleftrightarrow> 0 \<le> tv_sec t \<and> 0 \<le> tv_nsec t \<and> tv_nsec t < 1000000000"

record tm =
  tm_sec :: int
  tm_min :: int
  tm_hour :: int
  tm_mday :: int
  tm_mon :: int
  tm_year :: int

text \<open>\<open>strftime\<close> with \<open>%y-%m-%d %H:%M:%S\<close> and a space into 20 bytes, then the message as \<open>vprintf\<close> formats it.\<close>

definition two_digits :: "int \<Rightarrow> string" where
  "two_digits n = pad0 2 (show_int n)"

definition stamp :: "tm \<Rightarrow> string" where
  "stamp t =
     two_digits (tm_year t mod 100) @ ''-'' @ two_digits (tm_mon t + 1) @ ''-'' @ two_digits (tm_mday t) @ '' ''
     @ two_digits (tm_hour t) @ '':'' @ two_digits (tm_min t) @ '':'' @ two_digits (tm_sec t) @ '' ''"

text \<open>A result that does not fit with its final zero leaves the buffer indeterminate.\<close>

definition s_console :: "tm \<Rightarrow> string \<Rightarrow> string result" where
  "s_console loctime text = (if 20 \<le> length (stamp loctime) then Inl Undefined else Inr (stamp loctime @ text @ newline))"

section \<open>Signals\<close>

datatype disposition = Default | Handler

record sig_env =
  s_interrupted :: int
  on_sigint :: disposition
  on_sigterm :: disposition

definition s_catch_signals :: "sig_env \<Rightarrow> sig_env" where
  "s_catch_signals e = e\<lparr>on_sigint := Handler, on_sigterm := Handler\<rparr>"

definition s_signal_handler :: "sig_env \<Rightarrow> sig_env" where
  "s_signal_handler e = e\<lparr>s_interrupted := 1\<rparr>"

text \<open>The arrival of a signal: \<open>None\<close> when the process is terminated.\<close>

definition deliver :: "disposition \<Rightarrow> sig_env \<Rightarrow> sig_env option" where
  "deliver d e = (case d of Default \<Rightarrow> None | Handler \<Rightarrow> Some (s_signal_handler e))"

section \<open>Lemmas\<close>

subsection \<open>Random numbers\<close>

lemma bit_length_le: "0 \<le> m \<Longrightarrow> m < 2 ^ k \<Longrightarrow> bit_length m \<le> int k"
proof -
  assume m: "0 \<le> m" "m < 2 ^ k"
  show "bit_length m \<le> int k"
  proof (cases "m = 0")
    case False
    then obtain n where n: "bit_length m = int n + 1" "2 ^ n \<le> m" using bit_length_bounds [of m] m(1) by auto
    then have "(2 :: int) ^ n < 2 ^ k" using m(2) by linarith
    then show ?thesis using n(1) by simp
  qed (simp add: bit_length.simps)
qed

lemma round_even_exact: "round_even (q * 2 ^ s) s = q"
  by (simp add: round_even_def)

text \<open>The rounded number, and that it stays the same when it is multiplied by a power of two.\<close>

definition float_value :: "int \<times> int \<Rightarrow> int" where
  "float_value f = fst f * 2 ^ nat (snd f)"

lemma float_round_expo: "0 \<le> e \<Longrightarrow> 0 \<le> snd (float_round m e)"
  by (simp add: float_round_def Let_def)

lemma float_round_exact:
  assumes "0 \<le> x" "x < 2 ^ 24" and "0 \<le> e"
  shows "float_value (float_round (x * 2 ^ k) e) = x * 2 ^ k * 2 ^ nat e"
proof -
  define s where "s = nat (bit_length (x * 2 ^ k) - 24)"
  have "x * 2 ^ k < 2 ^ 24 * 2 ^ k" using assms(2) by (intro mult_strict_right_mono) simp_all
  then have "bit_length (x * 2 ^ k) \<le> int (24 + k)" using assms(1) by (intro bit_length_le) (simp_all add: power_add)
  then have "s \<le> k" by (simp add: s_def)
  then have x: "x * 2 ^ k = (x * 2 ^ (k - s)) * 2 ^ s" by (simp flip: power_add)
  then have r: "round_even (x * 2 ^ k) s = x * 2 ^ (k - s)" by (simp only: round_even_exact)
  show ?thesis
  proof (cases "bit_length (x * 2 ^ k) \<le> 24")
    case False
    then have "float_round (x * 2 ^ k) e = (x * 2 ^ (k - s), e + int s)" using r by (simp add: float_round_def Let_def s_def)
    moreover have "nat (e + int s) = nat e + s" using assms(3) by simp
    ultimately show ?thesis unfolding x by (simp add: float_value_def power_add)
  qed (simp add: float_round_def float_value_def Let_def)
qed

lemma float_round_mantissa:
  assumes "0 \<le> r"
  shows "0 \<le> fst (float_round r e)" and "fst (float_round r e) \<le> 2 ^ 24"
proof -
  have "0 \<le> fst (float_round r e) \<and> fst (float_round r e) \<le> 2 ^ 24"
  proof (cases "bit_length r \<le> 24")
    case True
    have "r < 2 ^ 24"
    proof (cases "r = 0")
      case False
      then obtain n where "bit_length r = int n + 1" "r < 2 ^ Suc n" using bit_length_bounds [of r] assms by auto
      moreover have "(2 :: int) ^ Suc n \<le> 2 ^ 24" using True calculation(1) by (intro power_increasing) simp_all
      ultimately show ?thesis by linarith
    qed simp
    then show ?thesis using True assms by (simp add: float_round_def Let_def)
  next
    case False
    let ?s = "nat (bit_length r - 24)"
    have "r \<noteq> 0" using False by (auto simp: bit_length.simps)
    then obtain n where n: "bit_length r = int n + 1" "r < 2 ^ Suc n" using bit_length_bounds [of r] assms by auto
    then have "Suc n = 24 + ?s" using False by simp
    then have "r \<le> 2 ^ 24 * 2 ^ ?s" using n(2) by (metis less_imp_le power_add)
    then have "round_even r ?s \<le> 2 ^ 24" by (rule round_even_le)
    moreover have "0 \<le> round_even r ?s" using round_even_ge [of 0 ?s r] assms by simp
    ultimately show ?thesis using False by (simp add: float_round_def Let_def)
  qed
  then show "0 \<le> fst (float_round r e)" "fst (float_round r e) \<le> 2 ^ 24" by simp_all
qed

lemma scaled_div: "0 \<le> e \<Longrightarrow> (if 31 \<le> e then m * 2 ^ nat (e - 31) else m div 2 ^ nat (31 - e)) = m * 2 ^ nat e div 2 ^ 31" for m :: int
proof (cases "31 \<le> e")
  case True
  then have "nat e = nat (e - 31) + 31" by simp
  then have "m * 2 ^ nat e = (m * 2 ^ nat (e - 31)) * 2 ^ 31" by (simp only: power_add mult.assoc)
  then have "m * 2 ^ nat e div 2 ^ 31 = m * 2 ^ nat (e - 31)" by (simp only:) simp
  then show ?thesis using True by simp
next
  assume e: "0 \<le> e"
  case False
  then have "31 = nat (31 - e) + nat e" using e by simp
  then have "(2 :: int) ^ 31 = 2 ^ nat (31 - e) * 2 ^ nat e" by (metis power_add)
  then show ?thesis using False by (simp del: power_numeral)
qed

lemma within_eq:
  assumes "0 \<le> r"
  shows "within 65536 r = float_value (float_round r 0) div 2 ^ 15"
proof -
  obtain x j where xj: "float_round r 0 = (x, j)" by fastforce
  have x: "0 \<le> x" "x \<le> 2 ^ 24" and j: "0 \<le> j"
    using float_round_mantissa [OF assms, of 0] float_round_expo [of 0 r] xj by simp_all
  obtain m e where me: "float_round (65536 * x) j = (m, e)" by fastforce
  have "m * 2 ^ nat e = x * 65536 * 2 ^ nat j"
  proof (cases "x = 2 ^ 24")
    case True
    then show ?thesis using float_round_exact [of 1 j 40] j me by (simp add: float_value_def)
  next
    case False
    then show ?thesis using float_round_exact [of x j 16] j x me by (simp add: float_value_def mult.commute)
  qed
  moreover have "0 \<le> e" using float_round_expo [OF j, of "65536 * x"] me by simp
  moreover have "float_round 65536 0 = (65536, 0)" by code_simp
  ultimately have "within 65536 r = x * 65536 * 2 ^ nat j div 2 ^ 31"
    using scaled_div [of e m] by (simp add: within_def xj me)
  also have "\<dots> = (x * 2 ^ nat j) * 65536 div (2 ^ 15 * 65536)" by (simp add: ac_simps)
  also have "\<dots> = x * 2 ^ nat j div 2 ^ 15" by (rule div_mult_mult2) simp
  finally show ?thesis by (simp add: float_value_def xj)
qed

lemma round_to_24:
  assumes "0 \<le> r" "r < 2 ^ 31"
  shows "round_even r 7 = 2 ^ 24 \<longleftrightarrow> 2 ^ 31 - 64 \<le> r"
proof -
  define q where "q = r div 128"
  define k where "k = r mod 128"
  have r: "r = 128 * q + k" "0 \<le> k" "k < 128" by (simp_all add: q_def k_def)
  have e: "round_even r 7 = (if k < 64 then q else if 64 < k then q + 1 else if even q then q else q + 1)"
    by (simp add: round_even_def Let_def flip: q_def k_def)
  have q: "q \<le> 16777215" using r assms(2) by simp
  show ?thesis
  proof (cases "q = 16777215")
    case True
    then show ?thesis using e r by auto
  next
    case False
    then show ?thesis using e r q by auto
  qed
qed

text \<open>
  \<open>within (0x10000)\<close> is meant to be below 65536. It is 65536 for the 64 largest of the 2^31 values of \<open>random ()\<close>,
  since their conversion to \<open>float\<close> rounds up to 2^31.
\<close>

lemma within_range:
  assumes "0 \<le> r" "r < 2 ^ 31"
  shows "0 \<le> within 65536 r \<and> within 65536 r \<le> 65536 \<and> (within 65536 r = 65536 \<longleftrightarrow> 2 ^ 31 - 64 \<le> r)"
proof -
  let ?x = "fst (float_round r 0)" and ?j = "nat (snd (float_round r 0))"
  have x: "0 \<le> ?x" "?x \<le> 2 ^ 24" using float_round_mantissa [OF assms(1), of 0] by simp_all
  have w: "within 65536 r = ?x * 2 ^ ?j div 2 ^ 15" using within_eq [OF assms(1)] by (simp add: float_value_def)
  show ?thesis
  proof (cases "2 ^ 30 \<le> r")
    case True
    then obtain n where n: "bit_length r = int n + 1" "2 ^ n \<le> r" "r < 2 ^ Suc n" using bit_length_bounds [of r] by auto
    then have "(2 :: int) ^ n < 2 ^ 31" "(2 :: int) ^ 30 < 2 ^ Suc n" using True assms(2) by linarith+
    then have "n < 31" "30 < Suc n" by (simp_all only: power_strict_increasing_iff)
    then have "bit_length r = 31" using n(1) by simp
    then have "float_round r 0 = (round_even r 7, 7)" by (simp add: float_round_def)
    then show ?thesis using w x round_to_24 [OF assms] by auto
  next
    case False
    then have "bit_length r \<le> 30" using bit_length_le [of r 30] assms(1) by simp
    then have "?j \<le> 6" by (simp add: float_round_def Let_def nat_le_iff)
    then have "(2 :: int) ^ ?j \<le> 2 ^ 6" by (intro power_increasing) simp_all
    then have "?x * 2 ^ ?j \<le> 2 ^ 24 * 2 ^ 6" using x by (intro mult_mono) simp_all
    then have "within 65536 r \<le> 2 ^ 30 div 2 ^ 15" unfolding w by (intro zdiv_mono1) simp_all
    moreover have "0 \<le> within 65536 r" unfolding w using x(1) by (intro pos_imp_zdiv_nonneg_iff [THEN iffD2]) simp_all
    ultimately show ?thesis using False by simp
  qed
qed

lemma show_hex_length: "n < 16 ^ Suc k \<Longrightarrow> 1 \<le> length (show_hex upper n) \<and> length (show_hex upper n) \<le> Suc k"
proof (induction k arbitrary: n)
  case 0
  then show ?case by (simp add: show_hex.simps)
next
  case (Suc k)
  show ?case
  proof (cases "n < 16")
    case False
    have "n div 16 < 16 ^ Suc k" using Suc.prems by (simp add: div_less_iff_less_mult mult.commute)
    then show ?thesis using Suc.IH [of "n div 16"] False by (simp add: show_hex.simps [of upper n])
  qed (simp add: show_hex.simps)
qed

lemma pad0_length: "length s \<le> w \<Longrightarrow> length (pad0 w s) = w"
  by (simp add: pad0_def)

lemma identity_length:
  assumes "0 \<le> r1" "r1 < 2 ^ 31 - 64" "0 \<le> r2" "r2 < 2 ^ 31 - 64"
  shows "length (identity r1 r2) = 9"
proof -
  have "length (pad0 4 (show_hex True (within 65536 r))) = 4" if "0 \<le> r" "r < 2 ^ 31 - 64" for r
  proof -
    have "0 \<le> within 65536 r" "within 65536 r < 65536" using within_range [of r] that by auto
    then have "within 65536 r < 16 ^ Suc 3" by simp
    then have "length (show_hex True (within 65536 r)) \<le> Suc 3" using show_hex_length by blast
    then show ?thesis by (simp add: pad0_length)
  qed
  then show ?thesis using assms by (simp add: identity_def)
qed

text \<open>The largest value of \<open>random ()\<close> gives five digits.\<close>

lemma identity_too_long: "identity 2147483647 0 = ''10000-0000''"
  by code_simp

subsection \<open>Messages\<close>

text \<open>
  What the C library documents of a socket that messages are sent to: \<open>sent\<close> are the parts, each with the mark that
  more follow. A message that was created with a size holds the bytes that are stored in it.
\<close>

definition part_sender :: "('m, 'z) libzmq \<Rightarrow> nat \<Rightarrow> ('z \<Rightarrow> (byte list \<times> bool) list) \<Rightarrow> bool" where
  "part_sender api p sent \<longleftrightarrow>
     (\<forall>n z. \<exists>m z'. zmq_msg_init_size api n z = (0, m, z') \<and> sent z' = sent z)
     \<and> (\<forall>bs m. zmq_msg_data api (zmq_msg_store api bs m) = bs)
     \<and> (\<forall>m z. \<exists>m' z'. zmq_msg_close api m z = (0, m', z') \<and> sent z' = sent z)
     \<and> (\<forall>m fl z. \<exists>n m' z'. zmq_msg_send api m p fl z = (int n, m', z')
          \<and> sent z' = sent z @ [(zmq_msg_data api m, fl = ZMQ_SNDMORE)])"

text \<open>And of one that they are received from: \<open>parts\<close> wait, \<open>follows\<close> is the mark of the last one received.\<close>

definition part_receiver :: "('m, 'z) libzmq \<Rightarrow> nat \<Rightarrow> ('z \<Rightarrow> (byte list \<times> bool) list) \<Rightarrow> ('z \<Rightarrow> bool) \<Rightarrow> bool" where
  "part_receiver api p parts follows \<longleftrightarrow>
     (\<forall>z. \<exists>m z'. zmq_msg_init api z = (0, m, z') \<and> parts z' = parts z)
     \<and> (\<forall>m z. \<exists>m' z'. zmq_msg_close api m z = (0, m', z') \<and> parts z' = parts z)
     \<and> (\<forall>m z b k ps. parts z = (b, k) # ps \<longrightarrow> (\<exists>m' z'. zmq_msg_recv api m p 0 z = (int (length b), m', z')
          \<and> zmq_msg_data api m' = b \<and> zmq_msg_size api m' = length b \<and> parts z' = ps \<and> follows z' = k))
     \<and> (\<forall>z. \<exists>z'. zmq_getsockopt api p ZMQ_RCVMORE 4 z = (0, le_bytes 4 (if follows z then 1 else 0), z') \<and> parts z' = parts z)"

lemma s_send_part:
  assumes "part_sender api (sock_ptr s) sent"
  shows "\<exists>z'. s_send api s str z = Inr (True, z') \<and> sent z' = sent z @ [(str, False)]"
    and "\<exists>z'. s_sendmore api s str z = Inr (True, z') \<and> sent z' = sent z @ [(str, True)]"
proof -
  obtain m z1 where m: "zmq_msg_init_size api (length str) z = (0, m, z1)" "sent z1 = sent z"
    using assms unfolding part_sender_def by blast
  let ?m = "zmq_msg_store api str m"
  have d: "zmq_msg_data api ?m = str" using assms by (simp add: part_sender_def)
  have "\<exists>n m' z2 m'' z3. zmq_msg_send api ?m (sock_ptr s) fl z1 = (int n, m', z2) \<and> zmq_msg_close api m' z2 = (0, m'', z3)
      \<and> sent z3 = sent z @ [(str, fl = ZMQ_SNDMORE)]" for fl
    using assms m(2) d unfolding part_sender_def by metis
  note step = this [of 0] this [of ZMQ_SNDMORE]
  show "\<exists>z'. s_send api s str z = Inr (True, z') \<and> sent z' = sent z @ [(str, False)]"
    using step(1) m(1) by (auto simp: s_send_def new_message_size_def send_msg_def delete_message_def ZMQ_SNDMORE_def)
  show "\<exists>z'. s_sendmore api s str z = Inr (True, z') \<and> sent z' = sent z @ [(str, True)]"
    using step(2) m(1) by (auto simp: s_sendmore_def new_message_size_def send_msg_def delete_message_def)
qed

lemma part_receiverD:
  assumes "part_receiver api p parts follows"
  shows "\<exists>m z'. zmq_msg_init api z = (0, m, z') \<and> parts z' = parts z"
    and "\<exists>m' z'. zmq_msg_close api m z = (0, m', z') \<and> parts z' = parts z"
    and "parts z = (b, k) # ps \<Longrightarrow> \<exists>m' z'. zmq_msg_recv api m p 0 z = (int (length b), m', z')
          \<and> zmq_msg_data api m' = b \<and> zmq_msg_size api m' = length b \<and> parts z' = ps \<and> follows z' = k"
    and "\<exists>z'. zmq_getsockopt api p ZMQ_RCVMORE 4 z = (0, le_bytes 4 (if follows z then 1 else 0), z') \<and> parts z' = parts z"
  using assms unfolding part_receiver_def by blast+

lemma s_recv_part:
  assumes "part_receiver api (sock_ptr s) parts follows" and "parts z = (b, k) # ps"
  shows "\<exists>z'. s_recv api s z = Inr (b, z') \<and> parts z' = ps"
proof -
  note D = part_receiverD [OF assms(1)]
  obtain m z1 where m: "zmq_msg_init api z = (0, m, z1)" "parts z1 = (b, k) # ps" using D(1) [of z] assms(2) by auto
  from D(3) [OF m(2), of m] obtain m' z2 where r: "zmq_msg_recv api m (sock_ptr s) 0 z1 = (int (length b), m', z2)"
    "zmq_msg_data api m' = b" "zmq_msg_size api m' = length b" "parts z2 = ps" by auto
  obtain m'' z3 where "zmq_msg_close api m' z2 = (0, m'', z3)" "parts z3 = ps" using D(2) [of m' z2] r(4) by auto
  then show ?thesis using m(1) r
    by (simp add: s_recv_def new_message_def recv_msg_def delete_message_def message_size_def message_data_def)
qed

text \<open>A receive that times out is not told from an empty message.\<close>

lemma s_recv_timeout:
  assumes "zmq_msg_init api z = (0, m, z1)" and "zmq_msg_recv api m (sock_ptr s) 0 z1 = (-1, m1, z2)"
    and "zmq_errno api z2 = EAGAIN" and "zmq_msg_size api m1 = 0" and "zmq_msg_close api m1 z2 = (0, m2, z3)"
  shows "s_recv api s z = Inr ([], z3)"
  using assms by (simp add: s_recv_def new_message_def recv_msg_def delete_message_def message_size_def)

text \<open>What the dump of a list of parts prints, and the state of the stream after it.\<close>

fun dump_parts :: "bool \<Rightarrow> byte list list \<Rightarrow> string \<times> bool" where
  "dump_parts hex [] = ([], hex)"
| "dump_parts hex (b # bs) = (let (line, hex) = dump_part hex b; (rest, hex) = dump_parts hex bs in (line @ rest, hex))"

text \<open>With enough fuel the loop returns; it prints the parts of the first message and leaves the next message waiting.\<close>

lemma s_dump_loop_step:
  assumes "part_receiver api (sock_ptr s) parts follows" and "parts z = (x, k) # xs" and "length x < 2 ^ 31"
  shows "\<exists>z'. s_dump_loop (Suc n) api s hex out z =
        (if k then s_dump_loop n api s (snd (dump_part hex x)) (out @ fst (dump_part hex x)) z'
         else Inr (Some (out @ fst (dump_part hex x), snd (dump_part hex x), z'))) \<and> parts z' = xs"
proof -
  note D = part_receiverD [OF assms(1)]
  obtain m z1 where m: "zmq_msg_init api z = (0, m, z1)" "parts z1 = (x, k) # xs" using D(1) [of z] assms(2) by auto
  from D(3) [OF m(2), of m] obtain m' z2 where r: "zmq_msg_recv api m (sock_ptr s) 0 z1 = (int (length x), m', z2)"
    "zmq_msg_data api m' = x" "zmq_msg_size api m' = length x" "parts z2 = xs" "follows z2 = k" by auto
  from D(4) [of z2] obtain z3 where g: "parts z3 = xs"
    "zmq_getsockopt api (sock_ptr s) ZMQ_RCVMORE 4 z2 = (0, le_bytes 4 (if k then 1 else 0), z3)" using r(4,5) by auto
  from D(2) [of m' z3] obtain m'' z4 where c: "zmq_msg_close api m' z3 = (0, m'', z4)" "parts z4 = xs" using g(1) by auto
  have "i32 (int (length x)) = int (length x)" using assms(3) by (simp add: in_i32_def)
  moreover have "dec_int (le_bytes 4 (if k then 1 else 0)) = (if k then 1 else 0)" by (simp add: dec_int_def of_le_bytes in_i32_def)
  moreover obtain l h where "dump_part hex x = (l, h)" by fastforce
  ultimately show ?thesis using m(1) r(1-3) g(2) c
    by (intro exI [of _ z4]) (simp add: new_message_def recv_msg_def getsockopt_def delete_message_def message_size_def message_data_def)
qed

lemma s_dump_loop_parts:
  assumes "part_receiver api (sock_ptr s) parts follows"
    and "parts z = map (\<lambda>b. (b, True)) bs @ (b, False) # ps" and "length bs < fuel"
    and "\<forall>x \<in> set (bs @ [b]). length x < 2 ^ 31"
  shows "\<exists>z'. s_dump_loop fuel api s hex out z
           = Inr (Some (out @ fst (dump_parts hex (bs @ [b])), snd (dump_parts hex (bs @ [b])), z')) \<and> parts z' = ps"
  using assms(2-4)
proof (induction bs arbitrary: fuel hex out z)
  case Nil
  then obtain n where n: "fuel = Suc n" by (cases fuel) auto
  have "parts z = (b, False) # ps" "length b < 2 ^ 31" using Nil by simp_all
  from s_dump_loop_step [OF assms(1) this, of n hex out] show ?case by (simp add: n split: prod.splits)
next
  case (Cons x bs)
  then obtain n where n: "fuel = Suc n" by (cases fuel) auto
  have "parts z = (x, True) # map (\<lambda>b. (b, True)) bs @ (b, False) # ps" "length x < 2 ^ 31" using Cons.prems by simp_all
  from s_dump_loop_step [OF assms(1) this, of n hex out] obtain z' where z': "s_dump_loop fuel api s hex out z
      = s_dump_loop n api s (snd (dump_part hex x)) (out @ fst (dump_part hex x)) z'"
    "parts z' = map (\<lambda>b. (b, True)) bs @ (b, False) # ps" by (auto simp: n)
  have "\<forall>x \<in> set (bs @ [b]). length x < 2 ^ 31" "length bs < n" using Cons.prems n by simp_all
  from Cons.IH [OF z'(2) this(2,1), of "snd (dump_part hex x)" "out @ fst (dump_part hex x)"]
  show ?case unfolding z'(1) by (simp add: case_prod_beta Let_def)
qed

text \<open>
  After a part that is not text, the sizes are printed as hexadecimal numbers, and a byte from 128 on with eight
  digits instead of two.
\<close>

lemma dump_sticky_hex: "fst (dump_parts False [[200], replicate 16 65]) = ''[001]ffffffc8'' @ newline @ ''[010]AAAAAAAAAAAAAAAA'' @ newline"
  by code_simp

subsection \<open>Version, clock and console\<close>

text \<open>The process goes on when the version of the library is at least the wanted one.\<close>

lemma s_version_assert_iff:
  "snd (s_version_assert api want_major want_minor) =
     (case zmq_version api of (major, minor, _) \<Rightarrow>
        if (want_major, want_minor) \<le> (major, minor) then Inr () else Inl (ExitProcess 1))"
  by (auto simp: s_version_assert_def less_eq_prod_def split: prod.splits)

text \<open>A pause is exact, and its nanoseconds do not overflow; a negative one is refused, so that there is none.\<close>

lemma s_sleep_exact:
  assumes "0 \<le> msecs"
  shows "nanosleep_accepts (s_sleep msecs) \<and> tv_sec (s_sleep msecs) * 1000000000 + tv_nsec (s_sleep msecs) = msecs * 1000000"
proof -
  have m: "msecs smod 1000 = msecs mod 1000" "msecs sdiv 1000 = msecs div 1000"
    using assms by (simp_all add: signed_divide_int_def signed_modulo_int_def sgn_if)
  have r: "0 \<le> msecs mod 1000" "msecs mod 1000 < 1000" by simp_all
  then have "in_i32 (msecs mod 1000 * 1000000)" unfolding in_i32_def by linarith
  moreover have "msecs div 1000 * 1000000000 + msecs mod 1000 * 1000000 = msecs * 1000000"
    using div_mult_mod_eq [of msecs 1000] by linarith
  moreover have "0 \<le> msecs div 1000" using assms by (simp add: pos_imp_zdiv_nonneg_iff)
  ultimately show ?thesis using r by (simp add: s_sleep_def nanosleep_accepts_def m)
qed

lemma s_sleep_negative: "msecs < 0 \<Longrightarrow> \<not> nanosleep_accepts (s_sleep msecs)"
proof
  assume m: "msecs < 0" and a: "nanosleep_accepts (s_sleep msecs)"
  let ?q = "- msecs div 1000" and ?r = "- msecs mod 1000"
  have q: "msecs sdiv 1000 = - ?q" using m by (simp add: signed_divide_int_def sgn_if)
  have r: "msecs smod 1000 = - ?r" using m by (simp add: signed_modulo_int_def sgn_if)
  have e: "?q * 1000 + ?r = - msecs" by (rule div_mult_mod_eq)
  have b: "0 \<le> ?r" "?r < 1000" by simp_all
  then have "i32 (- ?r * 1000000) = - ?r * 1000000" by (intro i32_id) (unfold in_i32_def, linarith)
  then have "?q \<le> 0" "?r \<le> 0" using a q r by (simp_all add: s_sleep_def nanosleep_accepts_def)
  then show False using e b m by linarith
qed

text \<open>For every calendar time the stamp fits into its buffer.\<close>

lemma two_digits_length: "0 \<le> n \<Longrightarrow> n < 100 \<Longrightarrow> length (two_digits n) = 2"
proof -
  assume n: "0 \<le> n" "n < 100"
  then have "length (show_int n) \<le> 2" by (simp add: show_int_def show_nat.simps)
  then show ?thesis by (simp add: two_digits_def pad0_length)
qed

lemma s_console_fits:
  assumes "0 \<le> tm_sec t" "tm_sec t \<le> 60" "0 \<le> tm_min t" "tm_min t \<le> 59" "0 \<le> tm_hour t" "tm_hour t \<le> 23"
    and "1 \<le> tm_mday t" "tm_mday t \<le> 31" "0 \<le> tm_mon t" "tm_mon t \<le> 11"
  shows "s_console t text = Inr (stamp t @ text @ newline) \<and> length (stamp t) = 18"
proof -
  have "length (stamp t) = 18" using assms by (simp add: stamp_def two_digits_length)
  then show ?thesis by (simp add: s_console_def)
qed

subsection \<open>Signals\<close>

text \<open>Once the handlers are installed neither signal ends the process, and the flag stays set.\<close>

lemma caught_signals:
  assumes "d \<in> {on_sigint (s_catch_signals e), on_sigterm (s_catch_signals e)}"
  shows "\<exists>e'. deliver d (s_catch_signals e) = Some e' \<and> s_interrupted e' = 1
     \<and> on_sigint e' = Handler \<and> on_sigterm e' = Handler"
  using assms by (auto simp: s_catch_signals_def deliver_def s_signal_handler_def)

end
