(* ===== verification/Zmq48.thy ===== *)
theory Zmq48
  imports Zmq48_Buffers Zhelpers
begin

text \<open>
  Errors, polling, \<open>message_t\<close> and \<open>context_t\<close> of \<open>src/deps/zmq.4.8.1.latest.hpp\<close>. The functions of the C library that
  \<open>zmq.hpp\<close> does not call are the record \<open>libzmq48\<close>. What a program sees when it replaces \<open>zmq.hpp\<close> by this header is
  shown in \<open>Zmq48_Sockets\<close>.
\<close>

section \<open>The C library\<close>

record ('m, 'z) libzmq48 =
  zmq_ctx_get :: "nat \<Rightarrow> int \<Rightarrow> 'z \<Rightarrow> int \<times> 'z"
  zmq_ctx_term :: "nat \<Rightarrow> 'z \<Rightarrow> int \<times> 'z"
  zmq_ctx_shutdown :: "nat \<Rightarrow> 'z \<Rightarrow> int \<times> 'z"
  zmq_msg_get :: "'m \<Rightarrow> int \<Rightarrow> int"
  zmq_msg_gets :: "'m \<Rightarrow> string \<Rightarrow> string option"

definition EINTR :: int where
  "EINTR = 4"

section \<open>Errors and functions\<close>

definition new_error48 :: "('m, 'z) libzmq \<Rightarrow> 'z \<Rightarrow> error_t" where
  "new_error48 api z = \<lparr>errnum = zmq_errno api z\<rparr>"

definition new_error48_num :: "int \<Rightarrow> error_t" where
  "new_error48_num err = \<lparr>errnum = err\<rparr>"

definition error48_what :: "('m, 'z) libzmq \<Rightarrow> error_t \<Rightarrow> string" where
  "error48_what api e = zmq_strerror api (errnum e)"

definition error48_num :: "error_t \<Rightarrow> int" where
  "error48_num e = errnum e"

text \<open>All overloads of \<open>poll\<close> come down to this function.\<close>

definition poll48 :: "('m, 'z) libzmq \<Rightarrow> nat list \<Rightarrow> int \<Rightarrow> 'z \<Rightarrow> (int \<times> 'z) result" where
  "poll48 api items timeout z =
     (case zmq_poll api items timeout z of (rc, z) \<Rightarrow> if rc < 0 then throw_error api z else Inr (rc, z))"

definition version48 :: "('m, 'z) libzmq \<Rightarrow> int \<times> int \<times> int" where
  "version48 api = zmq_version api"

section \<open>Messages\<close>

text \<open>The default constructor does not throw: a failure of the C library is asserted not to happen.\<close>

definition new_message48 :: "('m, 'z) libzmq \<Rightarrow> 'z \<Rightarrow> ('m \<times> 'z) result" where
  "new_message48 api z = (case zmq_msg_init api z of (rc, m, z) \<Rightarrow> assertE (rc = 0) (m, z))"

definition new_message48_size :: "('m, 'z) libzmq \<Rightarrow> nat \<Rightarrow> 'z \<Rightarrow> ('m \<times> 'z) result" where
  "new_message48_size api n z =
     (case zmq_msg_init_size api n z of (rc, m, z) \<Rightarrow> if rc \<noteq> 0 then throw_error api z else Inr (m, z))"

text \<open>
  The elements between two iterators, \<open>enc\<close> their \<open>sz\<close> bytes in memory; the range has to run forward. Ranges and character
  arrays go through this constructor, an array with its final zero; strings and pointers with a size through the next.
\<close>

definition new_message48_range :: "('m, 'z) libzmq \<Rightarrow> nat \<Rightarrow> ('x \<Rightarrow> byte list) \<Rightarrow> 'x list \<Rightarrow> 'z \<Rightarrow> ('m \<times> 'z) result" where
  "new_message48_range api sz enc xs z =
     (case zmq_msg_init_size api (length xs * sz) z of
        (rc, m, z) \<Rightarrow> if rc \<noteq> 0 then throw_error api z else Inr (zmq_msg_store api (concat (map enc xs)) m, z))"

definition new_message48_bytes :: "('m, 'z) libzmq \<Rightarrow> byte list \<Rightarrow> 'z \<Rightarrow> ('m \<times> 'z) result" where
  "new_message48_bytes api bs z =
     (case zmq_msg_init_size api (length bs) z of
        (rc, m, z) \<Rightarrow>
          if rc \<noteq> 0 then throw_error api z else Inr (if length bs \<noteq> 0 then zmq_msg_store api bs m else m, z))"

definition new_message48_data :: "('m, 'z) libzmq \<Rightarrow> byte list \<Rightarrow> 'z \<Rightarrow> ('m \<times> 'z) result" where
  "new_message48_data api bs z =
     (case zmq_msg_init_data api bs z of (rc, m, z) \<Rightarrow> if rc \<noteq> 0 then throw_error api z else Inr (m, z))"

definition new_message48_array :: "('m, 'z) libzmq \<Rightarrow> byte list \<Rightarrow> 'z \<Rightarrow> ('m \<times> 'z) result" where
  "new_message48_array api literal z = new_message48_range api 1 (\<lambda>b. [b]) literal z"

definition new_message48_string :: "('m, 'z) libzmq \<Rightarrow> byte list \<Rightarrow> 'z \<Rightarrow> ('m \<times> 'z) result" where
  "new_message48_string api str z = new_message48_bytes api str z"

definition move_message48 :: "('m, 'z) libzmq \<Rightarrow> 'm \<Rightarrow> 'z \<Rightarrow> ('m \<times> 'm \<times> 'z) result" where
  "move_message48 api rhs z = (case zmq_msg_init api z of (rc, rhs', z) \<Rightarrow> assertE (rc = 0) (rhs, rhs', z))"

definition assign_message48 :: "'m \<Rightarrow> 'm \<Rightarrow> 'm \<times> 'm" where
  "assign_message48 m rhs = (rhs, m)"

definition delete_message48 :: "('m, 'z) libzmq \<Rightarrow> 'm \<Rightarrow> 'z \<Rightarrow> 'z result" where
  "delete_message48 api m z = (case zmq_msg_close api m z of (rc, m, z) \<Rightarrow> assertE (rc = 0) z)"

definition rebuild48 :: "('m, 'z) libzmq \<Rightarrow> 'm \<Rightarrow> 'z \<Rightarrow> ('m \<times> 'z) result" where
  "rebuild48 api m z =
     (case zmq_msg_close api m z of
        (rc, m, z) \<Rightarrow>
          if rc \<noteq> 0 then throw_error api z
          else (case zmq_msg_init api z of (rc, m, z) \<Rightarrow> assertE (rc = 0) (m, z)))"

definition rebuild48_size :: "('m, 'z) libzmq \<Rightarrow> 'm \<Rightarrow> nat \<Rightarrow> 'z \<Rightarrow> ('m \<times> 'z) result" where
  "rebuild48_size api m n z =
     (case zmq_msg_close api m z of
        (rc, m, z) \<Rightarrow>
          if rc \<noteq> 0 then throw_error api z
          else (case zmq_msg_init_size api n z of (rc, m, z) \<Rightarrow> if rc \<noteq> 0 then throw_error api z else Inr (m, z)))"

definition rebuild48_bytes :: "('m, 'z) libzmq \<Rightarrow> 'm \<Rightarrow> byte list \<Rightarrow> 'z \<Rightarrow> ('m \<times> 'z) result" where
  "rebuild48_bytes api m bs z =
     (case zmq_msg_close api m z of
        (rc, m, z) \<Rightarrow>
          if rc \<noteq> 0 then throw_error api z
          else (case zmq_msg_init_size api (length bs) z of
                  (rc, m, z) \<Rightarrow> if rc \<noteq> 0 then throw_error api z else Inr (zmq_msg_store api bs m, z)))"

definition rebuild48_data :: "('m, 'z) libzmq \<Rightarrow> 'm \<Rightarrow> byte list \<Rightarrow> 'z \<Rightarrow> ('m \<times> 'z) result" where
  "rebuild48_data api m bs z =
     (case zmq_msg_close api m z of
        (rc, m, z) \<Rightarrow>
          if rc \<noteq> 0 then throw_error api z
          else (case zmq_msg_init_data api bs z of (rc, m, z) \<Rightarrow> if rc \<noteq> 0 then throw_error api z else Inr (m, z)))"

definition message48_move :: "('m, 'z) libzmq \<Rightarrow> 'm \<Rightarrow> 'm \<Rightarrow> 'z \<Rightarrow> ('m \<times> 'm \<times> 'z) result" where
  "message48_move api m src z =
     (case zmq_msg_move api m src z of (rc, m, src, z) \<Rightarrow> if rc \<noteq> 0 then throw_error api z else Inr (m, src, z))"

definition message48_copy :: "('m, 'z) libzmq \<Rightarrow> 'm \<Rightarrow> 'm \<Rightarrow> 'z \<Rightarrow> ('m \<times> 'm \<times> 'z) result" where
  "message48_copy api m src z =
     (case zmq_msg_copy api m src z of (rc, m, src, z) \<Rightarrow> if rc \<noteq> 0 then throw_error api z else Inr (m, src, z))"

definition message48_more :: "('m, 'z) libzmq \<Rightarrow> 'm \<Rightarrow> bool" where
  "message48_more api m \<longleftrightarrow> zmq_msg_more api m \<noteq> 0"

definition message48_data :: "('m, 'z) libzmq \<Rightarrow> 'm \<Rightarrow> byte list" where
  "message48_data api m = zmq_msg_data api m"

definition message48_size :: "('m, 'z) libzmq \<Rightarrow> 'm \<Rightarrow> nat" where
  "message48_size api m = zmq_msg_size api m"

definition message48_empty :: "('m, 'z) libzmq \<Rightarrow> 'm \<Rightarrow> bool" where
  "message48_empty api m \<longleftrightarrow> message48_size api m = 0"

definition message48_eq :: "('m, 'z) libzmq \<Rightarrow> 'm \<Rightarrow> 'm \<Rightarrow> bool" where
  "message48_eq api m other \<longleftrightarrow>
     (let my_size = message48_size api m
      in my_size = message48_size api other
         \<and> take my_size (message48_data api m) = take my_size (message48_data api other))"

definition message48_ne :: "('m, 'z) libzmq \<Rightarrow> 'm \<Rightarrow> 'm \<Rightarrow> bool" where
  "message48_ne api m other \<longleftrightarrow> \<not> message48_eq api m other"

definition message48_get :: "('m, 'z) libzmq \<Rightarrow> ('m, 'z) libzmq48 \<Rightarrow> 'm \<Rightarrow> int \<Rightarrow> 'z \<Rightarrow> int result" where
  "message48_get api nw m property z =
     (let v = zmq_msg_get nw m property in if v = -1 then throw_error api z else Inr v)"

definition message48_gets :: "('m, 'z) libzmq \<Rightarrow> ('m, 'z) libzmq48 \<Rightarrow> 'm \<Rightarrow> string \<Rightarrow> 'z \<Rightarrow> string result" where
  "message48_gets api nw m property z =
     (case zmq_msg_gets nw m property of None \<Rightarrow> throw_error api z | Some v \<Rightarrow> Inr v)"

definition message48_to_string :: "('m, 'z) libzmq \<Rightarrow> 'm \<Rightarrow> byte list" where
  "message48_to_string api m = take (message48_size api m) (message48_data api m)"

text \<open>Text and other bytes are separated by a space; \<open>was_ascii\<close> is 0 at the start.\<close>

fun str_bytes :: "bool \<Rightarrow> byte list \<Rightarrow> string" where
  "str_bytes was_ascii [] = []"
| "str_bytes was_ascii (b # bs) =
     (let ascii = (32 \<le> uint b \<and> uint b < 127)
      in (if ascii \<noteq> was_ascii then '' '' else [])
         @ (if ascii then [char_of (unat b)] else pad0 2 (show_hex True (uint b)))
         @ str_bytes ascii bs)"

definition message48_str :: "('m, 'z) libzmq \<Rightarrow> 'm \<Rightarrow> string" where
  "message48_str api m =
     (let n = message48_size api m
      in ''zmq::message_t [size '' @ pad0 3 (show_nat n) @ ''] (''
         @ (if n \<ge> 1000 then ''... too big to print)'' else str_bytes False (take n (message48_data api m)) @ '')''))"

definition message48_swap :: "'m \<Rightarrow> 'm \<Rightarrow> 'm \<times> 'm" where
  "message48_swap a b = (b, a)"

section \<open>Contexts\<close>

datatype ctxopt =
    blocky | io_threads | thread_sched_policy | thread_priority | thread_affinity_cpu_add | thread_affinity_cpu_remove
  | thread_name_prefix | max_msgsz | zero_copy_recv | max_sockets | socket_limit | ipv6 | msg_t_size

fun ctxopt_value :: "ctxopt \<Rightarrow> int" where
  "ctxopt_value blocky = 70"
| "ctxopt_value io_threads = 1"
| "ctxopt_value thread_sched_policy = 4"
| "ctxopt_value thread_priority = 3"
| "ctxopt_value thread_affinity_cpu_add = 7"
| "ctxopt_value thread_affinity_cpu_remove = 8"
| "ctxopt_value thread_name_prefix = 9"
| "ctxopt_value max_msgsz = 5"
| "ctxopt_value zero_copy_recv = 10"
| "ctxopt_value max_sockets = 2"
| "ctxopt_value socket_limit = 3"
| "ctxopt_value ipv6 = 42"
| "ctxopt_value msg_t_size = 6"

definition new_context48 :: "('m, 'z) libzmq \<Rightarrow> 'z \<Rightarrow> (context_t \<times> 'z) result" where
  "new_context48 api z = (case zmq_ctx_new api z of (p, z) \<Rightarrow> if p = 0 then throw_error api z else Inr (\<lparr>ctx_ptr = p\<rparr>, z))"

definition new_context48_threads :: "('m, 'z) libzmq \<Rightarrow> int \<Rightarrow> int \<Rightarrow> 'z \<Rightarrow> (context_t \<times> 'z) result" where
  "new_context48_threads api threads sockets z =
     (case zmq_ctx_new api z of
        (p, z) \<Rightarrow>
          if p = 0 then throw_error api z
          else (case zmq_ctx_set api p ZMQ_IO_THREADS threads z of
                  (rc, z) \<Rightarrow>
                    if rc \<noteq> 0 then Inl Abort
                    else (case zmq_ctx_set api p ZMQ_MAX_SOCKETS sockets z of
                            (rc, z) \<Rightarrow> if rc \<noteq> 0 then Inl Abort else Inr (\<lparr>ctx_ptr = p\<rparr>, z))))"

definition move_context48 :: "context_t \<Rightarrow> context_t \<times> context_t" where
  "move_context48 rhs = (\<lparr>ctx_ptr = ctx_ptr rhs\<rparr>, rhs\<lparr>ctx_ptr := 0\<rparr>)"

text \<open>\<open>close\<close> tries again while a signal interrupts it; \<open>None\<close> after \<open>fuel\<close> interruptions.\<close>

fun ctx_term_loop :: "nat \<Rightarrow> ('m, 'z) libzmq \<Rightarrow> ('m, 'z) libzmq48 \<Rightarrow> nat \<Rightarrow> 'z \<Rightarrow> 'z option result" where
  "ctx_term_loop 0 api nw p z = Inr None"
| "ctx_term_loop (Suc fuel) api nw p z =
     (case zmq_ctx_term nw p z of
        (rc, z) \<Rightarrow>
          if rc = -1 \<and> zmq_errno api z = EINTR then ctx_term_loop fuel api nw p z
          else if rc \<noteq> 0 then Inl Abort else Inr (Some z))"

definition close_context48 :: "nat \<Rightarrow> ('m, 'z) libzmq \<Rightarrow> ('m, 'z) libzmq48 \<Rightarrow> context_t \<Rightarrow> 'z \<Rightarrow> (context_t \<times> 'z) option result" where
  "close_context48 fuel api nw c z =
     (if ctx_ptr c = 0 then Inr (Some (c, z))
      else bindE (ctx_term_loop fuel api nw (ctx_ptr c) z) (\<lambda>r. Inr (map_option (\<lambda>z. (c\<lparr>ctx_ptr := 0\<rparr>, z)) r)))"

definition assign_context48 :: "nat \<Rightarrow> ('m, 'z) libzmq \<Rightarrow> ('m, 'z) libzmq48 \<Rightarrow> context_t \<Rightarrow> context_t \<Rightarrow> 'z
    \<Rightarrow> (context_t \<times> context_t \<times> 'z) option result" where
  "assign_context48 fuel api nw c rhs z =
     bindE (close_context48 fuel api nw c z) (\<lambda>r.
       Inr (map_option (\<lambda>(c, z). (c\<lparr>ctx_ptr := ctx_ptr rhs\<rparr>, rhs\<lparr>ctx_ptr := ctx_ptr c\<rparr>, z)) r))"

definition setctxopt :: "('m, 'z) libzmq \<Rightarrow> context_t \<Rightarrow> int \<Rightarrow> int \<Rightarrow> 'z \<Rightarrow> (int \<times> 'z) result" where
  "setctxopt api c opt optval z = (case zmq_ctx_set api (ctx_ptr c) opt optval z of (rc, z) \<Rightarrow> assertE (rc = 0) (rc, z))"

definition getctxopt :: "('m, 'z) libzmq48 \<Rightarrow> context_t \<Rightarrow> int \<Rightarrow> 'z \<Rightarrow> int \<times> 'z" where
  "getctxopt nw c opt z = zmq_ctx_get nw (ctx_ptr c) opt z"

definition context48_set :: "('m, 'z) libzmq \<Rightarrow> context_t \<Rightarrow> ctxopt \<Rightarrow> int \<Rightarrow> 'z \<Rightarrow> 'z result" where
  "context48_set api c opt optval z =
     (case zmq_ctx_set api (ctx_ptr c) (ctxopt_value opt) optval z of (rc, z) \<Rightarrow> if rc = -1 then throw_error api z else Inr z)"

definition context48_get :: "('m, 'z) libzmq \<Rightarrow> ('m, 'z) libzmq48 \<Rightarrow> context_t \<Rightarrow> ctxopt \<Rightarrow> 'z \<Rightarrow> (int \<times> 'z) result" where
  "context48_get api nw c opt z =
     (case zmq_ctx_get nw (ctx_ptr c) (ctxopt_value opt) z of (rc, z) \<Rightarrow> if rc = -1 then throw_error api z else Inr (rc, z))"

definition shutdown48 :: "('m, 'z) libzmq48 \<Rightarrow> context_t \<Rightarrow> 'z \<Rightarrow> 'z result" where
  "shutdown48 nw c z =
     (if ctx_ptr c = 0 then Inr z else (case zmq_ctx_shutdown nw (ctx_ptr c) z of (rc, z) \<Rightarrow> assertE (rc = 0) z))"

definition context48_swap :: "context_t \<Rightarrow> context_t \<Rightarrow> context_t \<times> context_t" where
  "context48_swap a b = (a\<lparr>ctx_ptr := ctx_ptr b\<rparr>, b\<lparr>ctx_ptr := ctx_ptr a\<rparr>)"

section \<open>Lemmas\<close>

lemma show_hex_byte: "\<lbrakk>0 \<le> n; n < 256\<rbrakk> \<Longrightarrow> length (pad0 2 (show_hex upper n)) = 2"
  using show_hex_length [of n 1 upper] by (simp add: pad0_length)

end
