(* ===== verification/Zmq48_Sockets.thy ===== *)
theory Zmq48_Sockets
  imports Zmq48
begin

text \<open>
  The sockets of \<open>src/deps/zmq.4.8.1.latest.hpp\<close>: the typed options of the namespace \<open>sockopt\<close>, \<open>detail::socket_base\<close>,
  \<open>socket_ref\<close>, \<open>socket_t\<close> and the proxies. The numbers of the options belong to the C library: where one is needed it
  is an argument.
\<close>

section \<open>Options\<close>

datatype opt_type = T_int | T_int64 | T_uint64

fun opt_width :: "opt_type \<Rightarrow> nat" where
  "opt_width T_int = 4"
| "opt_width T_int64 = 8"
| "opt_width T_uint64 = 8"

text \<open>
  An integral option, and whether it takes a \<open>bool\<close> too; an array option: 0 binary, 1 with a final zero, 2 binary or
  a string of 41 characters.
\<close>

datatype opt_kind = integral_option opt_type bool | array_option nat

definition sockopt_1 :: "(string \<times> opt_kind) list" where
  "sockopt_1 =
     [(''affinity'', integral_option T_uint64 False),
      (''backlog'', integral_option T_int False),
      (''bindtodevice'', array_option 0),
      (''conflate'', integral_option T_int True),
      (''connect_routing_id'', array_option 1),
      (''connect_timeout'', integral_option T_int False),
      (''curve_publickey'', array_option 2),
      (''curve_secretkey'', array_option 2),
      (''curve_server'', integral_option T_int True),
      (''curve_serverkey'', array_option 2),
      (''events'', integral_option T_int False),
      (''fd'', integral_option T_int False),
      (''gssapi_plaintext'', integral_option T_int True),
      (''gssapi_server'', integral_option T_int True),
      (''gssapi_service_principal'', array_option 1),
      (''gssapi_service_principal_nametype'', integral_option T_int False),
      (''gssapi_principal'', array_option 1),
      (''gssapi_principal_nametype'', integral_option T_int False),
      (''handshake_ivl'', integral_option T_int False),
      (''heartbeat_ivl'', integral_option T_int False),
      (''heartbeat_timeout'', integral_option T_int False),
      (''heartbeat_ttl'', integral_option T_int False),
      (''immediate'', integral_option T_int True),
      (''invert_matching'', integral_option T_int True),
      (''ipv6'', integral_option T_int True),
      (''last_endpoint'', array_option 1),
      (''linger'', integral_option T_int False),
      (''maxmsgsize'', integral_option T_int64 False),
      (''mechanism'', integral_option T_int False),
      (''metadata'', array_option 1),
      (''multicast_hops'', integral_option T_int False),
      (''multicast_loop'', integral_option T_int True),
      (''multicast_maxtpdu'', integral_option T_int False),
      (''plain_server'', integral_option T_int True),
      (''plain_password'', array_option 1),
      (''plain_username'', array_option 1),
      (''use_fd'', integral_option T_int False)]"

definition sockopt_2 :: "(string \<times> opt_kind) list" where
  "sockopt_2 =
     [(''probe_router'', integral_option T_int True),
      (''rate'', integral_option T_int False),
      (''rcvbuf'', integral_option T_int False),
      (''rcvhwm'', integral_option T_int False),
      (''rcvmore'', integral_option T_int True),
      (''rcvtimeo'', integral_option T_int False),
      (''reconnect_ivl'', integral_option T_int False),
      (''reconnect_ivl_max'', integral_option T_int False),
      (''recovery_ivl'', integral_option T_int False),
      (''req_correlate'', integral_option T_int True),
      (''req_relaxed'', integral_option T_int True),
      (''router_handover'', integral_option T_int True),
      (''router_mandatory'', integral_option T_int True),
      (''router_notify'', integral_option T_int False),
      (''routing_id'', array_option 0),
      (''sndbuf'', integral_option T_int False),
      (''sndhwm'', integral_option T_int False),
      (''sndtimeo'', integral_option T_int False),
      (''socks_proxy'', array_option 1),
      (''stream_notify'', integral_option T_int True),
      (''subscribe'', array_option 1),
      (''tcp_keepalive'', integral_option T_int False),
      (''tcp_keepalive_cnt'', integral_option T_int False),
      (''tcp_keepalive_idle'', integral_option T_int False),
      (''tcp_keepalive_intvl'', integral_option T_int False),
      (''tcp_maxrt'', integral_option T_int False),
      (''thread_safe'', integral_option T_int True),
      (''tos'', integral_option T_int False),
      (''type'', integral_option T_int False),
      (''unsubscribe'', array_option 1),
      (''vmci_buffer_size'', integral_option T_uint64 False),
      (''vmci_buffer_min_size'', integral_option T_uint64 False),
      (''vmci_buffer_max_size'', integral_option T_uint64 False),
      (''vmci_connect_timeout'', integral_option T_int False),
      (''xpub_verbose'', integral_option T_int True),
      (''xpub_verboser'', integral_option T_int True),
      (''xpub_manual'', integral_option T_int True),
      (''xpub_nodrop'', integral_option T_int True),
      (''xpub_welcome_msg'', array_option 1),
      (''zap_enforce_domain'', integral_option T_int True),
      (''zap_domain'', array_option 1)]"

definition sockopt :: "string \<Rightarrow> opt_kind option" where
  "sockopt name = map_of (sockopt_1 @ sockopt_2) name"

section \<open>\<open>socket_base\<close>\<close>

text \<open>The methods work on the handle of the socket. An integer is its bytes in memory.\<close>

definition set_option :: "('m, 'z) libzmq \<Rightarrow> nat \<Rightarrow> int \<Rightarrow> byte list \<Rightarrow> 'z \<Rightarrow> 'z result" where
  "set_option api h opt optval z =
     (case zmq_setsockopt api h opt optval z of (rc, z) \<Rightarrow> if rc \<noteq> 0 then throw_error api z else Inr z)"

definition get_option :: "('m, 'z) libzmq \<Rightarrow> nat \<Rightarrow> int \<Rightarrow> nat \<Rightarrow> 'z \<Rightarrow> (byte list \<times> 'z) result" where
  "get_option api h opt optlen z =
     (case zmq_getsockopt api h opt optlen z of
        (rc, optval, z) \<Rightarrow> if rc \<noteq> 0 then throw_error api z else Inr (optval, z))"

definition setsockopt48 :: "('m, 'z) libzmq \<Rightarrow> nat \<Rightarrow> int \<Rightarrow> byte list \<Rightarrow> 'z \<Rightarrow> 'z result" where
  "setsockopt48 api h opt optval z =
     (case zmq_setsockopt api h opt optval z of (rc, z) \<Rightarrow> if rc \<noteq> 0 then throw_error api z else Inr z)"

definition getsockopt48 :: "('m, 'z) libzmq \<Rightarrow> nat \<Rightarrow> int \<Rightarrow> nat \<Rightarrow> 'z \<Rightarrow> (byte list \<times> 'z) result" where
  "getsockopt48 api h opt optlen z =
     (case zmq_getsockopt api h opt optlen z of
        (rc, optval, z) \<Rightarrow> if rc \<noteq> 0 then throw_error api z else Inr (optval, z))"

definition set_integral :: "('m, 'z) libzmq \<Rightarrow> nat \<Rightarrow> int \<Rightarrow> opt_type \<Rightarrow> int \<Rightarrow> 'z \<Rightarrow> 'z result" where
  "set_integral api h opt T val z = set_option api h opt (le_bytes (opt_width T) val) z"

definition set_bool :: "('m, 'z) libzmq \<Rightarrow> nat \<Rightarrow> int \<Rightarrow> opt_type \<Rightarrow> bool \<Rightarrow> 'z \<Rightarrow> 'z result" where
  "set_bool api h opt T val z = (let rep_val = if val then 1 else 0 in set_option api h opt (le_bytes (opt_width T) rep_val) z)"

text \<open>\<open>std::strlen\<close> runs past the end of an array without a zero.\<close>

definition set_cstring :: "('m, 'z) libzmq \<Rightarrow> nat \<Rightarrow> int \<Rightarrow> byte list \<Rightarrow> 'z \<Rightarrow> 'z result" where
  "set_cstring api h opt buf z =
     (if 0 \<notin> set buf then Inl Undefined else set_option api h opt (takeWhile (\<lambda>b. b \<noteq> 0) buf) z)"

definition set_buffer :: "('m, 'z) libzmq \<Rightarrow> nat \<Rightarrow> int \<Rightarrow> (nat \<Rightarrow> byte) \<Rightarrow> const_buffer \<Rightarrow> 'z \<Rightarrow> 'z result" where
  "set_buffer api h opt memory buf z = set_option api h opt (map memory [cb_data buf..<cb_data buf + cb_size buf]) z"

definition set_string :: "('m, 'z) libzmq \<Rightarrow> nat \<Rightarrow> int \<Rightarrow> byte list \<Rightarrow> 'z \<Rightarrow> 'z result" where
  "set_string api h opt buf z = set_option api h opt buf z"

definition int_of_bytes :: "opt_type \<Rightarrow> byte list \<Rightarrow> int" where
  "int_of_bytes T bs =
     (case T of T_int \<Rightarrow> i32 (of_le bs) | T_int64 \<Rightarrow> sint (word_of_int (of_le bs) :: 64 word) | T_uint64 \<Rightarrow> of_le bs)"

definition get_integral :: "('m, 'z) libzmq \<Rightarrow> nat \<Rightarrow> int \<Rightarrow> opt_type \<Rightarrow> 'z \<Rightarrow> (int \<times> 'z) result" where
  "get_integral api h opt T z =
     bindE (get_option api h opt (opt_width T) z) (\<lambda>(val, z). assertE (length val = opt_width T) (int_of_bytes T val, z))"

text \<open>Into a buffer: the bytes and their number.\<close>

definition get_array :: "('m, 'z) libzmq \<Rightarrow> nat \<Rightarrow> int \<Rightarrow> nat \<Rightarrow> 'z \<Rightarrow> (nat \<times> byte list \<times> 'z) result" where
  "get_array api h opt buf_size z = bindE (get_option api h opt buf_size z) (\<lambda>(optval, z). Inr (length optval, optval, z))"

text \<open>As a string, without the final zero.\<close>

definition get_string :: "('m, 'z) libzmq \<Rightarrow> nat \<Rightarrow> int \<Rightarrow> nat \<Rightarrow> nat \<Rightarrow> 'z \<Rightarrow> (byte list \<times> 'z) result" where
  "get_string api h opt NullTerm init_size z =
     (let init_size = if NullTerm = 2 \<and> init_size = 1024 then 41 else init_size
      in bindE (get_array api h opt init_size z) (\<lambda>(n, optval, z).
           let str = optval @ replicate (init_size - n) 0
           in if NullTerm = 1
              then (if n > 0 then assertE (str ! (n - 1) = 0) (take (n - 1) str, z) else Inr (take n str, z))
              else if NullTerm = 2
              then (if n \<noteq> 32 \<and> n \<noteq> 41 then Inl Abort
                    else if n = 41 then assertE (str ! (n - 1) = 0) (take (n - 1) str, z) else Inr (take n str, z))
              else Inr (take n str, z)))"

definition bind48 :: "('m, 'z) libzmq \<Rightarrow> nat \<Rightarrow> string \<Rightarrow> 'z \<Rightarrow> 'z result" where
  "bind48 api h addr z = (case zmq_bind api h addr z of (rc, z) \<Rightarrow> if rc \<noteq> 0 then throw_error api z else Inr z)"

definition unbind48 :: "('m, 'z) libzmq \<Rightarrow> nat \<Rightarrow> string \<Rightarrow> 'z \<Rightarrow> 'z result" where
  "unbind48 api h addr z = (case zmq_unbind api h addr z of (rc, z) \<Rightarrow> if rc \<noteq> 0 then throw_error api z else Inr z)"

definition connect48 :: "('m, 'z) libzmq \<Rightarrow> nat \<Rightarrow> string \<Rightarrow> 'z \<Rightarrow> 'z result" where
  "connect48 api h addr z = (case zmq_connect api h addr z of (rc, z) \<Rightarrow> if rc \<noteq> 0 then throw_error api z else Inr z)"

definition disconnect48 :: "('m, 'z) libzmq \<Rightarrow> nat \<Rightarrow> string \<Rightarrow> 'z \<Rightarrow> 'z result" where
  "disconnect48 api h addr z = (case zmq_disconnect api h addr z of (rc, z) \<Rightarrow> if rc \<noteq> 0 then throw_error api z else Inr z)"

definition connected48 :: "nat \<Rightarrow> bool" where
  "connected48 h \<longleftrightarrow> h \<noteq> 0"

text \<open>The functions of \<open>zmq.hpp\<close>, kept for old programs.\<close>

definition send48_bytes :: "('m, 'z) libzmq \<Rightarrow> nat \<Rightarrow> byte list \<Rightarrow> int \<Rightarrow> 'z \<Rightarrow> (nat \<times> 'z) result" where
  "send48_bytes api h buf flags z =
     (case zmq_send api h buf flags z of
        (nbytes, z) \<Rightarrow>
          if nbytes \<ge> 0 then Inr (nat nbytes, z)
          else if zmq_errno api z = EAGAIN then Inr (0, z) else throw_error api z)"

definition send48_msg :: "('m, 'z) libzmq \<Rightarrow> nat \<Rightarrow> 'm \<Rightarrow> int \<Rightarrow> 'z \<Rightarrow> (bool \<times> 'm \<times> 'z) result" where
  "send48_msg api h m flags z =
     (case zmq_msg_send api m h flags z of
        (nbytes, m, z) \<Rightarrow>
          if nbytes \<ge> 0 then Inr (True, m, z)
          else if zmq_errno api z = EAGAIN then Inr (False, m, z) else throw_error api z)"

definition send48_range :: "('m, 'z) libzmq \<Rightarrow> nat \<Rightarrow> nat \<Rightarrow> ('x \<Rightarrow> byte list) \<Rightarrow> 'x list \<Rightarrow> int \<Rightarrow> 'z \<Rightarrow> (bool \<times> 'z) result" where
  "send48_range api h sz enc xs flags z =
     bindE (new_message48_range api sz enc xs z) (\<lambda>(m, z).
       case zmq_msg_send api m h flags z of
         (nbytes, m, z) \<Rightarrow>
           if nbytes \<ge> 0 then bindE (delete_message48 api m z) (\<lambda>z. Inr (True, z))
           else if zmq_errno api z = EAGAIN then bindE (delete_message48 api m z) (\<lambda>z. Inr (False, z))
           else throw_error api z)"

definition recv48_bytes :: "('m, 'z) libzmq \<Rightarrow> nat \<Rightarrow> nat \<Rightarrow> int \<Rightarrow> 'z \<Rightarrow> (nat \<times> byte list \<times> 'z) result" where
  "recv48_bytes api h len flags z =
     (case zmq_recv api h len flags z of
        (nbytes, buf, z) \<Rightarrow>
          if nbytes \<ge> 0 then Inr (nat nbytes, buf, z)
          else if zmq_errno api z = EAGAIN then Inr (0, buf, z) else throw_error api z)"

definition recv48_msg :: "('m, 'z) libzmq \<Rightarrow> nat \<Rightarrow> 'm \<Rightarrow> int \<Rightarrow> 'z \<Rightarrow> (bool \<times> 'm \<times> 'z) result" where
  "recv48_msg api h m flags z =
     (case zmq_msg_recv api m h flags z of
        (nbytes, m, z) \<Rightarrow>
          if nbytes \<ge> 0 then Inr (True, m, z)
          else if zmq_errno api z = EAGAIN then Inr (False, m, z) else throw_error api z)"

text \<open>The new functions: \<open>None\<close> stands for a call that would block.\<close>

definition send48_buffer :: "('m, 'z) libzmq \<Rightarrow> nat \<Rightarrow> byte list \<Rightarrow> flags \<Rightarrow> 'z \<Rightarrow> (nat option \<times> 'z) result" where
  "send48_buffer api h buf flags z =
     (case zmq_send api h buf (sint flags) z of
        (nbytes, z) \<Rightarrow>
          if nbytes \<ge> 0 then Inr (Some (nat nbytes), z)
          else if zmq_errno api z = EAGAIN then Inr (None, z) else throw_error api z)"

definition send48 :: "('m, 'z) libzmq \<Rightarrow> nat \<Rightarrow> 'm \<Rightarrow> flags \<Rightarrow> 'z \<Rightarrow> (nat option \<times> 'm \<times> 'z) result" where
  "send48 api h m flags z =
     (case zmq_msg_send api m h (sint flags) z of
        (nbytes, m, z) \<Rightarrow>
          if nbytes \<ge> 0 then Inr (Some (nat nbytes), m, z)
          else if zmq_errno api z = EAGAIN then Inr (None, m, z) else throw_error api z)"

definition send48_rvalue :: "('m, 'z) libzmq \<Rightarrow> nat \<Rightarrow> 'm \<Rightarrow> int \<Rightarrow> 'z \<Rightarrow> (bool \<times> 'm \<times> 'z) result" where
  "send48_rvalue api h m flags z =
     bindE (send48 api h m (word_of_int flags) z) (\<lambda>(r, m, z). Inr (r \<noteq> None, m, z))"

definition recv48_buffer :: "('m, 'z) libzmq \<Rightarrow> nat \<Rightarrow> nat \<Rightarrow> flags \<Rightarrow> 'z \<Rightarrow> (recv_buffer_size option \<times> byte list \<times> 'z) result" where
  "recv48_buffer api h buf_size flags z =
     (case zmq_recv api h buf_size (sint flags) z of
        (nbytes, buf, z) \<Rightarrow>
          if nbytes \<ge> 0
          then Inr (Some \<lparr>rb_size = min (nat nbytes) buf_size, rb_untruncated_size = nat nbytes\<rparr>, buf, z)
          else if zmq_errno api z = EAGAIN then Inr (None, buf, z) else throw_error api z)"

definition recv48 :: "('m, 'z) libzmq \<Rightarrow> nat \<Rightarrow> 'm \<Rightarrow> flags \<Rightarrow> 'z \<Rightarrow> (nat option \<times> 'm \<times> 'z) result" where
  "recv48 api h m flags z =
     (case zmq_msg_recv api m h (sint flags) z of
        (nbytes, m, z) \<Rightarrow>
          if nbytes \<ge> 0 then assertE (message48_size api m = nat nbytes) (Some (nat nbytes), m, z)
          else if zmq_errno api z = EAGAIN then Inr (None, m, z) else throw_error api z)"

section \<open>References and sockets\<close>

record socket_ref =
  ref_handle :: nat

definition null_ref :: socket_ref where
  "null_ref = \<lparr>ref_handle = 0\<rparr>"

definition ref_of_handle :: "nat \<Rightarrow> socket_ref" where
  "ref_of_handle h = \<lparr>ref_handle = h\<rparr>"

text \<open>\<open>operator==\<close> with \<open>nullptr\<close>; the comparisons of two sockets go by their handles.\<close>

definition ref_is_null :: "socket_ref \<Rightarrow> bool" where
  "ref_is_null sr \<longleftrightarrow> ref_handle sr = 0"

definition socket_eq :: "nat \<Rightarrow> nat \<Rightarrow> bool" where
  "socket_eq a b \<longleftrightarrow> a = b"

definition socket_ne :: "nat \<Rightarrow> nat \<Rightarrow> bool" where
  "socket_ne a b \<longleftrightarrow> \<not> socket_eq a b"

definition socket_less :: "nat \<Rightarrow> nat \<Rightarrow> bool" where
  "socket_less a b \<longleftrightarrow> a < b"

definition socket_greater :: "nat \<Rightarrow> nat \<Rightarrow> bool" where
  "socket_greater a b \<longleftrightarrow> socket_less b a"

definition socket_le :: "nat \<Rightarrow> nat \<Rightarrow> bool" where
  "socket_le a b \<longleftrightarrow> \<not> socket_greater a b"

definition socket_ge :: "nat \<Rightarrow> nat \<Rightarrow> bool" where
  "socket_ge a b \<longleftrightarrow> \<not> socket_less a b"

text \<open>\<open>std::hash\<close> of the handle is an argument.\<close>

definition hash_ref :: "(nat \<Rightarrow> nat) \<Rightarrow> socket_ref \<Rightarrow> nat" where
  "hash_ref hash sr = hash (ref_handle sr)"

datatype socket_type = req | rep | dealer | router | pub | sub | xpub | xsub | push | pull | stream | pair

fun socket_type_value :: "socket_type \<Rightarrow> int" where
  "socket_type_value req = 3"
| "socket_type_value rep = 4"
| "socket_type_value dealer = 5"
| "socket_type_value router = 6"
| "socket_type_value pub = 1"
| "socket_type_value sub = 2"
| "socket_type_value xpub = 9"
| "socket_type_value xsub = 10"
| "socket_type_value push = 8"
| "socket_type_value pull = 7"
| "socket_type_value stream = 11"
| "socket_type_value pair = 0"

definition null_socket48 :: socket_t where
  "null_socket48 = \<lparr>sock_ptr = 0, sock_ctxptr = 0\<rparr>"

definition new_socket48 :: "('m, 'z) libzmq \<Rightarrow> context_t \<Rightarrow> int \<Rightarrow> 'z \<Rightarrow> (socket_t \<times> 'z) result" where
  "new_socket48 api ctx type z =
     (case zmq_socket api (ctx_ptr ctx) type z of
        (p, z) \<Rightarrow> if p = 0 then throw_error api z else Inr (\<lparr>sock_ptr = p, sock_ctxptr = ctx_ptr ctx\<rparr>, z))"

definition new_socket48_type :: "('m, 'z) libzmq \<Rightarrow> context_t \<Rightarrow> socket_type \<Rightarrow> 'z \<Rightarrow> (socket_t \<times> 'z) result" where
  "new_socket48_type api ctx type z = new_socket48 api ctx (socket_type_value type) z"

text \<open>The constructor that the monitor uses, with a pointer to the context.\<close>

definition new_socket48_ptr :: "('m, 'z) libzmq \<Rightarrow> nat \<Rightarrow> int \<Rightarrow> 'z \<Rightarrow> (socket_t \<times> 'z) result" where
  "new_socket48_ptr api ctx type z =
     (case zmq_socket api ctx type z of
        (p, z) \<Rightarrow>
          if p = 0 then throw_error api z
          else if ctx = 0 then throw_error api z else Inr (\<lparr>sock_ptr = p, sock_ctxptr = ctx\<rparr>, z))"

definition move_socket48 :: "socket_t \<Rightarrow> socket_t \<times> socket_t" where
  "move_socket48 rhs = (\<lparr>sock_ptr = sock_ptr rhs, sock_ctxptr = sock_ctxptr rhs\<rparr>, rhs\<lparr>sock_ptr := 0, sock_ctxptr := 0\<rparr>)"

definition close_socket48 :: "('m, 'z) libzmq \<Rightarrow> socket_t \<Rightarrow> 'z \<Rightarrow> (socket_t \<times> 'z) result" where
  "close_socket48 api s z =
     (if sock_ptr s = 0 then Inr (s, z)
      else (case zmq_close api (sock_ptr s) z of
              (rc, z) \<Rightarrow> if rc \<noteq> 0 then Inl Abort else Inr (s\<lparr>sock_ptr := 0, sock_ctxptr := 0\<rparr>, z)))"

definition swap_socket48 :: "socket_t \<Rightarrow> socket_t \<Rightarrow> socket_t \<times> socket_t" where
  "swap_socket48 a b =
     (a\<lparr>sock_ptr := sock_ptr b, sock_ctxptr := sock_ctxptr b\<rparr>, b\<lparr>sock_ptr := sock_ptr a, sock_ctxptr := sock_ctxptr a\<rparr>)"

definition assign_socket48 :: "('m, 'z) libzmq \<Rightarrow> socket_t \<Rightarrow> socket_t \<Rightarrow> 'z \<Rightarrow> (socket_t \<times> socket_t \<times> 'z) result" where
  "assign_socket48 api s rhs z =
     bindE (close_socket48 api s z) (\<lambda>(s, z).
       Inr (s\<lparr>sock_ptr := sock_ptr rhs, sock_ctxptr := sock_ctxptr rhs\<rparr>,
            rhs\<lparr>sock_ptr := sock_ptr s, sock_ctxptr := sock_ctxptr s\<rparr>, z))"

definition socket_ref_of :: "socket_t \<Rightarrow> socket_ref" where
  "socket_ref_of s = ref_of_handle (sock_ptr s)"

definition proxy48 :: "('m, 'z) libzmq \<Rightarrow> socket_ref \<Rightarrow> socket_ref \<Rightarrow> socket_ref \<Rightarrow> 'z \<Rightarrow> 'z result" where
  "proxy48 api frontend backend capture z =
     (case zmq_proxy api (ref_handle frontend) (ref_handle backend) (ref_handle capture) z of
        (rc, z) \<Rightarrow> if rc \<noteq> 0 then throw_error api z else Inr z)"

definition proxy48_steerable :: "('m, 'z) libzmq \<Rightarrow> socket_ref \<Rightarrow> socket_ref \<Rightarrow> socket_ref \<Rightarrow> socket_ref \<Rightarrow> 'z \<Rightarrow> 'z result" where
  "proxy48_steerable api frontend backend capture control z =
     (case zmq_proxy_steerable api (ref_handle frontend) (ref_handle backend) (ref_handle capture) (ref_handle control) z of
        (rc, z) \<Rightarrow> if rc \<noteq> 0 then throw_error api z else Inr z)"

section \<open>Lemmas\<close>

subsection \<open>Options\<close>

lemma sockopt_distinct: "distinct (map fst (sockopt_1 @ sockopt_2))"
  by code_simp

text \<open>The bytes of an integral option are read back, for every value of its type.\<close>

fun opt_range :: "opt_type \<Rightarrow> int \<Rightarrow> bool" where
  "opt_range T_int v \<longleftrightarrow> in_i32 v"
| "opt_range T_int64 v \<longleftrightarrow> - 9223372036854775808 \<le> v \<and> v < 9223372036854775808"
| "opt_range T_uint64 v \<longleftrightarrow> 0 \<le> v \<and> v < 18446744073709551616"

lemma int_of_bytes_roundtrip:
  assumes "opt_range T v"
  shows "int_of_bytes T (le_bytes (opt_width T) v) = v"
proof (cases T)
  case T_int
  have "i32 (v mod 4294967296) = i32 v" by (simp add: i32_def mod_add_left_eq)
  then show ?thesis using T_int assms by (simp add: int_of_bytes_def of_le_bytes)
next
  case T_int64
  have "(word_of_int (v mod 18446744073709551616) :: 64 word) = word_of_int v"
    by (rule word_of_int_eq_iff [THEN iffD2]) (simp add: take_bit_eq_mod)
  moreover have "sint (word_of_int v :: 64 word) = v"
    using T_int64 assms by (simp add: signed_of_int signed_take_bit_int_eq_self)
  ultimately show ?thesis using T_int64 by (simp add: int_of_bytes_def of_le_bytes)
next
  case T_uint64
  then show ?thesis using assms by (simp add: int_of_bytes_def of_le_bytes)
qed

text \<open>A string option comes without the zero that the C library puts at its end.\<close>

lemma get_string_null_term:
  assumes "zmq_getsockopt api h opt init_size z = (0, str @ [0], z')"
  shows "get_string api h opt 1 init_size z = Inr (str, z')"
  using assms by (simp add: get_string_def get_array_def get_option_def Let_def nth_append)

text \<open>A key is read as text of 40 characters.\<close>

lemma get_string_key:
  assumes "zmq_getsockopt api h opt 41 z = (0, key @ [0], z')" and "length key = 40"
  shows "get_string api h opt 2 1024 z = Inr (key, z')"
  using assms by (simp add: get_string_def get_array_def get_option_def Let_def nth_append)

subsection \<open>Sockets\<close>

text \<open>
  A socket has a context exactly when it has a handle. All operations keep this; those of \<open>zmq.hpp\<close> do not
  (\<open>moved_socket_context\<close>, \<open>swapped_socket_context\<close>).
\<close>

definition sock_ok :: "socket_t \<Rightarrow> bool" where
  "sock_ok s \<longleftrightarrow> (sock_ptr s = 0 \<longleftrightarrow> sock_ctxptr s = 0)"

lemma new_socket48_ok: "\<lbrakk>new_socket48 api ctx ty z = Inr (s, z'); ctx_ptr ctx \<noteq> 0\<rbrakk> \<Longrightarrow> sock_ok s \<and> sock_ptr s \<noteq> 0"
  by (auto simp: new_socket48_def sock_ok_def throw_error_def split: prod.splits if_splits)

lemma new_socket48_ptr_ok: "new_socket48_ptr api ctx ty z = Inr (s, z') \<Longrightarrow> sock_ok s \<and> sock_ptr s \<noteq> 0 \<and> sock_ctxptr s = ctx"
  by (auto simp: new_socket48_ptr_def sock_ok_def throw_error_def split: prod.splits if_splits)

lemma close_socket48_ok: "close_socket48 api s z = Inr (s', z') \<Longrightarrow> sock_ok s \<Longrightarrow> s' = null_socket48"
  by (cases s) (auto simp: close_socket48_def null_socket48_def sock_ok_def split: prod.splits if_splits)

lemma move_socket48_ok: "sock_ok s \<Longrightarrow> move_socket48 s = (s, null_socket48)"
  by (cases s) (simp add: move_socket48_def null_socket48_def)

text \<open>An assignment closes the socket that is assigned to, gives it the other one, and leaves that closed.\<close>

lemma assign_socket48_ok:
  assumes "assign_socket48 api s rhs z = Inr (s', rhs', z')" and "sock_ok s"
  shows "s' = rhs \<and> rhs' = null_socket48 \<and> (\<exists>t. close_socket48 api s z = Inr (t, z'))"
proof -
  obtain t where t: "close_socket48 api s z = Inr (t, z')" "s' = t\<lparr>sock_ptr := sock_ptr rhs, sock_ctxptr := sock_ctxptr rhs\<rparr>"
    "rhs' = rhs\<lparr>sock_ptr := sock_ptr t, sock_ctxptr := sock_ctxptr t\<rparr>"
    using assms(1) by (auto simp: assign_socket48_def bindE_eq_Inr)
  moreover have "t = null_socket48" using close_socket48_ok [OF t(1) assms(2)] .
  ultimately show ?thesis by (simp add: null_socket48_def)
qed

lemma swap_socket48_eq: "swap_socket48 a b = (b, a)"
  by (simp add: swap_socket48_def)

lemma socket_order: "socket_le a b \<longleftrightarrow> socket_less a b \<or> socket_eq a b" "socket_ge a b \<longleftrightarrow> socket_le b a"
  by (auto simp: socket_le_def socket_greater_def socket_less_def socket_eq_def socket_ge_def)

subsection \<open>In place of the other header\<close>

text \<open>The functions that the channels call are the same; a message is created with an assertion instead of an exception.\<close>

lemma same_operations:
  "send48_msg api (sock_ptr s) m fl z = send_msg api s m fl z" "recv48_msg api (sock_ptr s) m fl z = recv_msg api s m fl z"
  "send48_bytes api (sock_ptr s) bs fl z = send_buf api s bs fl z" "recv48_bytes api (sock_ptr s) n fl z = recv_buf api s n fl z"
  "bind48 api (sock_ptr s) a z = socket_bind api s a z" "unbind48 api (sock_ptr s) a z = socket_unbind api s a z"
  "connect48 api (sock_ptr s) a z = socket_connect api s a z" "disconnect48 api (sock_ptr s) a z = socket_disconnect api s a z"
  "setsockopt48 api (sock_ptr s) opt v z = setsockopt api s opt v z" "getsockopt48 api (sock_ptr s) opt k z = getsockopt api s opt k z"
  "new_socket48 api ctx ty z = new_socket api ctx ty z" "new_context48_threads api i ms z = new_context_threads api i ms z"
  "new_message48_size api n z = new_message_size api n z" "delete_message48 api m z = delete_message api m z"
  by (simp_all add: send48_msg_def send_msg_def recv48_msg_def recv_msg_def send48_bytes_def send_buf_def recv48_bytes_def recv_buf_def
      bind48_def socket_bind_def unbind48_def socket_unbind_def connect48_def socket_connect_def disconnect48_def socket_disconnect_def
      setsockopt48_def setsockopt_def getsockopt48_def getsockopt_def new_socket48_def new_socket_def new_context48_threads_def
      new_context_threads_def new_message48_size_def new_message_size_def delete_message48_def delete_message_def)

lemma new_message48_same: "fst (zmq_msg_init api z) = 0 \<Longrightarrow> new_message48 api z = new_message api z"
  by (auto simp: new_message48_def new_message_def split: prod.splits)

text \<open>\<open>MessageReceiver::tryrecv\<close> on the classes of this header.\<close>

definition recv_at48 :: "('m, 'z) libzmq \<Rightarrow> socket_t list \<Rightarrow> nat \<Rightarrow> 'z \<Rightarrow> (byte list option \<times> 'z) result" where
  "recv_at48 api ss idx z =
     bindE (new_message48 api z) (\<lambda>(msg, z).
       if length ss \<le> idx then Inl Undefined
       else bindE (recv48_msg api (sock_ptr (ss ! idx)) msg ZMQ_DONTWAIT z) (\<lambda>(success, msg, z).
            let str = if success then Some (take (message48_size api msg) (message48_data api msg)) else None
            in bindE (delete_message48 api msg z) (\<lambda>z. Inr (str, z))))"

lemma recv_at48_same: "fst (zmq_msg_init api z) = 0 \<Longrightarrow> recv_at48 api ss idx z = recv_at api ss idx z"
  unfolding recv_at48_def recv_at_def same_operations message48_size_def message48_data_def message_size_def message_data_def
  by (simp only: new_message48_same)

subsection \<open>Old and new functions\<close>

text \<open>
  The old functions are the new ones with less information: a buffer that would block and an empty one that was sent
  are both 0 for the old function, and are told apart by the new one.
\<close>

lemma send48_bytes_from_buffer:
  "in_i32 fl \<Longrightarrow> send48_bytes api h buf fl z =
     bindE (send48_buffer api h buf (word_of_int fl) z) (\<lambda>(r, z). Inr (case r of None \<Rightarrow> 0 | Some n \<Rightarrow> n, z))"
proof -
  assume "in_i32 fl"
  then have "sint (word_of_int fl :: flags) = fl" by (simp add: signed_of_int signed_take_bit_int_eq_self in_i32_def)
  then show ?thesis by (simp add: send48_bytes_def send48_buffer_def throw_error_def split: prod.splits)
qed

lemma send48_msg_from_send48: "in_i32 fl \<Longrightarrow> send48_msg api h m fl z = send48_rvalue api h m fl z"
proof -
  assume "in_i32 fl"
  then have "sint (word_of_int fl :: flags) = fl" by (simp add: signed_of_int signed_take_bit_int_eq_self in_i32_def)
  then show ?thesis by (simp add: send48_msg_def send48_rvalue_def send48_def throw_error_def split: prod.splits)
qed

lemma send48_buffer_cases:
  assumes "zmq_send api h buf (sint fl) z = (nbytes, z')"
  shows "send48_buffer api h buf fl z = Inr (r, z') \<longleftrightarrow>
     (case r of Some n \<Rightarrow> nbytes = int n | None \<Rightarrow> nbytes < 0 \<and> zmq_errno api z' = EAGAIN)"
  using assms by (auto simp: send48_buffer_def throw_error_def split: option.splits)

text \<open>A message that does not fit into the buffer is reported as truncated, and only such a one.\<close>

lemma recv48_buffer_truncated:
  assumes "recv48_buffer api h n fl z = Inr (Some r, buf, z')"
  shows "rb_size r \<le> n \<and> (truncated r \<longleftrightarrow> n < rb_untruncated_size r)"
  using assms by (auto simp: recv48_buffer_def truncated_def throw_error_def split: prod.splits if_splits)

subsection \<open>Contexts\<close>

text \<open>Closing a context returns after as many interruptions as there are, and does not abort when it then succeeds.\<close>

lemma ctx_term_loop_returns:
  assumes "\<And>k. k < n \<Longrightarrow> zmq_ctx_term nw p (zs k) = (-1, zs (Suc k)) \<and> zmq_errno api (zs (Suc k)) = EINTR"
    and "zmq_ctx_term nw p (zs n) = (0, z')" and "n < fuel"
  shows "ctx_term_loop fuel api nw p (zs 0) = Inr (Some z')"
  using assms
proof (induction n arbitrary: zs fuel)
  case 0
  then obtain k where "fuel = Suc k" by (cases fuel) auto
  then show ?case using 0 by simp
next
  case (Suc n)
  then obtain k where k: "fuel = Suc k" by (cases fuel) auto
  have "ctx_term_loop k api nw p (zs (Suc 0)) = Inr (Some z')"
    using Suc.prems k by (intro Suc.IH [of "\<lambda>i. zs (Suc i)"]) auto
  then show ?case using Suc.prems(1) [of 0] k by simp
qed

text \<open>An option whose value is -1 cannot be read: the value is taken for an error.\<close>

lemma context48_get_minus_one:
  "zmq_ctx_get nw (ctx_ptr c) (ctxopt_value opt) z = (-1, z') \<Longrightarrow> context48_get api nw c opt z = Inl (ZmqError (zmq_errno api z'))"
  by (simp add: context48_get_def throw_error_def error_num_def new_error_t_def)

subsection \<open>Messages\<close>

text \<open>Equal messages have the same content, and the constructor from a string and the conversion to one are inverse.\<close>

lemma message48_eq_iff: "message48_eq api a b \<longleftrightarrow> message48_to_string api a = message48_to_string api b"
  if "message48_size api a = length (message48_data api a)" "message48_size api b = length (message48_data api b)"
  using that by (auto simp: message48_eq_def message48_to_string_def Let_def)

lemma message48_string_roundtrip:
  assumes "zmq_msg_init_size api (length str) z = (0, m, z')" and "zmq_msg_size api m = length str"
    and "zmq_msg_data api (zmq_msg_store api str m) = str" and "zmq_msg_size api (zmq_msg_store api str m) = zmq_msg_size api m"
  shows "\<exists>m'. new_message48_string api str z = Inr (m', z') \<and> message48_to_string api m' = str"
  using assms by (auto simp: new_message48_string_def new_message48_bytes_def message48_to_string_def message48_size_def message48_data_def)

text \<open>The dump of a text is the text, after a space.\<close>

lemma str_bytes_text:
  "list_all (\<lambda>b. 32 \<le> uint b \<and> uint b < 127) bs \<Longrightarrow> str_bytes True bs = map (\<lambda>b. char_of (unat b)) bs"
  by (induction bs) simp_all

lemma message48_str_text:
  assumes "list_all (\<lambda>b. 32 \<le> uint b \<and> uint b < 127) bs" "bs \<noteq> []" "length bs < 1000"
    and "message48_data api m = bs" "message48_size api m = length bs"
  shows "message48_str api m =
     ''zmq::message_t [size '' @ pad0 3 (show_nat (length bs)) @ ''] ( '' @ map (\<lambda>b. char_of (unat b)) bs @ '')''"
proof -
  obtain c cs where "bs = c # cs" using assms(2) by (cases bs) auto
  then have "str_bytes False bs = '' '' @ map (\<lambda>b. char_of (unat b)) bs" using assms(1) str_bytes_text [of cs] by simp
  then show ?thesis using assms(3-5) by (simp add: message48_str_def Let_def)
qed

end
