(* ===== verification/Zmq48_Monitor.thy ===== *)
theory Zmq48_Monitor
  imports Zmq48_Sockets Zmq_Monitor
begin

text \<open>
  The class \<open>monitor_t\<close> of \<open>src/deps/zmq.4.8.1.latest.hpp\<close>, for version 4.3 of the C library and later. As in
  \<open>Zmq_Monitor\<close>, the virtual functions do nothing and the model keeps the list of their calls.
\<close>

section \<open>The C library\<close>

text \<open>\<open>zmq_poll\<close> of one socket for input gives the events that occurred.\<close>

record 'z libmon48 =
  zmq_socket_monitor48 :: "nat \<Rightarrow> string option \<Rightarrow> int \<Rightarrow> 'z \<Rightarrow> int \<times> 'z"
  zmq_poll_in :: "nat \<Rightarrow> int \<Rightarrow> 'z \<Rightarrow> int \<times> 32 word \<times> 'z"

definition ZMQ_POLLIN :: "32 word" where
  "ZMQ_POLLIN = 1"

section \<open>The monitor\<close>

datatype event_kind48 = Basic event_kind | handshake_failed_no_detail | handshake_failed_protocol | handshake_failed_auth | handshake_succeeded

definition kind_of48 :: "int \<Rightarrow> event_kind48" where
  "kind_of48 ev =
     (if ev = 0x800 then handshake_failed_no_detail else if ev = 0x2000 then handshake_failed_protocol
      else if ev = 0x4000 then handshake_failed_auth else if ev = 0x1000 then handshake_succeeded else Basic (kind_of ev))"

datatype mon_call48 = Started48 | Event48 event_kind48 int int "byte list"

record monitor48 =
  mon_socket :: socket_ref
  mon_monitor_socket :: socket_t

definition new_monitor48 :: monitor48 where
  "new_monitor48 = \<lparr>mon_socket = null_ref, mon_monitor_socket = null_socket48\<rparr>"

text \<open>\<open>close\<close> and the destructor.\<close>

definition close_monitor48 :: "('m, 'z) libzmq \<Rightarrow> 'z libmon48 \<Rightarrow> monitor48 \<Rightarrow> 'z \<Rightarrow> (monitor48 \<times> 'z) result" where
  "close_monitor48 api mn mon z =
     (let z = if ref_is_null (mon_socket mon) then z
              else snd (zmq_socket_monitor48 mn (ref_handle (mon_socket mon)) None 0 z)
      in bindE (close_socket48 api (mon_monitor_socket mon) z) (\<lambda>(s, z). Inr (mon\<lparr>mon_monitor_socket := s\<rparr>, z)))"

definition move_monitor48 :: "monitor48 \<Rightarrow> monitor48 \<times> monitor48" where
  "move_monitor48 rhs = (rhs, new_monitor48)"

definition assign_monitor48 :: "('m, 'z) libzmq \<Rightarrow> 'z libmon48 \<Rightarrow> monitor48 \<Rightarrow> monitor48 \<Rightarrow> 'z \<Rightarrow> (monitor48 \<times> monitor48 \<times> 'z) result" where
  "assign_monitor48 api mn mon rhs z =
     bindE (close_monitor48 api mn mon z) (\<lambda>(mon, z).
       let mon = mon\<lparr>mon_socket := null_ref\<rparr>
       in Inr (\<lparr>mon_socket = mon_socket rhs, mon_monitor_socket = mon_monitor_socket rhs\<rparr>,
               \<lparr>mon_socket = mon_socket mon, mon_monitor_socket = mon_monitor_socket mon\<rparr>, z))"

definition init48 :: "('m, 'z) libzmq \<Rightarrow> 'z libmon48 \<Rightarrow> socket_t \<Rightarrow> string \<Rightarrow> int \<Rightarrow> monitor48 \<Rightarrow> 'z
    \<Rightarrow> (mon_call48 list \<times> monitor48 \<times> 'z) result" where
  "init48 api mn sock addr events mon z =
     (case zmq_socket_monitor48 mn (sock_ptr sock) (Some addr) events z of
        (rc, z) \<Rightarrow>
          if rc \<noteq> 0 then throw_error api z
          else bindE (new_socket48_ptr api (sock_ctxptr sock) ZMQ_PAIR z) (\<lambda>(s, z).
               bindE (assign_socket48 api (mon_monitor_socket mon) s z) (\<lambda>(s, _, z).
               bindE (connect48 api (sock_ptr s) addr z) (\<lambda>z.
                 Inr ([Started48], \<lparr>mon_socket = socket_ref_of sock, mon_monitor_socket = s\<rparr>, z)))))"

text \<open>A receive on the monitor's socket; \<open>None\<close> when the context was terminated.\<close>

definition recv_monitor48 :: "('m, 'z) libzmq \<Rightarrow> nat \<Rightarrow> 'm \<Rightarrow> 'z \<Rightarrow> (bool \<times> 'm \<times> 'z) result" where
  "recv_monitor48 api h m z =
     (case zmq_msg_recv api m h 0 z of
        (rc, m, z) \<Rightarrow>
          if rc = -1 \<and> zmq_errno api z = ETERM then Inr (False, m, z)
          else if rc = -1 then Inl Abort else Inr (True, m, z))"

text \<open>
  \<open>check_event\<close>: what it returns and the calls made; first the part from the event that was received on. The
  messages are destroyed when the function returns.
\<close>

definition dispatch_event :: "('m, 'z) libzmq \<Rightarrow> nat \<Rightarrow> 'm \<Rightarrow> 'z \<Rightarrow> (bool \<times> mon_call48 list \<times> 'z) result" where
  "dispatch_event api h em z =
     bindE (read_event (message48_data api em)) (\<lambda>(ev, val).
     bindE (new_message48 api z) (\<lambda>(am, z).
     bindE (recv_monitor48 api h am z) (\<lambda>(got, am, z).
       let address = message48_to_string api am
       in bindE (delete_message48 api am z) (\<lambda>z.
            Inr (if \<not> got \<or> ev = ZMQ_EVENT_MONITOR_STOPPED then (False, [], z)
                 else (True, [Event48 (kind_of48 ev) ev val address], z))))))"

definition check_event :: "('m, 'z) libzmq \<Rightarrow> 'z libmon48 \<Rightarrow> int \<Rightarrow> monitor48 \<Rightarrow> 'z \<Rightarrow> (bool \<times> mon_call48 list \<times> 'z) result" where
  "check_event api mn timeout mon z =
     (let h = sock_ptr (mon_monitor_socket mon)
      in if h = 0 then Inl Abort
         else bindE (new_message48 api z) (\<lambda>(em, z).
              case zmq_poll_in mn h timeout z of
                (rc, revents, z) \<Rightarrow>
                  if rc < 0 then throw_error api z
                  else if revents AND ZMQ_POLLIN = 0 then bindE (delete_message48 api em z) (\<lambda>z. Inr (False, [], z))
                  else bindE (recv_monitor48 api h em z) (\<lambda>(got, em, z).
                       bindE (if got then dispatch_event api h em z else Inr (False, [], z)) (\<lambda>(r, calls, z).
                       bindE (delete_message48 api em z) (\<lambda>z. Inr (r, calls, z))))))"

text \<open>
  \<open>monitor\<close> calls \<open>check_event (-1)\<close> for ever and ignores what it returns; the model has the calls of its first \<open>n\<close>
  turns.
\<close>

fun monitor48_turns :: "nat \<Rightarrow> ('m, 'z) libzmq \<Rightarrow> 'z libmon48 \<Rightarrow> monitor48 \<Rightarrow> mon_call48 list \<Rightarrow> 'z \<Rightarrow> (mon_call48 list \<times> 'z) result" where
  "monitor48_turns 0 api mn mon calls z = Inr (calls, z)"
| "monitor48_turns (Suc n) api mn mon calls z =
     bindE (check_event api mn (-1) mon z) (\<lambda>(_, new_calls, z). monitor48_turns n api mn mon (calls @ new_calls) z)"

definition monitor48_run :: "nat \<Rightarrow> ('m, 'z) libzmq \<Rightarrow> 'z libmon48 \<Rightarrow> socket_t \<Rightarrow> string \<Rightarrow> int \<Rightarrow> monitor48 \<Rightarrow> 'z
    \<Rightarrow> (mon_call48 list \<times> 'z) result" where
  "monitor48_run n api mn sock addr events mon z =
     bindE (init48 api mn sock addr events mon z) (\<lambda>(calls, mon, z). monitor48_turns n api mn mon calls z)"

definition abort48 :: "'z libmon48 \<Rightarrow> monitor48 \<Rightarrow> 'z \<Rightarrow> monitor48 \<times> 'z" where
  "abort48 mn mon z =
     (let z = if ref_is_null (mon_socket mon) then z
              else snd (zmq_socket_monitor48 mn (ref_handle (mon_socket mon)) None 0 z)
      in (mon\<lparr>mon_socket := null_ref\<rparr>, z))"

section \<open>Lemmas\<close>

text \<open>The monitor's own socket has a context exactly when it has a handle, throughout its life.\<close>

lemma init48_ok:
  assumes "init48 api mn sock addr events mon z = Inr (calls, mon', z')" and "sock_ok (mon_monitor_socket mon)"
  shows "sock_ok (mon_monitor_socket mon') \<and> sock_ptr (mon_monitor_socket mon') \<noteq> 0 \<and> mon_socket mon' = socket_ref_of sock \<and> calls = [Started48]"
proof -
  obtain z1 s z2 s' rhs' z3 where *: "new_socket48_ptr api (sock_ctxptr sock) ZMQ_PAIR z1 = Inr (s, z2)"
    "assign_socket48 api (mon_monitor_socket mon) s z2 = Inr (s', rhs', z3)"
    and m: "mon' = \<lparr>mon_socket = socket_ref_of sock, mon_monitor_socket = s'\<rparr>" "calls = [Started48]"
    using assms(1) by (auto simp: init48_def bindE_eq_Inr throw_error_def split: prod.splits if_splits)
  have "sock_ok s \<and> sock_ptr s \<noteq> 0" using new_socket48_ptr_ok [OF *(1)] by simp
  then show ?thesis using assign_socket48_ok [OF *(2) assms(2)] m by simp
qed

lemma close_monitor48_ok:
  assumes "close_monitor48 api mn mon z = Inr (mon', z')" and "sock_ok (mon_monitor_socket mon)"
  shows "mon_monitor_socket mon' = null_socket48 \<and> mon_socket mon' = mon_socket mon"
  using assms close_socket48_ok by (auto simp: close_monitor48_def bindE_eq_Inr Let_def)

text \<open>\<open>abort\<close> keeps the monitor's socket, so that events may still be read; a second one does nothing.\<close>

lemma abort48_idem:
  assumes "abort48 mn mon z = (mon', z')"
  shows "mon_monitor_socket mon' = mon_monitor_socket mon \<and> abort48 mn mon' z'' = (mon', z'')"
  using assms by (auto simp: abort48_def Let_def null_ref_def ref_is_null_def)

text \<open>Without a socket to read from the check of an event fails its assertion.\<close>

lemma check_event_uninitialised: "check_event api mn timeout new_monitor48 z = Inl Abort"
  by (simp add: check_event_def new_monitor48_def null_socket48_def)

text \<open>A check that finds nothing makes no call; each one makes at most one.\<close>

lemma dispatch_event_calls: "dispatch_event api h em z = Inr (found, calls, z') \<Longrightarrow> length calls = (if found then 1 else 0)"
  unfolding dispatch_event_def Let_def by (auto elim!: bindE_InrE split: if_splits)

lemma check_event_calls:
  assumes "check_event api mn timeout mon z = Inr (found, calls, z')"
  shows "length calls = (if found then 1 else 0)"
  using assms unfolding check_event_def Let_def throw_error_def
  by (auto elim!: bindE_InrE dest!: dispatch_event_calls split: if_splits prod.splits)

text \<open>
  The end of the monitoring does not end the loop: a turn that finds no event is followed by the next, so that \<open>monitor\<close>
  is left by an exception only. (The loop of \<open>zmq.hpp\<close> returns.)
\<close>

lemma monitor48_goes_on:
  assumes "check_event api mn (-1) mon z = Inr (False, new_calls, z')"
  shows "monitor48_turns (Suc n) api mn mon calls z = monitor48_turns n api mn mon calls z'"
  using assms check_event_calls [OF assms] by simp

end
