(* ===== verification/Zmq48_Draft.thy ===== *)
theory Zmq48_Draft
  imports Zmq48_Sockets
begin

text \<open>
  What \<open>src/deps/zmq.4.8.1.latest.hpp\<close> adds when the draft interface of the C library is built: routing ids and groups
  of messages, groups of sockets, and the class \<open>poller_t\<close>, for version 4.3.3 of the C library and later.
\<close>

section \<open>The C library\<close>

record ('m, 'z) libdraft =
  zmq_msg_routing_id :: "'m \<Rightarrow> 32 word"
  zmq_msg_set_routing_id :: "'m \<Rightarrow> 32 word \<Rightarrow> 'z \<Rightarrow> int \<times> 'm \<times> 'z"
  zmq_msg_group :: "'m \<Rightarrow> string"
  zmq_msg_set_group :: "'m \<Rightarrow> string \<Rightarrow> 'z \<Rightarrow> int \<times> 'm \<times> 'z"
  zmq_join :: "nat \<Rightarrow> string \<Rightarrow> 'z \<Rightarrow> int \<times> 'z"
  zmq_leave :: "nat \<Rightarrow> string \<Rightarrow> 'z \<Rightarrow> int \<times> 'z"
  zmq_poller_new :: "'z \<Rightarrow> nat \<times> 'z"
  zmq_poller_destroy :: "nat \<Rightarrow> 'z \<Rightarrow> int \<times> 'z"
  zmq_poller_add :: "nat \<Rightarrow> nat \<Rightarrow> nat \<Rightarrow> 16 word \<Rightarrow> 'z \<Rightarrow> int \<times> 'z"
  zmq_poller_modify :: "nat \<Rightarrow> nat \<Rightarrow> 16 word \<Rightarrow> 'z \<Rightarrow> int \<times> 'z"
  zmq_poller_remove :: "nat \<Rightarrow> nat \<Rightarrow> 'z \<Rightarrow> int \<times> 'z"
  zmq_poller_wait_all :: "nat \<Rightarrow> nat \<Rightarrow> int \<Rightarrow> 'z \<Rightarrow> int \<times> (nat \<times> int \<times> nat \<times> 16 word) list \<times> 'z"
  zmq_poller_size :: "nat \<Rightarrow> 'z \<Rightarrow> int"

section \<open>Messages and groups\<close>

definition routing_id48 :: "('m, 'z) libdraft \<Rightarrow> 'm \<Rightarrow> 32 word" where
  "routing_id48 dr m = zmq_msg_routing_id dr m"

definition set_routing_id48 :: "('m, 'z) libzmq \<Rightarrow> ('m, 'z) libdraft \<Rightarrow> 'm \<Rightarrow> 32 word \<Rightarrow> 'z \<Rightarrow> ('m \<times> 'z) result" where
  "set_routing_id48 api dr m rid z =
     (case zmq_msg_set_routing_id dr m rid z of (rc, m, z) \<Rightarrow> if rc \<noteq> 0 then throw_error api z else Inr (m, z))"

definition group48 :: "('m, 'z) libdraft \<Rightarrow> 'm \<Rightarrow> string" where
  "group48 dr m = zmq_msg_group dr m"

definition set_group48 :: "('m, 'z) libzmq \<Rightarrow> ('m, 'z) libdraft \<Rightarrow> 'm \<Rightarrow> string \<Rightarrow> 'z \<Rightarrow> ('m \<times> 'z) result" where
  "set_group48 api dr m grp z =
     (case zmq_msg_set_group dr m grp z of (rc, m, z) \<Rightarrow> if rc \<noteq> 0 then throw_error api z else Inr (m, z))"

definition join48 :: "('m, 'z) libzmq \<Rightarrow> ('m, 'z) libdraft \<Rightarrow> nat \<Rightarrow> string \<Rightarrow> 'z \<Rightarrow> 'z result" where
  "join48 api dr h grp z = (case zmq_join dr h grp z of (rc, z) \<Rightarrow> if rc \<noteq> 0 then throw_error api z else Inr z)"

definition leave48 :: "('m, 'z) libzmq \<Rightarrow> ('m, 'z) libdraft \<Rightarrow> nat \<Rightarrow> string \<Rightarrow> 'z \<Rightarrow> 'z result" where
  "leave48 api dr h grp z = (case zmq_leave dr h grp z of (rc, z) \<Rightarrow> if rc \<noteq> 0 then throw_error api z else Inr z)"

section \<open>The poller\<close>

type_synonym event_flags = "16 word"

definition event_none :: event_flags where
  "event_none = 0"

definition event_pollin :: event_flags where
  "event_pollin = 1"

definition event_pollout :: event_flags where
  "event_pollout = 2"

definition event_pollerr :: event_flags where
  "event_pollerr = 4"

definition event_pollpri :: event_flags where
  "event_pollpri = 8"

definition event_or :: "event_flags \<Rightarrow> event_flags \<Rightarrow> event_flags" where
  "event_or a b = a OR b"

definition event_and :: "event_flags \<Rightarrow> event_flags \<Rightarrow> event_flags" where
  "event_and a b = a AND b"

definition event_xor :: "event_flags \<Rightarrow> event_flags \<Rightarrow> event_flags" where
  "event_xor a b = a XOR b"

definition event_not :: "event_flags \<Rightarrow> event_flags" where
  "event_not a = NOT a"

text \<open>The layout of \<open>zmq_poller_event_t\<close>.\<close>

record poller_event =
  pe_socket :: socket_ref
  pe_fd :: int
  pe_user_data :: nat
  pe_events :: event_flags

definition event_of_raw :: "nat \<times> int \<times> nat \<times> 16 word \<Rightarrow> poller_event" where
  "event_of_raw r = (case r of (h, fd, ud, ev) \<Rightarrow> \<lparr>pe_socket = \<lparr>ref_handle = h\<rparr>, pe_fd = fd, pe_user_data = ud, pe_events = ev\<rparr>)"

text \<open>\<open>poller_t\<close> owns the pointer; \<open>None\<close> after a move.\<close>

type_synonym poller_t = "nat option"

definition new_poller :: "('m, 'z) libzmq \<Rightarrow> ('m, 'z) libdraft \<Rightarrow> 'z \<Rightarrow> (poller_t \<times> 'z) result" where
  "new_poller api dr z = (case zmq_poller_new dr z of (p, z) \<Rightarrow> if p = 0 then throw_error api z else Inr (Some p, z))"

definition poller_get :: "poller_t \<Rightarrow> nat" where
  "poller_get p = (case p of None \<Rightarrow> 0 | Some q \<Rightarrow> q)"

definition add_impl :: "('m, 'z) libzmq \<Rightarrow> ('m, 'z) libdraft \<Rightarrow> poller_t \<Rightarrow> socket_ref \<Rightarrow> event_flags \<Rightarrow> nat \<Rightarrow> 'z \<Rightarrow> 'z result" where
  "add_impl api dr p socket events user_data z =
     (case zmq_poller_add dr (poller_get p) (ref_handle socket) user_data events z of
        (rc, z) \<Rightarrow> if 0 \<noteq> rc then throw_error api z else Inr z)"

definition poller_add_data :: "('m, 'z) libzmq \<Rightarrow> ('m, 'z) libdraft \<Rightarrow> poller_t \<Rightarrow> socket_ref \<Rightarrow> event_flags \<Rightarrow> nat \<Rightarrow> 'z \<Rightarrow> 'z result" where
  "poller_add_data api dr p socket events user_data z = add_impl api dr p socket events user_data z"

definition poller_add :: "('m, 'z) libzmq \<Rightarrow> ('m, 'z) libdraft \<Rightarrow> poller_t \<Rightarrow> socket_ref \<Rightarrow> event_flags \<Rightarrow> 'z \<Rightarrow> 'z result" where
  "poller_add api dr p socket events z = add_impl api dr p socket events 0 z"

definition poller_remove :: "('m, 'z) libzmq \<Rightarrow> ('m, 'z) libdraft \<Rightarrow> poller_t \<Rightarrow> socket_ref \<Rightarrow> 'z \<Rightarrow> 'z result" where
  "poller_remove api dr p socket z =
     (case zmq_poller_remove dr (poller_get p) (ref_handle socket) z of (rc, z) \<Rightarrow> if 0 \<noteq> rc then throw_error api z else Inr z)"

definition poller_modify :: "('m, 'z) libzmq \<Rightarrow> ('m, 'z) libdraft \<Rightarrow> poller_t \<Rightarrow> socket_ref \<Rightarrow> event_flags \<Rightarrow> 'z \<Rightarrow> 'z result" where
  "poller_modify api dr p socket events z =
     (case zmq_poller_modify dr (poller_get p) (ref_handle socket) events z of
        (rc, z) \<Rightarrow> if 0 \<noteq> rc then throw_error api z else Inr z)"

text \<open>The events are written over the first elements of the vector.\<close>

definition wait_all :: "('m, 'z) libzmq \<Rightarrow> ('m, 'z) libdraft \<Rightarrow> poller_t \<Rightarrow> poller_event list \<Rightarrow> int \<Rightarrow> 'z
    \<Rightarrow> (nat \<times> poller_event list \<times> 'z) result" where
  "wait_all api dr p poller_events timeout z =
     (case zmq_poller_wait_all dr (poller_get p) (length poller_events) timeout z of
        (rc, evs, z) \<Rightarrow>
          let poller_events = map event_of_raw evs @ drop (length evs) poller_events
          in if rc > 0 then Inr (nat rc, poller_events, z)
             else if zmq_errno api z = EAGAIN then Inr (0, poller_events, z) else throw_error api z)"

definition poller_size :: "('m, 'z) libdraft \<Rightarrow> poller_t \<Rightarrow> 'z \<Rightarrow> nat result" where
  "poller_size dr p z = (let rc = zmq_poller_size dr (poller_get p) z in assertE (rc \<ge> 0) (nat (max rc 0)))"

definition destroy_poller :: "('m, 'z) libdraft \<Rightarrow> poller_t \<Rightarrow> 'z \<Rightarrow> 'z result" where
  "destroy_poller dr p z =
     (case p of None \<Rightarrow> Inr z | Some q \<Rightarrow> (case zmq_poller_destroy dr q z of (rc, z) \<Rightarrow> assertE (rc = 0) z))"

section \<open>Lemmas\<close>

text \<open>
  A socket is watched with or without data: without is with \<open>NULL\<close>. The vector of events keeps its length, so that the
  number that \<open>wait_all\<close> returns can be used as an index into it.
\<close>

lemma poller_add_null: "poller_add api dr p s ev z = poller_add_data api dr p s ev 0 z"
  by (simp add: poller_add_def poller_add_data_def)

lemma wait_all_events:
  assumes "wait_all api dr p evs timeout z = Inr (n, evs', z')"
    and "\<And>q k t z rc es z'. zmq_poller_wait_all dr q k t z = (rc, es, z') \<Longrightarrow> length es \<le> k \<and> (rc > 0 \<longrightarrow> rc = int (length es))"
  shows "length evs' = length evs \<and> n \<le> length evs"
proof -
  obtain rc es z1 where w: "zmq_poller_wait_all dr (poller_get p) (length evs) timeout z = (rc, es, z1)" by (cases rule: prod_cases3)
  then have "length es \<le> length evs" "rc > 0 \<longrightarrow> rc = int (length es)" using assms(2) by blast+
  then show ?thesis using assms(1) w by (auto simp: wait_all_def Let_def throw_error_def split: if_splits)
qed

lemma event_flags_set: "event_and (event_or a b) b = b" "event_and (event_and a (event_not b)) b = event_none"
  by (rule bit_eqI; auto simp: event_and_def event_or_def event_not_def event_none_def bit_simps)+

end
