(* ===== verification/Spec2Isabelle.thy ===== *)
theory Spec2Isabelle
  imports Commit_Properties Sequencing Sync_Window Queue_Demo Spin_Lock Wire Config_Properties Exchange_Core Trader
    Trader_Properties Controller_Loop System Zmq_Channels Zmq_Monitor Socket_Server Loader_Properties Price_Limits Program_Properties Control Shutdown
    Output_Diff Printing Io_Examples Thread_Class Zmq48_Monitor Zmq48_Draft
begin

text \<open>
  A verification library for the trading system under \<open>src/src/\<close>.

  \<^bold>\<open>The system.\<close> Two traders read orders from data files and send them to two exchanges; each exchange handles
  half of the stocks. A trader sends the orders of a stock in the order of their ids, as far as the window of
  the exchange allows, unless a hook on a trade or the price limits forbid it. The exchange stores an order in the slot of
  a sliding window, a thread per stock takes the orders out, sorts them by id and matches them against the
  declaration book. Trades and acknowledgements go back to both traders, which write the trades to result files
  and move their windows. Both programs have a console that stops, resets and restarts the channels.

  \<^bold>\<open>Conventions\<close> (\<open>Prelude\<close>). An \<open>int\<close> is a HOL \<open>int\<close> with its wrap-around written out (\<open>i32\<close>), \<open>uint64_t\<close> a 64-bit word, a
  \<open>double\<close> its IEEE-754 bit pattern with the comparisons and (\<open>Floats\<close>) the arithmetic of the standard. A call
  that may fail returns \<open>error + 'a\<close>: exceptions, aborts, exits, undefined behaviour and waiting for
  oneself are errors of their own. State is a record that an operation takes and returns.

  \<^bold>\<open>The theories\<close>, with the sources they model and what they show:

  \<^item> \<open>Std_Heap\<close>: \<open>push_heap\<close> and \<open>pop_heap\<close> of the standard library as they are implemented, and that they keep
    the heap property and the elements. \<open>Types\<close>: \<open>common/type.hpp\<close>, \<open>exchange/record.hpp\<close>.
  \<^item> \<open>Decl_Book\<close>, \<open>Stock_Exchange\<close>: \<open>exchange/stock_decl_book.hpp\<close> and \<open>stock_exchange.cpp\<close>, every handler with its
    loops. \<open>Matching\<close> gives the specification \<open>fill\<close> of matching against a list of records, best first, and shows that
    all loops implement it; \<open>Order_Book\<close> is the abstract order book; \<open>Commit_Properties\<close> (C1-C9) shows that
    \<open>commitOrder\<close> refines it, conserves volume, respects price-time priority, and does for each of the six order types
    what the type promises.
  \<^item> \<open>Sequencing\<close> (C10-C12): orders are committed in the order of their ids whatever the order of arrival, from every
    state in which the engine rests; a stale id blocks the stock. The loop over ready orders ends because each turn takes one from the heap.
  \<^item> \<open>Sliding_Window\<close> (C13, C14), \<open>Block_Queue\<close>: \<open>common/sliding_window.hpp\<close> and \<open>block_queue.hpp\<close>, each method as one
    step, against a partial map and a list. \<open>Wire\<close> (C18-C20): the messages and their byte layout, read back as they
    were written; on any other bytes the receiver of orders fails.
  \<^item> \<open>Sync\<close>: mutexes and condition variables. The methods of a class are lists of statements, any number of threads
    execute them in any interleaving, with spurious wake-ups. \<open>Sync_Window\<close> (C15) and \<open>Sync_Queues\<close> (C16, C17) give
    window and queues this way, statement by statement, and show that their calls are atomic, that no
    wake-up is lost and that threads stand still only when all of them wait with reason. \<open>Queue_Demo\<close>: the
    demonstration \<open>testBlockQueue\<close>, which may hang. \<open>Spin_Lock\<close>: the atomic operations and the spin lock of \<open>utils/util.h\<close>.
  \<^item> \<open>Exchange_Core\<close> (C21): \<open>exchange/exchange.cpp\<close>, \<open>order_receiver.cpp\<close>, \<open>trade_sender.cpp\<close>. \<open>Trader\<close> and
    \<open>Trader_Properties\<close> (C22, C24): \<open>trader/trader_controller.cpp\<close>, \<open>order_sender.cpp\<close>, \<open>trade_receiver.cpp\<close> and the generators.
    \<open>Controller_Loop\<close> (C23): a whole round of the controller, from the windows of all stocks to the queues of the senders.
  \<^item> \<open>System\<close> (C25-C28): traders, exchanges and the network as a step relation; windows never collide,
    acknowledgements only grow, the exchange computes what a sequential run over the sorted orders computes, and
    the system does not get stuck while orders are left.
  \<^item> \<open>Network\<close> (C29, C32): \<open>network/msg_receiver.h\<close>, \<open>msg_sender.h\<close> and the choice of ports. \<open>Zmq\<close>: the classes of
    \<open>src/deps/zmq.hpp\<close>, with \<open>Zmq_Monitor\<close> its event monitor; \<open>Zmq_Channels\<close> (C30, C31): both channel classes on that binding, from contexts and sockets to
    the life of each message, and that they do what \<open>Network\<close> says. \<open>Socket\<close> (C33), \<open>Socket_Server\<close>: the control connection of
    \<open>network/socket_client.cpp\<close>, \<open>socket_connection.cpp\<close>, \<open>socket_server.cpp\<close>, the server with all its connections driven by events.
  \<^item> \<open>Loader\<close>, \<open>Loader_Properties\<close> (C34-C36), \<open>Float_Properties\<close>, \<open>Price_Limits\<close> (C37): \<open>common/loader.hpp\<close>, the loading of
    \<open>trader_controller.cpp\<close> and \<open>query_order.cpp\<close>: all orders of a file are found, hooks can be looked up,
    cache files replay the matrices, and the price limits enclose the closing price, since rounding is monotone.
  \<^item> \<open>Config\<close>, \<open>Config_Properties\<close> (C38): \<open>common/config.h\<close>, the two configuration files; a network file is read back.
  \<^item> \<open>Util\<close>, \<open>Monitor\<close>: \<open>utils/util.cpp\<close>, \<open>timer.hpp\<close>, \<open>common/thread.cpp\<close>, \<open>global.hpp\<close>, \<open>monitor.hpp\<close>.
    \<open>Logger\<close>: \<open>utils/logger2.hpp\<close>. \<open>Diagnostics\<close>: the codes and the exception of \<open>utils/errors.hpp\<close>, the macros of
    \<open>utils/assertion.hpp\<close>, stack traces. \<open>Printing\<close>: what is printed of orders, trades and books, and \<open>query_order.cpp\<close>; a price
    in cents is printed exactly. \<open>Output_Diff\<close>: \<open>output_diff.cpp\<close>.
  \<^item> \<open>Console\<close>, \<open>Programs\<close>, \<open>Program_Properties\<close> (C39): \<open>common/console.hpp\<close>, \<open>exchange.cpp\<close>, \<open>trader.cpp\<close>; a session keeps a
    well-typed configuration, and the channels of the process have the ports of its network tables. \<open>Control\<close> (C40): console and sender thread interleaved; stop, reset,
    restart is safe, a reset alone is not. \<open>Shutdown\<close>: signals, and the destructor that writes the last trades. \<open>Threads\<close>: one turn of each thread, composed of the parts above.
  \<^item> \<open>Zhelpers\<close>: \<open>src/deps/zhelpers.hpp\<close>; a string is received as it was sent, the dump prints every part of a message,
    and the random identities have nine characters except for the largest random numbers.
    \<open>Zmq48_Buffers\<close>, \<open>Zmq48\<close>, \<open>Zmq48_Sockets\<close>, \<open>Zmq48_Monitor\<close>, \<open>Zmq48_Draft\<close>: \<open>src/deps/zmq.4.8.1.latest.hpp\<close>, the later
    version of the binding: its buffers stay within their memory, a socket object is null or open, options and strings
    are read back, and the calls of the channels do the same as with \<open>zmq.hpp\<close>.
  \<^item> \<open>Io_Examples\<close>: the programs of \<open>src/io_example/cpp\<close> and \<open>src/test\<close>; the trades one of them writes are those the other
    prints. \<open>Thread_Class\<close>: the class of \<open>common/thread.h\<close>, and the values of \<open>common/macros.h\<close>.

  \<^bold>\<open>Interfaces.\<close> Locales state what one part relies on in another: the sides of the book for the matching loops
  (\<open>matching_side\<close>), the queue for its users (\<open>fifo\<close>), a program for its console (\<open>console_program\<close>, for exchange and trader), a class whose methods run under a mutex (\<open>monitor_object\<close>) and a queue
  among them (\<open>synchronised_queue\<close>); each is interpreted on the definitions of the code.

  \<^bold>\<open>Code outside the sources\<close> is an argument: the HDF5 library (a function from file, dataset, count and
  offset to a block), the C library of ZeroMQ (a record of its functions;
  in \<open>Network\<close> the messages waiting and the answer to each call), \<open>boost::program_options\<close>
  (parser and printer), the operating system (files, sockets, threads, clocks).

  \<^bold>\<open>Fuel.\<close> Only loops that wait for the network have fuel (\<open>recv\<close>, \<open>send_until\<close>, \<open>broadcast\<close>, \<open>monitor_loop\<close>, \<open>monitor48_turns\<close>,
  \<open>s_dump_loop\<close>, \<open>ctx_term_loop\<close>, the retries of the socket client); \<open>broadcast_once\<close> shows that enough fuel ends them when the
  sockets accept sooner or later, \<open>s_dump_loop_parts\<close> that a dump needs one turn for each part, and
  \<open>ctx_term_loop_returns\<close> that closing a context ends once the library is no longer interrupted. All other
  loops are total functions with a termination proof.

  \<^bold>\<open>Not modelled.\<close> The Python example and skeleton; attributes, switches and token-pasting macros of the compiler;
  the branches for Windows; the timed operations of window and queue, which do not compile when they are
  used; \<open>boost::asio\<close> beneath the socket server, whose events are an argument.
\<close>

end
